(* ===== verification/WT_Prelude.thy ===== *)
theory WT_Prelude
  imports Main "HOL-Library.Word" "HOL-Library.List_Lexorder"
begin

unbundle bit_operations_syntax

text \<open>
  Shared vocabulary of the development.

  \<^item> The machine integers of the Rust sources as words of their width, and the checked and
    saturating operations of the standard library that the sources call on them.
  \<^item> Little- and big-endian byte encodings (\<^verbatim>\<open>to_le_bytes\<close>, \<^verbatim>\<open>from_le_bytes\<close>,
    \<^verbatim>\<open>to_be_bytes\<close>) with their round trips.
  \<^item> The ordered map \<^verbatim>\<open>BTreeMap\<close> as a strictly sorted association list, so that the iteration
    order the sources rely on is part of the model; a contract locale for keyed stores that
    it and the function model of \<^verbatim>\<open>HashMap\<close> both satisfy.
  \<^item> A contract locale for byte codecs, with the law for counted sequences that the snapshot
    and cache formats use.
  \<^item> Growable byte vectors with their capacity, as the storage accounting reads it.
\<close>

named_theorems codec_simps \<open>round trips of the byte encodings\<close>
named_theorems width_simps \<open>lengths of the byte encodings\<close>
named_theorems word_nat \<open>word comparisons and checked arithmetic read over the naturals\<close>

section \<open>Machine integers\<close>

type_synonym u8 = "8 word"
type_synonym u16 = "16 word"
type_synonym u32 = "32 word"
type_synonym u64 = "64 word"
type_synonym bytes = "u8 list"

abbreviation u64_max :: nat where
  "u64_max \<equiv> 2 ^ 64 - 1"

definition checked_add :: "'a::len word \<Rightarrow> 'a word \<Rightarrow> 'a word option" where
  "checked_add a b = (if unat a + unat b < 2 ^ LENGTH('a) then Some (a + b) else None)"

definition saturating_add :: "'a::len word \<Rightarrow> 'a word \<Rightarrow> 'a word" where
  "saturating_add a b = (if unat a + unat b < 2 ^ LENGTH('a) then a + b else -1)"

definition saturating_sub :: "'a::len word \<Rightarrow> 'a word \<Rightarrow> 'a word" where
  "saturating_sub a b = (if b \<le> a then a - b else 0)"

definition saturating_mul :: "'a::len word \<Rightarrow> 'a word \<Rightarrow> 'a word" where
  "saturating_mul a b = (if unat a * unat b < 2 ^ LENGTH('a) then a * b else - 1)"

definition div_ceil :: "'a::len word \<Rightarrow> 'a word \<Rightarrow> 'a word" where
  "div_ceil a b = (if 0 < a mod b then a div b + 1 else a div b)"

text \<open>A Rust expression that may panic.\<close>

datatype 'a run = Panic | Ret (ret_val: 'a)

lemma checked_add_Some [word_nat]:
  "checked_add a b = Some c \<longleftrightarrow> unat c = unat a + unat b"
proof
  assume "checked_add a b = Some c"
  then show "unat c = unat a + unat b"
    by (auto simp: checked_add_def unat_word_ariths split: if_splits)
next
  assume h: "unat c = unat a + unat b"
  have lt: "unat a + unat b < 2 ^ LENGTH('a)"
    using h unsigned_less [of c, where ?'a = nat] by simp
  have "c = a + b"
    by (rule word_unat_eq_iff [THEN iffD2]) (simp add: h unat_word_ariths lt)
  then show "checked_add a b = Some c"
    using lt by (simp add: checked_add_def)
qed

lemma checked_add_None [word_nat]:
  "checked_add (a::'a::len word) b = None \<longleftrightarrow> 2 ^ LENGTH('a) \<le> unat a + unat b"
  by (auto simp: checked_add_def)

lemma unat_minus_one_eq_mask: "unat (-1 :: 'a::len word) = mask LENGTH('a)"
  by (simp add: unsigned_minus_1_eq_mask)

lemma unat_saturating_add [word_nat]:
  "unat (saturating_add (a::'a::len word) b) = min (unat a + unat b) (2 ^ LENGTH('a) - 1)"
  by (auto simp: saturating_add_def unat_word_ariths unat_minus_one_eq_mask mask_eq_exp_minus_1 min_def)

lemma unat_saturating_sub [word_nat]:
  "unat (saturating_sub a b) = unat a - unat b"
  by (auto simp: saturating_sub_def unat_sub word_le_nat_alt)

lemma unat_max_word [word_nat]: "unat (max a b) = max (unat a) (unat (b::'a::len word))"
  by (simp add: max_def word_le_nat_alt)

lemma unat_min_word [word_nat]: "unat (min a b) = min (unat a) (unat (b::'a::len word))"
  by (simp add: min_def word_le_nat_alt)

lemma unat_plus_exact:
  "unat a + unat b < 2 ^ LENGTH('a) \<Longrightarrow> unat ((a::'a::len word) + b) = unat a + unat b"
  by (simp add: unat_word_ariths)

lemma unat_minus_exact: "b \<le> a \<Longrightarrow> unat ((a::'a::len word) - b) = unat a - unat b"
  by (simp add: unat_sub)

section \<open>Byte encodings\<close>

text \<open>
  \<open>nat_to_le n k\<close> is the \<open>n\<close> low bytes of \<open>k\<close>, least significant first; \<open>le_to_nat\<close> reads
  such a run back. The fixed-width encodings of the sources are instances.
\<close>

primrec nat_to_le :: "nat \<Rightarrow> nat \<Rightarrow> bytes" where
  "nat_to_le 0 k = []"
| "nat_to_le (Suc n) k = of_nat (k mod 256) # nat_to_le n (k div 256)"

primrec le_to_nat :: "bytes \<Rightarrow> nat" where
  "le_to_nat [] = 0"
| "le_to_nat (b # bs) = unat b + 256 * le_to_nat bs"

definition u16_to_le :: "u16 \<Rightarrow> bytes" where "u16_to_le w = nat_to_le 2 (unat w)"
definition u32_to_le :: "u32 \<Rightarrow> bytes" where "u32_to_le w = nat_to_le 4 (unat w)"
definition u64_to_le :: "u64 \<Rightarrow> bytes" where "u64_to_le w = nat_to_le 8 (unat w)"
definition u16_of_le :: "bytes \<Rightarrow> u16" where "u16_of_le bs = of_nat (le_to_nat bs)"
definition u32_of_le :: "bytes \<Rightarrow> u32" where "u32_of_le bs = of_nat (le_to_nat bs)"
definition u64_of_le :: "bytes \<Rightarrow> u64" where "u64_of_le bs = of_nat (le_to_nat bs)"
definition u16_to_be :: "u16 \<Rightarrow> bytes" where "u16_to_be w = rev (u16_to_le w)"
definition u32_to_be :: "u32 \<Rightarrow> bytes" where "u32_to_be w = rev (u32_to_le w)"
definition u64_to_be :: "u64 \<Rightarrow> bytes" where "u64_to_be w = rev (u64_to_le w)"
definition u16_of_be :: "bytes \<Rightarrow> u16" where "u16_of_be bs = u16_of_le (rev bs)"
definition u32_of_be :: "bytes \<Rightarrow> u32" where "u32_of_be bs = u32_of_le (rev bs)"
definition u64_of_be :: "bytes \<Rightarrow> u64" where "u64_of_be bs = u64_of_le (rev bs)"

lemma length_nat_to_le [simp, width_simps]: "length (nat_to_le n k) = n"
  by (induction n arbitrary: k) simp_all

lemma le_to_nat_to_le: "le_to_nat (nat_to_le n k) = k mod 256 ^ n"
proof (induction n arbitrary: k)
  case 0
  then show ?case by simp
next
  case (Suc n)
  have u: "unat (of_nat (k mod 256) :: u8) = k mod 256"
    by (simp add: unsigned_of_nat take_bit_eq_mod)
  show ?case
    by (simp add: u Suc.IH mod_mult2_eq)
qed

lemma le_to_nat_less: "le_to_nat bs < 256 ^ length bs"
proof (induction bs)
  case Nil
  then show ?case by simp
next
  case (Cons b bs)
  have "unat b < 256"
    using unsigned_less [of b, where ?'a = nat] by simp
  then have "unat b + 256 * le_to_nat bs < 256 * Suc (le_to_nat bs)"
    by simp
  also have "\<dots> \<le> 256 * 256 ^ length bs"
    using Cons.IH by (intro mult_le_mono2) simp
  finally show ?case by simp
qed

lemma nat_to_le_to_nat: "nat_to_le (length bs) (le_to_nat bs) = bs"
proof (induction bs)
  case Nil
  then show ?case by simp
next
  case (Cons b bs)
  have b: "unat b < 256"
    using unsigned_less [of b, where ?'a = nat] by simp
  have "(unat b + 256 * le_to_nat bs) mod 256 = unat b"
    and "(unat b + 256 * le_to_nat bs) div 256 = le_to_nat bs"
    using b by simp_all
  with Cons.IH show ?case by simp
qed

lemma length_u16_to_le [simp, width_simps]: "length (u16_to_le w) = 2"
  and length_u32_to_le [simp, width_simps]: "length (u32_to_le w') = 4"
  and length_u64_to_le [simp, width_simps]: "length (u64_to_le w'') = 8"
  by (simp_all add: u16_to_le_def u32_to_le_def u64_to_le_def)

lemma length_u16_to_be [simp, width_simps]: "length (u16_to_be w) = 2"
  and length_u32_to_be [simp, width_simps]: "length (u32_to_be w') = 4"
  and length_u64_to_be [simp, width_simps]: "length (u64_to_be w'') = 8"
  by (simp_all add: u16_to_be_def u32_to_be_def u64_to_be_def)

lemma of_nat_unat_mod:
  "n * 8 = LENGTH('a) \<Longrightarrow> (of_nat (unat (w::'a::len word) mod 256 ^ n) :: 'a word) = w"
proof -
  assume n: "n * 8 = LENGTH('a)"
  have "(256::nat) ^ n = 2 ^ (8 * n)"
    by (simp add: power_mult)
  also have "\<dots> = 2 ^ LENGTH('a)"
    by (simp add: n [symmetric] mult.commute)
  finally have "unat w mod 256 ^ n = unat w"
    using unsigned_less [of w, where ?'a = nat] by simp
  then show ?thesis by simp
qed

lemma u16_of_to_le [simp, codec_simps]: "u16_of_le (u16_to_le w) = w"
  using of_nat_unat_mod [of 2 w] by (simp add: u16_of_le_def u16_to_le_def le_to_nat_to_le)

lemma u32_of_to_le [simp, codec_simps]: "u32_of_le (u32_to_le w) = w"
  using of_nat_unat_mod [of 4 w] by (simp add: u32_of_le_def u32_to_le_def le_to_nat_to_le)

lemma u64_of_to_le [simp, codec_simps]: "u64_of_le (u64_to_le w) = w"
  using of_nat_unat_mod [of 8 w] by (simp add: u64_of_le_def u64_to_le_def le_to_nat_to_le)

lemma u16_of_to_be [simp, codec_simps]: "u16_of_be (u16_to_be w) = w"
  and u32_of_to_be [simp, codec_simps]: "u32_of_be (u32_to_be w') = w'"
  and u64_of_to_be [simp, codec_simps]: "u64_of_be (u64_to_be w'') = w''"
  by (simp_all add: u16_of_be_def u16_to_be_def u32_of_be_def u32_to_be_def u64_of_be_def u64_to_be_def)

text \<open>The encodings computed on words, for evaluation.\<close>

primrec word_to_le :: "nat \<Rightarrow> 'a::len word \<Rightarrow> bytes" where
  "word_to_le 0 w = []"
| "word_to_le (Suc n) w = ucast w # word_to_le n (drop_bit 8 w)"

primrec word_of_le :: "bytes \<Rightarrow> 'a::len word" where
  "word_of_le [] = 0"
| "word_of_le (b # bs) = ucast b + 256 * word_of_le bs"

lemma nat_to_le_word: "nat_to_le n (unat w) = word_to_le n w"
proof (induction n arbitrary: w)
  case 0
  then show ?case by simp
next
  case (Suc n)
  have "unat w div 256 = unat (drop_bit 8 w)"
    by (simp only: unat_drop_bit_eq) (simp add: drop_bit_eq_div)
  moreover have "(of_nat (unat w mod 256) :: u8) = ucast w"
    by (simp add: word_unat_eq_iff unsigned_of_nat unsigned_ucast_eq take_bit_eq_mod)
  ultimately show ?case
    using Suc.IH by simp
qed

lemma of_nat_le_to_nat: "of_nat (le_to_nat bs) = word_of_le bs"
  by (induction bs) simp_all

lemma word_le_code [code]:
  "u16_to_le w = word_to_le 2 w" "u32_to_le w' = word_to_le 4 w'" "u64_to_le w'' = word_to_le 8 w''"
  "u16_of_le bs = word_of_le bs" "u32_of_le bs = word_of_le bs" "u64_of_le bs = word_of_le bs"
  by (simp_all only: u16_to_le_def u32_to_le_def u64_to_le_def u16_of_le_def u32_of_le_def
      u64_of_le_def nat_to_le_word of_nat_le_to_nat)

section \<open>Text and slices\<close>

text \<open>Source literals are written as strings and read as bytes; \<open>split_on\<close> is
  \<^verbatim>\<open>slice.split(|b| b == sep)\<close>, \<open>rposition\<close> the iterator method of that name.\<close>

definition str :: "string \<Rightarrow> bytes" where
  "str s = map of_char s"

fun split_on :: "'a \<Rightarrow> 'a list \<Rightarrow> 'a list list" where
  "split_on sep [] = [[]]"
| "split_on sep (x # xs) =
     (if x = sep then [] # split_on sep xs
      else (case split_on sep xs of [] \<Rightarrow> [[x]] | w # ws \<Rightarrow> (x # w) # ws))"

primrec position :: "('a \<Rightarrow> bool) \<Rightarrow> 'a list \<Rightarrow> nat option" where
  "position P [] = None"
| "position P (x # xs) = (if P x then Some 0 else map_option Suc (position P xs))"

definition rposition :: "('a \<Rightarrow> bool) \<Rightarrow> 'a list \<Rightarrow> nat option" where
  "rposition P xs = map_option (\<lambda>i. length xs - 1 - i) (position P (rev xs))"

lemma split_on_ne [simp]: "split_on sep xs \<noteq> []"
  by (cases xs) (auto split: list.splits)

lemma split_on_sep: "w \<in> set (split_on sep xs) \<Longrightarrow> sep \<notin> set w"
  by (induction sep xs arbitrary: w rule: split_on.induct) (auto split: if_splits list.splits)

lemma split_on_plain: "sep \<notin> set xs \<Longrightarrow> split_on sep xs = [xs]"
  by (induction xs) auto

lemma split_on_append: "sep \<notin> set w \<Longrightarrow> split_on sep (w @ sep # xs) = w # split_on sep xs"
  by (induction w) auto

lemma split_on_snoc: "sep \<notin> set w \<Longrightarrow> split_on sep (xs @ sep # w) = split_on sep xs @ [w]"
  by (induction xs) (auto simp: split_on_plain split: list.splits)

fun join :: "'a \<Rightarrow> 'a list list \<Rightarrow> 'a list" where
  "join sep [] = []"
| "join sep [w] = w"
| "join sep (w # v # ws) = w @ sep # join sep (v # ws)"

lemma join_Cons: "ws \<noteq> [] \<Longrightarrow> join sep (w # ws) = w @ sep # join sep ws"
  by (cases ws) simp_all

lemma join_split_on [simp]: "join sep (split_on sep xs) = xs"
proof (induction xs)
  case (Cons x xs)
  obtain w ws where split: "split_on sep xs = w # ws" by (cases "split_on sep xs") auto
  then have "join sep ((x # w) # ws) = x # join sep (w # ws)" by (cases ws) simp_all
  then show ?case using Cons split by (simp add: join_Cons)
qed simp

lemma position_None: "position P xs = None \<longleftrightarrow> (\<forall>x \<in> set xs. \<not> P x)"
  by (induction xs) auto

lemma position_append: "\<forall>x \<in> set xs. \<not> P x \<Longrightarrow> P y \<Longrightarrow> position P (xs @ y # ys) = Some (length xs)"
  by (induction xs) auto

lemma rposition_snoc: "\<forall>x \<in> set w. \<not> P x \<Longrightarrow> P y \<Longrightarrow> rposition P (xs @ y # w) = Some (length xs)"
  using position_append [of "rev w" P y "rev xs"] by (simp add: rposition_def)

lemma position_less: "position P xs = Some i \<Longrightarrow> i < length xs \<and> P (xs ! i) \<and> (\<forall>j < i. \<not> P (xs ! j))"
proof (induction xs arbitrary: i)
  case (Cons x xs)
  then show ?case by (cases i) (auto split: if_splits simp: less_Suc_eq_0_disj)
qed simp

section \<open>Writing into a buffer\<close>

text \<open>\<open>put_at off bs buf\<close> is \<^verbatim>\<open>buf[off..off + bs.len()].copy_from_slice(bs)\<close>.\<close>

definition put_at :: "nat \<Rightarrow> 'a list \<Rightarrow> 'a list \<Rightarrow> 'a list" where
  "put_at off bs buf = take off buf @ bs @ drop (off + length bs) buf"

lemma length_put_at [simp]:
  "off + length bs \<le> length buf \<Longrightarrow> length (put_at off bs buf) = length buf"
  by (simp add: put_at_def)

lemma slice_put_at_same:
  "length bs = n \<Longrightarrow> off + n \<le> length buf \<Longrightarrow> take n (drop off (put_at off bs buf)) = bs"
  by (simp add: put_at_def)

lemma put_at_fill:
  "length a = off \<Longrightarrow> length bs \<le> n \<Longrightarrow>
     put_at off bs (a @ replicate n x) = (a @ bs) @ replicate (n - length bs) x"
  by (simp add: put_at_def)

lemma nth_put_at:
  assumes "off + length bs \<le> length buf" and "i < length buf"
  shows "put_at off bs buf ! i =
    (if off \<le> i \<and> i < off + length bs then bs ! (i - off) else buf ! i)"
  using assms by (auto simp: put_at_def nth_append)

lemma slice_put_at_other:
  assumes "off' + length bs \<le> length buf" and "off + n \<le> off' \<or> off' + length bs \<le> off"
  shows "take n (drop off (put_at off' bs buf)) = take n (drop off buf)"
proof (rule nth_equalityI)
  show "length (take n (drop off (put_at off' bs buf))) = length (take n (drop off buf))"
    using assms by simp
  show "take n (drop off (put_at off' bs buf)) ! i = take n (drop off buf) ! i"
    if "i < length (take n (drop off (put_at off' bs buf)))" for i
    using that assms by (cases "off \<le> length buf") (auto simp: nth_put_at)
qed

section \<open>Readers over a byte slice\<close>

text \<open>
  A reader consumes a prefix of its input or fails. \<open>rd_take\<close> is the one primitive the snapshot
  reader and the cache cursor share: it refuses to read past the end.
\<close>

type_synonym ('e, 'a) decoder = "bytes \<Rightarrow> 'e + ('a \<times> bytes)"

definition rd_take :: "'e \<Rightarrow> nat \<Rightarrow> ('e, bytes) decoder" where
  "rd_take err n bs = (if length bs < n then Inl err else Inr (take n bs, drop n bs))"

definition rd_map :: "('a \<Rightarrow> 'b) \<Rightarrow> 'e + ('a \<times> bytes) \<Rightarrow> 'e + ('b \<times> bytes)" where
  "rd_map f r = (case r of Inl e \<Rightarrow> Inl e | Inr (x, rest) \<Rightarrow> Inr (f x, rest))"

definition rd_u8 :: "'e \<Rightarrow> ('e, u8) decoder" where
  "rd_u8 err bs = rd_map hd (rd_take err 1 bs)"

definition rd_u16 :: "'e \<Rightarrow> ('e, u16) decoder" where
  "rd_u16 err bs = rd_map u16_of_le (rd_take err 2 bs)"

definition rd_u32 :: "'e \<Rightarrow> ('e, u32) decoder" where
  "rd_u32 err bs = rd_map u32_of_le (rd_take err 4 bs)"

definition rd_u64 :: "'e \<Rightarrow> ('e, u64) decoder" where
  "rd_u64 err bs = rd_map u64_of_le (rd_take err 8 bs)"

definition rd_bind :: "'e + ('a \<times> bytes) \<Rightarrow> ('a \<Rightarrow> ('e, 'b) decoder) \<Rightarrow> 'e + ('b \<times> bytes)" where
  "rd_bind r f = (case r of Inl e \<Rightarrow> Inl e | Inr (x, rest) \<Rightarrow> f x rest)"

text \<open>The loop \<^verbatim>\<open>for _ in 0..n\<close> around one reader.\<close>

primrec decode_n :: "('e, 'a) decoder \<Rightarrow> nat \<Rightarrow> ('e, 'a list) decoder" where
  "decode_n dec 0 bs = Inr ([], bs)"
| "decode_n dec (Suc n) bs =
     rd_bind (dec bs) (\<lambda>x rest. rd_map ((#) x) (decode_n dec n rest))"

lemma rd_take_append [simp, codec_simps]: "length xs = n \<Longrightarrow> rd_take err n (xs @ r) = Inr (xs, r)"
  by (simp add: rd_take_def)

lemma rd_map_Inr [simp]: "rd_map f (Inr (x, r)) = Inr (f x, r)"
  and rd_map_Inl [simp]: "rd_map f (Inl e) = Inl e"
  by (simp_all add: rd_map_def)

lemma rd_bind_Inr [simp]: "rd_bind (Inr (x, r)) f = f x r"
  and rd_bind_Inl [simp]: "rd_bind (Inl e) f = Inl e"
  by (simp_all add: rd_bind_def)

lemma rd_u8_Cons [simp, codec_simps]: "rd_u8 err (b # r) = Inr (b, r)"
  by (simp add: rd_u8_def rd_take_def)

lemma rd_u16_append [simp, codec_simps]: "rd_u16 err (u16_to_le w @ r) = Inr (w, r)"
  by (simp add: rd_u16_def)

lemma rd_u32_append [simp, codec_simps]: "rd_u32 err (u32_to_le w @ r) = Inr (w, r)"
  by (simp add: rd_u32_def)

lemma rd_u64_append [simp, codec_simps]: "rd_u64 err (u64_to_le w @ r) = Inr (w, r)"
  by (simp add: rd_u64_def)

lemma rd_bind_eq_Inr:
  "rd_bind r f = Inr y \<longleftrightarrow> (\<exists>x rest. r = Inr (x, rest) \<and> f x rest = Inr y)"
  by (auto simp: rd_bind_def split: sum.splits prod.splits)

lemma rd_map_eq_Inr:
  "rd_map f r = Inr (y, rest) \<longleftrightarrow> (\<exists>x. r = Inr (x, rest) \<and> y = f x)"
  by (auto simp: rd_map_def split: sum.splits prod.splits)

lemma rd_take_eq_Inr:
  "rd_take err n bs = Inr (xs, rest) \<longleftrightarrow> length xs = n \<and> bs = xs @ rest"
  by (auto simp: rd_take_def)

lemma decode_n_length: "decode_n dec n bs = Inr (xs, rest) \<Longrightarrow> length xs = n"
  by (induction n arbitrary: bs xs rest) (auto simp: rd_bind_eq_Inr rd_map_eq_Inr)

lemma decode_n_all:
  assumes step: "\<And>b x r. dec b = Inr (x, r) \<Longrightarrow> P x"
  shows "decode_n dec n bs = Inr (xs, rest) \<Longrightarrow> x \<in> set xs \<Longrightarrow> P x"
proof (induction n arbitrary: bs xs rest)
  case 0
  then show ?case by simp
next
  case (Suc n)
  then show ?case by (auto simp: rd_bind_eq_Inr rd_map_eq_Inr dest: step)
qed

text \<open>
  The contract of a wire format: decoding an encoded value followed by anything gives back
  the value and leaves what followed. A counted run of values then decodes as a whole.
\<close>

locale wire_codec =
  fixes enc :: "'a \<Rightarrow> bytes"
    and dec :: "bytes \<Rightarrow> 'e + ('a \<times> bytes)"
    and valid :: "'a \<Rightarrow> bool"
  assumes dec_enc: "valid x \<Longrightarrow> dec (enc x @ rest) = Inr (x, rest)"
begin

lemma decode_run:
  "(\<And>x. x \<in> set xs \<Longrightarrow> valid x) \<Longrightarrow>
     decode_n dec (length xs) (concat (map enc xs) @ rest) = Inr (xs, rest)"
  by (induction xs) (simp_all add: dec_enc)

lemma enc_prefix_free:
  assumes "valid x" and "valid y" and "enc x @ r = enc y @ s"
  shows "x = y \<and> r = s"
proof -
  have "Inr (x, r) = dec (enc x @ r)"
    using dec_enc [OF assms(1)] by (rule sym)
  also have "\<dots> = dec (enc y @ s)"
    by (rule arg_cong [OF assms(3)])
  also have "\<dots> = Inr (y, s)"
    using assms(2) by (rule dec_enc)
  finally show ?thesis by blast
qed

end

section \<open>Results\<close>

text \<open>\<^verbatim>\<open>Result\<close> is a sum with the error on the left; \<open>result_bind\<close> is the \<^verbatim>\<open>?\<close> operator,
  \<open>ensure\<close> an early return on a failed condition, \<open>ok_or\<close> the method of that name and
  \<open>result_map\<close> a collect over fallible items.\<close>

definition result_bind :: "'e + 'a \<Rightarrow> ('a \<Rightarrow> 'e + 'b) \<Rightarrow> 'e + 'b" where
  "result_bind r f = (case r of Inl e \<Rightarrow> Inl e | Inr x \<Rightarrow> f x)"

definition ensure :: "bool \<Rightarrow> 'e \<Rightarrow> 'e + unit" where
  "ensure ok e = (if ok then Inr () else Inl e)"

definition ok_or :: "'e \<Rightarrow> 'a option \<Rightarrow> 'e + 'a" where
  "ok_or e r = (case r of None \<Rightarrow> Inl e | Some x \<Rightarrow> Inr x)"

definition map_err :: "('e \<Rightarrow> 'f) \<Rightarrow> 'e + 'a \<Rightarrow> 'f + 'a" where
  "map_err f r = map_sum f id r"

primrec result_map :: "('a \<Rightarrow> 'e + 'b) \<Rightarrow> 'a list \<Rightarrow> 'e + 'b list" where
  "result_map f [] = Inr []"
| "result_map f (x # xs) = result_bind (f x) (\<lambda>y. result_bind (result_map f xs) (\<lambda>ys. Inr (y # ys)))"

lemma result_bind_simps [simp]: "result_bind (Inl e) f = Inl e" "result_bind (Inr x) f = f x"
  by (simp_all add: result_bind_def)

lemma result_bind_Inr: "result_bind r f = Inr y \<longleftrightarrow> (\<exists>x. r = Inr x \<and> f x = Inr y)"
  by (cases r) simp_all

lemma ensure_simps [simp]: "ensure ok e = Inr u \<longleftrightarrow> ok" "ensure ok e = Inl e' \<longleftrightarrow> \<not> ok \<and> e' = e"
    "ensure True e = Inr ()" "ensure False e = Inl e"
  by (auto simp: ensure_def)

lemma ok_or_simps [simp]: "ok_or e r = Inr x \<longleftrightarrow> r = Some x" "ok_or e (Some x) = Inr x" "ok_or e None = Inl e"
  by (auto simp: ok_or_def split: option.splits)

lemma map_err_simps [simp]: "map_err f r = Inr x \<longleftrightarrow> r = Inr x" "map_err f (Inr x) = Inr x" "map_err f (Inl e) = Inl (f e)"
  by (cases r; simp add: map_err_def)+

lemma result_map_Inr: "result_map f xs = Inr ys \<longleftrightarrow> list_all2 (\<lambda>x y. f x = Inr y) xs ys"
  by (induction xs arbitrary: ys) (auto simp: result_bind_Inr list_all2_Cons1)

section \<open>Keyed stores\<close>

text \<open>
  \<^verbatim>\<open>BTreeMap<K, V>\<close> is a list of entries in strictly increasing key order: lookup is
  \<open>map_of\<close>, iteration is the list itself. \<^verbatim>\<open>HashMap\<close> is a partial function; no modelled code
  depends on its iteration order.
\<close>

type_synonym ('k, 'v) btree = "('k \<times> 'v) list"

definition bt_ok :: "('k::linorder, 'v) btree \<Rightarrow> bool" where
  "bt_ok m \<longleftrightarrow> sorted_wrt (<) (map fst m)"

primrec bt_insert :: "'k::linorder \<Rightarrow> 'v \<Rightarrow> ('k, 'v) btree \<Rightarrow> ('k, 'v) btree" where
  "bt_insert k v [] = [(k, v)]"
| "bt_insert k v (e # m) =
     (if k < fst e then (k, v) # e # m
      else if k = fst e then (k, v) # m
      else e # bt_insert k v m)"

definition bt_remove :: "'k \<Rightarrow> ('k, 'v) btree \<Rightarrow> ('k, 'v) btree" where
  "bt_remove k m = filter (\<lambda>e. fst e \<noteq> k) m"

lemma bt_ok_Nil [simp]: "bt_ok []"
  by (simp add: bt_ok_def)

lemma bt_ok_Cons: "bt_ok (e # m) \<longleftrightarrow> (\<forall>e' \<in> set m. fst e < fst e') \<and> bt_ok m"
  by (auto simp: bt_ok_def)

lemma keys_bt_insert: "fst ` set (bt_insert k v m) = insert k (fst ` set m)"
  by (induction m) auto

lemma set_bt_insert: "set (bt_insert k v m) \<subseteq> insert (k, v) (set m)"
  by (induction m) auto

lemma bt_ok_insert: "bt_ok m \<Longrightarrow> bt_ok (bt_insert k v m)"
proof (induction m)
  case Nil
  then show ?case by (simp add: bt_ok_def)
next
  case (Cons e m)
  then have m: "bt_ok m" and less: "\<forall>e' \<in> set m. fst e < fst e'"
    by (auto simp: bt_ok_Cons)
  have "\<forall>e' \<in> set (bt_insert k v m). fst e < fst e'" if "fst e < k"
    using less that keys_bt_insert [of k v m] by (metis image_iff insert_iff)
  then show ?case
    using Cons.IH [OF m] Cons.prems less by (auto simp: bt_ok_Cons)
qed

lemma map_of_eq_None_less: "\<forall>e' \<in> set m. (k::'k::linorder) < fst e' \<Longrightarrow> map_of m k = None"
  by (force simp: map_of_eq_None_iff)

lemma map_of_bt_insert: "bt_ok m \<Longrightarrow> map_of (bt_insert k v m) = (map_of m)(k \<mapsto> v)"
proof (induction m)
  case Nil
  then show ?case by simp
next
  case (Cons e m)
  then show ?case
    by (cases e) (auto simp: bt_ok_Cons fun_eq_iff)
qed

lemma map_of_bt_remove: "map_of (bt_remove k m) = (map_of m)(k := None)"
  by (induction m) (auto simp: bt_remove_def fun_eq_iff)

lemma bt_ok_remove: "bt_ok m \<Longrightarrow> bt_ok (bt_remove k m)"
  by (simp add: bt_ok_def bt_remove_def sorted_wrt_map sorted_wrt_filter)

lemma bt_ok_distinct: "bt_ok m \<Longrightarrow> distinct (map fst m)"
  by (simp add: bt_ok_def strict_sorted_iff)

lemma entries_from_map:
  "distinct (map fst m) \<Longrightarrow> map (\<lambda>k. (k, the (map_of m k))) (map fst m) = m"
  by (auto simp: o_def intro!: map_idI)

lemma bt_ext:
  assumes "bt_ok m" and "bt_ok m'" and "map_of m = map_of m'"
  shows "m = m'"
proof -
  have "set (map fst m) = set (map fst m')"
    using assms(3) by (metis dom_map_of_conv_image_fst list.set_map)
  then have "map fst m = map fst m'"
    using assms(1,2) unfolding bt_ok_def by (metis strict_sorted_equal)
  then show ?thesis
    using entries_from_map [OF bt_ok_distinct [OF assms(1)]]
      entries_from_map [OF bt_ok_distinct [OF assms(2)]] assms(3)
    by simp
qed

locale keyed_store =
  fixes get :: "'m \<Rightarrow> 'k \<Rightarrow> 'v option"
    and ins :: "'k \<Rightarrow> 'v \<Rightarrow> 'm \<Rightarrow> 'm"
    and del :: "'k \<Rightarrow> 'm \<Rightarrow> 'm"
    and ok :: "'m \<Rightarrow> bool"
  assumes get_ins: "ok m \<Longrightarrow> get (ins k v m) = (get m)(k \<mapsto> v)"
    and get_del: "ok m \<Longrightarrow> get (del k m) = (get m)(k := None)"
    and ok_ins: "ok m \<Longrightarrow> ok (ins k v m)"
    and ok_del: "ok m \<Longrightarrow> ok (del k m)"
begin

lemma get_moved:
  "ok m \<Longrightarrow> get (ins k' v (del k m)) = (get m)(k := None, k' \<mapsto> v)"
  by (simp add: get_ins get_del ok_del)

lemma ran_ins_sub: "ok m \<Longrightarrow> ran (get (ins k v m)) \<subseteq> insert v (ran (get m))"
  by (auto simp: get_ins ran_def split: if_splits)

lemma ran_del_sub: "ok m \<Longrightarrow> ran (get (del k m)) \<subseteq> ran (get m)"
  by (auto simp: get_del ran_def split: if_splits)

end

interpretation bt: keyed_store map_of bt_insert bt_remove bt_ok
  by unfold_locales (simp_all add: map_of_bt_insert map_of_bt_remove bt_ok_insert bt_ok_remove)

interpretation hm: keyed_store "\<lambda>m. m" "\<lambda>k v m. m(k \<mapsto> v)" "\<lambda>k m. m(k := None)" "\<lambda>_. True"
  by unfold_locales simp_all

section \<open>Growable byte vectors\<close>

text \<open>
  \<^verbatim>\<open>Vec<u8>\<close> with its capacity, which the storage accounting charges. Exact allocations
  (\<^verbatim>\<open>to_vec\<close>, \<^verbatim>\<open>with_capacity\<close>, \<^verbatim>\<open>try_reserve_exact\<close>) take what is asked; \<^verbatim>\<open>try_reserve\<close> grows
  by the standard library's amortised rule, doubling with a floor of eight bytes. Whether the
  allocator grants a capacity is the parameter \<open>grants\<close>.
\<close>

record rvec =
  vdata :: bytes
  vcap :: nat

definition vec_ok :: "rvec \<Rightarrow> bool" where
  "vec_ok v \<longleftrightarrow> length (vdata v) \<le> vcap v"

definition vec_new :: rvec where
  "vec_new = \<lparr>vdata = [], vcap = 0\<rparr>"

definition vec_of :: "bytes \<Rightarrow> rvec" where
  "vec_of bs = \<lparr>vdata = bs, vcap = length bs\<rparr>"

definition vec_try_reserve :: "(nat \<Rightarrow> bool) \<Rightarrow> rvec \<Rightarrow> nat \<Rightarrow> rvec option" where
  "vec_try_reserve grants v n =
     (let need = length (vdata v) + n;
          cap = max 8 (max (2 * vcap v) need)
      in if need \<le> vcap v then Some v
         else if grants cap then Some (v\<lparr>vcap := cap\<rparr>) else None)"

definition vec_try_reserve_exact :: "(nat \<Rightarrow> bool) \<Rightarrow> rvec \<Rightarrow> nat \<Rightarrow> rvec option" where
  "vec_try_reserve_exact grants v n =
     (let need = length (vdata v) + n
      in if need \<le> vcap v then Some v
         else if grants need then Some (v\<lparr>vcap := need\<rparr>) else None)"

definition vec_extend :: "rvec \<Rightarrow> bytes \<Rightarrow> rvec" where
  "vec_extend v bs = v\<lparr>vdata := vdata v @ bs\<rparr>"

lemma vec_ok_new [simp]: "vec_ok vec_new"
  and vec_ok_of [simp]: "vec_ok (vec_of bs)"
  by (simp_all add: vec_ok_def vec_new_def vec_of_def)

lemma vec_reserve_extend_ok:
  "vec_ok v \<Longrightarrow> vec_try_reserve grants v (length bs) = Some w \<Longrightarrow> vec_ok (vec_extend w bs)"
  by (auto simp: vec_ok_def vec_try_reserve_def vec_extend_def Let_def split: if_splits)

lemma vec_try_reserve_data: "vec_try_reserve grants v n = Some w \<Longrightarrow> vdata w = vdata v"
  by (auto simp: vec_try_reserve_def Let_def split: if_splits)

end
