(* ===== verification/Abi.thy ===== *)
theory Abi
  imports WT_Prelude
begin

text \<open>
  The ABI constants and struct encodings of \<^verbatim>\<open>crates/linux-compat/src/abi.rs\<close> that the modelled
  components use: errno values, open flags, directory-entry types, and the two encoders the
  kernel interface writes to guest memory (\<^verbatim>\<open>Stat::encode\<close> and \<^verbatim>\<open>encode_dirent64\<close>).
\<close>

type_synonym errno = u64

section \<open>Errno values\<close>

definition EPERM :: errno where "EPERM = 1"
definition ENOENT :: errno where "ENOENT = 2"
definition ESRCH :: errno where "ESRCH = 3"
definition EINTR :: errno where "EINTR = 4"
definition EIO :: errno where "EIO = 5"
definition EBADF :: errno where "EBADF = 9"
definition ECHILD :: errno where "ECHILD = 10"
definition EAGAIN :: errno where "EAGAIN = 11"
definition ENOMEM :: errno where "ENOMEM = 12"
definition EFAULT :: errno where "EFAULT = 14"
definition EEXIST :: errno where "EEXIST = 17"
definition ENOTDIR :: errno where "ENOTDIR = 20"
definition EISDIR :: errno where "EISDIR = 21"
definition EINVAL :: errno where "EINVAL = 22"
definition EMFILE :: errno where "EMFILE = 24"
definition ENOSPC :: errno where "ENOSPC = 28"
definition EPIPE :: errno where "EPIPE = 32"
definition ENOTEMPTY :: errno where "ENOTEMPTY = 39"
definition ELOOP :: errno where "ELOOP = 40"
definition EAFNOSUPPORT :: errno where "EAFNOSUPPORT = 97"
definition ENETUNREACH :: errno where "ENETUNREACH = 101"
definition ECONNREFUSED :: errno where "ECONNREFUSED = 111"

lemmas errno_defs = EPERM_def ENOENT_def ESRCH_def EINTR_def EIO_def EBADF_def ECHILD_def
  EAGAIN_def ENOMEM_def EFAULT_def EEXIST_def ENOTDIR_def EISDIR_def EINVAL_def EMFILE_def
  ENOSPC_def EPIPE_def ENOTEMPTY_def ELOOP_def EAFNOSUPPORT_def ENETUNREACH_def ECONNREFUSED_def

text \<open>How an operation fails: with an errno value, or by a Rust panic (an index out of range, a
  failed \<^verbatim>\<open>expect\<close>).\<close>

datatype fault = Err errno | Panicked

text \<open>\<^verbatim>\<open>neg\<close>: \<open>-errno\<close> in the register-return convention.\<close>

definition neg :: "errno \<Rightarrow> u64" where
  "neg e = - e"

section \<open>Flags and modes\<close>

definition O_ACCMODE :: u64 where "O_ACCMODE = 3"
definition O_RDONLY :: u64 where "O_RDONLY = 0"
definition O_WRONLY :: u64 where "O_WRONLY = 1"
definition O_RDWR :: u64 where "O_RDWR = 2"

definition S_IFDIR :: u32 where "S_IFDIR = 0x4000"
definition S_IFCHR :: u32 where "S_IFCHR = 0x2000"
definition S_IFREG :: u32 where "S_IFREG = 0x8000"
definition S_IFLNK :: u32 where "S_IFLNK = 0xA000"

definition DT_DIR :: u8 where "DT_DIR = 4"
definition DT_REG :: u8 where "DT_REG = 8"
definition DT_LNK :: u8 where "DT_LNK = 10"
definition DT_CHR :: u8 where "DT_CHR = 2"

section \<open>struct stat\<close>

text \<open>The signed fields are carried as their 64-bit two's complement patterns.\<close>

record stat =
  st_dev :: u64
  st_ino :: u64
  st_nlink :: u64
  st_mode :: u32
  st_uid :: u32
  st_gid :: u32
  st_rdev :: u64
  st_size :: u64
  st_blksize :: u64
  st_blocks :: u64
  st_atime_sec :: u64
  st_atime_nsec :: u64
  st_mtime_sec :: u64
  st_mtime_nsec :: u64
  st_ctime_sec :: u64
  st_ctime_nsec :: u64

definition stat_encode :: "stat \<Rightarrow> bytes" where
  "stat_encode s =
     (let out = replicate 144 0;
          out = put_at 0 (u64_to_le (st_dev s)) out;
          out = put_at 8 (u64_to_le (st_ino s)) out;
          out = put_at 16 (u64_to_le (st_nlink s)) out;
          out = put_at 24 (u32_to_le (st_mode s)) out;
          out = put_at 28 (u32_to_le (st_uid s)) out;
          out = put_at 32 (u32_to_le (st_gid s)) out;
          out = put_at 40 (u64_to_le (st_rdev s)) out;
          out = put_at 48 (u64_to_le (st_size s)) out;
          out = put_at 56 (u64_to_le (st_blksize s)) out;
          out = put_at 64 (u64_to_le (st_blocks s)) out;
          out = put_at 72 (u64_to_le (st_atime_sec s)) out;
          out = put_at 80 (u64_to_le (st_atime_nsec s)) out;
          out = put_at 88 (u64_to_le (st_mtime_sec s)) out;
          out = put_at 96 (u64_to_le (st_mtime_nsec s)) out;
          out = put_at 104 (u64_to_le (st_ctime_sec s)) out;
          out = put_at 112 (u64_to_le (st_ctime_nsec s)) out
      in out)"

section \<open>linux_dirent64 records\<close>

definition dirent_reclen :: "nat \<Rightarrow> nat" where
  "dirent_reclen namelen = (19 + namelen + 1 + 7) div 8 * 8"

definition encode_dirent64 :: "u64 \<Rightarrow> u64 \<Rightarrow> u8 \<Rightarrow> bytes \<Rightarrow> nat \<Rightarrow> bytes option" where
  "encode_dirent64 ino next_off d_type name remaining =
     (let reclen = dirent_reclen (length name) in
      if reclen > remaining then None
      else Some (let rec = replicate reclen 0;
                     rec = put_at 0 (u64_to_le ino) rec;
                     rec = put_at 8 (u64_to_le next_off) rec;
                     rec = put_at 16 (u16_to_le (of_nat reclen)) rec;
                     rec = rec[18 := d_type];
                     rec = put_at 19 name rec
                 in rec))"

text \<open>
  How a reader of the guest's C library takes a record apart: inode, next offset, record
  length, type, and the name up to its first NUL.
\<close>

definition dirent_ino :: "bytes \<Rightarrow> u64" where
  "dirent_ino rec = u64_of_le (take 8 rec)"

definition dirent_off :: "bytes \<Rightarrow> u64" where
  "dirent_off rec = u64_of_le (take 8 (drop 8 rec))"

definition dirent_len :: "bytes \<Rightarrow> u16" where
  "dirent_len rec = u16_of_le (take 2 (drop 16 rec))"

definition dirent_type :: "bytes \<Rightarrow> u8" where
  "dirent_type rec = rec ! 18"

definition dirent_name :: "bytes \<Rightarrow> bytes" where
  "dirent_name rec = takeWhile (\<lambda>b. b \<noteq> 0) (drop 19 rec)"

lemma dirent_reclen_bounds:
  "19 + n + 1 \<le> dirent_reclen n" "dirent_reclen n < 19 + n + 1 + 8" "8 dvd dirent_reclen n"
  unfolding dirent_reclen_def by presburger+

lemma dirent_image:
  assumes "encode_dirent64 ino off ty name rem = Some rec"
  shows "rec = (u64_to_le ino @ u64_to_le off @ u16_to_le (of_nat (dirent_reclen (length name)))
           @ [ty] @ name) @ replicate (dirent_reclen (length name) - 19 - length name) 0"
proof -
  define n where "n = dirent_reclen (length name)"
  have len: "19 + length name + 1 \<le> n"
    unfolding n_def by (rule dirent_reclen_bounds)
  let ?a = "u64_to_le ino" and ?b = "u64_to_le off" and ?c = "u16_to_le (of_nat n)"
  have "put_at 0 ?a (replicate n 0) = ?a @ replicate (n - 8) 0"
    using put_at_fill [of "[]" 0 ?a n 0] len by simp
  moreover have "put_at 8 ?b (?a @ replicate (n - 8) 0) = (?a @ ?b) @ replicate (n - 16) 0"
    using put_at_fill [of ?a 8 ?b "n - 8" 0] len by simp
  moreover have "put_at 16 ?c ((?a @ ?b) @ replicate (n - 16) 0) = (?a @ ?b @ ?c) @ replicate (n - 18) 0"
    using put_at_fill [of "?a @ ?b" 16 ?c "n - 16" 0] len by simp
  moreover have "n - 18 = Suc (n - 19)"
    using len by simp
  then have "((?a @ ?b @ ?c) @ replicate (n - 18) 0)[18 := ty] = (?a @ ?b @ ?c @ [ty]) @ replicate (n - 19) 0"
    by (simp add: list_update_append)
  moreover have "put_at 19 name ((?a @ ?b @ ?c @ [ty]) @ replicate (n - 19) 0) =
      ((?a @ ?b @ ?c @ [ty]) @ name) @ replicate (n - 19 - length name) 0"
    using len by (intro put_at_fill) simp_all
  moreover have "rec = put_at 19 name ((put_at 16 ?c (put_at 8 ?b (put_at 0 ?a (replicate n 0))))[18 := ty])"
    using assms unfolding n_def by (simp add: encode_dirent64_def Let_def split: if_splits)
  ultimately show ?thesis
    by (simp only: n_def [symmetric] append_assoc)
qed

text \<open>A directory record that fits carries the entry exactly: the guest reads back the
  inode, the next offset, the type and the whole name, its length field is the record's length,
  which is a multiple of eight and never more than the room left; a record that does not fit is
  refused.\<close>

theorem dirent_roundtrip:
  assumes "0 \<notin> set name" and "dirent_reclen (length name) < 2 ^ 16"
  shows "case encode_dirent64 ino next_off ty name remaining of
      None \<Rightarrow> remaining < dirent_reclen (length name)
    | Some rec \<Rightarrow> dirent_ino rec = ino \<and> dirent_off rec = next_off \<and> dirent_type rec = ty
        \<and> dirent_name rec = name \<and> unat (dirent_len rec) = length rec
        \<and> 8 dvd length rec \<and> length rec \<le> remaining"
proof (cases "encode_dirent64 ino next_off ty name remaining")
  case None
  then show ?thesis by (auto simp: encode_dirent64_def Let_def split: if_splits)
next
  case (Some rec)
  let ?n = "dirent_reclen (length name)"
  have fits: "?n \<le> remaining"
    using Some by (auto simp: encode_dirent64_def Let_def split: if_splits)
  note img = dirent_image [OF Some]
  have room: "19 + length name + 1 \<le> ?n"
    by (rule dirent_reclen_bounds)
  then have "0 < ?n - 19 - length name" by simp
  then obtain k where k: "?n - 19 - length name = Suc k"
    using gr0_implies_Suc by blast
  have len: "length rec = ?n"
    using room by (simp add: img)
  have "takeWhile (\<lambda>b. b \<noteq> 0) (name @ replicate (?n - 19 - length name) 0) = name"
    unfolding k using assms(1) by (simp add: takeWhile_append takeWhile_eq_all_conv [THEN iffD2])
  then have "dirent_name rec = name"
    by (simp add: dirent_name_def img)
  moreover have "dirent_ino rec = ino" "dirent_off rec = next_off" "dirent_type rec = ty"
    by (simp_all add: dirent_ino_def dirent_off_def dirent_type_def img nth_append)
  moreover have "unat (dirent_len rec) = ?n"
    using assms(2) by (simp add: dirent_len_def img unsigned_of_nat take_bit_eq_mod)
  ultimately show ?thesis
    using Some fits len dirent_reclen_bounds(3) [of "length name"] by simp
qed

theorem dirent_roundtrip_witness:
  "(0 :: u8) \<notin> set [0x61, 0x62] \<and> dirent_reclen (length [0x61 :: u8, 0x62]) < 2 ^ 16 \<and>
   (case encode_dirent64 7 1 DT_REG [0x61, 0x62] 64 of None \<Rightarrow> 64 < dirent_reclen (length [0x61 :: u8, 0x62])
    | Some rec \<Rightarrow> dirent_ino rec = 7 \<and> dirent_off rec = 1 \<and> dirent_type rec = DT_REG
        \<and> dirent_name rec = [0x61, 0x62] \<and> unat (dirent_len rec) = length rec
        \<and> 8 dvd length rec \<and> length rec \<le> 64)"
  using dirent_roundtrip [of "[0x61, 0x62]" 64 7 1 DT_REG] by (simp add: dirent_reclen_def)

text \<open>The guest's reading of \<^verbatim>\<open>struct stat\<close>: the x86-64 field offsets.\<close>

definition stat_read :: "bytes \<Rightarrow> stat" where
  "stat_read bs =
     (let q = \<lambda>off. u64_of_le (take 8 (drop off bs)); d = \<lambda>off. u32_of_le (take 4 (drop off bs)) in
      \<lparr>st_dev = q 0, st_ino = q 8, st_nlink = q 16, st_mode = d 24, st_uid = d 28, st_gid = d 32,
       st_rdev = q 40, st_size = q 48, st_blksize = q 56, st_blocks = q 64, st_atime_sec = q 72,
       st_atime_nsec = q 80, st_mtime_sec = q 88, st_mtime_nsec = q 96, st_ctime_sec = q 104,
       st_ctime_nsec = q 112\<rparr>)"

text \<open>Writes at distinct offsets of one 144-byte image.\<close>

lemma put_144:
  assumes "length buf = 144" and "off + length bs \<le> 144"
  shows "length (put_at off bs buf) = 144"
    and "length bs = n \<Longrightarrow> take n (drop off (put_at off bs buf)) = bs"
    and "off' + n \<le> off \<or> off + length bs \<le> off' \<Longrightarrow>
      take n (drop off' (put_at off bs buf)) = take n (drop off' buf)"
  using assms by (simp_all add: slice_put_at_same slice_put_at_other)

text \<open>The 144-byte image written for \<^verbatim>\<open>stat\<close> reads back field by field at the x86-64
  offsets.\<close>

theorem stat_roundtrip: "stat_read (stat_encode s) = s \<and> length (stat_encode s) = 144"
  unfolding stat_encode_def stat_read_def Let_def
  by (simp add: put_144 del: length_put_at drop0)

end
