(* ===== verification/Digest.thy ===== *)
theory Digest
  imports WT_Prelude
begin

text \<open>
  SHA-256 and the hexadecimal digest format of \<^verbatim>\<open>crates/linux-compat/src/digest.rs\<close>.

  The running hasher keeps a 64-byte buffer of which only the first \<open>buffered\<close> bytes are
  meaningful. The abstraction \<open>hasher_view\<close> forgets the rest, \<open>absorb\<close> is the specification of
  \<^verbatim>\<open>update\<close> on that view, and \<open>sha256_spec\<close> is the padded-message definition of the digest.
\<close>

type_synonym hash = bytes \<comment> \<open>\<^verbatim>\<open>[u8; 32]\<close>\<close>

section \<open>The compression function\<close>

definition K :: "u32 list" where
  "K = [
    0x428A2F98, 0x71374491, 0xB5C0FBCF, 0xE9B5DBA5, 0x3956C25B, 0x59F111F1, 0x923F82A4, 0xAB1C5ED5,
    0xD807AA98, 0x12835B01, 0x243185BE, 0x550C7DC3, 0x72BE5D74, 0x80DEB1FE, 0x9BDC06A7, 0xC19BF174,
    0xE49B69C1, 0xEFBE4786, 0x0FC19DC6, 0x240CA1CC, 0x2DE92C6F, 0x4A7484AA, 0x5CB0A9DC, 0x76F988DA,
    0x983E5152, 0xA831C66D, 0xB00327C8, 0xBF597FC7, 0xC6E00BF3, 0xD5A79147, 0x06CA6351, 0x14292967,
    0x27B70A85, 0x2E1B2138, 0x4D2C6DFC, 0x53380D13, 0x650A7354, 0x766A0ABB, 0x81C2C92E, 0x92722C85,
    0xA2BFE8A1, 0xA81A664B, 0xC24B8B70, 0xC76C51A3, 0xD192E819, 0xD6990624, 0xF40E3585, 0x106AA070,
    0x19A4C116, 0x1E376C08, 0x2748774C, 0x34B0BCB5, 0x391C0CB3, 0x4ED8AA4A, 0x5B9CCA4F, 0x682E6FF3,
    0x748F82EE, 0x78A5636F, 0x84C87814, 0x8CC70208, 0x90BEFFFA, 0xA4506CEB, 0xBEF9A3F7, 0xC67178F2]"

definition initial_state :: "u32 list" where
  "initial_state = [0x6A09E667, 0xBB67AE85, 0x3C6EF372, 0xA54FF53A, 0x510E527F, 0x9B05688C,
     0x1F83D9AB, 0x5BE0CD19]"

definition load_block :: "bytes \<Rightarrow> u32 list" where
  "load_block block =
     map (\<lambda>i. u32_of_be [block ! (i * 4), block ! (i * 4 + 1), block ! (i * 4 + 2), block ! (i * 4 + 3)])
       [0..<16] @ replicate 48 0"

definition schedule_step :: "nat \<Rightarrow> u32 list \<Rightarrow> u32 list" where
  "schedule_step i w =
     (let s0 = word_rotr 7 (w ! (i - 15)) XOR word_rotr 18 (w ! (i - 15)) XOR drop_bit 3 (w ! (i - 15));
          s1 = word_rotr 17 (w ! (i - 2)) XOR word_rotr 19 (w ! (i - 2)) XOR drop_bit 10 (w ! (i - 2))
      in w[i := w ! (i - 16) + s0 + w ! (i - 7) + s1])"

definition schedule :: "bytes \<Rightarrow> u32 list" where
  "schedule block = fold schedule_step [16..<64] (load_block block)"

type_synonym working = "u32 \<times> u32 \<times> u32 \<times> u32 \<times> u32 \<times> u32 \<times> u32 \<times> u32"

definition compress_round :: "u32 list \<Rightarrow> nat \<Rightarrow> working \<Rightarrow> working" where
  "compress_round w i = (\<lambda>(a, b, c, d, e, f, g, h).
     (let s1 = word_rotr 6 e XOR word_rotr 11 e XOR word_rotr 25 e;
          ch = (e AND f) XOR (NOT e AND g);
          t1 = h + s1 + ch + K ! i + w ! i;
          s0 = word_rotr 2 a XOR word_rotr 13 a XOR word_rotr 22 a;
          maj = (a AND b) XOR (a AND c) XOR (b AND c);
          t2 = s0 + maj
      in (t1 + t2, a, b, c, d + t1, e, f, g)))"

definition compress :: "u32 list \<Rightarrow> bytes \<Rightarrow> u32 list" where
  "compress st block =
     (let w = schedule block;
          (a, b, c, d, e, f, g, h) =
            fold (compress_round w) [0..<64]
              (st ! 0, st ! 1, st ! 2, st ! 3, st ! 4, st ! 5, st ! 6, st ! 7)
      in map2 (+) st [a, b, c, d, e, f, g, h])"

lemma length_compress: "length st = 8 \<Longrightarrow> length (compress st block) = 8"
  by (simp add: compress_def Let_def split: prod.splits)

section \<open>Splitting a slice into blocks\<close>

text \<open>\<^verbatim>\<open>as_chunks::<64>()\<close>: the whole blocks and what is left.\<close>

function as_chunks :: "nat \<Rightarrow> 'a list \<Rightarrow> 'a list list \<times> 'a list" where
  "as_chunks n bs =
     (if n = 0 \<or> length bs < n then ([], bs)
      else case as_chunks n (drop n bs) of (blocks, rest) \<Rightarrow> (take n bs # blocks, rest))"
  by pat_completeness auto
termination
  by (relation "measure (\<lambda>(n, bs). length bs)") auto

declare as_chunks.simps [simp del]

lemma as_chunks_short: "length bs < n \<Longrightarrow> as_chunks n bs = ([], bs)"
  by (simp add: as_chunks.simps)

lemma as_chunks_step:
  "0 < n \<Longrightarrow> length x = n \<Longrightarrow>
     as_chunks n (x @ bs) = (x # fst (as_chunks n bs), snd (as_chunks n bs))"
  by (simp add: as_chunks.simps [of n "x @ bs"] split: prod.splits)

lemma as_chunks_rest: "0 < n \<Longrightarrow> length (snd (as_chunks n bs)) < n"
proof (induction n bs rule: as_chunks.induct)
  case (1 n bs)
  then show ?case
    by (cases "length bs < n") (auto simp: as_chunks.simps [of n bs] split: prod.splits)
qed

lemma as_chunks_concat: "concat (fst (as_chunks n bs)) @ snd (as_chunks n bs) = bs"
proof (induction n bs rule: as_chunks.induct)
  case (1 n bs)
  show ?case
  proof (cases "n = 0 \<or> length bs < n")
    case True
    then show ?thesis by (simp add: as_chunks.simps [of n bs])
  next
    case False
    with "1.IH" have "concat (fst (as_chunks n (drop n bs))) @ snd (as_chunks n (drop n bs)) = drop n bs"
      by simp
    with False show ?thesis
      by (auto simp: as_chunks.simps [of n bs] split: prod.splits)
  qed
qed

lemma as_chunks_width: "x \<in> set (fst (as_chunks n bs)) \<Longrightarrow> length x = n"
proof (induction n bs rule: as_chunks.induct)
  case (1 n bs)
  then show ?case
    by (cases "n = 0 \<or> length bs < n") (auto simp: as_chunks.simps [of n bs] split: prod.splits)
qed

text \<open>Splitting in two goes is splitting at once: what is left of the first joins the second.\<close>

lemma as_chunks_append:
  "0 < n \<Longrightarrow> as_chunks n (a @ b) =
     (fst (as_chunks n a) @ fst (as_chunks n (snd (as_chunks n a) @ b)),
      snd (as_chunks n (snd (as_chunks n a) @ b)))"
proof (induction n a rule: as_chunks.induct)
  case (1 n a)
  show ?case
  proof (cases "length a < n")
    case True
    then show ?thesis by (simp add: as_chunks_short)
  next
    case False
    then have a: "a = take n a @ drop n a" and len: "length (take n a) = n"
      by simp_all
    have n: "0 < n" by (rule "1.prems")
    have IH: "as_chunks n (drop n a @ b) =
        (fst (as_chunks n (drop n a)) @ fst (as_chunks n (snd (as_chunks n (drop n a)) @ b)),
         snd (as_chunks n (snd (as_chunks n (drop n a)) @ b)))"
      using "1.IH" False n by simp
    have sa: "as_chunks n a = (take n a # fst (as_chunks n (drop n a)), snd (as_chunks n (drop n a)))"
      using as_chunks_step [OF n len, of "drop n a"] by simp
    have "as_chunks n (a @ b) = as_chunks n (take n a @ (drop n a @ b))"
      by (simp only: append_assoc [symmetric] append_take_drop_id)
    also have "\<dots> = (take n a # fst (as_chunks n (drop n a @ b)), snd (as_chunks n (drop n a @ b)))"
      by (rule as_chunks_step [OF n len])
    finally show ?thesis
      by (simp only: IH sa fst_conv snd_conv append_Cons)
  qed
qed

lemma as_chunks_exact:
  assumes "0 < n" and "n dvd length bs"
  shows "snd (as_chunks n bs) = []"
proof -
  have "length bs = n * length (fst (as_chunks n bs)) + length (snd (as_chunks n bs))"
  proof -
    have "length (concat (fst (as_chunks n bs))) = n * length (fst (as_chunks n bs))"
      using as_chunks_width [of _ n bs]
      by (simp add: length_concat sum_list_triv cong: map_cong)
    then show ?thesis
      by (metis as_chunks_concat length_append)
  qed
  then have "n dvd length (snd (as_chunks n bs))"
    using assms(2) by (metis dvd_add_right_iff dvd_triv_left)
  then show ?thesis
    using as_chunks_rest [OF assms(1), of bs] nat_dvd_not_less by fastforce
qed

section \<open>The running hasher\<close>

record hasher =
  hstate :: "u32 list"
  hbuffer :: bytes
  hbuffered :: nat
  hbits :: u64

definition sha_new :: hasher where
  "sha_new = \<lparr>hstate = initial_state, hbuffer = replicate 64 0, hbuffered = 0, hbits = 0\<rparr>"

text \<open>The second half of \<^verbatim>\<open>update\<close>: whole blocks straight from the input, the rest into the buffer.\<close>

definition sha_blocks :: "hasher \<Rightarrow> bytes \<Rightarrow> hasher" where
  "sha_blocks h bs =
     (case as_chunks 64 bs of (blocks, rest) \<Rightarrow>
        h\<lparr>hstate := foldl compress (hstate h) blocks,
          hbuffer := put_at 0 rest (hbuffer h),
          hbuffered := length rest\<rparr>)"

definition sha_update :: "hasher \<Rightarrow> bytes \<Rightarrow> hasher" where
  "sha_update h bs =
     (let h = h\<lparr>hbits := hbits h + of_nat (length bs) * 8\<rparr> in
      if hbuffered h > 0 then
        let n = min (64 - hbuffered h) (length bs);
            h = h\<lparr>hbuffer := put_at (hbuffered h) (take n bs) (hbuffer h),
                  hbuffered := hbuffered h + n\<rparr>;
            bs = drop n bs
        in if hbuffered h < 64 then h
           else sha_blocks (h\<lparr>hstate := compress (hstate h) (hbuffer h), hbuffered := 0\<rparr>) bs
      else sha_blocks h bs)"

text \<open>The padding tail: a one bit, zeros, the bit count; \<^verbatim>\<open>wrapping_sub\<close> on \<^verbatim>\<open>usize\<close>.\<close>

definition pad_zeros :: "nat \<Rightarrow> nat" where
  "pad_zeros buffered = unat ((56 - of_nat (buffered + 1) :: u64) mod 64)"

definition sha_tail :: "hasher \<Rightarrow> bytes" where
  "sha_tail h =
     (let zeros = pad_zeros (hbuffered h);
          end_at = 1 + zeros;
          tail = put_at end_at (u64_to_be (hbits h)) ((replicate 72 0)[0 := 0x80])
      in take (end_at + 8) tail)"

definition sha_finish :: "hasher \<Rightarrow> hash" where
  "sha_finish h =
     (let saved = hbits h;
          h = (sha_update h (sha_tail h))\<lparr>hbits := saved\<rparr>
      in concat (map u32_to_be (hstate h)))"

definition sha256 :: "bytes \<Rightarrow> hash" where
  "sha256 bs = sha_finish (sha_update sha_new bs)"

section \<open>Specification of the hasher\<close>

definition hasher_ok :: "hasher \<Rightarrow> bool" where
  "hasher_ok h \<longleftrightarrow> length (hstate h) = 8 \<and> length (hbuffer h) = 64 \<and> hbuffered h < 64"

type_synonym view = "u32 list \<times> bytes \<times> u64"

definition hasher_view :: "hasher \<Rightarrow> view" where
  "hasher_view h = (hstate h, take (hbuffered h) (hbuffer h), hbits h)"

definition absorb :: "view \<Rightarrow> bytes \<Rightarrow> view" where
  "absorb v bs =
     (case v of (st, pending, bits) \<Rightarrow>
        (case as_chunks 64 (pending @ bs) of (blocks, rest) \<Rightarrow>
           (foldl compress st blocks, rest, bits + of_nat (length bs) * 8)))"

definition sha_pad :: "bytes \<Rightarrow> bytes" where
  "sha_pad bs = bs @ 0x80 # replicate ((119 - length bs mod 64) mod 64) 0 @ u64_to_be (of_nat (length bs) * 8)"

definition sha256_spec :: "bytes \<Rightarrow> hash" where
  "sha256_spec bs =
     concat (map u32_to_be (foldl compress initial_state (fst (as_chunks 64 (sha_pad bs)))))"

lemma hasher_ok_new: "hasher_ok sha_new"
  by (simp add: hasher_ok_def sha_new_def initial_state_def)

lemma foldl_compress_length: "length st = 8 \<Longrightarrow> length (foldl compress st blocks) = 8"
  by (induction blocks arbitrary: st) (simp_all add: length_compress)

lemma sha_blocks_spec:
  assumes "length (hstate h) = 8" and "length (hbuffer h) = 64"
  shows "hasher_ok (sha_blocks h bs)"
    and "hasher_view (sha_blocks h bs) =
      (foldl compress (hstate h) (fst (as_chunks 64 bs)), snd (as_chunks 64 bs), hbits h)"
proof -
  have "length (snd (as_chunks 64 bs)) < 64"
    by (rule as_chunks_rest) simp
  then show "hasher_ok (sha_blocks h bs)"
    using assms by (auto simp: sha_blocks_def hasher_ok_def foldl_compress_length split: prod.splits)
  show "hasher_view (sha_blocks h bs) =
      (foldl compress (hstate h) (fst (as_chunks 64 bs)), snd (as_chunks 64 bs), hbits h)"
    by (auto simp: sha_blocks_def hasher_view_def put_at_def split: prod.splits)
qed

lemma put_at_prefix:
  "n \<le> length buf \<Longrightarrow> take (n + length xs) (put_at n xs buf) = take n buf @ xs"
  by (simp add: put_at_def)

text \<open>The refinement: on a well-formed hasher, \<^verbatim>\<open>update\<close> is \<open>absorb\<close> of the view.\<close>

lemma sha_update_refines:
  assumes "hasher_ok h"
  shows "hasher_ok (sha_update h bs) \<and> hasher_view (sha_update h bs) = absorb (hasher_view h) bs"
proof (cases "hbuffered h = 0")
  case True
  let ?h = "h\<lparr>hbits := hbits h + of_nat (length bs) * 8\<rparr>"
  have "sha_update h bs = sha_blocks ?h bs"
    by (simp add: sha_update_def Let_def True)
  then show ?thesis
    using assms sha_blocks_spec [of ?h bs] True
    by (simp add: hasher_ok_def hasher_view_def absorb_def split: prod.splits)
next
  case False
  let ?n = "min (64 - hbuffered h) (length bs)"
  let ?h = "h\<lparr>hbits := hbits h + of_nat (length bs) * 8,
      hbuffer := put_at (hbuffered h) (take ?n bs) (hbuffer h), hbuffered := hbuffered h + ?n\<rparr>"
  have ok: "length (hstate h) = 8" "length (hbuffer h) = 64" "hbuffered h < 64"
    using assms by (simp_all add: hasher_ok_def)
  have pre: "take (hbuffered h + ?n) (hbuffer ?h) = take (hbuffered h) (hbuffer h) @ take ?n bs"
    using put_at_prefix [of "hbuffered h" "hbuffer h" "take ?n bs"] ok by simp
  have buflen: "length (hbuffer ?h) = 64"
    using ok by (simp add: put_at_def)
  show ?thesis
  proof (cases "hbuffered h + ?n < 64")
    case True
    then have n: "?n = length bs" by (simp add: min_def split: if_splits)
    have "sha_update h bs = ?h"
      using False True by (simp add: sha_update_def Let_def)
    then show ?thesis
      using ok buflen pre True n
      by (simp add: hasher_ok_def hasher_view_def absorb_def as_chunks_short)
  next
    case full: False
    then have n: "?n = 64 - hbuffered h" by (simp add: min_def split: if_splits)
    let ?g = "?h\<lparr>hstate := compress (hstate h) (hbuffer ?h), hbuffered := 0\<rparr>"
    have up: "sha_update h bs = sha_blocks ?g (drop ?n bs)"
      using False full by (simp add: sha_update_def Let_def)
    have buf: "hbuffer ?h = take (hbuffered h) (hbuffer h) @ take ?n bs"
      using pre buflen n ok by simp
    have split: "take (hbuffered h) (hbuffer h) @ bs = hbuffer ?h @ drop ?n bs"
      by (simp only: buf append_assoc append_take_drop_id)
    have "as_chunks 64 (take (hbuffered h) (hbuffer h) @ bs) =
        (hbuffer ?h # fst (as_chunks 64 (drop ?n bs)), snd (as_chunks 64 (drop ?n bs)))"
      unfolding split by (rule as_chunks_step) (use buflen in simp_all)
    moreover have "length (hstate ?g) = 8" and "length (hbuffer ?g) = 64"
      using ok buflen by (simp_all add: length_compress)
    ultimately show ?thesis
      unfolding up using sha_blocks_spec [of ?g "drop ?n bs"]
      by (simp add: absorb_def hasher_view_def [of h])
  qed
qed

lemmas sha_update_ok = sha_update_refines [THEN conjunct1]
lemmas sha_update_view = sha_update_refines [THEN conjunct2]

lemma absorb_absorb: "absorb (absorb v a) b = absorb v (a @ b)"
proof -
  obtain st pending bits where v: "v = (st, pending, bits)" by (cases v)
  have "as_chunks 64 ((pending @ a) @ b) =
     (fst (as_chunks 64 (pending @ a)) @ fst (as_chunks 64 (snd (as_chunks 64 (pending @ a)) @ b)),
      snd (as_chunks 64 (snd (as_chunks 64 (pending @ a)) @ b)))"
    by (rule as_chunks_append) simp
  then show ?thesis
    by (simp add: absorb_def v algebra_simps split: prod.splits)
qed

lemma hbuffered_view: "hasher_ok h \<Longrightarrow> length (fst (snd (hasher_view h))) = hbuffered h"
  by (simp add: hasher_ok_def hasher_view_def)

lemma pad_zeros_small: "n < 64 \<Longrightarrow> pad_zeros n = (119 - n) mod 64"
proof -
  have "\<forall>n \<in> set [0..<64]. pad_zeros n = (119 - n) mod 64"
    unfolding pad_zeros_def by code_simp
  then show "n < 64 \<Longrightarrow> pad_zeros n = (119 - n) mod 64" by simp
qed

lemma sha_tail_eq:
  assumes "hbuffered h < 64"
  shows "sha_tail h = 0x80 # replicate (pad_zeros (hbuffered h)) 0 @ u64_to_be (hbits h)"
proof -
  have "pad_zeros (hbuffered h) < 64"
    using assms by (simp add: pad_zeros_small)
  then have "take (1 + pad_zeros (hbuffered h)) ((replicate 72 (0::u8))[0 := 0x80]) =
      0x80 # replicate (pad_zeros (hbuffered h)) 0"
    using replicate_Suc [of 71 "0 :: u8"] by simp
  then show ?thesis
    by (simp add: sha_tail_def put_at_def Let_def)
qed

lemma sha_finish_view:
  assumes "hasher_ok h"
  shows "sha_finish h = concat (map u32_to_be (fst (absorb (hasher_view h) (sha_tail h))))"
proof -
  have "hstate (sha_update h (sha_tail h)) = fst (hasher_view (sha_update h (sha_tail h)))"
    by (simp add: hasher_view_def)
  then show ?thesis
    using sha_update_view [OF assms] by (simp add: sha_finish_def Let_def)
qed

lemma sha_finish_cong:
  assumes "hasher_ok h" and "hasher_ok g" and "hasher_view h = hasher_view g"
  shows "sha_finish h = sha_finish g"
proof -
  have "hbuffered h = hbuffered g"
    using assms hbuffered_view [of h] hbuffered_view [of g] by simp
  moreover have "hbits h = hbits g"
    using assms(3) by (simp add: hasher_view_def)
  ultimately have "sha_tail h = sha_tail g"
    by (simp add: sha_tail_def)
  then show ?thesis
    using assms by (simp add: sha_finish_view)
qed

section \<open>The digest of a stream and of a slice\<close>

text \<open>A digest computed piece by piece, as an image is delivered, is the digest of the
  pieces joined: where the stream is cut never matters.\<close>

theorem sha_streaming:
  assumes "hasher_ok h"
  shows "sha_finish (sha_update (sha_update h a) b) = sha_finish (sha_update h (a @ b))"
proof (rule sha_finish_cong)
  show "hasher_ok (sha_update (sha_update h a) b)" and "hasher_ok (sha_update h (a @ b))"
    using assms by (simp_all add: sha_update_ok)
  show "hasher_view (sha_update (sha_update h a) b) = hasher_view (sha_update h (a @ b))"
    using assms by (simp add: sha_update_ok sha_update_view absorb_absorb)
qed

theorem sha_streaming_witness:
  "hasher_ok sha_new \<and>
   sha_finish (sha_update (sha_update sha_new [1, 2, 3]) [4, 5]) =
     sha_finish (sha_update sha_new [1, 2, 3, 4, 5])"
  using hasher_ok_new sha_streaming [OF hasher_ok_new, of "[1, 2, 3]" "[4, 5]"] by simp

lemma as_chunks_rest_length:
  "0 < n \<Longrightarrow> length (snd (as_chunks n bs)) = length bs mod n"
proof -
  assume n: "0 < n"
  have "length (concat (fst (as_chunks n bs))) = n * length (fst (as_chunks n bs))"
    using as_chunks_width [of _ n bs] by (simp add: length_concat sum_list_triv cong: map_cong)
  then have "length bs = n * length (fst (as_chunks n bs)) + length (snd (as_chunks n bs))"
    by (metis as_chunks_concat length_append)
  then show ?thesis
    using as_chunks_rest [OF n, of bs] by (metis mod_less mod_mult_self4 mult.commute)
qed

lemma pad_mod: "m < 64 \<Longrightarrow> (119 - m) mod 64 = (if m \<le> 55 then 55 - m else 119 - m :: nat)"
proof (cases "m \<le> 55")
  case True
  then have "119 - m = 55 - m + 64" by simp
  then show ?thesis using True mod_add_self2 [of "55 - m" 64] by simp
qed simp

lemma length_sha_pad: "64 dvd length (sha_pad bs)"
proof -
  obtain q m where qm: "length bs = 64 * q + m" "length bs mod 64 = m" "m < 64"
    by (metis mod_less_divisor mult_div_mod_eq zero_less_numeral)
  have "length (sha_pad bs) = length bs + 9 + (119 - m) mod 64"
    using qm(2) by (simp add: sha_pad_def)
  also have "\<dots> = 64 * q + m + 9 + (if m \<le> 55 then 55 - m else 119 - m)"
    by (simp only: qm(1) pad_mod [OF qm(3)])
  also have "\<dots> = 64 * (q + (if m \<le> 55 then 1 else 2))"
    using qm(3) by (cases "m \<le> 55") simp_all
  finally show ?thesis by (metis dvd_triv_left)
qed

text \<open>C27: the hasher computes the padded-message digest: the one-shot digest is the fold of
  the compression function over the blocks of the padded message, whose length is a whole
  number of blocks, so no byte of the message or the length is left out.\<close>

theorem sha256_is_spec:
  "sha256 bs = sha256_spec bs \<and> snd (as_chunks 64 (sha_pad bs)) = [] \<and> length (sha256 bs) = 32"
proof -
  let ?h = "sha_update sha_new bs"
  have ok: "hasher_ok ?h" using hasher_ok_new by (rule sha_update_ok)
  have v0: "hasher_view sha_new = (initial_state, [], 0)"
    by (simp add: hasher_view_def sha_new_def)
  have v: "hasher_view ?h = absorb (initial_state, [], 0) bs"
    using sha_update_view [OF hasher_ok_new] v0 by simp
  have vv: "hasher_view ?h =
      (foldl compress initial_state (fst (as_chunks 64 bs)), snd (as_chunks 64 bs), of_nat (length bs) * 8)"
    by (simp add: v absorb_def split: prod.splits)
  have b: "hbuffered ?h = length bs mod 64"
    using hbuffered_view [OF ok] by (simp add: vv as_chunks_rest_length)
  have bits: "hbits ?h = of_nat (length bs) * 8"
    using vv by (simp add: hasher_view_def)
  have tail: "bs @ sha_tail ?h = sha_pad bs"
    using ok by (simp add: sha_tail_eq hasher_ok_def sha_pad_def b bits pad_zeros_small)
  have "sha256 bs = concat (map u32_to_be (fst (absorb (initial_state, [], 0) (bs @ sha_tail ?h))))"
    using sha_finish_view [OF ok] by (simp add: sha256_def v absorb_absorb)
  then have eq: "sha256 bs = sha256_spec bs"
    by (simp add: tail sha256_spec_def absorb_def split: prod.splits)
  have "length (foldl compress initial_state (fst (as_chunks 64 (sha_pad bs)))) = 8"
    by (rule foldl_compress_length) (simp add: initial_state_def)
  then have "length (sha256_spec bs) = 32"
    by (simp add: sha256_spec_def length_concat o_def sum_list_triv)
  then show ?thesis
    using eq as_chunks_exact [OF _ length_sha_pad, of bs] by simp
qed

text \<open>The digest of the three bytes of \<^verbatim>\<open>abc\<close> is the published test vector, so the round
  constants, rotations and schedule are those of SHA-256.\<close>

theorem sha256_known_answer:
  "sha256 [0x61, 0x62, 0x63] =
     [0xBA, 0x78, 0x16, 0xBF, 0x8F, 0x01, 0xCF, 0xEA, 0x41, 0x41, 0x40, 0xDE, 0x5D, 0xAE, 0x22, 0x23,
      0xB0, 0x03, 0x61, 0xA3, 0x96, 0x17, 0x7A, 0x9C, 0xB4, 0x10, 0xFF, 0x61, 0xF2, 0x00, 0x15, 0xAD]"
  by code_simp

section \<open>Hexadecimal digests\<close>

text \<open>Text is the byte string of its UTF-8 encoding, as in the sources that parse \<^verbatim>\<open>&[u8]\<close>.\<close>

definition hex_digit :: "u8 \<Rightarrow> u8" where
  "hex_digit n = (if n < 10 then 48 + n else 87 + n)"

definition hex :: "hash \<Rightarrow> bytes" where
  "hex digest = concat (map (\<lambda>b. [hex_digit (drop_bit 4 b), hex_digit (b AND 0xF)]) digest)"

text \<open>\<^verbatim>\<open>char::to_digit(16)\<close>, which accepts both cases.\<close>

definition to_digit16 :: "u8 \<Rightarrow> u8 option" where
  "to_digit16 b =
     (if 48 \<le> b \<and> b \<le> 57 then Some (b - 48)
      else if 97 \<le> b \<and> b \<le> 102 then Some (b - 87)
      else if 65 \<le> b \<and> b \<le> 70 then Some (b - 55)
      else None)"

definition from_hex_pair :: "bytes \<Rightarrow> u8 option" where
  "from_hex_pair pair =
     (case to_digit16 (pair ! 0) of None \<Rightarrow> None
      | Some hi \<Rightarrow> (case to_digit16 (pair ! 1) of None \<Rightarrow> None
        | Some lo \<Rightarrow> Some (push_bit 4 hi OR lo)))"

definition from_hex :: "bytes \<Rightarrow> hash option" where
  "from_hex digits =
     (if length digits \<noteq> 64 then None
      else those (map from_hex_pair (fst (as_chunks 2 digits))))"

text \<open>\<^verbatim>\<open>u8::to_ascii_lowercase\<close>.\<close>

definition to_ascii_lowercase :: "u8 \<Rightarrow> u8" where
  "to_ascii_lowercase b = (if 65 \<le> b \<and> b \<le> 90 then b + 32 else b)"

lemma to_digit16_table:
  assumes "n < 16"
  shows "to_digit16 (hex_digit n) = Some n \<and>
    (65 \<le> hex_digit n - 32 \<and> hex_digit n - 32 \<le> 90 \<longrightarrow> to_digit16 (hex_digit n - 32) = Some n)"
    (is "?P n")
proof -
  have "\<forall>k \<in> set [0..<16]. ?P (of_nat k)"
    by code_simp
  moreover have "unat n \<in> set [0..<16]"
    using assms by (simp add: word_less_nat_alt)
  ultimately have "?P (of_nat (unat n))"
    by blast
  then show ?thesis by simp
qed

lemma to_digit16_hex_digit: "n < 16 \<Longrightarrow> to_digit16 (hex_digit n) = Some n"
  using to_digit16_table by blast

lemma to_digit16_Some:
  assumes "to_digit16 b = Some n"
  shows "n < 16 \<and> to_ascii_lowercase b = hex_digit n"
proof -
  consider "48 \<le> b" "b \<le> 57" "n = b - 48" | "97 \<le> b" "b \<le> 102" "n = b - 87" | "65 \<le> b" "b \<le> 70" "n = b - 55"
    using assms by (auto simp: to_digit16_def split: if_splits)
  then show ?thesis
  proof cases
    case 1
    then have "unat n = unat b - 48" by (simp add: unat_sub)
    then show ?thesis
      using 1 by (auto simp: hex_digit_def to_ascii_lowercase_def word_less_nat_alt word_le_nat_alt)
  next
    case 2
    then have "unat n = unat b - 87" by (simp add: unat_sub word_le_nat_alt)
    then show ?thesis
      using 2 by (auto simp: hex_digit_def to_ascii_lowercase_def word_less_nat_alt word_le_nat_alt)
  next
    case 3
    then have "unat n = unat b - 55" by (simp add: unat_sub word_le_nat_alt)
    then show ?thesis
      using 3 by (auto simp: hex_digit_def to_ascii_lowercase_def word_less_nat_alt word_le_nat_alt)
  qed
qed

lemma to_digit16_lower:
  "to_digit16 b = Some n \<longleftrightarrow> n < 16 \<and> to_ascii_lowercase b = hex_digit n"
proof
  assume h: "n < 16 \<and> to_ascii_lowercase b = hex_digit n"
  then have "b = hex_digit n \<or> 65 \<le> b \<and> b \<le> 90 \<and> b = hex_digit n - 32"
    by (auto simp: to_ascii_lowercase_def algebra_simps split: if_splits)
  then show "to_digit16 b = Some n"
    using h to_digit16_table [of n] by auto
qed (rule to_digit16_Some)

lemma nibbles_join: "push_bit 4 (drop_bit 4 b) OR (b AND 0xF) = (b :: u8)"
proof -
  have "b AND 0xF = take_bit 4 b"
    by (simp add: take_bit_eq_mask mask_eq_exp_minus_1)
  then show ?thesis
    by (auto intro!: bit_eqI simp: bit_simps)
qed

lemma nibbles_small: "drop_bit 4 (b :: u8) < 16" "b AND 0xF < 16"
proof -
  have "unat b < 256" using unsigned_less [of b, where ?'a = nat] by simp
  then show "drop_bit 4 b < 16"
    by (simp add: word_less_nat_alt drop_bit_eq_div unat_div)
  have "b AND 0xF = take_bit 4 b"
    by (simp add: take_bit_eq_mask mask_eq_exp_minus_1)
  then show "b AND 0xF < 16"
    by (simp add: word_less_nat_alt take_bit_eq_mod unat_mod)
qed

lemma nibbles_split:
  assumes "hi < 16" and "lo < (16 :: u8)"
  shows "drop_bit 4 (push_bit 4 hi OR lo) = hi" and "(push_bit 4 hi OR lo) AND 0xF = lo"
proof -
  have hi: "take_bit 4 hi = hi" and lo: "take_bit 4 lo = lo"
    using assms by (simp_all add: word_less_nat_alt take_bit_eq_mod word_unat_eq_iff unat_mod)
  have b: "bit hi n \<Longrightarrow> n < 4" "bit lo n \<Longrightarrow> n < 4" for n
    by (subst (asm) hi [symmetric], simp add: bit_simps) (subst (asm) lo [symmetric], simp add: bit_simps)
  show "drop_bit 4 (push_bit 4 hi OR lo) = hi"
    by (rule bit_eqI) (auto simp: bit_simps dest: b)
  have "(push_bit 4 hi OR lo) AND 0xF = take_bit 4 (push_bit 4 hi OR lo)"
    by (simp add: take_bit_eq_mask mask_eq_exp_minus_1)
  also have "\<dots> = lo"
    by (rule bit_eqI) (auto simp: bit_simps dest: b)
  finally show "(push_bit 4 hi OR lo) AND 0xF = lo" .
qed

lemma length_hex: "length (hex d) = 2 * length d"
  by (induction d) (simp_all add: hex_def)

lemma from_hex_pair_lower:
  assumes "length pair = 2"
  shows "from_hex_pair pair = Some b \<longleftrightarrow>
    map to_ascii_lowercase pair = [hex_digit (drop_bit 4 b), hex_digit (b AND 0xF)]"
proof -
  obtain x y where pair: "pair = [x, y]"
    using assms by (auto simp: length_Suc_conv numeral_2_eq_2)
  show ?thesis
  proof
    assume "from_hex_pair pair = Some b"
    then obtain hi lo where d: "to_digit16 x = Some hi" "to_digit16 y = Some lo" "b = push_bit 4 hi OR lo"
      by (auto simp: pair from_hex_pair_def split: option.splits)
    then have "hi < 16" "lo < 16" by (simp_all add: to_digit16_lower)
    then have "drop_bit 4 b = hi" "b AND 0xF = lo"
      unfolding d(3) by (rule nibbles_split)+
    then show "map to_ascii_lowercase pair = [hex_digit (drop_bit 4 b), hex_digit (b AND 0xF)]"
      using d by (simp add: pair to_digit16_lower)
  next
    assume "map to_ascii_lowercase pair = [hex_digit (drop_bit 4 b), hex_digit (b AND 0xF)]"
    then have "to_digit16 x = Some (drop_bit 4 b)" "to_digit16 y = Some (b AND 0xF)"
      by (simp_all add: pair to_digit16_lower nibbles_small)
    then show "from_hex_pair pair = Some b"
      by (simp add: pair from_hex_pair_def nibbles_join)
  qed
qed

lemma those_map_eq_Some:
  "those (map f xs) = Some ys \<longleftrightarrow> list_all2 (\<lambda>x y. f x = Some y) xs ys"
  by (induction xs arbitrary: ys) (auto simp: list_all2_Cons1 split: option.splits)

lemma hex_chunks_lower:
  assumes "\<forall>p \<in> set ps. length p = 2"
  shows "list_all2 (\<lambda>p b. from_hex_pair p = Some b) ps d \<longleftrightarrow> map to_ascii_lowercase (concat ps) = hex d"
  using assms
proof (induction ps arbitrary: d)
  case Nil
  then show ?case by (cases d) (auto simp: hex_def)
next
  case (Cons p ps)
  show ?case
  proof (cases d)
    case Nil
    then show ?thesis using Cons.prems by (auto simp: hex_def)
  next
    case (Cons b d')
    have len: "length (map to_ascii_lowercase p) = length [hex_digit (drop_bit 4 b), hex_digit (b AND 0xF)]"
      using Cons.prems by simp
    have "hex d = [hex_digit (drop_bit 4 b), hex_digit (b AND 0xF)] @ hex d'"
      by (simp add: hex_def Cons)
    then show ?thesis
      using Cons.IH [of d'] Cons.prems append_eq_append_conv [OF disjI1 [OF len]]
      by (simp add: Cons from_hex_pair_lower del: append_Cons)
  qed
qed

lemma from_hex_iff:
  "from_hex digits = Some d \<longleftrightarrow> length d = 32 \<and> map to_ascii_lowercase digits = hex d"
proof -
  have "concat (fst (as_chunks 2 digits)) = digits" if "length digits = 64"
    using that as_chunks_exact [of 2 digits] as_chunks_concat [of 2 digits] by simp
  moreover have "\<forall>p \<in> set (fst (as_chunks 2 digits)). length p = 2"
    using as_chunks_width by blast
  moreover have "length digits = 2 * length d" if "map to_ascii_lowercase digits = hex d"
    using arg_cong [OF that, of length] by (simp add: length_hex)
  ultimately show ?thesis
    by (auto simp: from_hex_def those_map_eq_Some hex_chunks_lower)
qed

lemma from_hex_hex: "length d = 32 \<Longrightarrow> from_hex (hex d) = Some d"
proof -
  have "to_ascii_lowercase (hex_digit n) = hex_digit n" if "n < 16" for n
    using to_digit16_hex_digit [OF that] by (simp add: to_digit16_lower)
  then have "map to_ascii_lowercase (hex d) = hex d"
    by (induction d) (simp_all add: hex_def nibbles_small)
  then show "length d = 32 \<Longrightarrow> from_hex (hex d) = Some d" by (simp add: from_hex_iff)
qed

text \<open>\<^verbatim>\<open>from_hex\<close> accepts exactly the 64-digit spellings, in either case, of the digest it
  returns: what \<^verbatim>\<open>hex\<close> writes reads back, and no other digest has that text.\<close>

theorem from_hex_exact:
  "from_hex digits = Some d \<longleftrightarrow> length d = 32 \<and> map to_ascii_lowercase digits = hex d"
  by (rule from_hex_iff)

end
