(* ===== verification/Chunk.thy ===== *)
theory Chunk
  imports Digest
begin

text \<open>
  Content-addressed chunks of lazy files, \<^verbatim>\<open>crates/linux-compat/src/chunk.rs\<close>: the layout of a
  chunked file, the verified store of resident chunks, and the range read that assembles bytes
  from it or names the first missing chunk.

  \<^verbatim>\<open>usize\<close> is 64 bits wide, so casts from \<^verbatim>\<open>u64\<close> lose nothing and indices and lengths are
  naturals; \<^verbatim>\<open>u64\<close> offsets are words and their arithmetic wraps. \<open>Panic\<close> is an out-of-range
  index, a division by zero or a failed \<^verbatim>\<open>expect\<close>. The formatted error texts are constructors
  carrying the values they print.
\<close>

datatype chunk_error =
    ZeroLengthLayout
  | BadChunkSize
  | WrongHashCount u64 u32 u64 nat
  | DigestMismatch

section \<open>The layout of a chunked file\<close>

record chunked_file =
  cf_size :: u64
  cf_chunk_size :: u32
  cf_chunks :: "hash list"

definition chunked_file_new :: "u64 \<Rightarrow> u32 \<Rightarrow> hash list \<Rightarrow> chunk_error + chunked_file" where
  "chunked_file_new sz chunk_size chunks =
     (let file = \<lparr>cf_size = sz, cf_chunk_size = chunk_size, cf_chunks = chunks\<rparr> in
      if sz = 0 then
        if chunks = [] \<and> chunk_size \<noteq> 0 \<and> chunk_size mod 4096 = 0 then Inr file
        else Inl ZeroLengthLayout
      else if chunk_size = 0 \<or> chunk_size mod 4096 \<noteq> 0 then Inl BadChunkSize
      else let expected = div_ceil sz (ucast chunk_size) in
        if expected \<noteq> of_nat (length chunks)
        then Inl (WrongHashCount sz chunk_size expected (length chunks))
        else Inr file)"

definition chunk_at :: "chunked_file \<Rightarrow> u64 \<Rightarrow> (nat \<times> hash \<times> u64 \<times> u64) option run" where
  "chunk_at file offset =
     (if offset \<ge> cf_size file then Ret None
      else if cf_chunk_size file = 0 then Panic
      else let index = unat (offset div ucast (cf_chunk_size file));
               start = of_nat index * ucast (cf_chunk_size file);
               stop = min (start + ucast (cf_chunk_size file)) (cf_size file)
           in if index < length (cf_chunks file)
              then Ret (Some (index, cf_chunks file ! index, start, stop))
              else Panic)"

section \<open>The store of verified chunks\<close>

type_synonym chunk_store = "(hash, rvec) btree"

definition cs_insert :: "hash \<Rightarrow> rvec \<Rightarrow> chunk_store \<Rightarrow> chunk_error + chunk_store" where
  "cs_insert expected v st =
     (if sha256 (vdata v) \<noteq> expected then Inl DigestMismatch
      else Inr (case map_of st expected of Some _ \<Rightarrow> st | None \<Rightarrow> bt_insert expected v st))"

definition cs_get :: "chunk_store \<Rightarrow> hash \<Rightarrow> bytes option" where
  "cs_get st h = map_option vdata (map_of st h)"

definition cs_contains :: "chunk_store \<Rightarrow> hash \<Rightarrow> bool" where
  "cs_contains st h \<longleftrightarrow> map_of st h \<noteq> None"

definition cs_first_missing :: "chunk_store \<Rightarrow> chunked_file \<Rightarrow> hash option" where
  "cs_first_missing st file = find (\<lambda>h. \<not> cs_contains st h) (cf_chunks file)"

definition cs_bytes :: "chunk_store \<Rightarrow> nat" where
  "cs_bytes st = sum_list (map (\<lambda>(h, v). vcap v) st)"

section \<open>Reading a range\<close>

datatype read_range =
    Ready bytes
  | Missing hash
  | Invalid nat nat nat \<comment> \<open>chunk index, its length, the length the layout requires\<close>

text \<open>The span of a chunk lies around the cursor even where the sums wrap, so each turn of the
  loop makes progress.\<close>

lemma unat_cs: "unat (ucast (cs :: u32) :: u64) = unat cs"
proof -
  have "unat cs < 2 ^ 64"
    using unsigned_less [of cs, where ?'a = nat] by simp
  then show ?thesis
    by (simp add: unsigned_ucast_eq take_bit_nat_eq_self)
qed

lemma chunk_start:
  fixes c :: u64 and cs :: u32
  defines "s \<equiv> (c div ucast cs) * ucast cs"
  shows "unat s = unat c div unat cs * unat cs" and "s \<le> c"
proof -
  have le: "unat c div unat cs * unat cs \<le> unat c"
    by (rule div_times_less_eq_dividend)
  then have "unat c div unat cs * unat cs < 2 ^ 64"
    by (rule order_le_less_trans) (use unsigned_less [of c, where ?'a = nat] in simp)
  moreover have "unat s = unat c div unat cs * unat cs mod 2 ^ 64"
    unfolding s_def by (subst unat_word_ariths(2)) (simp add: unat_div unat_cs)
  ultimately show u: "unat s = unat c div unat cs * unat cs"
    by simp
  show "s \<le> c"
    using le by (simp add: word_le_nat_alt u)
qed

lemma chunk_at_progress:
  assumes "chunk_at file c = Ret (Some (i, h, s, e))"
  shows "s \<le> c" and "unat (c - s) < unat (e - s)"
proof -
  let ?cs = "cf_chunk_size file" and ?size = "cf_size file"
  have f: "c < ?size" "?cs \<noteq> 0" "s = (c div ucast ?cs) * ucast ?cs" "e = min (s + ucast ?cs) ?size"
    using assms by (auto simp: chunk_at_def Let_def split: if_splits)
  then have us: "unat s = unat c div unat ?cs * unat ?cs" and "s \<le> c"
    using chunk_start by auto
  then show "s \<le> c" by simp
  have pos: "0 < unat ?cs"
    using f(2) by (simp add: unat_gt_0)
  have mod: "unat (c - s) = unat c mod unat ?cs"
    using \<open>s \<le> c\<close> us by (simp add: unat_sub minus_div_mult_eq_mod)
  have less: "unat c < unat s + unat ?cs"
    using pos us by (metis add.commute add_less_cancel_right mod_less_divisor mod_div_mult_eq)
  show "unat (c - s) < unat (e - s)"
  proof (cases "unat s + unat ?cs < 2 ^ 64")
    case True
    then have "unat (s + ucast ?cs) = unat s + unat ?cs"
      by (simp add: unat_word_ariths unat_cs)
    then have "c < e"
      using f less by (simp add: word_less_nat_alt min_def)
    then show ?thesis
      using \<open>s \<le> c\<close> by (simp add: unat_sub word_less_nat_alt word_le_nat_alt)
  next
    case False
    then have "unat (s + ucast ?cs) < unat s"
      using pos unsigned_less [of s, where ?'a = nat] unsigned_less [of ?cs, where ?'a = nat]
      by (auto simp: unat_word_ariths unat_cs mod_if)
    then have "e = s + ucast ?cs"
      using f \<open>s \<le> c\<close> by (simp add: min_def word_less_nat_alt word_le_nat_alt)
    then show ?thesis
      using mod pos by (simp add: unat_cs)
  qed
qed

function read_loop :: "chunk_store \<Rightarrow> chunked_file \<Rightarrow> u64 \<Rightarrow> u64 \<Rightarrow> bytes \<Rightarrow> read_range run" where
  "read_loop st file stop cursor out =
     (if cursor < stop then
        case chunk_at file cursor of
          Panic \<Rightarrow> Panic
        | Ret None \<Rightarrow> Panic
        | Ret (Some (index, h, rstart, rend)) \<Rightarrow>
            (case cs_get st h of
               None \<Rightarrow> Ret (Missing h)
             | Some chunk \<Rightarrow>
                 let expected_len = unat (rend - rstart) in
                 if length chunk \<noteq> expected_len then Ret (Invalid index (length chunk) expected_len)
                 else let in_chunk = unat (cursor - rstart);
                          n = min (unat (stop - cursor)) (length chunk - in_chunk)
                      in read_loop st file stop (cursor + of_nat n) (out @ take n (drop in_chunk chunk)))
      else Ret (Ready out))"
  by pat_completeness auto
termination
proof (relation "measure (\<lambda>(st, file, stop, cursor, out). unat stop - unat cursor)", goal_cases)
  case 1
  then show ?case by simp
next
  case (2 st f stop cursor out r x index y h z rstart rend chunk expected_len in_chunk n)
  then have c: "cursor < stop" and at: "chunk_at f cursor = Ret (Some (index, h, rstart, rend))"
    and len: "length chunk = unat (rend - rstart)" and n: "n = min (unat (stop - cursor)) (length chunk - in_chunk)"
    and i: "in_chunk = unat (cursor - rstart)"
    by simp_all
  have lt: "unat cursor < unat stop" and sub: "unat (stop - cursor) = unat stop - unat cursor"
    using c by (simp_all add: word_less_nat_alt word_le_nat_alt unat_sub)
  have "0 < n" and "n \<le> unat stop - unat cursor"
    using chunk_at_progress(2) [OF at] lt by (simp_all add: n len i sub)
  moreover from this have "unat (cursor + of_nat n) = unat cursor + n"
    using unsigned_less [of stop, where ?'a = nat] by (simp add: unat_word_ariths unsigned_of_nat take_bit_eq_mod)
  ultimately show ?case by simp
qed

declare read_loop.simps [simp del]

definition cs_read_range :: "chunk_store \<Rightarrow> chunked_file \<Rightarrow> u64 \<Rightarrow> nat \<Rightarrow> read_range run" where
  "cs_read_range st file offset len =
     (let stop = min (saturating_add offset (of_nat len)) (cf_size file) in
      if offset \<ge> stop then Ret (Ready []) else read_loop st file stop offset [])"

section \<open>Well-formed layouts\<close>

definition cf_ok :: "chunked_file \<Rightarrow> bool" where
  "cf_ok file \<longleftrightarrow>
     0 < unat (cf_chunk_size file) \<and> 4096 dvd unat (cf_chunk_size file) \<and>
     length (cf_chunks file) =
       (unat (cf_size file) + unat (cf_chunk_size file) - 1) div unat (cf_chunk_size file)"

text \<open>The end of a chunk never wraps.\<close>

definition cf_fits :: "chunked_file \<Rightarrow> bool" where
  "cf_fits file \<longleftrightarrow> unat (cf_size file) + unat (cf_chunk_size file) \<le> 2 ^ 64"

lemma ceil_div: "0 < b \<Longrightarrow> (a + b - 1) div b = (if 0 < a mod b then a div b + 1 else a div (b::nat))"
proof -
  assume b: "0 < b"
  obtain q r where qr: "a = b * q + r" "r < b"
    using b by (metis mod_less_divisor mult_div_mod_eq)
  then have dm: "a div b = q" "a mod b = r" by simp_all
  show ?thesis
  proof (cases r)
    case 0
    then have "(a + b - 1) div b = q"
      using qr b by (intro div_nat_eqI) simp_all
    then show ?thesis using 0 dm by simp
  next
    case (Suc k)
    then have "(a + b - 1) div b = Suc q"
      using qr b by (intro div_nat_eqI) simp_all
    then show ?thesis using Suc dm by simp
  qed
qed

lemma div_less_ceil: "0 < b \<Longrightarrow> a < n \<Longrightarrow> a div b < (n + b - 1) div (b::nat)"
proof -
  assume b: "0 < b" and a: "a < n"
  have "Suc (a div b) * b \<le> n + b - 1"
    using a b div_times_less_eq_dividend [of a b] unfolding mult_Suc by linarith
  then show ?thesis
    using b by (simp add: less_eq_div_iff_mult_less_eq flip: Suc_le_eq)
qed

lemma unat_div_ceil:
  assumes "0 < unat b"
  shows "unat (div_ceil a b) = (unat a + unat b - 1) div unat b"
proof -
  have "unat a div unat b + 1 < 2 ^ LENGTH('a)" if "0 < unat a mod unat b"
  proof -
    have "1 < unat b" and "0 < unat a"
      using that assms by (metis less_numeral_extra(3) linorder_neqE_nat mod_by_1 less_one)
        (metis gr_zeroI less_numeral_extra(3) mod_0 that)
    then have "unat a div unat b < unat a"
      by (rule div_less_dividend)
    moreover have "unat a < 2 ^ LENGTH('a)"
      by (rule unsigned_less)
    ultimately show ?thesis by linarith
  qed
  then show ?thesis
    using ceil_div [OF assms, of "unat a"]
    by (simp add: div_ceil_def word_less_nat_alt unat_mod unat_div unat_word_ariths)
qed

lemma chunked_file_new_ok:
  assumes "chunked_file_new sz cs chunks = Inr file" and "length chunks < 2 ^ 64"
  shows "cf_ok file \<and> file = \<lparr>cf_size = sz, cf_chunk_size = cs, cf_chunks = chunks\<rparr>"
proof -
  have w: "cs \<noteq> 0" "cs mod 4096 = 0"
    using assms(1) by (auto simp: chunked_file_new_def Let_def split: if_splits)
  have "unat cs mod 4096 = unat (cs mod 4096)" by (simp add: unat_mod)
  then have cs: "0 < unat cs" "4096 dvd unat cs"
    using w by (simp_all add: unat_gt_0 dvd_eq_mod_eq_0)
  have f: "file = \<lparr>cf_size = sz, cf_chunk_size = cs, cf_chunks = chunks\<rparr>"
    using assms(1) by (auto simp: chunked_file_new_def Let_def split: if_splits)
  have "length chunks = (unat sz + unat cs - 1) div unat cs"
  proof (cases "sz = 0")
    case True
    then show ?thesis
      using assms(1) cs by (auto simp: chunked_file_new_def Let_def split: if_splits)
  next
    case False
    then have "div_ceil sz (ucast cs) = (of_nat (length chunks) :: u64)"
      using assms(1) by (auto simp: chunked_file_new_def Let_def split: if_splits)
    then have "unat (div_ceil sz (ucast cs) :: u64) = length chunks"
      using assms(2) by (simp add: unsigned_of_nat take_bit_nat_eq_self)
    then show ?thesis
      using unat_div_ceil [of "ucast cs :: u64" sz] cs by (simp add: unat_cs)
  qed
  with cs f show ?thesis by (simp add: cf_ok_def)
qed

text \<open>Where a position of a well-formed file lies.\<close>

lemma chunk_at_nat:
  assumes "cf_ok file" and "cf_fits file" and "c < cf_size file"
  defines "i \<equiv> unat c div unat (cf_chunk_size file)"
  obtains s e where "chunk_at file c = Ret (Some (i, cf_chunks file ! i, s, e))"
    and "unat s = i * unat (cf_chunk_size file)"
    and "unat e = min (Suc i * unat (cf_chunk_size file)) (unat (cf_size file))"
    and "i < length (cf_chunks file)"
proof
  let ?cs = "cf_chunk_size file" and ?n = "unat (cf_size file)"
  let ?s = "(c div ucast ?cs) * ucast ?cs :: u64"
  have pos: "0 < unat ?cs" and len: "length (cf_chunks file) = (?n + unat ?cs - 1) div unat ?cs"
    using assms(1) by (simp_all add: cf_ok_def)
  have c: "unat c < ?n" using assms(3) by (simp add: word_less_nat_alt)
  have "i * unat ?cs \<le> unat c" by (simp add: i_def)
  show i: "i < length (cf_chunks file)"
    unfolding len i_def using pos c by (rule div_less_ceil)
  show s: "unat ?s = i * unat ?cs"
    using chunk_start(1) [of c ?cs] by (simp add: i_def)
  have "unat ?s + unat ?cs < 2 ^ 64"
    using assms(2) c \<open>i * unat ?cs \<le> unat c\<close> s by (simp add: cf_fits_def)
  then have "unat (?s + ucast ?cs) = Suc i * unat ?cs"
    by (simp add: unat_plus_exact unat_cs s)
  then show "unat (min (?s + ucast ?cs) (cf_size file)) = min (Suc i * unat ?cs) ?n"
    by (simp add: min_def word_le_nat_alt)
  have "unat (c div ucast ?cs) = i"
    by (simp add: i_def unat_div unat_cs)
  then show "chunk_at file c = Ret (Some (i, cf_chunks file ! i, ?s, min (?s + ucast ?cs) (cf_size file)))"
    using assms(3) pos i by (auto simp: chunk_at_def Let_def)
qed

section \<open>What a range read returns\<close>

definition chunk_len :: "chunked_file \<Rightarrow> nat \<Rightarrow> nat" where
  "chunk_len file i =
     min (Suc i * unat (cf_chunk_size file)) (unat (cf_size file)) - i * unat (cf_chunk_size file)"

definition resident :: "chunk_store \<Rightarrow> chunked_file \<Rightarrow> nat \<Rightarrow> bool" where
  "resident st file i =
     (case cs_get st (cf_chunks file ! i) of None \<Rightarrow> False | Some chunk \<Rightarrow> length chunk = chunk_len file i)"

text \<open>The chunks the store holds for this layout are the pieces of \<open>content\<close>.\<close>

definition carries :: "chunk_store \<Rightarrow> chunked_file \<Rightarrow> bytes \<Rightarrow> bool" where
  "carries st file content \<longleftrightarrow> length content = unat (cf_size file) \<and>
     (\<forall>i < length (cf_chunks file). resident st file i \<longrightarrow>
        cs_get st (cf_chunks file ! i) =
          Some (take (unat (cf_chunk_size file)) (drop (i * unat (cf_chunk_size file)) content)))"

text \<open>What the first chunk that is not resident makes of the read, or \<open>bs\<close> if there is none.\<close>

definition read_result :: "chunk_store \<Rightarrow> chunked_file \<Rightarrow> nat list \<Rightarrow> bytes \<Rightarrow> read_range" where
  "read_result st file idx bs =
     (case find (\<lambda>i. \<not> resident st file i) idx of
        None \<Rightarrow> Ready bs
      | Some i \<Rightarrow> (case cs_get st (cf_chunks file ! i) of
            None \<Rightarrow> Missing (cf_chunks file ! i)
          | Some chunk \<Rightarrow> Invalid i (length chunk) (chunk_len file i)))"

lemma read_result_Cons:
  "read_result st file (i # idx) bs =
     (if resident st file i then read_result st file idx bs
      else case cs_get st (cf_chunks file ! i) of
            None \<Rightarrow> Missing (cf_chunks file ! i)
          | Some chunk \<Rightarrow> Invalid i (length chunk) (chunk_len file i))"
  by (simp add: read_result_def)

lemma slice_of_slice:
  "n \<le> k - d \<Longrightarrow> d \<le> k \<Longrightarrow> take n (drop d (take k (drop a xs))) = take n (drop (a + d) xs)"
  by (simp add: drop_take min_def add.commute)

text \<open>One turn of the loop over a resident chunk, and the chunk it stops at.\<close>

lemma read_loop_turn:
  assumes ok: "cf_ok file" "cf_fits file" and carries: "carries st file content"
    and range: "cursor < stop" "stop \<le> cf_size file"
  defines "i \<equiv> unat cursor div unat (cf_chunk_size file)"
  defines "nxt \<equiv> min (unat stop) (Suc i * unat (cf_chunk_size file))"
  shows "resident st file i \<Longrightarrow>
      read_loop st file stop cursor out =
        read_loop st file stop (of_nat nxt) (out @ take (nxt - unat cursor) (drop (unat cursor) content))"
    and "\<not> resident st file i \<Longrightarrow>
      read_loop st file stop cursor out = Ret (read_result st file (i # idx) bs)"
proof -
  let ?cs = "unat (cf_chunk_size file)"
  have "cursor < cf_size file" using range by simp
  with ok obtain s e where at: "chunk_at file cursor = Ret (Some (i, cf_chunks file ! i, s, e))"
    and s: "unat s = i * ?cs" and e: "unat e = min (Suc i * ?cs) (unat (cf_size file))"
    and i: "i < length (cf_chunks file)"
    unfolding i_def by (rule chunk_at_nat)
  note progress = chunk_at_progress [OF at]
  have se: "unat (e - s) = chunk_len file i" and cs: "unat (cursor - s) = unat cursor - i * ?cs"
    and sc: "unat (stop - cursor) = unat stop - unat cursor"
  proof -
    have "s \<le> e"
      using progress s e by (auto simp: word_le_nat_alt range)
        (metis \<open>cursor < cf_size file\<close> le_trans less_imp_le s word_le_nat_alt word_less_nat_alt)
    then show "unat (e - s) = chunk_len file i" by (simp add: unat_sub s e chunk_len_def)
    show "unat (cursor - s) = unat cursor - i * ?cs" using progress(1) by (simp add: unat_sub s)
    show "unat (stop - cursor) = unat stop - unat cursor" using range by (simp add: unat_sub)
  qed
  note loop = read_loop.simps [of st "file" stop cursor out]
  show "read_loop st file stop cursor out = Ret (read_result st file (i # idx) bs)"
    if "\<not> resident st file i"
    using that by (subst loop) (auto simp: range at se resident_def read_result_Cons Let_def split: option.splits)
  show "read_loop st file stop cursor out =
        read_loop st file stop (of_nat nxt) (out @ take (nxt - unat cursor) (drop (unat cursor) content))"
    if r: "resident st file i"
  proof -
    define chunk where "chunk = take ?cs (drop (i * ?cs) content)"
    have chunk: "cs_get st (cf_chunks file ! i) = Some chunk" and len: "length chunk = chunk_len file i"
      using carries r i by (auto simp: carries_def resident_def chunk_def)
    define n where "n = min (unat stop - unat cursor) (chunk_len file i - (unat cursor - i * ?cs))"
    have ic: "i * ?cs \<le> unat cursor" by (simp add: i_def)
    have stop: "unat cursor < unat stop" "unat stop \<le> unat (cf_size file)"
      using range by (simp_all add: word_less_nat_alt word_le_nat_alt)
    have n: "n = nxt - unat cursor" "unat cursor + n = nxt"
      using ic stop progress(2) unfolding se cs by (auto simp: n_def nxt_def chunk_len_def min_def)
    have "cursor + of_nat n = of_nat nxt"
      by (simp flip: n(2))
    moreover have "take n (drop (unat cursor - i * ?cs) chunk) = take n (drop (unat cursor) content)"
      using ic progress(2) unfolding se cs chunk_def
      by (subst slice_of_slice) (auto simp: n_def chunk_len_def)
    ultimately show ?thesis
      using n(1) by (subst loop) (simp add: range at chunk se cs sc len Let_def n_def [symmetric])
  qed
qed

lemma read_loop_spec:
  assumes "cf_ok file" "cf_fits file" and "carries st file content" and "stop \<le> cf_size file"
    and "cursor < stop"
  defines "cs \<equiv> unat (cf_chunk_size file)"
  shows "read_loop st file stop cursor out =
    Ret (read_result st file [unat cursor div cs ..< (unat stop + cs - 1) div cs]
      (out @ take (unat stop - unat cursor) (drop (unat cursor) content)))"
  using assms(5)
proof (induction "unat stop - unat cursor" arbitrary: cursor out rule: less_induct)
  case less
  let ?i = "unat cursor div cs" and ?hi = "(unat stop + cs - 1) div cs"
  let ?nxt = "min (unat stop) (Suc ?i * cs)"
  have cs: "0 < cs" using assms(1) by (simp add: cs_def cf_ok_def)
  have lt: "unat cursor < unat stop" using less.prems by (simp add: word_less_nat_alt)
  have i_less: "unat cursor < Suc ?i * cs"
    using cs by (metis dividend_less_div_times mult.commute mult_Suc)
  have hi: "?i < ?hi"
    using cs lt by (rule div_less_ceil)
  then have idx: "[?i..<?hi] = ?i # [Suc ?i..<?hi]"
    by (rule upt_conv_Cons)
  note turn = read_loop_turn [OF assms(1-3) less.prems assms(4), folded cs_def]
  show ?case
  proof (cases "resident st file ?i")
    case False
    then show ?thesis unfolding idx by (rule turn(2))
  next
    case True
    let ?out = "out @ take (?nxt - unat cursor) (drop (unat cursor) content)"
    define w :: u64 where "w = of_nat ?nxt"
    have nxt: "unat w = ?nxt"
      unfolding w_def using unsigned_less [of stop, where ?'a = nat] by (simp add: unsigned_of_nat take_bit_nat_eq_self min_def)
    show ?thesis
    proof (cases "unat stop \<le> Suc ?i * cs")
      case end_in: True
      then have "unat stop + cs - 1 < Suc (Suc ?i) * cs"
        using cs by simp
      then have "?hi \<le> Suc ?i"
        using less_mult_imp_div_less less_Suc_eq_le by blast
      then show ?thesis
        using turn(1) [OF True] end_in unfolding idx
        by (simp add: read_result_Cons True read_loop.simps [of st "file" stop stop] min_def read_result_def)
    next
      case more: False
      have "read_loop st file stop cursor out = read_loop st file stop w ?out"
        unfolding w_def by (rule turn(1) [OF True])
      also have "\<dots> = Ret (read_result st file [unat w div cs ..< ?hi]
          (?out @ take (unat stop - unat w) (drop (unat w) content)))"
        using more i_less lt by (intro less.hyps) (simp_all add: nxt word_less_nat_alt)
      also have "\<dots> = Ret (read_result st file [Suc ?i ..< ?hi]
          (?out @ take (unat stop - Suc ?i * cs) (drop (Suc ?i * cs) content)))"
        unfolding nxt using more cs by (simp add: min_def)
      also have "?out @ take (unat stop - Suc ?i * cs) (drop (Suc ?i * cs) content) =
          out @ take (unat stop - unat cursor) (drop (unat cursor) content)"
        using more i_less take_add [of "Suc ?i * cs - unat cursor" "unat stop - Suc ?i * cs" "drop (unat cursor) content"]
        by (simp add: min_def)
      finally show ?thesis
        unfolding idx by (simp add: read_result_Cons True)
    qed
  qed
qed

lemma range_end:
  assumes "len < 2 ^ 64"
  shows "unat (min (saturating_add off (of_nat len)) n) = min (unat off + len) (unat (n :: u64))"
proof -
  have "unat n < 2 ^ 64" using unsigned_less [of n, where ?'a = nat] by simp
  then show ?thesis
    using assms by (simp add: word_nat unsigned_of_nat take_bit_nat_eq_self)
qed

lemma read_range_nat:
  assumes "cf_ok file" and "cf_fits file" and "carries st file content" and "len < 2 ^ 64"
  shows "cs_read_range st file off len =
    (let cs = unat (cf_chunk_size file); stop = min (unat off + len) (unat (cf_size file)) in
     Ret (if stop \<le> unat off then Ready []
          else read_result st file [unat off div cs ..< (stop + cs - 1) div cs]
            (take len (drop (unat off) content))))"
proof -
  define stop where "stop = min (saturating_add off (of_nat len)) (cf_size file)"
  have u: "unat stop = min (unat off + len) (unat (cf_size file))"
    unfolding stop_def using assms(4) by (rule range_end)
  have le: "stop \<le> cf_size file" by (simp add: stop_def)
  have "take (unat stop - unat off) (drop (unat off) content) = take len (drop (unat off) content)"
    using assms(3) by (auto simp: u carries_def min_def)
  then show ?thesis
    using read_loop_spec [OF assms(1-3) le, of off "[]"]
    by (auto simp: cs_read_range_def stop_def [symmetric] u [symmetric] Let_def word_le_nat_alt
        word_less_nat_alt)
qed

text \<open>C5: reading a range of a chunked file is exact. With every chunk the range touches resident
  the read returns the bytes of the file, short at the end of the file; otherwise it names the
  first chunk that is missing, or the first whose length contradicts the layout, and nothing
  else. The loop always returns.\<close>

theorem read_range_exact:
  assumes "cf_ok file" and "cf_fits file" and "carries st file content" and "len < 2 ^ 64"
  shows "cs_read_range st file off len =
    (let cs = unat (cf_chunk_size file); stop = min (unat off + len) (unat (cf_size file)) in
     Ret (if stop \<le> unat off then Ready []
          else read_result st file [unat off div cs ..< (stop + cs - 1) div cs]
            (take len (drop (unat off) content))))"
  using assms by (rule read_range_nat)

theorem read_range_exact_witness:
  "let file = \<lparr>cf_size = 5000, cf_chunk_size = 4096, cf_chunks = [[1], [2]]\<rparr>;
       st = bt_insert [2] (vec_of (replicate 904 7)) (bt_insert [1] (vec_of (replicate 4096 7)) []);
       content = replicate 5000 7
   in cf_ok file \<and> cf_fits file \<and> carries st file content \<and>
      cs_read_range st file 4000 2000 = Ret (Ready (replicate 1000 7))"
proof -
  let ?file = "\<lparr>cf_size = 5000, cf_chunk_size = 4096, cf_chunks = [[1], [2]]\<rparr>"
  let ?st = "bt_insert [2] (vec_of (replicate 904 7)) (bt_insert [1] (vec_of (replicate 4096 7)) [])"
  have ok: "cf_ok ?file" "cf_fits ?file"
    by (simp_all add: cf_ok_def cf_fits_def)
  have res: "resident ?st ?file 0" "resident ?st ?file 1"
    by (simp_all add: resident_def cs_get_def vec_of_def chunk_len_def)
  have c: "carries ?st ?file (replicate 5000 7)"
    by (auto simp: carries_def cs_get_def vec_of_def less_Suc_eq)
  have "[0..<2] = [0, Suc 0]"
    by (simp add: upt_rec)
  then have "cs_read_range ?st ?file 4000 2000 = Ret (Ready (replicate 1000 7))"
    using read_range_exact [OF ok c, of 2000 4000] res by (simp add: read_result_def)
  then show ?thesis
    using ok c by simp
qed

section \<open>The contract of a verified store\<close>

text \<open>
  What the pager and the file system rely on: a store only ever holds bytes whose digest is
  the key, admitting bytes changes no other key, and what is resident stays as it is.
\<close>

locale verified_store =
  fixes vget :: "'s \<Rightarrow> hash \<Rightarrow> bytes option"
    and vput :: "hash \<Rightarrow> rvec \<Rightarrow> 's \<Rightarrow> 'e + 's"
    and vok :: "'s \<Rightarrow> bool"
  assumes vget_digest: "vok s \<Longrightarrow> vget s h = Some bs \<Longrightarrow> sha256 bs = h"
    and vput_ok: "vok s \<Longrightarrow> vput h v s = Inr s' \<Longrightarrow> vok s'"
    and vput_get: "vok s \<Longrightarrow> vput h v s = Inr s' \<Longrightarrow>
      vget s' = (vget s)(h \<mapsto> case vget s h of None \<Rightarrow> vdata v | Some bs \<Rightarrow> bs)"
    and vput_admits: "(\<exists>s'. vput h v s = Inr s') \<longleftrightarrow> sha256 (vdata v) = h"
begin

lemma resident_stays:
  "vok s \<Longrightarrow> vput h v s = Inr s' \<Longrightarrow> vget s k = Some bs \<Longrightarrow> vget s' k = Some bs"
  by (auto simp: vput_get)

lemma nothing_else_appears:
  "vok s \<Longrightarrow> vput h v s = Inr s' \<Longrightarrow> k \<noteq> h \<Longrightarrow> vget s' k = vget s k"
  by (simp add: vput_get)

lemma put_then_get:
  "vok s \<Longrightarrow> vput h v s = Inr s' \<Longrightarrow> \<exists>bs. vget s' h = Some bs \<and> sha256 bs = h"
  using vput_get vget_digest vput_ok by (metis fun_upd_same)

end

definition cs_ok :: "chunk_store \<Rightarrow> bool" where
  "cs_ok st \<longleftrightarrow> bt_ok st \<and> (\<forall>(h, v) \<in> set st. sha256 (vdata v) = h)"

lemma cs_ok_empty [simp]: "cs_ok []"
  by (simp add: cs_ok_def)

lemma cs_ok_iff: "cs_ok st \<longleftrightarrow> bt_ok st \<and> (\<forall>h v. map_of st h = Some v \<longrightarrow> sha256 (vdata v) = h)"
  unfolding cs_ok_def
  by (auto dest: map_of_SomeD) (metis bt_ok_distinct map_of_eq_Some_iff)

lemma cs_insert_Inr:
  "cs_insert h v st = Inr st' \<longleftrightarrow> sha256 (vdata v) = h \<and>
     st' = (if map_of st h = None then bt_insert h v st else st)"
  by (auto simp: cs_insert_def split: option.splits)

interpretation cs: verified_store cs_get cs_insert cs_ok
proof
  show "cs_ok s \<Longrightarrow> cs_get s h = Some bs \<Longrightarrow> sha256 bs = h" for s h bs
    by (auto simp: cs_ok_iff cs_get_def)
  show "cs_ok s \<Longrightarrow> cs_insert h v s = Inr s' \<Longrightarrow> cs_ok s'" for s s' h v
    by (auto simp: cs_ok_iff cs_insert_Inr map_of_bt_insert bt_ok_insert split: if_splits)
  show "cs_ok s \<Longrightarrow> cs_insert h v s = Inr s' \<Longrightarrow>
      cs_get s' = (cs_get s)(h \<mapsto> case cs_get s h of None \<Rightarrow> vdata v | Some bs \<Rightarrow> bs)" for s s' h v
    by (auto simp: cs_ok_def cs_insert_Inr cs_get_def fun_eq_iff map_of_bt_insert split: if_splits option.splits)
  show "(\<exists>s'. cs_insert h v s = Inr s') \<longleftrightarrow> sha256 (vdata v) = h" for h v and s :: chunk_store
    by (simp add: cs_insert_Inr)
qed

text \<open>C6: the chunk store admits bytes exactly when their digest is the hash they are offered
  under, so that whatever it returns for a hash has that digest; admitting never changes bytes
  that are already resident, under this hash or any other.\<close>

theorem chunk_store_verified:
  assumes "cs_ok st"
  shows "case cs_insert h v st of
      Inl e \<Rightarrow> sha256 (vdata v) \<noteq> h \<and> e = DigestMismatch
    | Inr st' \<Rightarrow> sha256 (vdata v) = h \<and> cs_ok st' \<and>
        (\<exists>bs. cs_get st' h = Some bs \<and> sha256 bs = h) \<and>
        (\<forall>k bs. cs_get st k = Some bs \<longrightarrow> cs_get st' k = Some bs \<and> sha256 bs = k) \<and>
        (\<forall>k. k \<noteq> h \<longrightarrow> cs_get st' k = cs_get st k)"
proof (cases "cs_insert h v st")
  case (Inl e)
  then show ?thesis by (auto simp: cs_insert_def split: if_splits)
next
  case (Inr st')
  then have "sha256 (vdata v) = h" using cs.vput_admits by blast
  with Inr assms show ?thesis
    by (auto intro: cs.vput_ok cs.put_then_get cs.resident_stays cs.nothing_else_appears cs.vget_digest)
qed

theorem chunk_store_verified_witness:
  "cs_ok [] \<and> (\<exists>st'. cs_insert (sha256 [0x61]) (vec_of [0x61]) [] = Inr st' \<and>
     (\<exists>bs. cs_get st' (sha256 [0x61]) = Some bs \<and> sha256 bs = sha256 [0x61]))"
  using chunk_store_verified [of "[]", where h = "sha256 [0x61]" and v = "vec_of [0x61]"]
  by (auto simp: cs_insert_def vec_of_def)

end
