(* ===== verification/Vfs.thy ===== *)
theory Vfs
  imports Abi Chunk
begin

text \<open>
  The in-memory file system of \<^verbatim>\<open>crates/linux-compat/src/vfs.rs\<close>: the arena of nodes, path
  resolution, the namespace operations, the storage budget, and the release of unlinked
  contents.

  Operations that take \<^verbatim>\<open>&mut self\<close> return their result together with the tree they leave
  behind, on the error paths too. An index of the arena that is out of range is \<open>Panicked\<close>.
  Node indexes and sizes are naturals; sums that the source saturates are saturated at the
  width of \<^verbatim>\<open>usize\<close>. Whether the allocator grants a reservation is a parameter.
\<close>

section \<open>Nodes\<close>

definition ROOT :: nat where
  "ROOT = 0"

datatype dev = DevNull | DevZero | DevTty | DevRandom | DevPtmx

datatype node_kind =
    Dir "(bytes, nat) btree"
  | File rvec
  | ChunkedFile chunked_file
  | Symlink rvec
  | CharDev dev

fun data_len :: "node_kind \<Rightarrow> nat" where
  "data_len (File data) = vcap data"
| "data_len (ChunkedFile f) = 0"
| "data_len (Symlink target) = vcap target"
| "data_len (Dir es) = 0"
| "data_len (CharDev d) = 0"

record node =
  nkind :: node_kind
  nmode :: u32
  nnlink :: u64
  nmtime :: u64
  nparent :: nat

definition file_type_bits :: "node \<Rightarrow> u32" where
  "file_type_bits n =
     (case nkind n of Dir _ \<Rightarrow> S_IFDIR | File _ \<Rightarrow> S_IFREG | ChunkedFile _ \<Rightarrow> S_IFREG
      | Symlink _ \<Rightarrow> S_IFLNK | CharDev _ \<Rightarrow> S_IFCHR)"

definition d_type :: "node \<Rightarrow> u8" where
  "d_type n =
     (case nkind n of Dir _ \<Rightarrow> DT_DIR | File _ \<Rightarrow> DT_REG | ChunkedFile _ \<Rightarrow> DT_REG
      | Symlink _ \<Rightarrow> DT_LNK | CharDev _ \<Rightarrow> DT_CHR)"

definition node_size :: "node \<Rightarrow> u64" where
  "node_size n =
     (case nkind n of File data \<Rightarrow> of_nat (length (vdata data)) | ChunkedFile f \<Rightarrow> cf_size f
      | Symlink target \<Rightarrow> of_nat (length (vdata target)) | Dir es \<Rightarrow> of_nat (length es)
      | CharDev _ \<Rightarrow> 0)"

record resolved =
  res_parent :: nat
  res_name :: bytes
  res_node :: "nat option"

record vfs =
  vnodes :: "node list"
  vchunks :: chunk_store
  vmanifest_root :: "hash option"
  vbudget :: "nat option"
  vunlinked :: "nat list"

definition node_at :: "vfs \<Rightarrow> nat \<Rightarrow> node option" where
  "node_at v i = (if i < length (vnodes v) then Some (vnodes v ! i) else None)"

definition set_node :: "nat \<Rightarrow> node \<Rightarrow> vfs \<Rightarrow> vfs" where
  "set_node i n v = v\<lparr>vnodes := (vnodes v)[i := n]\<rparr>"

definition set_entries :: "nat \<Rightarrow> (bytes, nat) btree \<Rightarrow> vfs \<Rightarrow> vfs" where
  "set_entries i es v = set_node i ((vnodes v ! i)\<lparr>nkind := Dir es\<rparr>) v"

definition is_dir_kind :: "node_kind \<Rightarrow> bool" where
  "is_dir_kind k = (case k of Dir _ \<Rightarrow> True | _ \<Rightarrow> False)"

definition vfs_is_dir :: "vfs \<Rightarrow> nat \<Rightarrow> bool run" where
  "vfs_is_dir v i = (case node_at v i of None \<Rightarrow> Panic | Some n \<Rightarrow> Ret (is_dir_kind (nkind n)))"

definition vfs_alloc :: "node \<Rightarrow> vfs \<Rightarrow> nat \<times> vfs" where
  "vfs_alloc n v = (length (vnodes v), v\<lparr>vnodes := vnodes v @ [n]\<rparr>)"

section \<open>Storage accounting\<close>

definition usize_max :: nat where
  "usize_max = 2 ^ 64 - 1"

definition usize_sat_add :: "nat \<Rightarrow> nat \<Rightarrow> nat" where
  "usize_sat_add a b = min (a + b) usize_max"

definition vfs_bytes :: "vfs \<Rightarrow> nat" where
  "vfs_bytes v = usize_sat_add (sum_list (map (\<lambda>n. data_len (nkind n)) (vnodes v))) (cs_bytes (vchunks v))"

definition set_storage_budget :: "nat option \<Rightarrow> vfs \<Rightarrow> vfs" where
  "set_storage_budget b v = v\<lparr>vbudget := b\<rparr>"

definition storage_headroom :: "vfs \<Rightarrow> nat option" where
  "storage_headroom v = map_option (\<lambda>budget. budget - vfs_bytes v) (vbudget v)"

definition vfs_reserve :: "vfs \<Rightarrow> nat \<Rightarrow> fault + unit" where
  "vfs_reserve v growth =
     (if growth = 0 then Inr ()
      else (case vbudget v of
          None \<Rightarrow> Inr ()
        | Some budget \<Rightarrow> if usize_sat_add (vfs_bytes v) growth \<le> budget then Inr () else Inl (Err ENOSPC)))"

section \<open>Path resolution\<close>

definition components :: "bytes \<Rightarrow> bytes list" where
  "components path = filter (\<lambda>c. c \<noteq> [] \<and> c \<noteq> str ''.'') (split_on 47 path)"

function (sequential)
  resolve_depth :: "vfs \<Rightarrow> nat \<Rightarrow> bytes \<Rightarrow> bool \<Rightarrow> nat \<Rightarrow> fault + resolved"
  and resolve_walk :: "vfs \<Rightarrow> bytes list \<Rightarrow> nat \<Rightarrow> bool \<Rightarrow> nat \<Rightarrow> fault + resolved" where
  "resolve_depth v start path follow_last depth =
     (if depth > 8 then Inl (Err ELOOP)
      else let current = (if path \<noteq> [] \<and> hd path = 47 then ROOT else start);
               comps = components path
           in if comps = [] then
                (case node_at v current of
                   None \<Rightarrow> Inl Panicked
                 | Some n \<Rightarrow> Inr \<lparr>res_parent = nparent n, res_name = str ''.'', res_node = Some current\<rparr>)
              else resolve_walk v comps current follow_last depth)"
| "resolve_walk v [] current follow_last depth = Inl Panicked"
| "resolve_walk v (component # rest) current follow_last depth =
     (case node_at v current of
        None \<Rightarrow> Inl Panicked
      | Some n \<Rightarrow>
          if component = str ''..'' then
            (if rest = [] then
               (case node_at v (nparent n) of
                  None \<Rightarrow> Inl Panicked
                | Some up \<Rightarrow> Inr \<lparr>res_parent = nparent up, res_name = str ''.'', res_node = Some (nparent n)\<rparr>)
             else resolve_walk v rest (nparent n) follow_last depth)
          else
            (case nkind n of
               Dir entries \<Rightarrow>
                 (let next_node = map_of entries component;
                      found = Inr \<lparr>res_parent = current, res_name = component, res_node = next_node\<rparr>
                  in if rest = [] then
                       (if follow_last then
                          (case next_node of
                             None \<Rightarrow> found
                           | Some i \<Rightarrow>
                               (case node_at v i of
                                  None \<Rightarrow> Inl Panicked
                                | Some nd \<Rightarrow>
                                    (case nkind nd of
                                       Symlink target \<Rightarrow> resolve_depth v current (vdata target) True (depth + 1)
                                     | _ \<Rightarrow> found)))
                        else found)
                     else
                       (case next_node of
                          None \<Rightarrow> Inl (Err ENOENT)
                        | Some i \<Rightarrow>
                            (case node_at v i of
                               None \<Rightarrow> Inl Panicked
                             | Some nd \<Rightarrow>
                                 (case nkind nd of
                                    Symlink target \<Rightarrow>
                                      (case resolve_depth v current (vdata target) True (depth + 1) of
                                         Inl e \<Rightarrow> Inl e
                                       | Inr r \<Rightarrow>
                                           (case res_node r of
                                              None \<Rightarrow> Inl (Err ENOENT)
                                            | Some j \<Rightarrow>
                                                (case vfs_is_dir v j of
                                                   Panic \<Rightarrow> Inl Panicked
                                                 | Ret False \<Rightarrow> Inl (Err ENOTDIR)
                                                 | Ret True \<Rightarrow> resolve_walk v rest j follow_last depth)))
                                  | Dir _ \<Rightarrow> resolve_walk v rest i follow_last depth
                                  | _ \<Rightarrow> Inl (Err ENOTDIR)))))
             | _ \<Rightarrow> Inl (Err ENOTDIR)))"
  by pat_completeness auto
termination
  by (relation "inv_image (less_than <*lex*> less_than)
      (\<lambda>x. case x of Inl (v, start, path, follow, depth) \<Rightarrow> (2 * (9 - depth), 0)
        | Inr (v, comps, current, follow, depth) \<Rightarrow> (2 * (8 - depth) + 1, length comps))") auto

declare resolve_depth.simps [simp del] resolve_walk.simps(2) [simp del]

definition vfs_resolve :: "vfs \<Rightarrow> nat \<Rightarrow> bytes \<Rightarrow> bool \<Rightarrow> fault + resolved" where
  "vfs_resolve v start path follow_last =
     (if path = [] then Inl (Err ENOENT) else resolve_depth v start path follow_last 0)"

section \<open>Namespace operations\<close>

text \<open>A name is gone: the node loses a link, and at zero links it joins the unlinked list once.
  Shared by \<^verbatim>\<open>add_node\<close>, \<^verbatim>\<open>unlink\<close> and \<^verbatim>\<open>rename\<close>.\<close>

definition drop_link :: "nat \<Rightarrow> vfs \<Rightarrow> (fault + unit) \<times> vfs" where
  "drop_link i v =
     (case node_at v i of
        None \<Rightarrow> (Inl Panicked, v)
      | Some n \<Rightarrow>
          let left = saturating_sub (nnlink n) 1;
              v = set_node i (n\<lparr>nnlink := left\<rparr>) v
          in (Inr (), if left = 0 \<and> i \<notin> set (vunlinked v) then v\<lparr>vunlinked := vunlinked v @ [i]\<rparr> else v))"

primrec mkdir_walk :: "bytes list \<Rightarrow> nat \<Rightarrow> vfs \<Rightarrow> (fault + nat) \<times> vfs" where
  "mkdir_walk [] current v = (Inr current, v)"
| "mkdir_walk (component # rest) current v =
     (case node_at v current of
        None \<Rightarrow> (Inl Panicked, v)
      | Some n \<Rightarrow>
          if component = str ''..'' then mkdir_walk rest (nparent n) v
          else
            (case nkind n of
               Dir entries \<Rightarrow>
                 (case map_of entries component of
                    Some i \<Rightarrow>
                      (case vfs_is_dir v i of
                         Panic \<Rightarrow> (Inl Panicked, v)
                       | Ret False \<Rightarrow> (Inl (Err ENOTDIR), v)
                       | Ret True \<Rightarrow> mkdir_walk rest i v)
                  | None \<Rightarrow>
                      (case vfs_alloc \<lparr>nkind = Dir [], nmode = 0x1ED, nnlink = 2, nmtime = 0,
                           nparent = current\<rparr> v of
                         (i, v) \<Rightarrow> mkdir_walk rest i (set_entries current (bt_insert component i entries) v)))
             | _ \<Rightarrow> (Inl (Err ENOTDIR), v)))"

definition mkdir_p :: "bytes \<Rightarrow> vfs \<Rightarrow> (fault + nat) \<times> vfs" where
  "mkdir_p path v = mkdir_walk (components path) ROOT v"

definition occupied_by_a_directory :: "vfs \<Rightarrow> bytes \<Rightarrow> bool run" where
  "occupied_by_a_directory v path =
     (case vfs_resolve v ROOT path False of
        Inl Panicked \<Rightarrow> Panic
      | Inl (Err _) \<Rightarrow> Ret False
      | Inr r \<Rightarrow> (case res_node r of None \<Rightarrow> Ret False | Some i \<Rightarrow> vfs_is_dir v i))"

definition initial_nlink :: "node_kind \<Rightarrow> u64" where
  "initial_nlink k = (if is_dir_kind k then 2 else 1)"

text \<open>The tail of \<^verbatim>\<open>add_node\<close>: the new node takes the name, a displaced node loses a link.\<close>

definition place_node :: "resolved \<Rightarrow> node \<Rightarrow> vfs \<Rightarrow> (fault + nat) \<times> vfs" where
  "place_node r n v =
     (case vfs_alloc n v of
        (i, v) \<Rightarrow>
          (case node_at v (res_parent r) of
             None \<Rightarrow> (Inl Panicked, v)
           | Some p \<Rightarrow>
               (case nkind p of
                  Dir entries \<Rightarrow>
                    (let w = set_entries (res_parent r) (bt_insert (res_name r) i entries) v in
                     case map_of entries (res_name r) of
                       None \<Rightarrow> (Inr i, w)
                     | Some displaced \<Rightarrow>
                         (case drop_link displaced w of
                            (Inl e, w) \<Rightarrow> (Inl e, w)
                          | (Inr _, w) \<Rightarrow> (Inr i, w)))
                | _ \<Rightarrow> (Inl (Err ENOTDIR), v))))"

definition add_node :: "bytes \<Rightarrow> node_kind \<Rightarrow> u32 \<Rightarrow> vfs \<Rightarrow> (fault + nat) \<times> vfs" where
  "add_node path kind mode v =
     (case (if is_dir_kind kind then Ret False else occupied_by_a_directory v path) of
        Panic \<Rightarrow> (Inl Panicked, v)
      | Ret True \<Rightarrow> (Inl (Err EISDIR), v)
      | Ret False \<Rightarrow>
          let parent_path_len = (case rposition (\<lambda>b. b = 47) path of None \<Rightarrow> 0 | Some i \<Rightarrow> i) in
          (case mkdir_p (take parent_path_len path) v of
             (Inl e, v) \<Rightarrow> (Inl e, v)
           | (Inr _, v) \<Rightarrow>
               (case vfs_resolve v ROOT path False of
                  Inl e \<Rightarrow> (Inl e, v)
                | Inr r \<Rightarrow>
                    place_node r \<lparr>nkind = kind, nmode = mode, nnlink = initial_nlink kind, nmtime = 0,
                      nparent = res_parent r\<rparr> v)))"

definition add_chunked_file :: "bytes \<Rightarrow> chunked_file \<Rightarrow> u32 \<Rightarrow> vfs \<Rightarrow> (fault + nat) \<times> vfs" where
  "add_chunked_file path f mode v = add_node path (ChunkedFile f) mode v"

definition create_file_with_capacity ::
  "(nat \<Rightarrow> bool) \<Rightarrow> bytes \<Rightarrow> nat \<Rightarrow> u32 \<Rightarrow> vfs \<Rightarrow> (fault + nat) \<times> vfs" where
  "create_file_with_capacity grants path capacity mode v =
     (case vec_try_reserve_exact grants vec_new capacity of
        None \<Rightarrow> (Inl (Err ENOMEM), v)
      | Some data \<Rightarrow> add_node path (File data) mode v)"

definition set_kind :: "nat \<Rightarrow> node_kind \<Rightarrow> vfs \<Rightarrow> vfs" where
  "set_kind i k v = set_node i ((vnodes v ! i)\<lparr>nkind := k\<rparr>) v"

definition append_file :: "(nat \<Rightarrow> bool) \<Rightarrow> bytes \<Rightarrow> bytes \<Rightarrow> vfs \<Rightarrow> (fault + unit) \<times> vfs" where
  "append_file grants path bs v =
     (case vfs_resolve v ROOT path True of
        Inl e \<Rightarrow> (Inl e, v)
      | Inr r \<Rightarrow>
          (case res_node r of
             None \<Rightarrow> (Inl (Err ENOENT), v)
           | Some i \<Rightarrow>
               (case node_at v i of
                  None \<Rightarrow> (Inl Panicked, v)
                | Some n \<Rightarrow>
                    (case nkind n of
                       File data \<Rightarrow>
                         (case vec_try_reserve grants data (length bs) of
                            None \<Rightarrow> (Inl (Err ENOMEM), v)
                          | Some data \<Rightarrow> (Inr (), set_kind i (File (vec_extend data bs)) v))
                     | _ \<Rightarrow> (Inl (Err EISDIR), v)))))"

definition vfs_create :: "nat \<Rightarrow> bytes \<Rightarrow> node_kind \<Rightarrow> u32 \<Rightarrow> vfs \<Rightarrow> (fault + nat) \<times> vfs" where
  "vfs_create parent name kind mode v =
     (if name = [] \<or> name = str ''.'' \<or> name = str ''..'' then (Inl (Err EEXIST), v)
      else (case vfs_reserve v (data_len kind) of
          Inl e \<Rightarrow> (Inl e, v)
        | Inr _ \<Rightarrow>
            (case vfs_alloc \<lparr>nkind = kind, nmode = mode, nnlink = initial_nlink kind, nmtime = 0,
                 nparent = parent\<rparr> v of
               (i, v) \<Rightarrow>
                 (case node_at v parent of
                    None \<Rightarrow> (Inl Panicked, v)
                  | Some p \<Rightarrow>
                      (case nkind p of
                         Dir entries \<Rightarrow>
                           if map_of entries name \<noteq> None then (Inl (Err EEXIST), v)
                           else (Inr i, set_entries parent (bt_insert name i entries) v)
                       | _ \<Rightarrow> (Inl (Err ENOTDIR), v))))))"

definition vfs_link :: "nat \<Rightarrow> bytes \<Rightarrow> nat \<Rightarrow> vfs \<Rightarrow> (fault + unit) \<times> vfs" where
  "vfs_link parent name i v =
     (case node_at v parent of
        None \<Rightarrow> (Inl Panicked, v)
      | Some p \<Rightarrow>
          (case nkind p of
             Dir entries \<Rightarrow>
               if map_of entries name \<noteq> None then (Inl (Err EEXIST), v)
               else let v = set_entries parent (bt_insert name i entries) v in
                 (case node_at v i of
                    None \<Rightarrow> (Inl Panicked, v)
                  | Some n \<Rightarrow> (Inr (), set_node i (n\<lparr>nnlink := nnlink n + 1\<rparr>) v))
           | _ \<Rightarrow> (Inl (Err ENOTDIR), v)))"

text \<open>What stops a removal: \<^verbatim>\<open>unlink\<close> of a directory, \<^verbatim>\<open>rmdir\<close> of a file or of a directory that
  has entries.\<close>

definition unlink_refusal :: "node_kind \<Rightarrow> bool \<Rightarrow> errno option" where
  "unlink_refusal kind rmdir =
     (case kind of
        Dir children \<Rightarrow> if \<not> rmdir then Some EISDIR else if children \<noteq> [] then Some ENOTEMPTY else None
      | _ \<Rightarrow> if rmdir then Some ENOTDIR else None)"

definition vfs_unlink :: "nat \<Rightarrow> bytes \<Rightarrow> bool \<Rightarrow> vfs \<Rightarrow> (fault + unit) \<times> vfs" where
  "vfs_unlink parent name rmdir v =
     (case node_at v parent of
        None \<Rightarrow> (Inl Panicked, v)
      | Some p \<Rightarrow>
          (case nkind p of
             Dir entries \<Rightarrow>
               (case map_of entries name of
                  None \<Rightarrow> (Inl (Err ENOENT), v)
                | Some i \<Rightarrow>
                    (case node_at v i of
                       None \<Rightarrow> (Inl Panicked, v)
                     | Some n \<Rightarrow>
                         (case unlink_refusal (nkind n) rmdir of
                            Some e \<Rightarrow> (Inl (Err e), v)
                          | None \<Rightarrow> drop_link i (set_entries parent (bt_remove name entries) v))))
           | _ \<Rightarrow> (Inl (Err ENOTDIR), v)))"

text \<open>\<^verbatim>\<open>rename\<close>: the refusals, then the move.\<close>

definition rename_moves :: "nat \<Rightarrow> bytes \<Rightarrow> nat \<Rightarrow> bytes \<Rightarrow> nat \<Rightarrow> vfs \<Rightarrow> (fault + unit) \<times> vfs" where
  "rename_moves old_parent old_name new_parent new_name i v =
     (case node_at v old_parent of
        None \<Rightarrow> (Inl Panicked, v)
      | Some p \<Rightarrow>
          (case nkind p of
             Dir entries \<Rightarrow>
               (let v = set_entries old_parent (bt_remove old_name entries) v in
                case node_at v new_parent of
                  None \<Rightarrow> (Inl Panicked, v)
                | Some q \<Rightarrow>
                    (case nkind q of
                       Dir entries \<Rightarrow>
                         (let w = set_entries new_parent (bt_insert new_name i entries) v in
                          case (case map_of entries new_name of
                                  None \<Rightarrow> (Inr (), w)
                                | Some displaced \<Rightarrow> if displaced \<noteq> i then drop_link displaced w else (Inr (), w)) of
                            (Inl e, w) \<Rightarrow> (Inl e, w)
                          | (Inr _, w) \<Rightarrow>
                              (case node_at w i of
                                 None \<Rightarrow> (Inl Panicked, w)
                               | Some n \<Rightarrow> (Inr (), set_node i (n\<lparr>nparent := new_parent\<rparr>) w)))
                     | _ \<Rightarrow> (Inl (Err ENOTDIR), v)))
           | _ \<Rightarrow> (Inl (Err ENOTDIR), v)))"

definition vfs_rename :: "nat \<Rightarrow> bytes \<Rightarrow> nat \<Rightarrow> bytes \<Rightarrow> vfs \<Rightarrow> (fault + unit) \<times> vfs" where
  "vfs_rename old_parent old_name new_parent new_name v =
     (case node_at v old_parent of
        None \<Rightarrow> (Inl Panicked, v)
      | Some p \<Rightarrow>
          (case nkind p of
             Dir entries \<Rightarrow>
               (case map_of entries old_name of
                  None \<Rightarrow> (Inl (Err ENOENT), v)
                | Some i \<Rightarrow>
                    (case node_at v new_parent of
                       None \<Rightarrow> (Inl Panicked, v)
                     | Some q \<Rightarrow>
                         (case nkind q of
                            Dir new_entries \<Rightarrow>
                              (case map_of new_entries new_name of
                                 None \<Rightarrow> rename_moves old_parent old_name new_parent new_name i v
                               | Some existing \<Rightarrow>
                                   (case node_at v existing of
                                      None \<Rightarrow> (Inl Panicked, v)
                                    | Some e \<Rightarrow>
                                        (case nkind e of
                                           Dir children \<Rightarrow>
                                             if children \<noteq> [] then (Inl (Err ENOTEMPTY), v)
                                             else rename_moves old_parent old_name new_parent new_name i v
                                         | _ \<Rightarrow> rename_moves old_parent old_name new_parent new_name i v)))
                          | _ \<Rightarrow> (Inl (Err ENOTDIR), v))))
           | _ \<Rightarrow> (Inl (Err ENOTDIR), v)))"

definition vfs_list :: "vfs \<Rightarrow> nat \<Rightarrow> fault + (bytes \<times> nat) list" where
  "vfs_list v dir =
     (case node_at v dir of
        None \<Rightarrow> Inl Panicked
      | Some n \<Rightarrow>
          (case nkind n of
             Dir entries \<Rightarrow> Inr ([(str ''.'', dir), (str ''..'', nparent n)] @ entries)
           | _ \<Rightarrow> Inl (Err ENOTDIR)))"

text \<open>The climb of \<^verbatim>\<open>abs_path_of\<close>, which the source bounds by the segments found and not by the
  steps taken: \<open>None\<close> is a climb that never ends.\<close>

definition climb_segment :: "node \<Rightarrow> nat \<Rightarrow> bytes list" where
  "climb_segment p current =
     (case nkind p of
        Dir es \<Rightarrow> (case find (\<lambda>e. snd e = current) es of None \<Rightarrow> [] | Some e \<Rightarrow> [fst e])
      | _ \<Rightarrow> [])"

partial_function (option) abs_climb :: "vfs \<Rightarrow> nat \<Rightarrow> bytes list \<Rightarrow> bytes list run option" where
  "abs_climb v current segments =
     (if current \<noteq> ROOT \<and> length segments < 256 then
        (case node_at v current of
           None \<Rightarrow> Some Panic
         | Some n \<Rightarrow>
             (case node_at v (nparent n) of
                None \<Rightarrow> Some Panic
              | Some p \<Rightarrow> abs_climb v (nparent n) (segments @ climb_segment p current)))
      else Some (Ret segments))"

definition path_of_segments :: "bytes list \<Rightarrow> bytes" where
  "path_of_segments segments =
     (let path = concat (map (\<lambda>s. 47 # s) (rev segments)) in if path = [] then [47] else path)"

definition abs_path_of :: "vfs \<Rightarrow> nat \<Rightarrow> bytes run option" where
  "abs_path_of v i =
     (if i = ROOT then Some (Ret [47])
      else (case abs_climb v i [] of
          None \<Rightarrow> None
        | Some Panic \<Rightarrow> Some Panic
        | Some (Ret segments) \<Rightarrow> Some (Ret (path_of_segments segments))))"

section \<open>Unlinked contents\<close>

definition has_unlinked :: "vfs \<Rightarrow> bool" where
  "has_unlinked v \<longleftrightarrow> vunlinked v \<noteq> []"

primrec release_loop :: "nat set \<Rightarrow> nat list \<Rightarrow> nat list \<Rightarrow> nat \<Rightarrow> vfs \<Rightarrow> nat \<times> vfs" where
  "release_loop referenced [] still_open freed v = (freed, v\<lparr>vunlinked := still_open\<rparr>)"
| "release_loop referenced (i # rest) still_open freed v =
     (if i \<in> referenced then release_loop referenced rest (still_open @ [i]) freed v
      else (case node_at v i of
          None \<Rightarrow> release_loop referenced rest still_open freed v
        | Some n \<Rightarrow>
            release_loop referenced rest still_open (freed + data_len (nkind n))
              (set_kind i (File vec_new) v)))"

definition release_unreferenced :: "nat set \<Rightarrow> vfs \<Rightarrow> nat \<times> vfs" where
  "release_unreferenced referenced v = release_loop referenced (vunlinked v) [] 0 (v\<lparr>vunlinked := []\<rparr>)"

section \<open>Chunks and file contents\<close>

datatype put_error = OverBudget | Rejected chunk_error

definition put_chunk :: "hash \<Rightarrow> rvec \<Rightarrow> vfs \<Rightarrow> put_error + vfs" where
  "put_chunk expected bs v =
     (case (if cs_contains (vchunks v) expected then Inr () else vfs_reserve v (vcap bs)) of
        Inl _ \<Rightarrow> Inl OverBudget
      | Inr _ \<Rightarrow>
          (case cs_insert expected bs (vchunks v) of
             Inl e \<Rightarrow> Inl (Rejected e)
           | Inr st \<Rightarrow> Inr (v\<lparr>vchunks := st\<rparr>)))"

definition has_chunk :: "vfs \<Rightarrow> hash \<Rightarrow> bool" where
  "has_chunk v h = cs_contains (vchunks v) h"

definition chunk_bytes :: "vfs \<Rightarrow> nat" where
  "chunk_bytes v = cs_bytes (vchunks v)"

definition set_manifest_root :: "hash option \<Rightarrow> vfs \<Rightarrow> vfs" where
  "set_manifest_root root v = v\<lparr>vmanifest_root := root\<rparr>"

definition first_missing_file_chunk :: "vfs \<Rightarrow> nat \<Rightarrow> fault + hash option" where
  "first_missing_file_chunk v i =
     (case node_at v i of
        None \<Rightarrow> Inl (Err ENOENT)
      | Some n \<Rightarrow>
          (case nkind n of
             File _ \<Rightarrow> Inr None
           | ChunkedFile f \<Rightarrow> Inr (cs_first_missing (vchunks v) f)
           | Dir _ \<Rightarrow> Inl (Err EISDIR)
           | _ \<Rightarrow> Inl (Err EINVAL)))"

definition run_fault :: "'a run \<Rightarrow> fault + 'a" where
  "run_fault r = (case r of Panic \<Rightarrow> Inl Panicked | Ret x \<Rightarrow> Inr x)"

definition read_node_range :: "vfs \<Rightarrow> nat \<Rightarrow> u64 \<Rightarrow> nat \<Rightarrow> fault + read_range" where
  "read_node_range v i offset len =
     (case node_at v i of
        None \<Rightarrow> Inl (Err ENOENT)
      | Some n \<Rightarrow>
          (case nkind n of
             File data \<Rightarrow>
               (let start = min (unat offset) (length (vdata data));
                    stop = min (usize_sat_add start len) (length (vdata data))
                in Inr (Ready (take (stop - start) (drop start (vdata data)))))
           | ChunkedFile f \<Rightarrow> run_fault (cs_read_range (vchunks v) f offset len)
           | Dir _ \<Rightarrow> Inl (Err EISDIR)
           | _ \<Rightarrow> Inl (Err EINVAL)))"

definition materialize_file :: "nat \<Rightarrow> vfs \<Rightarrow> (fault + rvec) \<times> vfs" where
  "materialize_file i v =
     (case node_at v i of
        None \<Rightarrow> (Inl (Err ENOENT), v)
      | Some n \<Rightarrow>
          (case nkind n of
             File data \<Rightarrow> (Inr data, v)
           | ChunkedFile f \<Rightarrow>
               (case cs_read_range (vchunks v) f 0 usize_max of
                  Panic \<Rightarrow> (Inl Panicked, v)
                | Ret (Missing _) \<Rightarrow> (Inl (Err EIO), v)
                | Ret (Invalid _ _ _) \<Rightarrow> (Inl (Err EIO), v)
                | Ret (Ready bs) \<Rightarrow>
                    (case vfs_reserve v (vcap (vec_of bs)) of
                       Inl e \<Rightarrow> (Inl e, v)
                     | Inr _ \<Rightarrow> (Inr (vec_of bs), set_kind i (File (vec_of bs)) v)))
           | Dir _ \<Rightarrow> (Inl (Err EISDIR), v)
           | _ \<Rightarrow> (Inl (Err EINVAL), v)))"

definition topology_kind :: "node_kind \<Rightarrow> node_kind" where
  "topology_kind k = (case k of File _ \<Rightarrow> File vec_new
     | Symlink target \<Rightarrow> Symlink (vec_of (vdata target)) | _ \<Rightarrow> k)"

definition topology_only :: "vfs \<Rightarrow> vfs" where
  "topology_only v =
     \<lparr>vnodes = map (\<lambda>n. n\<lparr>nkind := topology_kind (nkind n)\<rparr>) (vnodes v), vchunks = [],
      vmanifest_root = vmanifest_root v, vbudget = None, vunlinked = vunlinked v\<rparr>"

text \<open>The node a path names, followed to its end; \<^verbatim>\<open>None\<close> on any error.\<close>

definition named_node :: "vfs \<Rightarrow> bytes \<Rightarrow> nat option run" where
  "named_node v path =
     (case vfs_resolve v ROOT path True of
        Inl Panicked \<Rightarrow> Panic
      | Inl (Err _) \<Rightarrow> Ret None
      | Inr r \<Rightarrow> Ret (case res_node r of None \<Rightarrow> None
          | Some i \<Rightarrow> if i < length (vnodes v) then Some i else None))"

definition read_file :: "vfs \<Rightarrow> bytes \<Rightarrow> bytes option run" where
  "read_file v path =
     (case named_node v path of
        Panic \<Rightarrow> Panic
      | Ret None \<Rightarrow> Ret None
      | Ret (Some i) \<Rightarrow> Ret (case nkind (vnodes v ! i) of File data \<Rightarrow> Some (vdata data) | _ \<Rightarrow> None))"

definition take_file_contents :: "bytes \<Rightarrow> vfs \<Rightarrow> (rvec option \<times> vfs) run" where
  "take_file_contents path v =
     (case named_node v path of
        Panic \<Rightarrow> Panic
      | Ret None \<Rightarrow> Ret (None, v)
      | Ret (Some i) \<Rightarrow>
          Ret (case nkind (vnodes v ! i) of
                 File data \<Rightarrow> (Some data, set_kind i (File vec_new) v)
               | _ \<Rightarrow> (None, v)))"

definition put_file_contents :: "bytes \<Rightarrow> rvec \<Rightarrow> vfs \<Rightarrow> vfs run" where
  "put_file_contents path data v =
     (case named_node v path of
        Panic \<Rightarrow> Panic
      | Ret None \<Rightarrow> Ret v
      | Ret (Some i) \<Rightarrow>
          Ret (case nkind (vnodes v ! i) of File _ \<Rightarrow> set_kind i (File data) v | _ \<Rightarrow> v))"

section \<open>The initial tree\<close>

definition vfs_root_only :: vfs where
  "vfs_root_only =
     \<lparr>vnodes = [\<lparr>nkind = Dir [], nmode = 0x1ED, nnlink = 2, nmtime = 0, nparent = ROOT\<rparr>],
      vchunks = [], vmanifest_root = None, vbudget = None, vunlinked = []\<rparr>"

definition vfs_new :: vfs where
  "vfs_new =
     (let v = fold (\<lambda>dir v. snd (mkdir_p (str dir) v))
            [''/bin'', ''/dev'', ''/dev/pts'', ''/etc'', ''/home'', ''/tmp'', ''/usr'', ''/usr/bin'', ''/var'']
            vfs_root_only
      in fold (\<lambda>(path, dev) v. snd (add_node (str path) (CharDev dev) 0x1B6 v))
           [(''/dev/null'', DevNull), (''/dev/zero'', DevZero), (''/dev/tty'', DevTty),
            (''/dev/urandom'', DevRandom), (''/dev/ptmx'', DevPtmx)] v)"

end
