(* ===== verification/VfsInv.thy ===== *)
theory VfsInv
  imports Vfs
begin

text \<open>
  The invariant of the file system and its preservation. Three parts: every index stored in
  the arena is in range and every directory map is ordered (so nothing panics); the link count
  of a node is never below the number of names it has, plus one for a directory (so contents
  are never released while a name reaches them); unlinked nodes have no link left.
\<close>

named_theorems vfs_simps \<open>the effect of the arena primitives\<close>

section \<open>The invariant\<close>

fun kind_ok :: "nat \<Rightarrow> node_kind \<Rightarrow> bool" where
  "kind_ok bound (Dir es) \<longleftrightarrow> bt_ok es \<and> (\<forall>e \<in> set es. snd e < bound)"
| "kind_ok bound (File data) \<longleftrightarrow> vec_ok data"
| "kind_ok bound (ChunkedFile f) \<longleftrightarrow> cf_ok f"
| "kind_ok bound (Symlink target) \<longleftrightarrow> vec_ok target"
| "kind_ok bound (CharDev d) \<longleftrightarrow> True"

definition node_ok :: "nat \<Rightarrow> node \<Rightarrow> bool" where
  "node_ok bound n \<longleftrightarrow> nparent n < bound \<and> kind_ok bound (nkind n)"

abbreviation vsize :: "vfs \<Rightarrow> nat" where
  "vsize v \<equiv> length (vnodes v)"

definition vfs_ok :: "vfs \<Rightarrow> bool" where
  "vfs_ok v \<longleftrightarrow> vnodes v \<noteq> [] \<and> (\<forall>n \<in> set (vnodes v). node_ok (vsize v) n) \<and>
     (\<forall>i \<in> set (vunlinked v). i < vsize v) \<and> distinct (vunlinked v) \<and> cs_ok (vchunks v)"

text \<open>The number of directory entries that name a node.\<close>

definition names_in :: "nat \<Rightarrow> (bytes, nat) btree \<Rightarrow> nat" where
  "names_in i es = length (filter (\<lambda>e. snd e = i) es)"

definition names_of :: "nat \<Rightarrow> node \<Rightarrow> nat" where
  "names_of i n = (case nkind n of Dir es \<Rightarrow> names_in i es | _ \<Rightarrow> 0)"

definition refs :: "vfs \<Rightarrow> nat \<Rightarrow> nat" where
  "refs v i = sum_list (map (names_of i) (vnodes v))"

definition self_link :: "node \<Rightarrow> nat" where
  "self_link n = (if is_dir_kind (nkind n) then 1 else 0)"

lemma self_link_upd [simp]: "self_link (n\<lparr>nnlink := x\<rparr>) = self_link n" "self_link (n\<lparr>nparent := p\<rparr>) = self_link n"
  and names_of_upd [simp]: "names_of i (n\<lparr>nnlink := x\<rparr>) = names_of i n" "names_of i (n\<lparr>nparent := p\<rparr>) = names_of i n"
  by (simp_all add: self_link_def names_of_def)

definition links_ok :: "vfs \<Rightarrow> bool" where
  "links_ok v \<longleftrightarrow> (\<forall>i < vsize v. refs v i + self_link (vnodes v ! i) \<le> unat (nnlink (vnodes v ! i))) \<and>
     (\<forall>i \<in> set (vunlinked v). nnlink (vnodes v ! i) = 0)"

definition root_ok :: "vfs \<Rightarrow> bool" where
  "root_ok v \<longleftrightarrow> is_dir_kind (nkind (vnodes v ! ROOT))"

definition vfs_inv :: "vfs \<Rightarrow> bool" where
  "vfs_inv v \<longleftrightarrow> vfs_ok v \<and> links_ok v \<and> root_ok v"

text \<open>
  Inside an operation a node may have a link to spare: between the removal of a name and the
  decrement, or between an allocation and the first name. \<open>inv_with su\<close> is the invariant with
  \<open>su i\<close> spare links on node \<open>i\<close>.
\<close>

definition spare :: "(nat \<Rightarrow> nat) \<Rightarrow> vfs \<Rightarrow> bool" where
  "spare su v \<longleftrightarrow>
     (\<forall>i < vsize v. refs v i + self_link (vnodes v ! i) + su i \<le> unat (nnlink (vnodes v ! i))) \<and>
     (\<forall>i \<in> set (vunlinked v). nnlink (vnodes v ! i) = 0)"

definition inv_with :: "(nat \<Rightarrow> nat) \<Rightarrow> vfs \<Rightarrow> bool" where
  "inv_with su v \<longleftrightarrow> vfs_ok v \<and> spare su v \<and> root_ok v"

lemma vfs_inv_iff: "vfs_inv v \<longleftrightarrow> inv_with (\<lambda>_. 0) v"
  by (simp add: vfs_inv_def inv_with_def links_ok_def spare_def)

lemma inv_with_mono:
  assumes "inv_with su v" and "\<And>i. su' i \<le> su i"
  shows "inv_with su' v"
proof -
  have "refs v i + self_link (vnodes v ! i) + su' i \<le> unat (nnlink (vnodes v ! i))"
    if "i < vsize v" for i
  proof -
    have "refs v i + self_link (vnodes v ! i) + su i \<le> unat (nnlink (vnodes v ! i))"
      using assms(1) that by (simp add: inv_with_def spare_def)
    then show ?thesis using assms(2) [of i] by linarith
  qed
  then show ?thesis using assms(1) by (simp add: inv_with_def spare_def)
qed

lemma vfs_inv_of: "inv_with su v \<Longrightarrow> vfs_inv v"
  unfolding vfs_inv_iff by (erule inv_with_mono) simp

section \<open>Arena primitives\<close>

lemma node_at_Some: "node_at v i = Some n \<longleftrightarrow> i < vsize v \<and> n = vnodes v ! i"
  by (auto simp: node_at_def)

lemma node_at_None: "node_at v i = None \<longleftrightarrow> vsize v \<le> i"
  by (auto simp: node_at_def)

lemma set_node_fields [simp, vfs_simps]:
  "vsize (set_node i n v) = vsize v" "vunlinked (set_node i n v) = vunlinked v"
  "vchunks (set_node i n v) = vchunks v" "vbudget (set_node i n v) = vbudget v"
  "vnodes (set_node i n v) = (vnodes v)[i := n]" "vmanifest_root (set_node i n v) = vmanifest_root v"
  by (simp_all add: set_node_def)

lemma node_ok_mono: "node_ok b n \<Longrightarrow> b \<le> c \<Longrightarrow> node_ok c n"
  by (cases "nkind n") (auto simp: node_ok_def)

lemma node_ok_Suc: "node_ok b n \<Longrightarrow> node_ok (Suc b) n"
  using node_ok_mono [of b n "Suc b"] by simp

lemma vfs_ok_node: "vfs_ok v \<Longrightarrow> i < vsize v \<Longrightarrow> node_ok (vsize v) (vnodes v ! i)"
  by (auto simp: vfs_ok_def)

lemma vfs_ok_parent: "vfs_ok v \<Longrightarrow> i < vsize v \<Longrightarrow> nparent (vnodes v ! i) < vsize v"
  using vfs_ok_node by (auto simp: node_ok_def)

lemma vfs_ok_dir:
  "vfs_ok v \<Longrightarrow> i < vsize v \<Longrightarrow> nkind (vnodes v ! i) = Dir es \<Longrightarrow> bt_ok es \<and> (\<forall>e \<in> set es. snd e < vsize v)"
  using vfs_ok_node [of v i] by (auto simp: node_ok_def)

lemma vfs_ok_child:
  "vfs_ok v \<Longrightarrow> i < vsize v \<Longrightarrow> nkind (vnodes v ! i) = Dir es \<Longrightarrow> map_of es nm = Some k \<Longrightarrow> k < vsize v"
  using vfs_ok_dir by (fastforce dest: map_of_SomeD)

lemma vfs_ok_set_node: "vfs_ok v \<Longrightarrow> node_ok (vsize v) n \<Longrightarrow> vfs_ok (set_node i n v)"
  by (auto simp: vfs_ok_def dest!: set_update_subset_insert [THEN subsetD])

lemma vfs_ok_alloc:
  "vfs_ok v \<Longrightarrow> node_ok (Suc (vsize v)) n \<Longrightarrow> vfs_alloc n v = (i, w) \<Longrightarrow>
     vfs_ok w \<and> i = vsize v \<and> vsize w = Suc (vsize v) \<and> vnodes w ! i = n"
  using node_ok_Suc [of "vsize v"] by (auto simp: vfs_ok_def vfs_alloc_def nth_append less_Suc_eq)

lemma refs_set_node:
  "p < vsize v \<Longrightarrow> refs (set_node p n v) i + names_of i (vnodes v ! p) = refs v i + names_of i n"
proof -
  have *: "p < length xs \<Longrightarrow> sum_list (map f (xs[p := x])) + f (xs ! p) = sum_list (map f xs) + (f x :: nat)"
    for f :: "node \<Rightarrow> nat" and xs x p
  proof (induction xs arbitrary: p)
    case (Cons y ys)
    then show ?case by (cases p) auto
  qed simp
  assume "p < vsize v"
  then show ?thesis using * [of p "vnodes v" "names_of i" n] by (simp add: refs_def)
qed

lemma names_of_le_refs: "p < vsize v \<Longrightarrow> names_of i (vnodes v ! p) \<le> refs v i"
  using member_le_sum_list [of "names_of i (vnodes v ! p)" "map (names_of i) (vnodes v)"]
  by (simp add: refs_def)

lemma names_in_insert:
  "bt_ok es \<Longrightarrow> names_in i (bt_insert nm k es) + (if map_of es nm = Some i then 1 else 0) =
     names_in i es + (if i = k then 1 else 0)"
proof (induction es)
  case Nil
  then show ?case by (simp add: names_in_def)
next
  case (Cons e es)
  then have "map_of es nm = None" if "nm \<le> fst e"
    using that by (auto simp: bt_ok_Cons intro!: map_of_eq_None_less)
  with Cons show ?case
    by (cases e; cases "i = k") (auto simp: names_in_def bt_ok_Cons)
qed

lemma names_in_remove:
  "bt_ok es \<Longrightarrow> names_in i (bt_remove nm es) + (if map_of es nm = Some i then 1 else 0) = names_in i es"
proof (induction es)
  case Nil
  then show ?case by (simp add: names_in_def bt_remove_def)
next
  case (Cons e es)
  then have same: "bt_remove nm es = es" and none: "map_of es nm = None" if "nm = fst e"
    using that by (auto simp: bt_ok_Cons bt_remove_def filter_id_conv intro!: map_of_eq_None_less)
  show ?case
  proof (cases "nm = fst e")
    case True
    then show ?thesis using same none by (cases e) (auto simp: names_in_def bt_remove_def)
  next
    case False
    then show ?thesis using Cons by (cases e) (auto simp: names_in_def bt_remove_def bt_ok_Cons)
  qed
qed

section \<open>The invariant under the primitives\<close>

lemma inv_root: "inv_with su v \<Longrightarrow> ROOT < vsize v"
  by (auto simp: inv_with_def vfs_ok_def ROOT_def)

lemma inv_ok: "inv_with su v \<Longrightarrow> vfs_ok v"
  by (simp add: inv_with_def)

lemma refs_fresh: "vfs_ok v \<Longrightarrow> vsize v \<le> i \<Longrightarrow> refs v i = 0"
proof -
  assume ok: "vfs_ok v" and i: "vsize v \<le> i"
  have "names_of i n = 0" if "n \<in> set (vnodes v)" for n
  proof -
    have "node_ok (vsize v) n" using ok that by (simp add: vfs_ok_def)
    then show ?thesis
      using i by (cases "nkind n") (auto simp: names_of_def names_in_def node_ok_def filter_empty_conv)
  qed
  then show ?thesis by (simp add: refs_def cong: map_cong)
qed

text \<open>A node replaced by one with the same names, as many links and the same directory bit.\<close>

lemma inv_set_node:
  assumes "inv_with su v" and "i < vsize v" and "node_ok (vsize v) n"
    and "\<And>j. names_of j n = names_of j (vnodes v ! i)" and "self_link n = self_link (vnodes v ! i)"
    and "nnlink n = nnlink (vnodes v ! i)"
  shows "inv_with su (set_node i n v)"
proof -
  have "refs (set_node i n v) j = refs v j" for j
    using refs_set_node [OF assms(2), of n j] assms(4) by simp
  moreover have "is_dir_kind (nkind n) = is_dir_kind (nkind (vnodes v ! i))"
    using assms(5) by (auto simp: self_link_def split: if_splits)
  ultimately show ?thesis
    using assms by (auto simp: inv_with_def spare_def root_ok_def vfs_ok_set_node nth_list_update)
qed

lemma inv_alloc:
  assumes "inv_with su v" and "node_ok (Suc (vsize v)) n" and "\<And>j. names_of j n = 0"
    and "nnlink n = initial_nlink (nkind n)" and "vfs_alloc n v = (i, w)"
  shows "inv_with (su(i := 1)) w \<and> i = vsize v \<and> vsize w = Suc (vsize v) \<and> vnodes w = vnodes v @ [n]"
proof -
  have w: "i = vsize v" "w = v\<lparr>vnodes := vnodes v @ [n]\<rparr>"
    using assms(5) by (auto simp: vfs_alloc_def)
  have "vfs_ok w"
    using vfs_ok_alloc [OF inv_ok [OF assms(1)] assms(2,5)] by simp
  moreover have "refs w j = refs v j" for j
    using assms(3) by (simp add: w refs_def)
  moreover have "refs v (vsize v) = 0"
    using refs_fresh inv_ok assms(1) by blast
  moreover have "self_link n + 1 \<le> unat (nnlink n)"
    by (simp add: assms(4) initial_nlink_def self_link_def)
  ultimately show ?thesis
    using assms(1) inv_root [OF assms(1)]
    by (auto simp: inv_with_def spare_def root_ok_def w nth_append less_Suc_eq vfs_ok_def)
qed

lemma set_entries_fields [simp, vfs_simps]:
  "vsize (set_entries p es v) = vsize v" "vunlinked (set_entries p es v) = vunlinked v"
  "vchunks (set_entries p es v) = vchunks v" "vbudget (set_entries p es v) = vbudget v"
  by (simp_all add: set_entries_def)

lemma vnodes_set_entries: "vnodes (set_entries p es v) = (vnodes v)[p := (vnodes v ! p)\<lparr>nkind := Dir es\<rparr>]"
  by (simp add: set_entries_def)

lemma inv_set_entries:
  assumes "inv_with su v" and p: "p < vsize v" and kind: "nkind (vnodes v ! p) = Dir es"
    and "bt_ok es'" and "\<forall>e \<in> set es'. snd e < vsize v"
    and moved: "\<And>i. names_in i es' + su' i \<le> names_in i es + su i"
  shows "inv_with su' (set_entries p es' v)"
proof -
  let ?w = "set_entries p es' v"
  have ok: "vfs_ok v" using assms(1) by (rule inv_ok)
  have "vfs_ok ?w"
    unfolding set_entries_def using ok vfs_ok_parent [OF ok p] assms(4,5)
    by (intro vfs_ok_set_node) (auto simp: node_ok_def)
  moreover have "spare su' ?w"
    unfolding spare_def
  proof (intro conjI allI impI ballI)
    fix i assume i: "i < vsize ?w"
    have "refs ?w i + names_in i es = refs v i + names_in i es'"
      using refs_set_node [OF p, of "(vnodes v ! p)\<lparr>nkind := Dir es'\<rparr>" i] kind
      by (simp add: set_entries_def names_of_def)
    moreover have "refs v i + self_link (vnodes v ! i) + su i \<le> unat (nnlink (vnodes v ! i))"
      using assms(1) i by (simp add: inv_with_def spare_def)
    moreover have "self_link (vnodes ?w ! i) = self_link (vnodes v ! i)"
      and "nnlink (vnodes ?w ! i) = nnlink (vnodes v ! i)"
      using p kind by (auto simp: vnodes_set_entries nth_list_update self_link_def is_dir_kind_def)
    ultimately show "refs ?w i + self_link (vnodes ?w ! i) + su' i \<le> unat (nnlink (vnodes ?w ! i))"
      using moved [of i] by simp
  next
    fix i assume "i \<in> set (vunlinked ?w)"
    then have "nnlink (vnodes v ! i) = 0"
      using assms(1) by (auto simp: inv_with_def spare_def)
    then show "nnlink (vnodes ?w ! i) = 0"
      using p by (simp add: vnodes_set_entries nth_list_update)
  qed
  moreover have "root_ok ?w"
    using assms(1) p by (auto simp: inv_with_def root_ok_def vnodes_set_entries nth_list_update is_dir_kind_def)
  ultimately show ?thesis
    by (simp add: inv_with_def)
qed

lemma inv_insert:
  assumes "inv_with su v" and "p < vsize v" and "nkind (vnodes v ! p) = Dir es" and "k < vsize v"
    and "1 \<le> su k"
  shows "inv_with (\<lambda>i. (if i = k then su i - 1 else su i) + (if map_of es nm = Some i then 1 else 0))
    (set_entries p (bt_insert nm k es) v)"
proof (rule inv_set_entries [OF assms(1-3)])
  have es: "bt_ok es" "\<forall>e \<in> set es. snd e < vsize v"
    using vfs_ok_dir [OF inv_ok [OF assms(1)] assms(2,3)] by auto
  show "bt_ok (bt_insert nm k es)" using es(1) by (rule bt_ok_insert)
  show "\<forall>e \<in> set (bt_insert nm k es). snd e < vsize v"
    using es(2) assms(4) set_bt_insert [of nm k es] by auto
  show "names_in i (bt_insert nm k es) + ((if i = k then su i - 1 else su i) + (if map_of es nm = Some i then 1 else 0))
      \<le> names_in i es + su i" for i
    using names_in_insert [OF es(1), of i nm k] assms(5) by auto
qed

lemma inv_remove:
  assumes "inv_with su v" and "p < vsize v" and "nkind (vnodes v ! p) = Dir es"
  shows "inv_with (\<lambda>i. su i + (if map_of es nm = Some i then 1 else 0)) (set_entries p (bt_remove nm es) v)"
proof (rule inv_set_entries [OF assms(1-3)])
  have es: "bt_ok es" "\<forall>e \<in> set es. snd e < vsize v"
    using vfs_ok_dir [OF inv_ok [OF assms(1)] assms(2,3)] by auto
  show "bt_ok (bt_remove nm es)" using es(1) by (rule bt_ok_remove)
  show "\<forall>e \<in> set (bt_remove nm es). snd e < vsize v"
    using es(2) by (auto simp: bt_remove_def)
  show "names_in i (bt_remove nm es) + (su i + (if map_of es nm = Some i then 1 else 0)) \<le> names_in i es + su i" for i
    using names_in_remove [OF es(1), of i nm] by simp
qed

lemma inv_drop_link:
  assumes "inv_with su v" and d: "d < vsize v" and "1 \<le> su d"
  shows "\<exists>w. drop_link d v = (Inr (), w) \<and> inv_with (su(d := su d - 1)) w \<and> vsize w = vsize v \<and>
    (\<forall>i < vsize v. nkind (vnodes w ! i) = nkind (vnodes v ! i))"
proof -
  let ?n = "vnodes v ! d"
  define left where "left = saturating_sub (nnlink ?n) 1"
  define u where "u = set_node d (?n\<lparr>nnlink := left\<rparr>) v"
  define w where "w = (if left = 0 \<and> d \<notin> set (vunlinked u) then u\<lparr>vunlinked := vunlinked u @ [d]\<rparr> else u)"
  have ok: "vfs_ok v" using assms(1) by (rule inv_ok)
  have bound: "refs v d + self_link ?n + su d \<le> unat (nnlink ?n)"
    using assms(1) d by (simp add: inv_with_def spare_def)
  then have left: "unat left = unat (nnlink ?n) - 1"
    by (simp add: left_def word_nat)
  have "refs v d + self_link ?n + (su d - 1) \<le> unat left"
    using bound left assms(3) by simp
  have new: "d \<notin> set (vunlinked v)"
    using bound assms(1,3) by (auto simp: inv_with_def spare_def)
  have vn: "vnodes w = (vnodes v)[d := ?n\<lparr>nnlink := left\<rparr>]"
    and un: "vunlinked w = vunlinked v @ (if left = 0 then [d] else [])"
    using new by (simp_all add: w_def u_def)
  have "node_ok (vsize v) (?n\<lparr>nnlink := left\<rparr>)"
    using vfs_ok_node [OF ok d] by (simp add: node_ok_def)
  then have "vfs_ok u" unfolding u_def using ok by (rule vfs_ok_set_node [rotated])
  then have "vfs_ok w" using d by (auto simp: w_def vfs_ok_def u_def)
  moreover have "refs w i = refs v i" for i
    using refs_set_node [OF d, of "?n\<lparr>nnlink := left\<rparr>" i] by (simp add: refs_def vn names_of_def)
  ultimately have "inv_with (su(d := su d - 1)) w"
    using assms(1) new d \<open>refs v d + self_link ?n + (su d - 1) \<le> unat left\<close>
    by (auto simp: inv_with_def spare_def root_ok_def nth_list_update vn un)
  moreover have "drop_link d v = (Inr (), w)"
    using d by (simp add: drop_link_def node_at_def Let_def w_def u_def left_def)
  ultimately show ?thesis
    using d by (auto simp: vn nth_list_update)
qed

section \<open>Resolution stays in the arena\<close>

definition safe :: "('a \<Rightarrow> bool) \<Rightarrow> fault + 'a \<Rightarrow> bool" where
  "safe P r = (case r of Inl e \<Rightarrow> e \<noteq> Panicked | Inr x \<Rightarrow> P x)"

lemma safe_simps [simp]: "safe P (Inl e) \<longleftrightarrow> e \<noteq> Panicked" "safe P (Inr x) \<longleftrightarrow> P x"
  by (simp_all add: safe_def)

lemma safe_mono: "safe P r \<Longrightarrow> (\<And>x. P x \<Longrightarrow> Q x) \<Longrightarrow> safe Q r"
  by (cases r) auto

definition resolved_ok :: "vfs \<Rightarrow> resolved \<Rightarrow> bool" where
  "resolved_ok v r \<longleftrightarrow> res_parent r < vsize v \<and> (\<forall>i. res_node r = Some i \<longrightarrow> i < vsize v)"

lemma resolve_walk_safe_step:
  assumes ok: "vfs_ok v" and cur: "current < vsize v"
    and up: "\<And>rest'. rest = rest' \<Longrightarrow> rest \<noteq> [] \<Longrightarrow>
      safe (resolved_ok v) (resolve_walk v rest (nparent (vnodes v ! current)) follow depth)"
    and deeper: "\<And>target. safe (resolved_ok v) (resolve_depth v current target True (depth + 1))"
    and on: "\<And>j. rest \<noteq> [] \<Longrightarrow> j < vsize v \<Longrightarrow> safe (resolved_ok v) (resolve_walk v rest j follow depth)"
  shows "safe (resolved_ok v) (resolve_walk v (c # rest) current follow depth)"
proof -
  have par: "nparent (vnodes v ! i) < vsize v" if "i < vsize v" for i
    using vfs_ok_parent ok that by blast
  show ?thesis
  proof (cases "c = str ''..''")
    case True
    then show ?thesis
      using cur par up by (auto simp: resolve_walk.simps node_at_def resolved_ok_def)
  next
    case False
    show ?thesis
    proof (cases "nkind (vnodes v ! current)")
      case (Dir es)
      have child: "map_of es c = Some i \<Longrightarrow> i < vsize v" for i
        using vfs_ok_child [OF ok cur Dir] .
      show ?thesis
      proof (cases "rest = []")
        case True
        then show ?thesis
          using False Dir cur child deeper
          by (auto simp: resolve_walk.simps node_at_def resolved_ok_def Let_def
              split: option.splits node_kind.splits)
      next
        case more: False
        show ?thesis
        proof (cases "map_of es c")
          case None
          then show ?thesis using False Dir cur more by (simp add: resolve_walk.simps node_at_def)
        next
          case (Some i)
          show ?thesis
          proof (cases "nkind (vnodes v ! i)")
            case (Symlink target)
            have "safe (resolved_ok v) (resolve_depth v current (vdata target) True (depth + 1))"
              by (rule deeper)
            then show ?thesis
              using False Dir cur more Some child [OF Some] Symlink on
              by (auto simp: resolve_walk.simps node_at_def vfs_is_dir_def resolved_ok_def
                  split: sum.splits option.splits run.splits bool.splits)
          qed (use False Dir cur more Some child [OF Some] on in
              \<open>simp_all add: resolve_walk.simps node_at_def\<close>)
        qed
      qed
    qed (use False cur in \<open>simp_all add: resolve_walk.simps node_at_def\<close>)
  qed
qed

lemma resolve_walk_safe:
  assumes ok: "vfs_ok v"
    and deeper: "\<And>i target. i < vsize v \<Longrightarrow> safe (resolved_ok v) (resolve_depth v i target True (depth + 1))"
  shows "comps \<noteq> [] \<Longrightarrow> current < vsize v \<Longrightarrow> safe (resolved_ok v) (resolve_walk v comps current follow depth)"
proof (induction comps arbitrary: current)
  case (Cons c rest)
  then show ?case
    using ok deeper vfs_ok_parent by (intro resolve_walk_safe_step) auto
qed simp

lemma resolve_depth_safe:
  assumes ok: "vfs_ok v"
  shows "start < vsize v \<Longrightarrow> safe (resolved_ok v) (resolve_depth v start path follow depth)"
proof (induction "9 - depth" arbitrary: start path follow depth rule: less_induct)
  case less
  show ?case
  proof (cases "8 < depth")
    case True
    then show ?thesis by (simp add: resolve_depth.simps)
  next
    case False
    have root: "ROOT < vsize v" using ok by (auto simp: vfs_ok_def ROOT_def)
    define cur where "cur = (if path \<noteq> [] \<and> hd path = 47 then ROOT else start)"
    have cur: "cur < vsize v" using less.prems root by (simp add: cur_def)
    have "safe (resolved_ok v) (resolve_walk v (components path) cur follow depth)"
      if "components path \<noteq> []"
      using that cur False by (intro resolve_walk_safe ok less.hyps) auto
    then show ?thesis
      using False cur vfs_ok_parent [OF ok cur]
      by (auto simp: resolve_depth.simps Let_def cur_def [symmetric] node_at_def resolved_ok_def)
  qed
qed

lemma resolve_safe:
  "vfs_ok v \<Longrightarrow> start < vsize v \<Longrightarrow> safe (resolved_ok v) (vfs_resolve v start path follow)"
  by (simp add: vfs_resolve_def resolve_depth_safe)

section \<open>Operations preserve the invariant\<close>

text \<open>What every operation promises: no panic, an invariant tree that has not shrunk.\<close>

definition good :: "vfs \<Rightarrow> ('a \<Rightarrow> vfs \<Rightarrow> bool) \<Rightarrow> (fault + 'a) \<times> vfs \<Rightarrow> bool" where
  "good v P rw \<longleftrightarrow> (case rw of (r, w) \<Rightarrow> vfs_inv w \<and> vsize v \<le> vsize w \<and> safe (\<lambda>x. P x w) r)"

lemma good_same [simp]: "vfs_inv v \<Longrightarrow> good v P (Inl (Err e), v)"
  by (simp add: good_def)

lemma names_of_empty [simp]: "names_of i \<lparr>nkind = Dir [], nmode = m, nnlink = l, nmtime = t, nparent = p\<rparr> = 0"
  by (simp add: names_of_def names_in_def)

lemma mkdir_walk_good:
  "vfs_inv v \<Longrightarrow> current < vsize v \<Longrightarrow> good v (\<lambda>i w. i < vsize w) (mkdir_walk comps current v)"
proof (induction comps arbitrary: current v)
  case Nil
  then show ?case by (simp add: good_def)
next
  case (Cons c rest)
  note inv = Cons.prems(1) and cur = Cons.prems(2)
  have ok: "vfs_ok v" using inv by (simp add: vfs_inv_def)
  have step: "good v (\<lambda>i w. i < vsize w) (mkdir_walk rest i w)"
    if "vfs_inv w" "i < vsize w" "vsize v \<le> vsize w" for i w
    using Cons.IH [OF that(1,2)] that(3) by (auto simp: good_def split: prod.splits)
  show ?case
  proof (cases "c = str ''..''")
    case True
    then show ?thesis
      using cur step [OF inv vfs_ok_parent [OF ok cur]] by (simp add: node_at_def)
  next
    case name: False
    show ?thesis
    proof (cases "nkind (vnodes v ! current)")
      case (Dir es)
      show ?thesis
      proof (cases "map_of es c")
        case (Some i)
        then have "i < vsize v" using vfs_ok_child [OF ok cur Dir] by blast
        then show ?thesis
          using name cur Dir Some step [OF inv] inv
          by (auto simp: node_at_def vfs_is_dir_def split: run.splits bool.splits)
      next
        case None
        let ?n = "\<lparr>nkind = Dir [], nmode = 0x1ED, nnlink = 2, nmtime = 0, nparent = current\<rparr>"
        obtain i w where al: "vfs_alloc ?n v = (i, w)" by fastforce
        have "inv_with ((\<lambda>_. 0)(i := 1)) w \<and> i = vsize v \<and> vsize w = Suc (vsize v) \<and> vnodes w = vnodes v @ [?n]"
          using inv cur al by (intro inv_alloc) (auto simp: vfs_inv_iff node_ok_def initial_nlink_def is_dir_kind_def)
        then have w: "inv_with ((\<lambda>_. 0)(i := 1)) w" "i = vsize v" "vsize w = Suc (vsize v)" "vnodes w ! current = vnodes v ! current"
          using cur by (auto simp: nth_append)
        have "vfs_inv (set_entries current (bt_insert c i es) w)"
          by (rule vfs_inv_of [OF inv_insert [OF w(1), of current es i c]]) (use w cur Dir in simp_all)
        then show ?thesis
          using name cur Dir None al w step by (simp add: node_at_def)
      qed
    qed (use name cur inv in \<open>simp_all add: node_at_def\<close>)
  qed
qed

lemma vfs_inv_root: "vfs_inv v \<Longrightarrow> ROOT < vsize v"
  and vfs_inv_ok: "vfs_inv v \<Longrightarrow> vfs_ok v"
  using inv_root by (auto simp: vfs_inv_iff inv_ok)

text \<open>What a caller may hand to the creating operations: contents of its own, an empty directory.\<close>

definition fresh_kind :: "node_kind \<Rightarrow> bool" where
  "fresh_kind k \<longleftrightarrow> kind_ok 0 k"

lemma fresh_kind_names:
  "fresh_kind (nkind n) \<Longrightarrow> names_of i n = 0" "fresh_kind k \<Longrightarrow> kind_ok b k"
proof -
  have "es = []" if "kind_ok 0 (Dir es)" for es
    using that by (cases es) auto
  then show "fresh_kind (nkind n) \<Longrightarrow> names_of i n = 0" "fresh_kind k \<Longrightarrow> kind_ok b k"
    by (cases "nkind n"; cases k; force simp: fresh_kind_def names_of_def names_in_def)+
qed

text \<open>A node enters the arena with one link to spare for its first name.\<close>

lemma alloc_fresh:
  assumes "vfs_inv v" and "fresh_kind (nkind n)" and "nparent n < vsize v"
    and "nnlink n = initial_nlink (nkind n)" and "vfs_alloc n v = (i, w)"
  shows "inv_with ((\<lambda>_. 0)(i := 1)) w" "i = vsize v" "vsize w = Suc (vsize v)" "vnodes w = vnodes v @ [n]"
  using inv_alloc [of "\<lambda>_. 0" v n i w] assms
  by (auto simp: vfs_inv_iff node_ok_def fresh_kind_names)

lemma place_node_good:
  assumes inv: "vfs_inv v" and r: "res_parent r < vsize v" and n: "fresh_kind (nkind n)"
    "nparent n < vsize v" "nnlink n = initial_nlink (nkind n)"
  shows "good v (\<lambda>i w. i < vsize w) (place_node r n v)"
proof -
  obtain i w where al: "vfs_alloc n v = (i, w)" by fastforce
  note w = alloc_fresh [OF inv n al]
  have p: "vnodes w ! res_parent r = vnodes v ! res_parent r" "res_parent r < vsize w"
    using r w by (auto simp: nth_append)
  have invw: "vfs_inv w"
    by (rule vfs_inv_of [OF w(1)])
  show ?thesis
  proof (cases "nkind (vnodes v ! res_parent r)")
    case (Dir es)
    let ?u = "set_entries (res_parent r) (bt_insert (res_name r) i es) w"
    have ins: "inv_with (\<lambda>j. (if j = i then ((\<lambda>_. 0)(i := 1)) j - 1 else ((\<lambda>_. 0)(i := 1)) j) +
        (if map_of es (res_name r) = Some j then 1 else 0)) ?u"
      by (rule inv_insert [OF w(1) p(2)]) (simp_all add: p(1) Dir w(2,3))
    show ?thesis
    proof (cases "map_of es (res_name r)")
      case None
      have "vfs_inv ?u"
        by (rule vfs_inv_of [OF ins])
      then show ?thesis
        using al p w(2,3) Dir None by (simp add: place_node_def node_at_def good_def)
    next
      case (Some d)
      then have "d < vsize v"
        using vfs_ok_child [OF vfs_inv_ok [OF inv] r Dir] by blast
      then obtain u where u: "drop_link d ?u = (Inr (), u)" "vfs_inv u" "vsize u = vsize w"
        using inv_drop_link [OF ins, of d] Some w(3)
        by (auto intro: vfs_inv_of)
      then show ?thesis
        using al p w(2,3) Dir Some by (simp add: place_node_def node_at_def good_def)
    qed
  qed (use al p w(3) invw in \<open>simp_all add: place_node_def node_at_def good_def\<close>)
qed

lemma good_trans:
  "good v P rw \<Longrightarrow> (\<And>x w. rw = (Inr x, w) \<Longrightarrow> P x w \<Longrightarrow> vfs_inv w \<Longrightarrow> vsize v \<le> vsize w \<Longrightarrow> good w Q (f x w)) \<Longrightarrow>
     good v Q (case rw of (Inl e, w) \<Rightarrow> (Inl e, w) | (Inr x, w) \<Rightarrow> f x w)"
  by (cases rw) (auto simp: good_def split: sum.splits prod.splits intro: order_trans)

lemma occupied_ret: "vfs_ok v \<Longrightarrow> occupied_by_a_directory v path \<noteq> Panic"
  using resolve_safe [of v ROOT path False]
  by (auto simp: occupied_by_a_directory_def resolved_ok_def vfs_ok_def ROOT_def vfs_is_dir_def node_at_def
      split: sum.splits option.splits fault.splits)

lemma mkdir_p_good: "vfs_inv v \<Longrightarrow> good v (\<lambda>i w. i < vsize w) (mkdir_p path v)"
  unfolding mkdir_p_def by (rule mkdir_walk_good) (simp_all add: vfs_inv_root)

lemma add_node_good:
  assumes "vfs_inv v" and "fresh_kind kind"
  shows "good v (\<lambda>i w. i < vsize w) (add_node path kind mode v)"
proof -
  let ?k = "case rposition (\<lambda>b. b = 47) path of None \<Rightarrow> 0 | Some i \<Rightarrow> i"
  have "good v (\<lambda>i w. i < vsize w)
      (case mkdir_p (take ?k path) v of (Inl e, w) \<Rightarrow> (Inl e, w)
       | (Inr i, w) \<Rightarrow> (case vfs_resolve w ROOT path False of Inl e \<Rightarrow> (Inl e, w)
          | Inr r \<Rightarrow> place_node r \<lparr>nkind = kind, nmode = mode, nnlink = initial_nlink kind, nmtime = 0,
                      nparent = res_parent r\<rparr> w))"
  proof (rule good_trans [OF mkdir_p_good [OF assms(1)]])
    fix i w assume "vfs_inv w"
    then show "good w (\<lambda>i w. i < vsize w) (case vfs_resolve w ROOT path False of Inl e \<Rightarrow> (Inl e, w)
          | Inr r \<Rightarrow> place_node r \<lparr>nkind = kind, nmode = mode, nnlink = initial_nlink kind, nmtime = 0,
                      nparent = res_parent r\<rparr> w)"
      using resolve_safe [OF vfs_inv_ok vfs_inv_root, of w path False] assms(2)
      by (auto simp: resolved_ok_def good_def [of _ _ "(Inl _, _)"] split: sum.splits intro!: place_node_good)
  qed
  moreover have "occupied_by_a_directory v path \<noteq> Panic"
    using occupied_ret vfs_inv_ok assms(1) by blast
  ultimately show ?thesis
    using assms(1) by (auto simp: add_node_def Let_def split: run.splits bool.splits)
qed

lemma create_good:
  assumes inv: "vfs_inv v" and p: "parent < vsize v" and kind: "fresh_kind kind"
  shows "good v (\<lambda>i w. i < vsize w) (vfs_create parent name kind mode v)"
proof (cases "name = [] \<or> name = str ''.'' \<or> name = str ''..'' \<or> vfs_reserve v (data_len kind) \<noteq> Inr ()")
  case True
  then show ?thesis
    using inv by (auto simp: vfs_create_def vfs_reserve_def split: option.splits)
next
  case False
  let ?n = "\<lparr>nkind = kind, nmode = mode, nnlink = initial_nlink kind, nmtime = 0, nparent = parent\<rparr>"
  obtain i w where al: "vfs_alloc ?n v = (i, w)" by fastforce
  have w: "inv_with ((\<lambda>_. 0)(i := 1)) w" "i = vsize v" "vsize w = Suc (vsize v)" "vnodes w = vnodes v @ [?n]"
    using alloc_fresh [OF inv _ _ _ al] kind p by auto
  have at: "vnodes w ! parent = vnodes v ! parent" "parent < vsize w"
    using p w by (auto simp: nth_append)
  have invw: "vfs_inv w" by (rule vfs_inv_of [OF w(1)])
  show ?thesis
  proof (cases "nkind (vnodes v ! parent)")
    case (Dir es)
    have "vfs_inv (set_entries parent (bt_insert name i es) w)"
      by (rule vfs_inv_of [OF inv_insert [OF w(1) at(2)]]) (simp_all add: at(1) Dir w(2,3))
    then show ?thesis
      using False al at w(2,3) Dir invw by (auto simp: vfs_create_def node_at_def good_def)
  qed (use False al at w(3) invw in \<open>auto simp: vfs_create_def node_at_def good_def\<close>)
qed

lemma inv_bump:
  assumes inv: "vfs_inv v" and k: "k < vsize v" "k \<notin> set (vunlinked v)" "nnlink (vnodes v ! k) \<noteq> - 1"
  shows "inv_with ((\<lambda>_. 0)(k := 1)) (set_node k ((vnodes v ! k)\<lparr>nnlink := nnlink (vnodes v ! k) + 1\<rparr>) v)"
proof -
  let ?n = "(vnodes v ! k)\<lparr>nnlink := nnlink (vnodes v ! k) + 1\<rparr>"
  have ok: "vfs_ok v" using inv by (rule vfs_inv_ok)
  have "nnlink (vnodes v ! k) + 1 \<noteq> 0"
    using k(3) by (metis add_eq_0_iff2)
  then have up: "unat (nnlink (vnodes v ! k) + 1) = Suc (unat (nnlink (vnodes v ! k)))"
    using unatSuc [of "nnlink (vnodes v ! k)"] by (simp add: add.commute)
  have "vfs_ok (set_node k ?n v)"
    using ok vfs_ok_node [OF ok k(1)] by (intro vfs_ok_set_node) (auto simp: node_ok_def)
  moreover have "refs (set_node k ?n v) i = refs v i" for i
    using refs_set_node [OF k(1), of ?n i] by simp
  ultimately show ?thesis
    using inv k up
    by (auto simp: vfs_inv_def inv_with_def spare_def links_ok_def root_ok_def nth_list_update)
qed

lemma link_good:
  assumes inv: "vfs_inv v" and p: "parent < vsize v"
    and k: "k < vsize v" "k \<notin> set (vunlinked v)" "nnlink (vnodes v ! k) \<noteq> - 1"
  shows "good v (\<lambda>_ _. True) (vfs_link parent name k v)"
proof (cases "nkind (vnodes v ! parent)")
  case (Dir es)
  let ?u = "set_node k ((vnodes v ! k)\<lparr>nnlink := nnlink (vnodes v ! k) + 1\<rparr>) v"
  let ?es = "bt_insert name k es"
  let ?v = "set_entries parent ?es v"
  have "vfs_inv (set_entries parent ?es ?u)"
    by (rule vfs_inv_of [OF inv_insert [OF inv_bump [OF inv k]]])
      (use p k Dir in \<open>auto simp: nth_list_update\<close>)
  moreover have "set_entries parent ?es ?u =
      set_node k ((vnodes ?v ! k)\<lparr>nnlink := nnlink (vnodes ?v ! k) + 1\<rparr>) ?v"
    using p k by (cases "k = parent"; cases "vnodes v ! parent")
      (auto simp: set_entries_def set_node_def list_update_swap)
  ultimately show ?thesis
    using Dir p k inv by (auto simp: vfs_link_def node_at_def good_def Let_def)
qed (use p inv in \<open>auto simp: vfs_link_def node_at_def\<close>)

lemma unlink_good:
  assumes inv: "vfs_inv v" and p: "parent < vsize v"
  shows "good v (\<lambda>_ _. True) (vfs_unlink parent name rmdir v)"
proof (cases "nkind (vnodes v ! parent)")
  case (Dir es)
  show ?thesis
  proof (cases "map_of es name")
    case None
    then show ?thesis using p inv Dir by (auto simp: vfs_unlink_def node_at_def)
  next
    case (Some d)
    have d: "d < vsize v" using vfs_ok_child [OF vfs_inv_ok [OF inv] p Dir Some] .
    let ?u = "set_entries parent (bt_remove name es) v"
    have rem: "inv_with (\<lambda>i. 0 + (if map_of es name = Some i then 1 else 0)) ?u"
      using inv p Dir by (intro inv_remove) (auto simp: vfs_inv_iff)
    obtain w where "drop_link d ?u = (Inr (), w)" "vfs_inv w" "vsize w = vsize v"
      using inv_drop_link [OF rem, of d] Some d by (auto intro: vfs_inv_of)
    then show ?thesis
      using p inv Dir Some d by (auto simp: vfs_unlink_def node_at_def good_def split: option.splits)
  qed
qed (use p inv in \<open>auto simp: vfs_unlink_def node_at_def\<close>)

lemma set_entries_dir:
  "p < vsize v \<Longrightarrow> nkind (vnodes v ! p) = Dir es \<Longrightarrow> q < vsize v \<Longrightarrow> nkind (vnodes v ! q) = Dir fs \<Longrightarrow>
     \<exists>gs. nkind (vnodes (set_entries p es' v) ! q) = Dir gs"
  by (cases "p = q") (auto simp: vnodes_set_entries nth_list_update)

lemma rename_moves_good:
  assumes inv: "vfs_inv v" and p: "op < vsize v" and Dir: "nkind (vnodes v ! op) = Dir es"
    and i: "map_of es old = Some i" and q: "np < vsize v" "nkind (vnodes v ! np) = Dir fs"
  shows "good v (\<lambda>_ _. True) (rename_moves op old np new i v)"
proof -
  let ?u = "set_entries op (bt_remove old es) v"
  have iv: "i < vsize v" using vfs_ok_child [OF vfs_inv_ok [OF inv] p Dir i] .
  have rem: "inv_with (\<lambda>j. 0 + (if map_of es old = Some j then 1 else 0)) ?u"
    using inv p Dir by (intro inv_remove) (auto simp: vfs_inv_iff)
  obtain gs where gs: "nkind (vnodes ?u ! np) = Dir gs"
    using set_entries_dir [OF p Dir q] by blast
  let ?w = "set_entries np (bt_insert new i gs) ?u"
  have ins: "inv_with (\<lambda>j. (if j = i then (0 + (if map_of es old = Some j then 1 else 0)) - 1
        else 0 + (if map_of es old = Some j then 1 else 0)) + (if map_of gs new = Some j then 1 else 0)) ?w"
    using q iv gs i by (intro inv_insert [OF rem]) auto
  have move: "good v (\<lambda>_ _. True) (Inr (), set_node i ((vnodes x ! i)\<lparr>nparent := np\<rparr>) x)"
    if "vfs_inv x" "vsize x = vsize v" for x
  proof -
    have "node_ok (vsize x) ((vnodes x ! i)\<lparr>nparent := np\<rparr>)"
      using vfs_ok_node [OF vfs_inv_ok [OF that(1)], of i] iv q that(2) by (simp add: node_ok_def)
    then have "vfs_inv (set_node i ((vnodes x ! i)\<lparr>nparent := np\<rparr>) x)"
      using that iv unfolding vfs_inv_iff by (intro inv_set_node) auto
    then show ?thesis using that(2) by (simp add: good_def)
  qed
  show ?thesis
  proof (cases "\<exists>d. map_of gs new = Some d \<and> d \<noteq> i")
    case True
    then obtain d where d: "map_of gs new = Some d" "d \<noteq> i" by blast
    have "vfs_ok ?u" using rem by (rule inv_ok)
    then have "d < vsize v" using vfs_ok_child [of ?u np gs new d] q gs d by simp
    then obtain x where "drop_link d ?w = (Inr (), x)" "vfs_inv x" "vsize x = vsize v"
      using inv_drop_link [OF ins, of d] d by (auto intro: vfs_inv_of)
    then show ?thesis
      using p Dir q gs d iv move by (simp add: rename_moves_def node_at_def)
  next
    case False
    then show ?thesis
      using p Dir q gs iv move [OF vfs_inv_of [OF ins]]
      by (auto simp: rename_moves_def node_at_def Let_def split: option.splits)
  qed
qed

lemma rename_good:
  assumes inv: "vfs_inv v" and p: "op < vsize v" and q: "np < vsize v"
  shows "good v (\<lambda>_ _. True) (vfs_rename op old np new v)"
proof (cases "nkind (vnodes v ! op)")
  case (Dir es)
  show ?thesis
  proof (cases "nkind (vnodes v ! np)")
    case np: (Dir fs)
    have "k < vsize v" if "map_of fs new = Some k" for k
      using vfs_ok_child [OF vfs_inv_ok [OF inv] q np that] .
    moreover have "good v (\<lambda>_ _. True) (rename_moves op old np new i v)" if "map_of es old = Some i" for i
      using rename_moves_good [OF inv p Dir that q np] .
    ultimately show ?thesis
      using p q inv Dir np
      by (auto simp: vfs_rename_def node_at_def split: option.splits node_kind.splits)
  qed (use p q inv Dir in \<open>auto simp: vfs_rename_def node_at_def split: option.splits\<close>)
qed (use p inv in \<open>auto simp: vfs_rename_def node_at_def\<close>)

lemma set_kind_fields [simp, vfs_simps]:
  "vsize (set_kind i k v) = vsize v" "vunlinked (set_kind i k v) = vunlinked v"
  "vchunks (set_kind i k v) = vchunks v" "vbudget (set_kind i k v) = vbudget v"
  "vnodes (set_kind i k v) = (vnodes v)[i := (vnodes v ! i)\<lparr>nkind := k\<rparr>]"
  by (simp_all add: set_kind_def)

text \<open>Contents of a node that is not a directory are replaced.\<close>

lemma set_kind_inv:
  assumes inv: "vfs_inv v" and i: "i < vsize v" and "\<not> is_dir_kind (nkind (vnodes v ! i))"
    and "\<not> is_dir_kind k" and "kind_ok (vsize v) k"
  shows "vfs_inv (set_kind i k v)"
proof -
  have "names_of j ((vnodes v ! i)\<lparr>nkind := k\<rparr>) = names_of j (vnodes v ! i)" for j
    using assms(3,4) by (auto simp: names_of_def is_dir_kind_def split: node_kind.splits)
  then show "vfs_inv (set_kind i k v)"
    unfolding set_kind_def vfs_inv_iff
    using assms vfs_ok_parent [OF vfs_inv_ok [OF inv] i]
    by (intro inv_set_node) (auto simp: vfs_inv_iff node_ok_def self_link_def)
qed

lemma append_good:
  assumes inv: "vfs_inv v"
  shows "good v (\<lambda>_ _. True) (append_file grants path bs v)"
proof -
  have ext: "vec_ok (vec_extend w bs)"
    if "i < vsize v" "nkind (vnodes v ! i) = File d" "vec_try_reserve grants d (length bs) = Some w" for i d w
    using vfs_ok_node [OF vfs_inv_ok [OF inv] that(1)] that(2,3)
    by (intro vec_reserve_extend_ok) (auto simp: node_ok_def)
  show ?thesis
    using resolve_safe [OF vfs_inv_ok [OF inv] vfs_inv_root [OF inv], of path True] inv
    by (auto simp: append_file_def good_def node_at_def resolved_ok_def is_dir_kind_def
        intro!: set_kind_inv intro: ext split: sum.splits option.splits node_kind.splits)
qed

section \<open>Releasing unlinked contents\<close>

lemma unlinked_nameless:
  assumes "vfs_inv v" and "i \<in> set (vunlinked v)"
  shows "i < vsize v" and "refs v i = 0" and "\<not> is_dir_kind (nkind (vnodes v ! i))"
proof -
  show i: "i < vsize v" using assms by (auto simp: vfs_inv_def vfs_ok_def)
  have "refs v i + self_link (vnodes v ! i) \<le> 0"
    using assms i by (auto simp: vfs_inv_def links_ok_def)
  then show "refs v i = 0" and "\<not> is_dir_kind (nkind (vnodes v ! i))"
    by (auto simp: self_link_def split: if_splits)
qed

definition data_total :: "vfs \<Rightarrow> nat" where
  "data_total v = sum_list (map (\<lambda>n. data_len (nkind n)) (vnodes v))"

lemma data_total_set_kind:
  "i < vsize v \<Longrightarrow> data_total (set_kind i k v) + data_len (nkind (vnodes v ! i)) = data_total v + data_len k"
proof -
  have *: "i < length xs \<Longrightarrow> sum_list (map f (xs[i := x])) + f (xs ! i) = sum_list (map f xs) + (f x :: nat)"
    for f :: "node \<Rightarrow> nat" and xs x i
  proof (induction xs arbitrary: i)
    case (Cons y ys)
    then show ?case by (cases i) auto
  qed simp
  show "i < vsize v \<Longrightarrow> ?thesis"
    using * [of i "vnodes v" "\<lambda>n. data_len (nkind n)"] by (simp add: data_total_def)
qed

lemma release_loop_exact:
  assumes "\<forall>i \<in> set is. i < vsize v" and "distinct is"
  shows "release_loop referenced is still freed v = (freed', w) \<Longrightarrow>
    vunlinked w = still @ filter (\<lambda>i. i \<in> referenced) is \<and> vsize w = vsize v \<and>
    (\<forall>i < vsize v. vnodes w ! i =
       (if i \<in> set is \<and> i \<notin> referenced then (vnodes v ! i)\<lparr>nkind := File vec_new\<rparr> else vnodes v ! i)) \<and>
    data_total w + freed' = data_total v + freed \<and> vchunks w = vchunks v \<and> vbudget w = vbudget v"
  using assms
proof (induction "is" arbitrary: still freed v)
  case Nil
  then show ?case by (auto simp: data_total_def)
next
  case (Cons i rest)
  show ?case
  proof (cases "i \<in> referenced")
    case True
    then show ?thesis using Cons by auto
  next
    case False
    let ?u = "set_kind i (File vec_new) v"
    have "release_loop referenced rest still (freed + data_len (nkind (vnodes v ! i))) ?u = (freed', w)"
      using Cons.prems False by (simp add: node_at_def)
    note IH = Cons.IH [OF this]
    have "data_total ?u + data_len (nkind (vnodes v ! i)) = data_total v"
      using data_total_set_kind [of i v "File vec_new"] Cons.prems by (simp add: vec_new_def)
    then show ?thesis
      using IH Cons.prems False by (auto simp: nth_list_update)
  qed
qed

lemma names_of_released:
  "\<not> is_dir_kind (nkind n) \<Longrightarrow> names_of j (n\<lparr>nkind := File d\<rparr>) = names_of j n \<and>
     self_link (n\<lparr>nkind := File d\<rparr>) = self_link n"
  by (auto simp: names_of_def self_link_def is_dir_kind_def split: node_kind.splits)

lemma release_loop_inv:
  "vfs_inv (v\<lparr>vunlinked := still @ is\<rparr>) \<Longrightarrow> vfs_inv (snd (release_loop referenced is still freed v))"
proof (induction "is" arbitrary: still freed v)
  case Nil
  then show ?case by simp
next
  case (Cons i rest)
  have i: "i < vsize v" "\<not> is_dir_kind (nkind (vnodes v ! i))"
    using unlinked_nameless [OF Cons.prems, of i] by auto
  show ?case
  proof (cases "i \<in> referenced")
    case True
    then show ?thesis using Cons by simp
  next
    case False
    let ?u = "v\<lparr>vunlinked := still @ rest\<rparr>"
    have "vfs_inv ?u"
      using Cons.prems by (auto simp: vfs_inv_def vfs_ok_def links_ok_def root_ok_def refs_def)
    then have "vfs_inv (set_kind i (File vec_new) ?u)"
      using i by (intro set_kind_inv) (auto simp: is_dir_kind_def)
    then have "vfs_inv ((set_kind i (File vec_new) v)\<lparr>vunlinked := still @ rest\<rparr>)"
      by (cases v) (simp add: set_kind_def set_node_def)
    then show ?thesis
      using Cons.IH False i(1) by (simp add: node_at_def)
  qed
qed

lemma release_inv: "vfs_inv v \<Longrightarrow> vfs_inv (snd (release_unreferenced referenced v))"
  unfolding release_unreferenced_def by (rule release_loop_inv) simp

section \<open>Chunks and contents\<close>

lemma read_loop_ret:
  assumes "cf_ok f" and "stop \<le> cf_size f"
  shows "read_loop st f stop cursor out \<noteq> Panic"
  using assms
proof (induction st f stop cursor out rule: read_loop.induct)
  case (1 st f stop cursor out)
  have "\<exists>i h s e. chunk_at f cursor = Ret (Some (i, h, s, e))" if "cursor < stop"
  proof -
    let ?cs = "unat (cf_chunk_size f)"
    have "unat cursor < unat (cf_size f)"
      using that 1(3) by (simp add: word_less_nat_alt word_le_nat_alt)
    moreover have cs: "0 < ?cs" using 1(2) by (simp add: cf_ok_def)
    ultimately have "unat cursor div ?cs < (unat (cf_size f) + ?cs - 1) div ?cs"
      by (rule div_less_ceil [rotated])
    moreover have "unat (cursor div ucast (cf_chunk_size f)) = unat cursor div ?cs"
      by (simp add: unat_div unat_cs)
    moreover have "cursor < cf_size f" using that 1(3) by simp
    ultimately show ?thesis
      using 1(2) cs by (auto simp: chunk_at_def cf_ok_def Let_def)
  qed
  then show ?case
    using 1 by (subst read_loop.simps) (auto simp: Let_def split: option.splits if_splits)
qed

lemma read_range_ret: "cf_ok f \<Longrightarrow> cs_read_range st f off len \<noteq> Panic"
  by (simp add: cs_read_range_def Let_def read_loop_ret)

lemma vfs_ok_chunked: "vfs_ok v \<Longrightarrow> i < vsize v \<Longrightarrow> nkind (vnodes v ! i) = ChunkedFile f \<Longrightarrow> cf_ok f"
  using vfs_ok_node [of v i] by (simp add: node_ok_def)

lemma materialize_good:
  assumes inv: "vfs_inv v"
  shows "good v (\<lambda>_ _. True) (materialize_file i v)"
proof -
  have "cs_read_range (vchunks v) f off len \<noteq> Panic" if "i < vsize v" "nkind (vnodes v ! i) = ChunkedFile f" for f off len
    using vfs_ok_chunked [OF vfs_inv_ok [OF inv] that] by (rule read_range_ret)
  moreover have "vfs_inv (set_kind i (File (vec_of bs)) v)"
    if "i < vsize v" "nkind (vnodes v ! i) = ChunkedFile f" for f bs
    using that inv by (intro set_kind_inv) (auto simp: is_dir_kind_def)
  ultimately show ?thesis
    using inv by (auto simp: materialize_file_def node_at_def good_def vfs_reserve_def
        split: node_kind.splits run.splits read_range.splits option.splits)
qed

lemma put_chunk_inv: "vfs_inv v \<Longrightarrow> put_chunk h bs v = Inr w \<Longrightarrow> vfs_inv w \<and> vnodes w = vnodes v"
  by (auto simp: put_chunk_def vfs_inv_def vfs_ok_def links_ok_def root_ok_def refs_def
      split: sum.splits if_splits intro: cs.vput_ok)

lemma named_node_ret:
  "vfs_ok v \<Longrightarrow> \<exists>r. named_node v path = Ret r \<and> (\<forall>i. r = Some i \<longrightarrow> i < vsize v)"
  using resolve_safe [of v ROOT path True]
  by (auto simp: named_node_def vfs_ok_def ROOT_def split: sum.splits option.splits fault.splits)

end
