(* ===== verification/VfsProps.thy ===== *)
theory VfsProps
  imports VfsInv
begin

text \<open>
  Properties of the file system: sequences of operations from the initial tree never panic and
  keep the invariant; the namespace operations are the expected updates of the directory maps;
  released contents have no name and no descriptor; guest growth stays under the budget.
\<close>

section \<open>Sequences of operations\<close>

datatype vfs_op =
    MkdirP bytes
  | AddNode bytes node_kind u32
  | CreateWithCapacity bytes nat u32
  | AppendFile bytes bytes
  | Create nat bytes node_kind u32
  | Link nat bytes nat
  | Unlink nat bytes bool
  | Rename nat bytes nat bytes
  | Release "nat set"
  | PutChunk hash rvec
  | Materialize nat
  | SetBudget "nat option"
  | TakeContents bytes
  | PutContents bytes rvec

definition outcome :: "(fault + 'a) \<times> vfs \<Rightarrow> bool \<times> vfs" where
  "outcome rw = (case rw of (Inl Panicked, w) \<Rightarrow> (True, w) | (_, w) \<Rightarrow> (False, w))"

text \<open>Whether the operation panics, and the tree it leaves.\<close>

fun vfs_exec :: "(nat \<Rightarrow> bool) \<Rightarrow> vfs_op \<Rightarrow> vfs \<Rightarrow> bool \<times> vfs" where
  "vfs_exec g (MkdirP path) v = outcome (mkdir_p path v)"
| "vfs_exec g (AddNode path k m) v = outcome (add_node path k m v)"
| "vfs_exec g (CreateWithCapacity path c m) v = outcome (create_file_with_capacity g path c m v)"
| "vfs_exec g (AppendFile path bs) v = outcome (append_file g path bs v)"
| "vfs_exec g (Create p nm k m) v = outcome (vfs_create p nm k m v)"
| "vfs_exec g (Link p nm i) v = outcome (vfs_link p nm i v)"
| "vfs_exec g (Unlink p nm rmdir) v = outcome (vfs_unlink p nm rmdir v)"
| "vfs_exec g (Rename p nm q nm') v = outcome (vfs_rename p nm q nm' v)"
| "vfs_exec g (Release referenced) v = (False, snd (release_unreferenced referenced v))"
| "vfs_exec g (PutChunk h bs) v = (False, case put_chunk h bs v of Inl _ \<Rightarrow> v | Inr w \<Rightarrow> w)"
| "vfs_exec g (Materialize i) v = outcome (materialize_file i v)"
| "vfs_exec g (SetBudget b) v = (False, set_storage_budget b v)"
| "vfs_exec g (TakeContents path) v =
     (case take_file_contents path v of Panic \<Rightarrow> (True, v) | Ret (_, w) \<Rightarrow> (False, w))"
| "vfs_exec g (PutContents path d) v =
     (case put_file_contents path d v of Panic \<Rightarrow> (True, v) | Ret w \<Rightarrow> (False, w))"

text \<open>Node numbers come from resolution, so they are in range; a new name is given to a node
  that still has one; new contents are the caller's own.\<close>

fun op_pre :: "vfs \<Rightarrow> vfs_op \<Rightarrow> bool" where
  "op_pre v (AddNode path k m) \<longleftrightarrow> fresh_kind k"
| "op_pre v (Create p nm k m) \<longleftrightarrow> p < vsize v \<and> fresh_kind k"
| "op_pre v (Link p nm i) \<longleftrightarrow> p < vsize v \<and> i < vsize v \<and> i \<notin> set (vunlinked v) \<and> nnlink (vnodes v ! i) \<noteq> - 1"
| "op_pre v (Unlink p nm rmdir) \<longleftrightarrow> p < vsize v"
| "op_pre v (Rename p nm q nm') \<longleftrightarrow> p < vsize v \<and> q < vsize v"
| "op_pre v (PutContents path d) \<longleftrightarrow> vec_ok d"
| "op_pre v _ \<longleftrightarrow> True"

inductive vfs_reach :: "(nat \<Rightarrow> bool) \<Rightarrow> vfs \<Rightarrow> bool" for g where
  init: "vfs_reach g vfs_new"
| step: "vfs_reach g v \<Longrightarrow> op_pre v op \<Longrightarrow> vfs_reach g (snd (vfs_exec g op v))"

lemma outcome_good: "good v P rw \<Longrightarrow> \<not> fst (outcome rw) \<and> vfs_inv (snd (outcome rw))"
  by (auto simp: good_def outcome_def split: sum.splits fault.splits)

lemma create_with_capacity_good:
  "vfs_inv v \<Longrightarrow> good v (\<lambda>i w. i < vsize w) (create_file_with_capacity g path c m v)"
  by (auto simp: create_file_with_capacity_def vec_try_reserve_exact_def vec_new_def fresh_kind_def vec_ok_def Let_def
      intro!: add_node_good split: option.splits if_splits)

lemma contents_good:
  assumes "vfs_inv v"
  shows "\<exists>d w. take_file_contents path v = Ret (d, w) \<and> vfs_inv w"
    and "vec_ok d \<Longrightarrow> \<exists>w. put_file_contents path d v = Ret w \<and> vfs_inv w"
proof -
  obtain r where r: "named_node v path = Ret r" "\<And>i. r = Some i \<Longrightarrow> i < vsize v"
    using named_node_ret [OF vfs_inv_ok [OF assms]] by blast
  have set: "vfs_inv (set_kind i (File x) v)"
    if "r = Some i" "nkind (vnodes v ! i) = File y" "vec_ok x" for i x y
    using that r(2) assms by (intro set_kind_inv) (auto simp: is_dir_kind_def)
  show "\<exists>d w. take_file_contents path v = Ret (d, w) \<and> vfs_inv w"
    using assms set by (auto simp: take_file_contents_def r(1) split: option.splits node_kind.splits)
  show "vec_ok d \<Longrightarrow> \<exists>w. put_file_contents path d v = Ret w \<and> vfs_inv w"
    using assms set by (auto simp: put_file_contents_def r(1) split: option.splits node_kind.splits)
qed

lemma exec_good:
  assumes "vfs_inv v" and "op_pre v op"
  shows "\<not> fst (vfs_exec g op v) \<and> vfs_inv (snd (vfs_exec g op v))"
proof (cases op)
  case (PutChunk h bs)
  then show ?thesis using assms put_chunk_inv by (auto split: sum.splits)
next
  case (TakeContents path)
  then show ?thesis using contents_good(1) [OF assms(1), of path] by auto
next
  case (PutContents path d)
  then show ?thesis using contents_good(2) [OF assms(1), of d path] assms(2) by auto
next
  case (SetBudget b)
  then show ?thesis
    using assms by (simp add: set_storage_budget_def vfs_inv_def vfs_ok_def links_ok_def root_ok_def refs_def)
next
  case (MkdirP path)
  then show ?thesis using outcome_good [OF mkdir_p_good] assms by simp
next
  case (AddNode path k m)
  then show ?thesis using outcome_good [OF add_node_good] assms by simp
next
  case (CreateWithCapacity path c m)
  then show ?thesis using outcome_good [OF create_with_capacity_good] assms by simp
next
  case (AppendFile path bs)
  then show ?thesis using outcome_good [OF append_good] assms by simp
next
  case (Create p nm k m)
  then show ?thesis using outcome_good [OF create_good] assms by simp
next
  case (Link p nm i)
  then show ?thesis using outcome_good [OF link_good] assms by simp
next
  case (Unlink p nm rmdir)
  then show ?thesis using outcome_good [OF unlink_good] assms by simp
next
  case (Rename p nm q nm')
  then show ?thesis using outcome_good [OF rename_good] assms by simp
next
  case (Materialize i)
  then show ?thesis using outcome_good [OF materialize_good] assms by simp
next
  case (Release referenced)
  then show ?thesis using release_inv assms by simp
qed

lemma fold_inv: "P s \<Longrightarrow> (\<And>x s. P s \<Longrightarrow> P (f x s)) \<Longrightarrow> P (fold f xs s)"
  by (induction xs arbitrary: s) auto

lemma root_only_inv: "vfs_inv vfs_root_only"
  by (simp add: vfs_inv_def vfs_ok_def links_ok_def root_ok_def vfs_root_only_def node_ok_def ROOT_def
      refs_def names_of_def names_in_def self_link_def is_dir_kind_def)

lemma vfs_new_inv: "vfs_inv vfs_new"
proof -
  have "vfs_inv (snd (mkdir_p path v))" if "vfs_inv v" for path v
    using mkdir_p_good [OF that, of path] by (auto simp: good_def)
  then have dirs: "vfs_inv (fold (\<lambda>dir v. snd (mkdir_p (str dir) v)) ds vfs_root_only)" for ds
    by (rule fold_inv [of vfs_inv, OF root_only_inv])
  have "vfs_inv (snd (add_node path (CharDev d) m v))" if "vfs_inv v" for path d m v
    using add_node_good [OF that, of "CharDev d" path m] by (auto simp: good_def fresh_kind_def)
  then have "vfs_inv (fold (\<lambda>(path, dev) v. snd (add_node (str path) (CharDev dev) 0x1B6 v)) ps v)"
    if "vfs_inv v" for ps v
    using that by (intro fold_inv [of vfs_inv]) (auto split: prod.splits)
  then show ?thesis
    unfolding vfs_new_def Let_def using dirs by blast
qed

lemma reach_inv: "vfs_reach g v \<Longrightarrow> vfs_inv v"
  by (induction rule: vfs_reach.induct) (auto simp: vfs_new_inv exec_good)

lemma read_node_range_ret: "vfs_ok v \<Longrightarrow> read_node_range v i off len \<noteq> Inl Panicked"
  using vfs_ok_chunked [of v i] read_range_ret
  by (auto simp: read_node_range_def node_at_def run_fault_def Let_def split: node_kind.splits run.splits)

text \<open>C2: no sequence of operations on the file system reaches a panic. From the initial tree,
  every operation given node numbers that are in range leaves every index in range, every
  directory map ordered and no link count below the number of names; path resolution, range
  reads and listings on any such tree return a value or an errno.\<close>

theorem vfs_never_panics:
  assumes "vfs_reach g v"
  shows "vfs_inv v \<and> (\<forall>op. op_pre v op \<longrightarrow> \<not> fst (vfs_exec g op v)) \<and>
    (\<forall>start path follow. start < vsize v \<longrightarrow> safe (resolved_ok v) (vfs_resolve v start path follow)) \<and>
    (\<forall>i off len. read_node_range v i off len \<noteq> Inl Panicked) \<and>
    (\<forall>dir < vsize v. vfs_list v dir \<noteq> Inl Panicked)"
proof -
  have inv: "vfs_inv v" using assms by (rule reach_inv)
  then have "vfs_ok v" by (rule vfs_inv_ok)
  then show ?thesis
    using inv exec_good resolve_safe read_node_range_ret
    by (auto simp: vfs_list_def node_at_def split: node_kind.splits)
qed

theorem vfs_never_panics_witness:
  "vfs_reach (\<lambda>_. True) vfs_new \<and>
   safe (resolved_ok vfs_new) (vfs_resolve vfs_new ROOT (str ''/dev/null'') True)"
  using vfs_never_panics [OF vfs_reach.init, of "\<lambda>_. True"] vfs_reach.init [of "\<lambda>_. True"]
    vfs_inv_root [OF vfs_new_inv] by blast

section \<open>Contents are released only when nothing can reach them\<close>

text \<open>C9: releasing unlinked contents never touches a node that has a name or an open
  descriptor: on every tree the operations reach, the contents of a node change only if no
  directory entry names it and the caller's set does not contain it. Exactly the unlinked,
  unreferenced nodes lose their bytes, and the returned count is what the tree shrank by.\<close>

theorem release_spares_reachable:
  assumes "vfs_reach g v" and "release_unreferenced referenced v = (freed, w)"
  shows "(\<forall>i < vsize v. refs v i > 0 \<or> i \<in> referenced \<longrightarrow> vnodes w ! i = vnodes v ! i) \<and>
    (\<forall>i < vsize v. nkind (vnodes w ! i) =
       (if i \<in> set (vunlinked v) - referenced then File vec_new else nkind (vnodes v ! i))) \<and>
    vunlinked w = filter (\<lambda>i. i \<in> referenced) (vunlinked v) \<and>
    data_total w + freed = data_total v \<and> vfs_inv w"
proof -
  have inv: "vfs_inv v" using assms(1) by (rule reach_inv)
  have "\<forall>i \<in> set (vunlinked v). i < vsize v" "distinct (vunlinked v)"
    using inv by (auto simp: vfs_inv_def vfs_ok_def)
  then have "vunlinked w = filter (\<lambda>i. i \<in> referenced) (vunlinked v) \<and> vsize w = vsize v \<and>
    (\<forall>i < vsize v. vnodes w ! i =
       (if i \<in> set (vunlinked v) \<and> i \<notin> referenced then (vnodes v ! i)\<lparr>nkind := File vec_new\<rparr> else vnodes v ! i)) \<and>
    data_total w + freed = data_total v"
    using release_loop_exact [of "vunlinked v" "v\<lparr>vunlinked := []\<rparr>" referenced "[]" 0 freed w] assms(2)
    by (simp add: release_unreferenced_def data_total_def)
  moreover have "refs v i = 0" if "i \<in> set (vunlinked v)" for i
    using unlinked_nameless(2) [OF inv that] .
  moreover have "vfs_inv w"
    using release_inv [OF inv, of referenced] assms(2) by simp
  ultimately show ?thesis by auto
qed

theorem release_spares_reachable_witness:
  "\<exists>freed w. vfs_reach (\<lambda>_. True) vfs_new \<and> release_unreferenced {} vfs_new = (freed, w) \<and>
     data_total w + freed = data_total vfs_new"
proof -
  obtain freed w where r: "release_unreferenced {} vfs_new = (freed, w)" by fastforce
  then show ?thesis
    using release_spares_reachable [OF vfs_reach.init r] vfs_reach.init by blast
qed

section \<open>The namespace as directory maps\<close>

definition dirmap :: "vfs \<Rightarrow> nat \<Rightarrow> (bytes \<rightharpoonup> nat) option" where
  "dirmap v i = (case node_at v i of None \<Rightarrow> None
     | Some n \<Rightarrow> (case nkind n of Dir es \<Rightarrow> Some (map_of es) | _ \<Rightarrow> None))"

lemma dirmap_Some: "dirmap v i = Some m \<longleftrightarrow> i < vsize v \<and> (\<exists>es. nkind (vnodes v ! i) = Dir es \<and> m = map_of es)"
  by (auto simp: dirmap_def node_at_def split: node_kind.splits)

lemma dirmap_Dir: "i < vsize v \<Longrightarrow> nkind (vnodes v ! i) = Dir es \<Longrightarrow> dirmap v i = Some (map_of es)"
  by (simp add: dirmap_def node_at_def)

lemma dirmap_not_dir: "i < vsize v \<Longrightarrow> \<not> is_dir_kind (nkind (vnodes v ! i)) \<Longrightarrow> dirmap v i = None"
  by (auto simp: dirmap_def node_at_def is_dir_kind_def split: node_kind.splits)

lemma dirmap_set_entries: "p < vsize v \<Longrightarrow> dirmap (set_entries p es v) = (dirmap v)(p \<mapsto> map_of es)"
  by (auto simp: dirmap_def node_at_def vnodes_set_entries nth_list_update fun_eq_iff)

lemma dirmap_set_node: "i < vsize v \<Longrightarrow> nkind n = nkind (vnodes v ! i) \<Longrightarrow> dirmap (set_node i n v) = dirmap v"
  by (auto simp: dirmap_def node_at_def nth_list_update fun_eq_iff)

lemma dirmap_alloc:
  "vfs_alloc n v = (i, w) \<Longrightarrow> dirmap w = (dirmap v)(i := (case nkind n of Dir es \<Rightarrow> Some (map_of es) | _ \<Rightarrow> None))"
  by (auto simp: vfs_alloc_def dirmap_def node_at_def nth_append fun_eq_iff less_Suc_eq)

lemma drop_link_ret:
  "d < vsize v \<Longrightarrow> \<exists>w. drop_link d v = (Inr (), w) \<and> dirmap w = dirmap v \<and> vsize w = vsize v \<and>
     (\<forall>i. nkind (vnodes w ! i) = nkind (vnodes v ! i))"
  using dirmap_set_node [of d v]
  by (auto simp: drop_link_def node_at_def Let_def dirmap_def fun_eq_iff nth_list_update)

lemma map_of_remove_same: "map_of (bt_remove nm es) = (map_of es)(nm := None)"
  by (rule map_of_bt_remove)

text \<open>C10: removing a name. \<^verbatim>\<open>unlink\<close> succeeds exactly on a name of a non-directory, and
  \<^verbatim>\<open>rmdir\<close> exactly on a name of an empty directory; the directory map then loses that name and
  nothing else changes, the contents included. A refusal changes nothing.\<close>

theorem unlink_removes_name:
  assumes "vfs_inv v" and "p < vsize v"
  shows "case vfs_unlink p nm rmdir v of
      (Inr _, w) \<Rightarrow> \<exists>m i. dirmap v p = Some m \<and> m nm = Some i \<and>
        dirmap v i = (if rmdir then Some Map.empty else None) \<and>
        dirmap w = (dirmap v)(p \<mapsto> m(nm := None)) \<and>
        (\<forall>j < vsize v. dirmap v j = None \<longrightarrow> nkind (vnodes w ! j) = nkind (vnodes v ! j))
    | (Inl e, w) \<Rightarrow> w = v \<and>
        (case dirmap v p of None \<Rightarrow> e = Err ENOTDIR
         | Some m \<Rightarrow> (case m nm of None \<Rightarrow> e = Err ENOENT
            | Some i \<Rightarrow> e = (case dirmap v i of None \<Rightarrow> Err ENOTDIR
                | Some ch \<Rightarrow> if rmdir then Err ENOTEMPTY else Err EISDIR) \<and>
                dirmap v i \<noteq> (if rmdir then Some Map.empty else None)))"
proof (cases "nkind (vnodes v ! p)")
  case (Dir es)
  note dp = dirmap_Dir [OF assms(2) Dir]
  show ?thesis
  proof (cases "map_of es nm")
    case None
    then show ?thesis using dp assms(2) Dir by (simp add: vfs_unlink_def node_at_def)
  next
    case (Some i)
    have i: "i < vsize v" using vfs_ok_child [OF vfs_inv_ok [OF assms(1)] assms(2) Dir Some] .
    let ?u = "set_entries p (bt_remove nm es) v"
    obtain w where w: "drop_link i ?u = (Inr (), w)" "dirmap w = dirmap ?u"
        "\<And>j. nkind (vnodes w ! j) = nkind (vnodes ?u ! j)"
      using drop_link_ret [of i ?u] i by auto
    have du: "dirmap ?u = (dirmap v)(p \<mapsto> (map_of es)(nm := None))"
      using assms(2) by (simp add: dirmap_set_entries map_of_bt_remove)
    have keep: "nkind (vnodes ?u ! j) = nkind (vnodes v ! j)" if "dirmap v j = None" for j
      using that dp assms(2) by (cases "j = p") (auto simp: vnodes_set_entries)
    have di: "dirmap v i = (case nkind (vnodes v ! i) of Dir ch \<Rightarrow> Some (map_of ch) | _ \<Rightarrow> None)"
      using i by (simp add: dirmap_def node_at_def)
    show ?thesis
    proof (cases "unlink_refusal (nkind (vnodes v ! i)) rmdir")
      case None
      then have res: "vfs_unlink p nm rmdir v = (Inr (), w)"
        using assms(2) Dir Some i w(1) by (simp add: vfs_unlink_def node_at_def)
      have "dirmap v i = (if rmdir then Some Map.empty else None)"
        unfolding di using None by (auto simp: unlink_refusal_def split: node_kind.splits if_splits)
      then show ?thesis
        unfolding res using dp Some w du keep by simp
    next
      case (Some e)
      then have res: "vfs_unlink p nm rmdir v = (Inl (Err e), v)"
        using assms(2) Dir \<open>map_of es nm = Some i\<close> i by (simp add: vfs_unlink_def node_at_def)
      have "e = (case dirmap v i of None \<Rightarrow> ENOTDIR | Some ch \<Rightarrow> if rmdir then ENOTEMPTY else EISDIR)"
        and "dirmap v i \<noteq> (if rmdir then Some Map.empty else None)"
        unfolding di using Some by (auto simp: unlink_refusal_def split: node_kind.splits if_splits)
      then show ?thesis
        unfolding res using dp \<open>map_of es nm = Some i\<close> by (simp split: option.splits)
    qed
  qed
qed (use assms(2) in \<open>auto simp: vfs_unlink_def node_at_def dirmap_def\<close>)

text \<open>A small tree for the examples: the root with an empty file \<^verbatim>\<open>a\<close>.\<close>

definition demo_tree :: vfs where
  "demo_tree = snd (vfs_create ROOT (str ''a'') (File vec_new) 0x1A4 vfs_root_only)"

lemma demo_nodes:
  "vnodes demo_tree =
     [\<lparr>nkind = Dir [(str ''a'', 1)], nmode = 0x1ED, nnlink = 2, nmtime = 0, nparent = 0\<rparr>,
      \<lparr>nkind = File vec_new, nmode = 0x1A4, nnlink = 1, nmtime = 0, nparent = 0\<rparr>]"
  by code_simp

lemma demo_tree_inv: "vfs_inv demo_tree" "ROOT < vsize demo_tree"
proof -
  have "good vfs_root_only (\<lambda>i w. i < vsize w) (vfs_create ROOT (str ''a'') (File vec_new) 0x1A4 vfs_root_only)"
    using root_only_inv vfs_inv_root by (intro create_good) (simp_all add: fresh_kind_def)
  then show "vfs_inv demo_tree"
    by (auto simp: demo_tree_def good_def)
  then show "ROOT < vsize demo_tree" by (rule vfs_inv_root)
qed

theorem unlink_removes_name_witness:
  "vfs_inv demo_tree \<and> ROOT < vsize demo_tree \<and> fst (vfs_unlink ROOT (str ''a'') False demo_tree) = Inr () \<and>
   dirmap (snd (vfs_unlink ROOT (str ''a'') False demo_tree)) ROOT = Some Map.empty"
proof -
  have ok: "fst (vfs_unlink ROOT (str ''a'') False demo_tree) = Inr ()" by code_simp
  have root: "dirmap demo_tree ROOT = Some [str ''a'' \<mapsto> 1]"
    by (simp add: demo_tree_def vfs_create_def vfs_reserve_def vec_new_def vfs_root_only_def vfs_alloc_def
        node_at_def ROOT_def set_entries_def set_node_def dirmap_def str_def)
  have "str ''a'' \<noteq> []" by (simp add: str_def)
  then show ?thesis
    using unlink_removes_name [OF demo_tree_inv, where nm = "str ''a''" and rmdir = False] ok root demo_tree_inv
    by (auto split: prod.splits sum.splits)
qed

lemma reserve_cases: "vfs_reserve v n = Inr () \<or> vfs_reserve v n = Inl (Err ENOSPC)"
  by (auto simp: vfs_reserve_def split: option.splits)

text \<open>C11: creating a node. Success means the parent is a directory without that name; the map
  gains the name, bound to a node number that was unused, holding what was given. A refusal
  leaves every directory map and all contents as they were: \<^verbatim>\<open>EEXIST\<close> for a name that is taken or
  reserved, \<^verbatim>\<open>ENOTDIR\<close>, or \<^verbatim>\<open>ENOSPC\<close> when the contents do not fit the budget.\<close>

theorem create_adds_name:
  assumes "vfs_inv v" and "p < vsize v" and "fresh_kind k"
  shows "case vfs_create p nm k mode v of
      (Inr i, w) \<Rightarrow> i = vsize v \<and> nkind (vnodes w ! i) = k \<and>
        (\<exists>m. dirmap v p = Some m \<and> m nm = None \<and>
          dirmap w = (dirmap v)(i := (if is_dir_kind k then Some Map.empty else None), p \<mapsto> m(nm \<mapsto> i))) \<and>
        (\<forall>j < vsize v. j \<noteq> p \<longrightarrow> vnodes w ! j = vnodes v ! j)
    | (Inl e, w) \<Rightarrow> (\<forall>j < vsize v. vnodes w ! j = vnodes v ! j) \<and>
        (e = Err EEXIST \<and> (nm \<in> {[], str ''.'', str ''..''} \<or> (\<exists>m. dirmap v p = Some m \<and> m nm \<noteq> None)) \<or>
         e = Err ENOTDIR \<and> dirmap v p = None \<or>
         e = Err ENOSPC \<and> vfs_reserve v (data_len k) = Inl (Err ENOSPC))"
proof -
  let ?n = "\<lparr>nkind = k, nmode = mode, nnlink = initial_nlink k, nmtime = 0, nparent = p\<rparr>"
  obtain i w where al: "vfs_alloc ?n v = (i, w)" by fastforce
  then have w: "i = vsize v" "vnodes w = vnodes v @ [?n]" "vsize w = Suc (vsize v)"
    by (auto simp: vfs_alloc_def)
  have at: "vnodes w ! p = vnodes v ! p" "node_at w p = Some (vnodes v ! p)"
    using assms(2) w by (auto simp: nth_append node_at_def)
  have kmap: "(case k of Dir es \<Rightarrow> Some (map_of es) | _ \<Rightarrow> None) = (if is_dir_kind k then Some Map.empty else None)"
  proof (cases k)
    case (Dir es)
    then show ?thesis using assms(3) by (cases es) (auto simp: is_dir_kind_def fresh_kind_def)
  qed (simp_all add: is_dir_kind_def)
  have dw: "dirmap w = (dirmap v)(i := (if is_dir_kind k then Some Map.empty else None))"
    using dirmap_alloc [OF al] kmap by simp
  have old: "vnodes w ! j = vnodes v ! j" if "j < vsize v" for j
    using that w by (simp add: nth_append)
  consider (bad) "nm \<in> {[], str ''.'', str ''..''}"
    | (full) "nm \<notin> {[], str ''.'', str ''..''}" "vfs_reserve v (data_len k) = Inl (Err ENOSPC)"
    | (fits) "nm \<notin> {[], str ''.'', str ''..''}" "vfs_reserve v (data_len k) = Inr ()"
    using reserve_cases [of v "data_len k"] by blast
  then show ?thesis
  proof cases
    case bad
    then show ?thesis by (auto simp: vfs_create_def)
  next
    case full
    then show ?thesis by (auto simp: vfs_create_def)
  next
    case fits
    show ?thesis
    proof (cases "nkind (vnodes v ! p)")
      case (Dir es)
      note dp = dirmap_Dir [OF assms(2) Dir]
      have es: "bt_ok es" using vfs_ok_dir [OF vfs_inv_ok [OF assms(1)] assms(2) Dir] by simp
      show ?thesis
      proof (cases "map_of es nm")
        case None
        let ?x = "set_entries p (bt_insert nm i es) w"
        have res: "vfs_create p nm k mode v = (Inr i, ?x)"
          using fits al at Dir None by (auto simp: vfs_create_def)
        have "dirmap ?x = (dirmap v)(i := (if is_dir_kind k then Some Map.empty else None), p \<mapsto> (map_of es)(nm \<mapsto> i))"
          using assms(2) w es by (simp add: dirmap_set_entries dw map_of_bt_insert)
        moreover have "nkind (vnodes ?x ! i) = k"
          using w assms(2) by (simp add: vnodes_set_entries nth_append)
        ultimately show ?thesis
          unfolding res using w(1) dp None old by (simp add: vnodes_set_entries)
      next
        case (Some y)
        then have res: "vfs_create p nm k mode v = (Inl (Err EEXIST), w)"
          using fits al at Dir by (auto simp: vfs_create_def)
        then show ?thesis unfolding res using dp Some old by simp
      qed
    qed (use fits al at old assms(2) in \<open>auto simp: vfs_create_def dirmap_def node_at_def\<close>)
  qed
qed

theorem create_adds_name_witness:
  "vfs_inv demo_tree \<and> ROOT < vsize demo_tree \<and> fresh_kind (Dir []) \<and>
   fst (vfs_create ROOT (str ''d'') (Dir []) 0x1ED demo_tree) = Inr 2 \<and>
   dirmap (snd (vfs_create ROOT (str ''d'') (Dir []) 0x1ED demo_tree)) 2 = Some Map.empty"
proof -
  have ok: "fst (vfs_create ROOT (str ''d'') (Dir []) 0x1ED demo_tree) = Inr 2" by code_simp
  have k: "fresh_kind (Dir [])" by (simp add: fresh_kind_def)
  show ?thesis
    using create_adds_name [OF demo_tree_inv k, where nm = "str ''d''" and mode = "0x1ED"] ok demo_tree_inv k
    by (auto split: prod.splits sum.splits simp: is_dir_kind_def ROOT_def)
qed

lemma rename_moves_dirmap:
  assumes inv: "vfs_inv v" and p: "p < vsize v" "nkind (vnodes v ! p) = Dir es" and a: "map_of es a = Some i"
    and q: "q < vsize v" "nkind (vnodes v ! q) = Dir fs"
  shows "\<exists>w m'. rename_moves p a q b i v = (Inr (), w) \<and>
    ((dirmap v)(p \<mapsto> (map_of es)(a := None))) q = Some m' \<and>
    dirmap w = (dirmap v)(p \<mapsto> (map_of es)(a := None), q \<mapsto> m'(b \<mapsto> i)) \<and>
    nparent (vnodes w ! i) = q \<and> (\<forall>j. dirmap v j = None \<longrightarrow> nkind (vnodes w ! j) = nkind (vnodes v ! j))"
proof -
  let ?u = "set_entries p (bt_remove a es) v"
  have i: "i < vsize v" using vfs_ok_child [OF vfs_inv_ok [OF inv] p a] .
  have du: "dirmap ?u = (dirmap v)(p \<mapsto> (map_of es)(a := None))"
    using p by (simp add: dirmap_set_entries map_of_bt_remove)
  have "inv_with (\<lambda>j. 0 + (if map_of es a = Some j then 1 else 0)) ?u"
    using inv p by (intro inv_remove) (auto simp: vfs_inv_iff)
  then have uok: "vfs_ok ?u" by (rule inv_ok)
  obtain gs where gs: "nkind (vnodes ?u ! q) = Dir gs"
    using set_entries_dir [OF p q] by blast
  have gok: "bt_ok gs" using vfs_ok_dir [OF uok _ gs] q by simp
  have dq: "dirmap ?u q = Some (map_of gs)" using dirmap_Dir [OF _ gs] q by simp
  let ?w = "set_entries q (bt_insert b i gs) ?u"
  have dw: "dirmap ?w = (dirmap ?u)(q \<mapsto> (map_of gs)(b \<mapsto> i))"
    using q gok by (simp add: dirmap_set_entries map_of_bt_insert)
  obtain x where x: "(case map_of gs b of None \<Rightarrow> (Inr (), ?w)
      | Some d \<Rightarrow> if d \<noteq> i then drop_link d ?w else (Inr (), ?w)) = (Inr (), x)"
    "dirmap x = dirmap ?w" "vsize x = vsize v" "\<And>j. nkind (vnodes x ! j) = nkind (vnodes ?w ! j)"
  proof (cases "\<exists>d. map_of gs b = Some d \<and> d \<noteq> i")
    case True
    then obtain d where d: "map_of gs b = Some d" "d \<noteq> i" by blast
    then have "d < vsize ?w" using vfs_ok_child [OF uok _ gs d(1)] q by simp
    then show ?thesis using that drop_link_ret [of d ?w] d by auto
  next
    case False
    then show ?thesis using that [of ?w] by (auto split: option.splits)
  qed
  have "rename_moves p a q b i v = (Inr (), set_node i ((vnodes x ! i)\<lparr>nparent := q\<rparr>) x)"
    using p q gs i x(1,3) by (simp add: rename_moves_def node_at_def Let_def)
  moreover have "dirmap (set_node i ((vnodes x ! i)\<lparr>nparent := q\<rparr>) x) = dirmap ?w"
    using i x(2,3) by (simp add: dirmap_set_node)
  moreover have "nkind (vnodes ?w ! j) = nkind (vnodes v ! j)" if "dirmap v j = None" for j
  proof -
    have "j \<noteq> p" and "j \<noteq> q" using that dirmap_Dir [OF p] dirmap_Dir [OF q] by auto
    then show ?thesis by (simp add: vnodes_set_entries)
  qed
  ultimately show ?thesis
    using dq du dw i x(3,4) by (auto simp: nth_list_update)
qed

text \<open>C12: moving a name. On success the source map loses the old name and the target map binds the
  new one to the same node, replacing what it named, and no file contents change; a missing
  name, a parent that is no directory and a target that is a directory with entries are
  refused with the tree untouched.\<close>

theorem rename_moves_name:
  assumes "vfs_inv v" and "p < vsize v" and "q < vsize v"
  shows "case vfs_rename p a q b v of
      (Inr _, w) \<Rightarrow> \<exists>m i m'. dirmap v p = Some m \<and> m a = Some i \<and>
        ((dirmap v)(p \<mapsto> m(a := None))) q = Some m' \<and>
        dirmap w = (dirmap v)(p \<mapsto> m(a := None), q \<mapsto> m'(b \<mapsto> i)) \<and> nparent (vnodes w ! i) = q \<and>
        (\<forall>j. dirmap v j = None \<longrightarrow> nkind (vnodes w ! j) = nkind (vnodes v ! j))
    | (Inl e, w) \<Rightarrow> w = v \<and>
        (e = Err ENOTDIR \<and> (dirmap v p = None \<or> dirmap v q = None) \<or>
         e = Err ENOENT \<and> (\<exists>m. dirmap v p = Some m \<and> m a = None) \<or>
         e = Err ENOTEMPTY \<and> (\<exists>m k ch. dirmap v q = Some m \<and> m b = Some k \<and> dirmap v k = Some ch \<and> ch \<noteq> Map.empty))"
proof (cases "nkind (vnodes v ! p)")
  case (Dir es)
  note dp = dirmap_Dir [OF assms(2) Dir]
  show ?thesis
  proof (cases "map_of es a")
    case None
    then show ?thesis using dp assms(2) Dir by (simp add: vfs_rename_def node_at_def)
  next
    case (Some i)
    show ?thesis
    proof (cases "nkind (vnodes v ! q)")
      case q: (Dir fs)
      note dq = dirmap_Dir [OF assms(3) q]
      obtain w m' where w: "rename_moves p a q b i v = (Inr (), w)"
        "((dirmap v)(p \<mapsto> (map_of es)(a := None))) q = Some m'"
        "dirmap w = (dirmap v)(p \<mapsto> (map_of es)(a := None), q \<mapsto> m'(b \<mapsto> i))"
        "nparent (vnodes w ! i) = q" "\<forall>j. dirmap v j = None \<longrightarrow> nkind (vnodes w ! j) = nkind (vnodes v ! j)"
        using rename_moves_dirmap [OF assms(1,2) Dir Some assms(3) q] by blast
      show ?thesis
      proof (cases "\<exists>k ch. map_of fs b = Some k \<and> nkind (vnodes v ! k) = Dir ch \<and> ch \<noteq> []")
        case True
        then obtain k ch where k: "map_of fs b = Some k" "nkind (vnodes v ! k) = Dir ch" "ch \<noteq> []" by blast
        have kv: "k < vsize v" using vfs_ok_child [OF vfs_inv_ok [OF assms(1)] assms(3) q k(1)] .
        have "vfs_rename p a q b v = (Inl (Err ENOTEMPTY), v)"
          using assms Dir Some q k kv by (simp add: vfs_rename_def node_at_def)
        then show ?thesis using dq dirmap_Dir [OF kv k(2)] k by simp
      next
        case False
        have kv: "map_of fs b = Some k \<Longrightarrow> k < vsize v" for k
          using vfs_ok_child [OF vfs_inv_ok [OF assms(1)] assms(3) q] .
        have "vfs_rename p a q b v = (Inr (), w)"
          using assms Dir Some q False kv w(1)
          by (auto simp: vfs_rename_def node_at_def split: option.splits node_kind.splits)
        then show ?thesis using dp Some w by simp
      qed
    qed (use assms Dir Some in \<open>auto simp: vfs_rename_def node_at_def dirmap_def\<close>)
  qed
qed (use assms(2) in \<open>auto simp: vfs_rename_def node_at_def dirmap_def\<close>)

theorem rename_moves_name_witness:
  "vfs_inv demo_tree \<and> ROOT < vsize demo_tree \<and> fst (vfs_rename ROOT (str ''a'') ROOT (str ''b'') demo_tree) = Inr () \<and>
   (\<exists>m. dirmap (snd (vfs_rename ROOT (str ''a'') ROOT (str ''b'') demo_tree)) ROOT = Some m \<and> m (str ''b'') \<noteq> None)"
proof -
  have ok: "fst (vfs_rename ROOT (str ''a'') ROOT (str ''b'') demo_tree) = Inr ()" by code_simp
  show ?thesis
    using rename_moves_name [OF demo_tree_inv demo_tree_inv(2), where a = "str ''a''" and b = "str ''b''"] ok demo_tree_inv
    by (auto split: prod.splits sum.splits)
qed

end
