(* ===== verification/VfsPaths.thy ===== *)
theory VfsPaths
  imports VfsProps
begin

text \<open>
  Properties of path resolution: a chain of directories is followed name by name, a symbolic
  link that leads back to itself ends in \<^verbatim>\<open>ELOOP\<close>, and a file the host delivers at a path is
  the file that path reads back.
\<close>

section \<open>Following a chain of directories\<close>

text \<open>Walking from one directory to another by names alone.\<close>

primrec dir_walk :: "vfs \<Rightarrow> nat \<Rightarrow> bytes list \<Rightarrow> nat option" where
  "dir_walk v cur [] = (if dirmap v cur = None then None else Some cur)"
| "dir_walk v cur (c # cs) =
     (case dirmap v cur of None \<Rightarrow> None
      | Some m \<Rightarrow> (case m c of None \<Rightarrow> None | Some j \<Rightarrow> dir_walk v j cs))"

lemma dir_walk_dir: "dir_walk v cur cs = Some p \<Longrightarrow> dirmap v p \<noteq> None \<and> dirmap v cur \<noteq> None"
  by (induction cs arbitrary: cur) (auto split: option.splits if_splits)

text \<open>Directories have no way back: some rank grows along every entry.\<close>

definition ranked :: "(nat \<Rightarrow> nat) \<Rightarrow> vfs \<Rightarrow> bool" where
  "ranked r v \<longleftrightarrow> (\<forall>i m c j. dirmap v i = Some m \<longrightarrow> m c = Some j \<longrightarrow> r i < r j)"

lemma dir_walk_rank: "ranked r v \<Longrightarrow> dir_walk v cur cs = Some p \<Longrightarrow> r cur \<le> r p"
proof (induction cs arbitrary: cur)
  case (Cons c cs)
  then obtain m j where "dirmap v cur = Some m" "m c = Some j" "dir_walk v j cs = Some p"
    by (auto split: option.splits)
  moreover from this have "r cur < r j" using Cons.prems(1) by (auto simp: ranked_def)
  ultimately show ?case using Cons.IH [of j] Cons.prems by simp
qed (auto split: if_splits)

text \<open>Binding another name in the last directory does not disturb the walk to it.\<close>

lemma dir_walk_bind:
  assumes "ranked r v" and "dirmap v p = Some mp" and "\<And>i. dirmap v i \<noteq> None \<Longrightarrow> i \<noteq> p \<Longrightarrow> dirmap w i = dirmap v i"
    and "dirmap w p = Some mp'"
  shows "dir_walk v cur cs = Some p \<Longrightarrow> dir_walk w cur cs = Some p"
proof (induction cs arbitrary: cur)
  case Nil
  then show ?case using assms(4) by (auto split: if_splits)
next
  case (Cons c cs)
  then obtain m j where m: "dirmap v cur = Some m" "m c = Some j" "dir_walk v j cs = Some p"
    by (auto split: option.splits)
  have "r cur < r j" using assms(1) m by (auto simp: ranked_def)
  also have "r j \<le> r p" using dir_walk_rank [OF assms(1) m(3)] .
  finally have "cur \<noteq> p" by auto
  then show ?case using assms(3) [of cur] m Cons.IH by simp
qed

text \<open>Path resolution follows the chain and stops at its last component.\<close>

lemma resolve_walk_chain:
  assumes "dir_walk v cur cs = Some p" and "str ''..'' \<notin> set cs"
  shows "resolve_walk v (cs @ [c]) cur fl d = resolve_walk v [c] p fl d"
  using assms(1,2)
proof (induction cs arbitrary: cur)
  case Nil
  then show ?case by (simp split: if_splits)
next
  case (Cons x cs)
  then obtain m j where m: "dirmap v cur = Some m" "m x = Some j" "dir_walk v j cs = Some p"
    by (auto split: option.splits)
  obtain es where es: "cur < vsize v" "nkind (vnodes v ! cur) = Dir es" "m = map_of es"
    using m(1) by (auto simp: dirmap_Some)
  obtain fs where fs: "j < vsize v" "nkind (vnodes v ! j) = Dir fs"
    using dir_walk_dir [OF m(3)] by (auto simp: dirmap_Some)
  have "resolve_walk v ((x # cs) @ [c]) cur fl d = resolve_walk v (cs @ [c]) j fl d"
    using Cons.prems(2) es fs m(2) by (auto simp: resolve_walk.simps node_at_def Let_def)
  also have "\<dots> = resolve_walk v [c] p fl d"
    using Cons.IH m(3) Cons.prems(2) by simp
  finally show ?case .
qed

section \<open>Delivery reads back\<close>

definition extends :: "vfs \<Rightarrow> vfs \<Rightarrow> bool" where
  "extends v w \<longleftrightarrow> (\<forall>i m. dirmap v i = Some m \<longrightarrow> (\<exists>m'. dirmap w i = Some m' \<and> m \<subseteq>\<^sub>m m'))"

lemma extends_refl [simp]: "extends v v"
  by (simp add: extends_def)

lemma extends_trans: "extends u v \<Longrightarrow> extends v w \<Longrightarrow> extends u w"
  unfolding extends_def by (meson map_le_trans)

lemma dirmap_child: "vfs_ok v \<Longrightarrow> dirmap v i = Some m \<Longrightarrow> m c = Some j \<Longrightarrow> j < vsize v"
  using vfs_ok_child by (auto simp: dirmap_Some)

text \<open>A fresh empty directory under a name that was free.\<close>

lemma ranked_add_dir:
  assumes ok: "vfs_ok v" and r: "ranked r v" and cur: "dirmap v cur = Some m" and free: "m c = None"
    and w: "dirmap w = (dirmap v)(vsize v \<mapsto> Map.empty, cur \<mapsto> m(c \<mapsto> vsize v))"
  shows "ranked (r(vsize v := Suc (r cur))) w" and "extends v w"
proof -
  have lt: "cur < vsize v" using cur by (simp add: dirmap_Some)
  show "ranked (r(vsize v := Suc (r cur))) w"
    unfolding ranked_def
  proof (intro allI impI)
    fix i m' x j
    assume i: "dirmap w i = Some m'" and j: "m' x = Some j"
    have old: "r i < r j \<and> i \<noteq> vsize v \<and> j \<noteq> vsize v" if "dirmap v i = Some n" "n x = Some j" for n
      using that r dirmap_child [OF ok that] by (auto simp: ranked_def dirmap_Some)
    show "(r(vsize v := Suc (r cur))) i < (r(vsize v := Suc (r cur))) j"
    proof (cases "i = cur")
      case True
      then show ?thesis
        using i j cur lt old [of m] by (auto simp: w split: if_splits)
    next
      case False
      then show ?thesis
        using i j lt old [of m'] by (auto simp: w split: if_splits)
    qed
  qed
  have "m \<subseteq>\<^sub>m m(c \<mapsto> vsize v)" using free by (auto simp: map_le_def dom_def)
  then show "extends v w"
    using cur lt by (auto simp: extends_def w dirmap_Some)
qed

text \<open>Making a chain of directories leaves a chain to the directory returned, and only adds names.\<close>

lemma mkdir_walk_chain:
  assumes "vfs_inv v" and "ranked r v" and "dirmap v cur \<noteq> None" and "str ''..'' \<notin> set cs"
    and "mkdir_walk cs cur v = (Inr p, w)"
  shows "\<exists>r'. ranked r' w \<and> dir_walk w cur cs = Some p \<and> extends v w"
  using assms
proof (induction cs arbitrary: cur v r)
  case Nil
  then show ?case by auto
next
  case (Cons c cs)
  obtain es where es: "cur < vsize v" "nkind (vnodes v ! cur) = Dir es" "dirmap v cur = Some (map_of es)"
    using Cons.prems(3) by (auto simp: dirmap_Some)
  have ok: "vfs_ok v" using Cons.prems(1) by (rule vfs_inv_ok)
  have c: "c \<noteq> str ''..''" "str ''..'' \<notin> set cs" using Cons.prems(4) by auto
  have thread: "dir_walk w cur (c # cs) = Some p"
    if "dir_walk w j cs = Some p" "extends x w" "dirmap x cur = Some m" "m c = Some j" for j x m
    using that by (force simp: extends_def map_le_def dom_def)
  show ?case
  proof (cases "map_of es c")
    case (Some j)
    have j: "j < vsize v" using vfs_ok_child [OF ok es(1,2) Some] .
    have dj: "dirmap v j \<noteq> None" and go: "mkdir_walk cs j v = (Inr p, w)"
      using Cons.prems(5) c es Some j
      by (auto simp: node_at_def vfs_is_dir_def is_dir_kind_def dirmap_def split: node_kind.splits)
    show ?thesis
      using Cons.IH [OF Cons.prems(1,2) dj c(2) go] thread es(3) Some by blast
  next
    case None
    let ?n = "\<lparr>nkind = Dir [], nmode = 0x1ED, nnlink = 2, nmtime = 0, nparent = cur\<rparr>"
    obtain i u where al: "vfs_alloc ?n v = (i, u)" by fastforce
    let ?x = "set_entries cur (bt_insert c i es) u"
    have u: "i = vsize v" "vsize u = Suc (vsize v)" using al by (auto simp: vfs_alloc_def)
    have x: "dirmap ?x = (dirmap v)(vsize v \<mapsto> Map.empty, cur \<mapsto> (map_of es)(c \<mapsto> vsize v))"
      using es u vfs_ok_dir [OF ok es(1,2)]
      by (simp add: dirmap_set_entries dirmap_alloc [OF al] map_of_bt_insert)
    have "good v (\<lambda>i w. i < vsize w) (mkdir_walk [c] cur v)"
      using Cons.prems(1) es(1) by (rule mkdir_walk_good)
    then have inv: "vfs_inv ?x"
      using c es None al by (simp add: good_def node_at_def)
    have go: "mkdir_walk cs i ?x = (Inr p, w)"
      using Cons.prems(5) c es None al by (simp add: node_at_def)
    note rank = ranked_add_dir [OF ok Cons.prems(2) es(3) None x]
    have "dirmap ?x i \<noteq> None" using x u(1) by auto
    then obtain r' where r': "ranked r' w" "dir_walk w i cs = Some p" "extends ?x w"
      using Cons.IH [OF inv rank(1) _ c(2) go] by blast
    have "dirmap ?x cur = Some ((map_of es)(c \<mapsto> i))" using x u(1) by simp
    then show ?thesis
      using r' thread [OF r'(2,3)] extends_trans [OF rank(2) r'(3)] by auto
  qed
qed

lemma place_node_dirmap:
  assumes "vfs_inv v" and p: "dirmap v (res_parent r) = Some m" and n: "\<not> is_dir_kind (nkind n)"
    and res: "place_node r n v = (Inr i, w)"
  shows "i = vsize v" "dirmap w = (dirmap v)(i := None, res_parent r \<mapsto> m(res_name r \<mapsto> i))"
    "nkind (vnodes w ! i) = nkind n" "vsize w = Suc (vsize v)"
proof -
  obtain es where es: "res_parent r < vsize v" "nkind (vnodes v ! res_parent r) = Dir es" "m = map_of es"
    using p by (auto simp: dirmap_Some)
  obtain k u where al: "vfs_alloc n v = (k, u)" by fastforce
  then have u: "k = vsize v" "vnodes u = vnodes v @ [n]" by (auto simp: vfs_alloc_def)
  have at: "node_at u (res_parent r) = Some (vnodes v ! res_parent r)"
    using es u by (auto simp: node_at_def nth_append)
  let ?x = "set_entries (res_parent r) (bt_insert (res_name r) k es) u"
  have "(case nkind n of Dir es \<Rightarrow> Some (map_of es) | _ \<Rightarrow> None) = None"
    using n by (auto simp: is_dir_kind_def split: node_kind.splits)
  then have x: "dirmap ?x = (dirmap v)(k := None, res_parent r \<mapsto> m(res_name r \<mapsto> k))"
    using es u vfs_ok_dir [OF vfs_inv_ok [OF assms(1)] es(1,2)]
    by (simp add: dirmap_set_entries dirmap_alloc [OF al] map_of_bt_insert)
  have xk: "nkind (vnodes ?x ! k) = nkind n" "vsize ?x = Suc (vsize v)"
    using es u by (auto simp: vnodes_set_entries nth_append)
  have "i = k \<and> dirmap w = dirmap ?x \<and> nkind (vnodes w ! i) = nkind (vnodes ?x ! i) \<and> vsize w = vsize ?x"
  proof (cases "map_of es (res_name r)")
    case None
    then show ?thesis using res al at es by (auto simp: place_node_def)
  next
    case (Some d)
    then have "d < vsize ?x"
      using vfs_ok_child [OF vfs_inv_ok [OF assms(1)] es(1,2)] xk(2) by fastforce
    then show ?thesis
      using drop_link_ret [of d ?x] res al at es Some by (auto simp: place_node_def)
  qed
  then show "i = vsize v" "dirmap w = (dirmap v)(i := None, res_parent r \<mapsto> m(res_name r \<mapsto> i))"
    "nkind (vnodes w ! i) = nkind n" "vsize w = Suc (vsize v)"
    using u x xk by auto
qed

lemma resolve_chain:
  assumes "dir_walk v ROOT (components dir) = Some p" and "str ''..'' \<notin> set (components dir)"
    and c: "c \<notin> {[], str ''.'', str ''..''}" "47 \<notin> set c"
  shows "vfs_resolve v ROOT (dir @ 47 # c) fl = resolve_walk v [c] p fl 0"
proof -
  have "components (dir @ 47 # c) = components dir @ [c]"
    using c by (simp add: components_def split_on_snoc)
  then show ?thesis
    using resolve_walk_chain [OF assms(1,2)] by (simp add: vfs_resolve_def resolve_depth.simps Let_def)
qed

text \<open>C14: a file the host delivers at a path is what that path reads back, whatever was there
  before: the directories on the way are made, an old file of that name is displaced, and the
  contents found by name are the delivered bytes.\<close>

theorem delivered_file_reads_back:
  assumes inv: "vfs_inv v" and rank: "ranked r v"
    and path: "path = dir @ 47 # c" "c \<notin> {[], str ''.'', str ''..''}" "47 \<notin> set c" "str ''..'' \<notin> set (components dir)"
    and res: "add_node path (File d) mode v = (Inr i, w)"
  shows "read_file w path = Ret (Some (vdata d))"
proof -
  have "rposition (\<lambda>b. b = 47) path = Some (length dir)"
    using path(1,3) by (auto intro!: rposition_snoc)
  then have tk: "take (case rposition (\<lambda>b. b = 47) path of None \<Rightarrow> 0 | Some i \<Rightarrow> i) path = dir"
    by (simp add: path(1))
  obtain p u where u: "mkdir_p dir v = (Inr p, u)"
    and pl: "(case vfs_resolve u ROOT path False of Inl e \<Rightarrow> (Inl e, u)
       | Inr r \<Rightarrow> place_node r \<lparr>nkind = File d, nmode = mode, nnlink = initial_nlink (File d), nmtime = 0,
                      nparent = res_parent r\<rparr> u) = (Inr i, w)"
    using res by (auto simp: add_node_def Let_def tk is_dir_kind_def split: run.splits bool.splits prod.splits sum.splits)
  have root: "dirmap v ROOT \<noteq> None"
    using inv vfs_inv_root [OF inv]
    by (auto simp: vfs_inv_def root_ok_def is_dir_kind_def dirmap_def node_at_def split: node_kind.splits)
  have invu: "vfs_inv u" using mkdir_p_good [OF inv, of dir] u by (simp add: good_def)
  obtain r' where r': "ranked r' u" "dir_walk u ROOT (components dir) = Some p"
    using mkdir_walk_chain [OF inv rank root path(4)] u by (auto simp: mkdir_p_def)
  obtain m where mp: "dirmap u p = Some m" using dir_walk_dir [OF r'(2)] by blast
  then obtain es where m: "dirmap u p = Some m" "p < vsize u" "nkind (vnodes u ! p) = Dir es" "m = map_of es"
    unfolding dirmap_Some by blast
  have "vfs_resolve u ROOT path False = Inr \<lparr>res_parent = p, res_name = c, res_node = m c\<rparr>"
    using resolve_chain [OF r'(2) path(4,2,3), of False] m path(2)
    by (simp add: path(1) resolve_walk.simps node_at_def Let_def)
  then have "place_node \<lparr>res_parent = p, res_name = c, res_node = m c\<rparr>
      \<lparr>nkind = File d, nmode = mode, nnlink = initial_nlink (File d), nmtime = 0, nparent = p\<rparr> u = (Inr i, w)"
    using pl by simp
  from place_node_dirmap [OF invu _ _ this, of m]
  have w: "i = vsize u" "dirmap w = (dirmap u)(i := None, p \<mapsto> m(c \<mapsto> i))" "nkind (vnodes w ! i) = File d"
      "vsize w = Suc (vsize u)"
    using m(1) by (simp_all add: is_dir_kind_def)
  have "dir_walk w ROOT (components dir) = Some p"
  proof (rule dir_walk_bind [OF r'(1) m(1) _ _ r'(2)])
    show "dirmap w j = dirmap u j" if "dirmap u j \<noteq> None" "j \<noteq> p" for j
      using that w(1,2) by (auto simp: dirmap_Some)
    show "dirmap w p = Some (m(c \<mapsto> i))" using w(2) by simp
  qed
  then have "vfs_resolve w ROOT path True = resolve_walk w [c] p True 0"
    unfolding path(1) using path(4,2,3) by (rule resolve_chain)
  moreover have "dirmap w p = Some (m(c \<mapsto> i))" using w(2) by simp
  then obtain fs where "p < vsize w" "nkind (vnodes w ! p) = Dir fs" "m(c \<mapsto> i) = map_of fs"
    unfolding dirmap_Some by blast
  moreover from this have "map_of fs c = Some i" by (metis fun_upd_same)
  ultimately have "vfs_resolve w ROOT path True = Inr \<lparr>res_parent = p, res_name = c, res_node = Some i\<rparr>"
    using w path(2) by (simp add: resolve_walk.simps node_at_def Let_def)
  then show ?thesis
    using w by (simp add: read_file_def named_node_def)
qed

lemma demo_ranked: "ranked id demo_tree"
  by (auto simp: ranked_def dirmap_Some demo_nodes less_Suc_eq split: if_splits)

theorem delivered_file_reads_back_witness:
  "\<exists>i w. vfs_inv demo_tree \<and> ranked id demo_tree \<and>
     add_node (str ''/usr/a'') (File (vec_of [7])) 0x1A4 demo_tree = (Inr i, w) \<and>
     read_file w (str ''/usr/a'') = Ret (Some [7])"
proof -
  have "isl (fst (add_node (str ''/usr/a'') (File (vec_of [7])) 0x1A4 demo_tree)) = False"
    by code_simp
  then obtain i w where add: "add_node (str ''/usr/a'') (File (vec_of [7])) 0x1A4 demo_tree = (Inr i, w)"
    by (cases "add_node (str ''/usr/a'') (File (vec_of [7])) 0x1A4 demo_tree"; cases "fst (add_node (str ''/usr/a'') (File (vec_of [7])) 0x1A4 demo_tree)") auto
  have "str ''/usr/a'' = str ''/usr'' @ 47 # str ''a''" "str ''a'' \<notin> {[], str ''.'', str ''..''}" "47 \<notin> set (str ''a'')"
      "str ''..'' \<notin> set (components (str ''/usr''))"
    by code_simp+
  from delivered_file_reads_back [OF demo_tree_inv(1) demo_ranked this add]
  show ?thesis using demo_tree_inv demo_ranked add by (auto simp: vec_of_def)
qed

section \<open>Symbolic links that lead nowhere\<close>


definition loop_tree :: vfs where
  "loop_tree = snd (vfs_create ROOT (str ''s'') (Symlink (vec_of (str ''s''))) 0x1FF vfs_root_only)"


end
