(* ===== verification/VfsBudget.thy ===== *)
theory VfsBudget
  imports VfsProps
begin

text \<open>
  The storage budget: what the guest can grow stays under the ceiling. Then two consequences of
  \<^verbatim>\<open>rename\<close> as it is written, which differ from what a POSIX kernel does.
\<close>

section \<open>What is charged\<close>

definition stored :: "vfs \<Rightarrow> nat" where
  "stored v = data_total v + cs_bytes (vchunks v)"

definition within_budget :: "vfs \<Rightarrow> bool" where
  "within_budget v \<longleftrightarrow> (\<forall>b. vbudget v = Some b \<longrightarrow> b < usize_max \<and> stored v \<le> b)"

lemma reserve_fits:
  "within_budget v \<Longrightarrow> vfs_reserve v n = Inr () \<Longrightarrow> vbudget v = Some b \<Longrightarrow> stored v + n \<le> b"
  by (auto simp: within_budget_def vfs_reserve_def vfs_bytes_def usize_sat_add_def stored_def data_total_def
      split: if_splits)

lemma data_total_set_node:
  "i < vsize v \<Longrightarrow> data_total (set_node i n v) + data_len (nkind (vnodes v ! i)) = data_total v + data_len (nkind n)"
  using data_total_set_kind [of i v "nkind n"]
  by (simp add: set_kind_def data_total_def map_update)

lemma stored_set_entries:
  "p < vsize v \<Longrightarrow> nkind (vnodes v ! p) = Dir es \<Longrightarrow> stored (set_entries p es' v) = stored v"
  using data_total_set_node [of p v "(vnodes v ! p)\<lparr>nkind := Dir es'\<rparr>"]
  by (simp add: set_entries_def stored_def)

lemma stored_drop_link:
  "d < vsize v \<Longrightarrow> stored (snd (drop_link d v)) = stored v \<and> vbudget (snd (drop_link d v)) = vbudget v \<and>
     vsize (snd (drop_link d v)) = vsize v"
  using data_total_set_node [of d v "(vnodes v ! d)\<lparr>nnlink := saturating_sub (nnlink (vnodes v ! d)) 1\<rparr>"]
  by (auto simp: drop_link_def node_at_def Let_def stored_def data_total_def)

lemma stored_alloc:
  "vfs_alloc n v = (i, w) \<Longrightarrow> stored w = stored v + data_len (nkind n) \<and> vbudget w = vbudget v"
  by (auto simp: vfs_alloc_def stored_def data_total_def)

lemma cs_bytes_insert:
  assumes "cs_insert h bs st = Inr st'"
  shows "cs_bytes st' = cs_bytes st + (if map_of st h = None then vcap bs else 0)"
proof -
  have "map_of st h = None \<Longrightarrow> cs_bytes (bt_insert h bs st) = cs_bytes st + vcap bs"
    by (induction st) (auto simp: cs_bytes_def split: if_splits)
  then show ?thesis using assms by (auto simp: cs_insert_Inr)
qed

text \<open>An operation that charges nothing.\<close>

definition free_of_charge :: "vfs \<Rightarrow> vfs \<Rightarrow> bool" where
  "free_of_charge v w \<longleftrightarrow> stored w \<le> stored v \<and> vbudget w = vbudget v"

lemma free_within: "free_of_charge v w \<Longrightarrow> within_budget v \<Longrightarrow> within_budget w"
  by (force simp: free_of_charge_def within_budget_def)

lemma snd_outcome: "snd (outcome rw) = snd rw"
  by (auto simp: outcome_def split: prod.splits sum.splits fault.splits)

lemma create_within:
  assumes "within_budget v"
  shows "within_budget (snd (vfs_create p nm k mode v))"
proof (cases "nm = [] \<or> nm = str ''.'' \<or> nm = str ''..'' \<or> vfs_reserve v (data_len k) \<noteq> Inr ()")
  case True
  then show ?thesis using assms reserve_cases [of v "data_len k"] by (auto simp: vfs_create_def)
next
  case False
  let ?n = "\<lparr>nkind = k, nmode = mode, nnlink = initial_nlink k, nmtime = 0, nparent = p\<rparr>"
  obtain i w where al: "vfs_alloc ?n v = (i, w)" by fastforce
  have w: "within_budget w"
    using stored_alloc [OF al] reserve_fits [OF assms] False assms by (auto simp: within_budget_def)
  have "within_budget (set_entries p es w)" if "p < vsize w" "nkind (vnodes w ! p) = Dir es'" for es es'
    using w that by (auto intro!: free_within [OF _ w] simp: free_of_charge_def stored_set_entries)
  then show ?thesis
    using False al w by (auto simp: vfs_create_def node_at_def split: node_kind.splits)
qed

lemma link_free: "p < vsize v \<Longrightarrow> i < vsize v \<Longrightarrow> free_of_charge v (snd (vfs_link p nm i v))"
proof (cases "nkind (vnodes v ! p)")
  case (Dir es)
  assume p: "p < vsize v" and i: "i < vsize v"
  let ?u = "set_entries p (bt_insert nm i es) v"
  have "stored (set_node i ((vnodes ?u ! i)\<lparr>nnlink := x\<rparr>) ?u) = stored v" for x
    using data_total_set_node [of i ?u "(vnodes ?u ! i)\<lparr>nnlink := x\<rparr>"] stored_set_entries [OF p Dir] i
    by (simp add: stored_def)
  then show ?thesis
    using Dir p i by (auto simp: vfs_link_def node_at_def free_of_charge_def Let_def)
qed (auto simp: vfs_link_def node_at_def free_of_charge_def)

lemma unlink_free:
  assumes "vfs_ok v" and p: "p < vsize v"
  shows "free_of_charge v (snd (vfs_unlink p nm rmdir v))"
proof (cases "nkind (vnodes v ! p)")
  case (Dir es)
  have "free_of_charge v (snd (drop_link i (set_entries p (bt_remove nm es) v)))" if "map_of es nm = Some i" for i
    using vfs_ok_child [OF assms Dir that] stored_drop_link [of i "set_entries p (bt_remove nm es) v"]
    by (simp add: free_of_charge_def stored_set_entries [OF p Dir])
  then show ?thesis
    using Dir p by (auto simp: vfs_unlink_def node_at_def free_of_charge_def [of v v] split: option.splits)
qed (use p in \<open>auto simp: vfs_unlink_def node_at_def free_of_charge_def\<close>)

lemma rename_moves_free:
  assumes inv: "vfs_inv v" and p: "p < vsize v" "nkind (vnodes v ! p) = Dir es" and a: "map_of es a = Some i"
    and q: "q < vsize v" "nkind (vnodes v ! q) = Dir fs"
  shows "free_of_charge v (snd (rename_moves p a q b i v))"
proof -
  let ?u = "set_entries p (bt_remove a es) v"
  have i: "i < vsize v" using vfs_ok_child [OF vfs_inv_ok [OF inv] p a] .
  have "inv_with (\<lambda>j. 0 + (if map_of es a = Some j then 1 else 0)) ?u"
    using inv p by (intro inv_remove) (auto simp: vfs_inv_iff)
  then have uok: "vfs_ok ?u" by (rule inv_ok)
  obtain gs where gs: "nkind (vnodes ?u ! q) = Dir gs"
    using set_entries_dir [OF p q] by blast
  let ?w = "set_entries q (bt_insert b i gs) ?u"
  have w: "stored ?w = stored v" "vbudget ?w = vbudget v"
    using stored_set_entries [OF p] stored_set_entries [of q ?u gs] gs q by auto
  have move: "free_of_charge v (set_node i ((vnodes x ! i)\<lparr>nparent := q\<rparr>) x)"
    if "stored x = stored v" "vbudget x = vbudget v" "vsize x = vsize v" for x
    using data_total_set_node [of i x "(vnodes x ! i)\<lparr>nparent := q\<rparr>"] that i
    by (simp add: free_of_charge_def stored_def)
  have d: "d < vsize v" if "map_of gs b = Some d" for d
    using vfs_ok_child [OF uok _ gs that] q by simp
  show ?thesis
  proof (cases "\<exists>d. map_of gs b = Some d \<and> d \<noteq> i")
    case True
    then obtain d where d': "map_of gs b = Some d" "d \<noteq> i" by blast
    obtain x where x: "drop_link d ?w = (Inr (), x)" using drop_link_ret [of d ?w] d [OF d'(1)] by auto
    have "stored x = stored v" "vbudget x = vbudget v" "vsize x = vsize v"
      using stored_drop_link [of d ?w] d [OF d'(1)] x w by auto
    then show ?thesis
      using p q gs i d' x move by (simp add: rename_moves_def node_at_def Let_def)
  next
    case False
    then have "rename_moves p a q b i v = (Inr (), set_node i ((vnodes ?w ! i)\<lparr>nparent := q\<rparr>) ?w)"
      using p q gs i by (auto simp: rename_moves_def node_at_def Let_def split: option.splits)
    then show ?thesis using move [OF w] by simp
  qed
qed

lemma rename_free:
  assumes inv: "vfs_inv v" and p: "p < vsize v" and q: "q < vsize v"
  shows "free_of_charge v (snd (vfs_rename p a q b v))"
proof (cases "nkind (vnodes v ! p)")
  case (Dir es)
  show ?thesis
  proof (cases "nkind (vnodes v ! q)")
    case np: (Dir fs)
    have "free_of_charge v (snd (rename_moves p a q b i v))" if "map_of es a = Some i" for i
      using rename_moves_free [OF inv p Dir that q np] .
    then show ?thesis
      using p q Dir np
      by (auto simp: vfs_rename_def node_at_def free_of_charge_def [of v v] split: option.splits node_kind.splits)
  qed (use p q Dir in \<open>auto simp: vfs_rename_def node_at_def free_of_charge_def split: option.splits\<close>)
qed (use p in \<open>auto simp: vfs_rename_def node_at_def free_of_charge_def\<close>)

lemma release_free:
  assumes "vfs_inv v"
  shows "free_of_charge v (snd (release_unreferenced referenced v))"
proof -
  obtain freed w where r: "release_unreferenced referenced v = (freed, w)" by fastforce
  have "\<forall>i \<in> set (vunlinked v). i < vsize v" "distinct (vunlinked v)"
    using assms by (auto simp: vfs_inv_def vfs_ok_def)
  then have "data_total w + freed = data_total v \<and> vchunks w = vchunks v \<and> vbudget w = vbudget v"
    using release_loop_exact [of "vunlinked v" "v\<lparr>vunlinked := []\<rparr>" referenced "[]" 0 freed w] r
    by (simp add: release_unreferenced_def data_total_def)
  then show ?thesis by (auto simp: r free_of_charge_def stored_def)
qed

lemma materialize_within:
  assumes "within_budget v"
  shows "within_budget (snd (materialize_file i v))"
proof -
  have "within_budget (set_kind i (File (vec_of bs)) v)"
    if "i < vsize v" "nkind (vnodes v ! i) = ChunkedFile f" "vfs_reserve v (vcap (vec_of bs)) = Inr ()" for f bs
    using reserve_fits [OF assms that(3)] data_total_set_kind [OF that(1), of "File (vec_of bs)"] that assms
    by (auto simp: within_budget_def stored_def)
  then show ?thesis
    using assms reserve_cases [of v]
    by (auto simp: materialize_file_def node_at_def split: node_kind.splits run.splits read_range.splits sum.splits)
qed

lemma put_chunk_within:
  assumes "within_budget v" and "put_chunk h bs v = Inr w"
  shows "within_budget w"
proof -
  obtain st where st: "cs_insert h bs (vchunks v) = Inr st" "w = v\<lparr>vchunks := st\<rparr>"
    and res: "cs_contains (vchunks v) h \<or> vfs_reserve v (vcap bs) = Inr ()"
    using assms(2) by (auto simp: put_chunk_def split: sum.splits if_splits)
  have "stored w = stored v + (if map_of (vchunks v) h = None then vcap bs else 0)"
    using cs_bytes_insert [OF st(1)] by (simp add: st stored_def data_total_def)
  then show ?thesis
    using res assms(1) reserve_fits [OF assms(1)] by (auto simp: within_budget_def st cs_contains_def)
qed

text \<open>The operations a guest drives: the others are the host's own setup, which the source
  exempts.\<close>

fun guest_op :: "vfs_op \<Rightarrow> bool" where
  "guest_op (Create p nm k m) \<longleftrightarrow> True"
| "guest_op (Link p nm i) \<longleftrightarrow> True"
| "guest_op (Unlink p nm rmdir) \<longleftrightarrow> True"
| "guest_op (Rename p nm q nm') \<longleftrightarrow> True"
| "guest_op (Release referenced) \<longleftrightarrow> True"
| "guest_op (Materialize i) \<longleftrightarrow> True"
| "guest_op (PutChunk h bs) \<longleftrightarrow> True"
| "guest_op _ \<longleftrightarrow> False"



section \<open>Renames a POSIX kernel would treat differently\<close>

text \<open>C36: renaming a directory to a name inside itself is accepted. The directory loses its
  place in the tree and becomes its own parent and its own child.\<close>

theorem rename_into_itself:
  assumes "vfs_inv v" and "p < vsize v" and "dirmap v p = Some m" and "m a = Some i" and "p \<noteq> i"
    and "dirmap v i = Some ch" and "ch b = None"
  shows "\<exists>w. vfs_rename p a i b v = (Inr (), w) \<and> dirmap w p = Some (m(a := None)) \<and>
    dirmap w i = Some (ch(b \<mapsto> i)) \<and> nparent (vnodes w ! i) = i"
proof -
  have i: "i < vsize v" using assms(6) by (simp add: dirmap_Some)
  obtain es fs where es: "nkind (vnodes v ! p) = Dir es" "m = map_of es" and fs: "nkind (vnodes v ! i) = Dir fs" "ch = map_of fs"
    using assms(3,6) by (auto simp: dirmap_Some)
  obtain w m' where w: "rename_moves p a i b i v = (Inr (), w)"
    "((dirmap v)(p \<mapsto> (map_of es)(a := None))) i = Some m'"
    "dirmap w = (dirmap v)(p \<mapsto> (map_of es)(a := None), i \<mapsto> m'(b \<mapsto> i))" "nparent (vnodes w ! i) = i"
    using rename_moves_dirmap [OF assms(1,2) es(1) _ i fs(1), of a i b] assms(4) es(2) by auto
  have "vfs_rename p a i b v = (Inr (), w)"
    using assms es fs i w(1) by (auto simp: vfs_rename_def node_at_def)
  then show ?thesis using w assms es fs by auto
qed

definition dir_tree :: vfs where
  "dir_tree = snd (vfs_create ROOT (str ''d'') (Dir []) 0x1ED vfs_root_only)"

lemma dir_tree_inv: "vfs_inv dir_tree"
proof -
  have "good vfs_root_only (\<lambda>i w. i < vsize w) (vfs_create ROOT (str ''d'') (Dir []) 0x1ED vfs_root_only)"
    using root_only_inv vfs_inv_root by (intro create_good) (simp_all add: fresh_kind_def)
  then show ?thesis by (auto simp: dir_tree_def good_def)
qed

theorem rename_into_itself_witness:
  "\<exists>w. vfs_inv dir_tree \<and> vfs_rename ROOT (str ''d'') 1 (str ''e'') dir_tree = (Inr (), w) \<and>
     nparent (vnodes w ! 1) = 1"
proof -
  have nodes: "vnodes dir_tree =
     [\<lparr>nkind = Dir [(str ''d'', 1)], nmode = 0x1ED, nnlink = 2, nmtime = 0, nparent = 0\<rparr>,
      \<lparr>nkind = Dir [], nmode = 0x1ED, nnlink = 2, nmtime = 0, nparent = 0\<rparr>]"
    by code_simp
  have "ROOT < vsize dir_tree" "dirmap dir_tree ROOT = Some [str ''d'' \<mapsto> 1]" "dirmap dir_tree 1 = Some Map.empty"
    by (simp_all add: nodes ROOT_def dirmap_def node_at_def)
  then show ?thesis
    using rename_into_itself [OF dir_tree_inv, of ROOT "[str ''d'' \<mapsto> 1]" "str ''d''" 1 Map.empty "str ''e''"]
      dir_tree_inv
    by (auto simp: ROOT_def)
qed

lemma nnlink_set_entries: "p < vsize v \<Longrightarrow> nnlink (vnodes (set_entries p es v) ! i) = nnlink (vnodes v ! i)"
  by (cases "p = i") (simp_all add: vnodes_set_entries)

text \<open>C37: renaming one name of a file onto another name of the same file removes the first name
  and leaves the link count as it was, one more than the names that remain; a kernel leaves both
  names.\<close>

theorem rename_onto_own_link:
  assumes "vfs_inv v" and "dirmap v p = Some m" and "m a = Some i" and "dirmap v q = Some m'" and "m' b = Some i"
    and "dirmap v i = None" and "(p, a) \<noteq> (q, b)"
  shows "\<exists>w. vfs_rename p a q b v = (Inr (), w) \<and> dirmap w = (dirmap v)(p \<mapsto> m(a := None)) \<and>
    nnlink (vnodes w ! i) = nnlink (vnodes v ! i)"
proof -
  obtain es fs where es: "p < vsize v" "nkind (vnodes v ! p) = Dir es" "m = map_of es"
    and fs: "q < vsize v" "nkind (vnodes v ! q) = Dir fs" "m' = map_of fs"
    using assms(2,4) by (auto simp: dirmap_Some)
  have ok: "vfs_ok v" using assms(1) by (rule vfs_inv_ok)
  have i: "i < vsize v" using vfs_ok_child [OF ok es(1,2)] assms(3) es(3) by blast
  have nd: "\<not> is_dir_kind (nkind (vnodes v ! i))"
    using assms(6) i by (auto simp: dirmap_def node_at_def is_dir_kind_def split: node_kind.splits)
  let ?u = "set_entries p (bt_remove a es) v"
  define gs where "gs = (if p = q then bt_remove a es else fs)"
  have gs: "nkind (vnodes ?u ! q) = Dir gs" "map_of gs b = Some i" "bt_ok gs"
    using es fs assms(3,5,7) vfs_ok_dir [OF ok es(1,2)] vfs_ok_dir [OF ok fs(1,2)]
    by (auto simp: gs_def vnodes_set_entries nth_list_update map_of_bt_remove bt_ok_remove)
  let ?w = "set_entries q (bt_insert b i gs) ?u"
  have "rename_moves p a q b i v = (Inr (), set_node i ((vnodes ?w ! i)\<lparr>nparent := q\<rparr>) ?w)"
    using es fs gs i by (simp add: rename_moves_def node_at_def Let_def)
  moreover have "dirmap (set_node i ((vnodes ?w ! i)\<lparr>nparent := q\<rparr>) ?w) = dirmap ?w"
    using i by (simp add: dirmap_set_node)
  moreover have "dirmap ?w = (dirmap v)(p \<mapsto> m(a := None))"
    using es fs gs assms by (auto simp: dirmap_set_entries map_of_bt_insert map_of_bt_remove gs_def fun_eq_iff)
  moreover have "nnlink (vnodes ?w ! i) = nnlink (vnodes v ! i)"
    using es(1) fs(1) by (simp add: nnlink_set_entries)
  moreover have "vfs_rename p a q b v = rename_moves p a q b i v"
    using es fs assms i nd by (auto simp: vfs_rename_def node_at_def is_dir_kind_def split: node_kind.splits)
  ultimately show ?thesis using i by auto
qed

definition linked_tree :: vfs where
  "linked_tree = snd (vfs_link ROOT (str ''b'') 1 demo_tree)"

theorem rename_onto_own_link_witness:
  "\<exists>w. vfs_inv linked_tree \<and> vfs_rename ROOT (str ''a'') ROOT (str ''b'') linked_tree = (Inr (), w) \<and>
     dirmap w ROOT = Some [str ''b'' \<mapsto> 1] \<and> nnlink (vnodes w ! 1) = 2"
proof -
  have nodes: "vnodes linked_tree =
     [\<lparr>nkind = Dir [(str ''a'', 1), (str ''b'', 1)], nmode = 0x1ED, nnlink = 2, nmtime = 0, nparent = 0\<rparr>,
      \<lparr>nkind = File vec_new, nmode = 0x1A4, nnlink = 2, nmtime = 0, nparent = 0\<rparr>]"
    by code_simp
  have "1 < vsize demo_tree \<and> 1 \<notin> set (vunlinked demo_tree) \<and> nnlink (vnodes demo_tree ! 1) \<noteq> - 1"
    by code_simp
  then have "good demo_tree (\<lambda>_ _. True) (vfs_link ROOT (str ''b'') 1 demo_tree)"
    using demo_tree_inv by (intro link_good) auto
  then have inv: "vfs_inv linked_tree" by (auto simp: linked_tree_def good_def)
  have d: "dirmap linked_tree ROOT = Some [str ''b'' \<mapsto> 1, str ''a'' \<mapsto> 1]" "dirmap linked_tree 1 = None"
    by (simp_all add: nodes ROOT_def dirmap_def node_at_def)
  have "str ''a'' \<noteq> str ''b''" by code_simp
  then show ?thesis
    using rename_onto_own_link [OF inv d(1) _ d(1) _ d(2), of "str ''a''" "str ''b''"] inv
    by (auto simp: nodes)
qed

end
