(* ===== verification/VfsSnapshot.thy ===== *)
theory VfsSnapshot
  imports VfsProps
begin

text \<open>
  The binary image of the file system, \<^verbatim>\<open>Vfs::serialize\<close> and \<^verbatim>\<open>Vfs::deserialize\<close>. The width of
  \<^verbatim>\<open>usize\<close> on the host is a parameter (\<open>host_max\<close> is its largest value): the reader refuses a
  length or an index that the host cannot hold. The formatted refusals are constructors.
\<close>

datatype snap_error =
    Truncated | NotImage | BadVersion | BadRootTag | Implausible | TooManyNodes nat nat | TooLarge
  | BadChild | UnknownDevice u8 | HashTableTooLarge | BadLayout chunk_error | UnknownTag u8 | BadParent
  | TrailingBytes | NoManifestRoot

definition SNAPSHOT_MAGIC :: bytes where
  "SNAPSHOT_MAGIC = str ''WTFS''"

definition SNAPSHOT_VERSION :: u32 where
  "SNAPSHOT_VERSION = 3"

section \<open>Writing\<close>

definition enc_entry :: "bytes \<times> nat \<Rightarrow> bytes" where
  "enc_entry e = u16_to_le (of_nat (length (fst e))) @ fst e @ u64_to_le (of_nat (snd e))"

definition dev_tag :: "dev \<Rightarrow> u8" where
  "dev_tag d = (case d of DevNull \<Rightarrow> 0 | DevZero \<Rightarrow> 1 | DevTty \<Rightarrow> 2 | DevRandom \<Rightarrow> 3 | DevPtmx \<Rightarrow> 5)"

fun enc_kind :: "node_kind \<Rightarrow> bytes" where
  "enc_kind (Dir es) = 1 # u32_to_le (of_nat (length es)) @ concat (map enc_entry es)"
| "enc_kind (File data) = 2 # u64_to_le (of_nat (length (vdata data))) @ vdata data"
| "enc_kind (ChunkedFile f) =
     5 # u64_to_le (cf_size f) @ u32_to_le (cf_chunk_size f) @ u64_to_le (of_nat (length (cf_chunks f)))
       @ concat (cf_chunks f)"
| "enc_kind (Symlink target) = 3 # u16_to_le (of_nat (length (vdata target))) @ vdata target"
| "enc_kind (CharDev d) = [4, dev_tag d]"

definition enc_node :: "node \<Rightarrow> bytes" where
  "enc_node n =
     u64_to_le (of_nat (nparent n)) @ u32_to_le (nmode n) @ u64_to_le (nnlink n) @ u64_to_le (nmtime n)
       @ enc_kind (nkind n)"

definition serialize :: "vfs \<Rightarrow> bytes" where
  "serialize v =
     SNAPSHOT_MAGIC @ u32_to_le SNAPSHOT_VERSION
       @ (case vmanifest_root v of Some root \<Rightarrow> 1 # root | None \<Rightarrow> [0])
       @ u32_to_le (of_nat (length (vnodes v))) @ concat (map enc_node (vnodes v))"

section \<open>Reading\<close>

definition rd_fail :: "'e \<Rightarrow> ('e, 'a) decoder" where
  "rd_fail e bs = Inl e"

definition rd_ret :: "'a \<Rightarrow> ('e, 'a) decoder" where
  "rd_ret x bs = Inr (x, bs)"

definition rd_index :: "nat \<Rightarrow> (snap_error, nat) decoder" where
  "rd_index host_max bs =
     rd_bind (rd_u64 Truncated bs)
       (\<lambda>x. if unat x \<le> host_max then rd_ret (unat x) else rd_fail TooLarge)"

definition dec_entry :: "nat \<Rightarrow> nat \<Rightarrow> (snap_error, bytes \<times> nat) decoder" where
  "dec_entry host_max count bs =
     rd_bind (rd_u16 Truncated bs) (\<lambda>len bs.
     rd_bind (rd_take Truncated (unat len) bs) (\<lambda>name bs.
     rd_bind (rd_index host_max bs) (\<lambda>child.
       if count \<le> child then rd_fail BadChild else rd_ret (name, child))))"

definition dec_dev :: "u8 \<Rightarrow> (snap_error, node_kind) decoder" where
  "dec_dev tag =
     (if tag = 0 then rd_ret (CharDev DevNull) else if tag = 1 then rd_ret (CharDev DevZero)
      else if tag = 2 then rd_ret (CharDev DevTty) else if tag = 3 then rd_ret (CharDev DevRandom)
      else if tag = 5 then rd_ret (CharDev DevPtmx) else rd_fail (UnknownDevice tag))"

definition dec_chunked :: "nat \<Rightarrow> (snap_error, node_kind) decoder" where
  "dec_chunked host_max bs =
     rd_bind (rd_u64 Truncated bs) (\<lambda>sz bs.
     rd_bind (rd_u32 Truncated bs) (\<lambda>chunk_size bs.
     rd_bind (rd_index host_max bs) (\<lambda>n bs.
       if host_max < n * 32 then Inl HashTableTooLarge
       else rd_bind (rd_take Truncated (n * 32) bs) (\<lambda>hashes.
         case chunked_file_new sz chunk_size (fst (as_chunks 32 hashes)) of
           Inl e \<Rightarrow> rd_fail (BadLayout e)
         | Inr f \<Rightarrow> rd_ret (ChunkedFile f)))))"

definition dec_kind :: "nat \<Rightarrow> u32 \<Rightarrow> nat \<Rightarrow> (snap_error, node_kind) decoder" where
  "dec_kind host_max version count bs =
     rd_bind (rd_u8 Truncated bs) (\<lambda>tag bs.
       if tag = 1 then
         rd_bind (rd_u32 Truncated bs) (\<lambda>entries bs.
           rd_map (\<lambda>es. Dir (fold (\<lambda>(nm, child) m. bt_insert nm child m) es []))
             (decode_n (dec_entry host_max count) (unat entries) bs))
       else if tag = 2 then
         rd_bind (rd_index host_max bs) (\<lambda>len bs. rd_map (\<lambda>d. File (vec_of d)) (rd_take Truncated len bs))
       else if tag = 3 then
         rd_bind (rd_u16 Truncated bs) (\<lambda>len bs. rd_map (\<lambda>d. Symlink (vec_of d)) (rd_take Truncated (unat len) bs))
       else if tag = 4 then rd_bind (rd_u8 Truncated bs) dec_dev
       else if tag = 5 \<and> 2 \<le> version then dec_chunked host_max bs
       else Inl (UnknownTag tag))"

definition dec_node :: "nat \<Rightarrow> u32 \<Rightarrow> nat \<Rightarrow> (snap_error, node) decoder" where
  "dec_node host_max version count bs =
     rd_bind (rd_index host_max bs) (\<lambda>parent bs.
     rd_bind (rd_u32 Truncated bs) (\<lambda>mode bs.
     rd_bind (rd_u64 Truncated bs) (\<lambda>nlink bs.
     rd_bind (rd_u64 Truncated bs) (\<lambda>mtime bs.
     rd_bind (dec_kind host_max version count bs) (\<lambda>kind.
       if count \<le> parent then rd_fail BadParent
       else rd_ret \<lparr>nkind = kind, nmode = mode, nnlink = nlink, nmtime = mtime, nparent = parent\<rparr>)))))"

definition dec_root :: "u32 \<Rightarrow> (snap_error, hash option) decoder" where
  "dec_root version bs =
     (if 3 \<le> version then
        rd_bind (rd_u8 Truncated bs) (\<lambda>tag bs.
          if tag = 0 then Inr (None, bs)
          else if tag = 1 then rd_map Some (rd_take Truncated 32 bs)
          else Inl BadRootTag)
      else Inr (None, bs))"

definition is_chunked :: "node \<Rightarrow> bool" where
  "is_chunked n = (case nkind n of ChunkedFile _ \<Rightarrow> True | _ \<Rightarrow> False)"

definition deserialize :: "nat \<Rightarrow> bytes \<Rightarrow> snap_error + vfs" where
  "deserialize host_max bs =
     (case rd_bind (rd_take Truncated 4 bs) (\<lambda>magic bs.
        if magic \<noteq> SNAPSHOT_MAGIC then Inl NotImage
        else rd_bind (rd_u32 Truncated bs) (\<lambda>version bs.
        if version < 1 \<or> SNAPSHOT_VERSION < version then Inl BadVersion
        else rd_bind (dec_root version bs) (\<lambda>root bs.
        rd_bind (rd_u32 Truncated bs) (\<lambda>c bs.
          let count = unat c in
          if count = 0 \<or> 4000000 < count then Inl Implausible
          else if min (count * 29) host_max > length bs then Inl (TooManyNodes count (length bs))
          else rd_map (\<lambda>nodes. (root, nodes)) (decode_n (dec_node host_max version count) count bs))))) of
        Inl e \<Rightarrow> Inl e
      | Inr ((root, nodes), rest) \<Rightarrow>
          if rest \<noteq> [] then Inl TrailingBytes
          else if root = None \<and> (\<exists>n \<in> set nodes. is_chunked n) then Inl NoManifestRoot
          else Inr \<lparr>vnodes = nodes, vchunks = [], vmanifest_root = root, vbudget = None, vunlinked = []\<rparr>)"

section \<open>The formats decode what they encode\<close>

lemma rd_ret_apply [simp]: "rd_ret x bs = Inr (x, bs)"
  and rd_fail_apply [simp]: "rd_fail e bs = Inl e"
  by (simp_all add: rd_ret_def rd_fail_def)

lemma unat_of_nat_small: "n < 2 ^ LENGTH('a) \<Longrightarrow> unat (of_nat n :: 'a::len word) = n"
  by (simp add: unsigned_of_nat take_bit_nat_eq_self)

lemma rd_index_enc: "i < 2 ^ 64 \<Longrightarrow> i \<le> hm \<Longrightarrow> rd_index hm (u64_to_le (of_nat i) @ rest) = Inr (i, rest)"
  by (simp add: rd_index_def unat_of_nat_small)

definition entry_fits :: "nat \<Rightarrow> nat \<Rightarrow> bytes \<times> nat \<Rightarrow> bool" where
  "entry_fits hm count e \<longleftrightarrow> length (fst e) < 2 ^ 16 \<and> snd e < count \<and> count \<le> hm \<and> hm < 2 ^ 64"

interpretation snap_entry: wire_codec enc_entry "dec_entry hm count" "entry_fits hm count" for hm count
proof
  show "dec_entry hm count (enc_entry e @ rest) = Inr (e, rest)" if "entry_fits hm count e" for e rest
    using that by (auto simp: dec_entry_def enc_entry_def entry_fits_def unat_of_nat_small rd_index_enc)
qed

lemma bt_insert_last: "\<forall>e \<in> set m. fst e < k \<Longrightarrow> bt_insert k x m = m @ [(k, x)]"
  by (induction m) auto

lemma fold_bt_insert_sorted:
  "bt_ok (m @ es) \<Longrightarrow> fold (\<lambda>(nm, child) m. bt_insert nm child m) es m = m @ es"
proof (induction es arbitrary: m)
  case (Cons e es)
  have "\<forall>x \<in> set m. fst x < fst e"
    using Cons.prems by (auto simp: bt_ok_def sorted_wrt_append)
  then have "bt_insert (fst e) (snd e) m = m @ [e]" by (simp add: bt_insert_last)
  then show ?case using Cons.IH [of "m @ [e]"] Cons.prems by (cases e) simp
qed simp

lemma as_chunks_concat_exact: "0 < n \<Longrightarrow> \<forall>h \<in> set hs. length h = n \<Longrightarrow> as_chunks n (concat hs) = (hs, [])"
  by (induction hs) (simp_all add: as_chunks_short as_chunks_step)

text \<open>What fits the widths of the image, contents held at their exact size.\<close>

fun kind_fits :: "nat \<Rightarrow> nat \<Rightarrow> node_kind \<Rightarrow> bool" where
  "kind_fits hm count (Dir es) \<longleftrightarrow> bt_ok es \<and> length es < 2 ^ 32 \<and> (\<forall>e \<in> set es. entry_fits hm count e)"
| "kind_fits hm count (File d) \<longleftrightarrow> d = vec_of (vdata d) \<and> length (vdata d) \<le> hm \<and> hm < 2 ^ 64"
| "kind_fits hm count (ChunkedFile f) \<longleftrightarrow>
     chunked_file_new (cf_size f) (cf_chunk_size f) (cf_chunks f) = Inr f \<and>
     (\<forall>h \<in> set (cf_chunks f). length h = 32) \<and> length (cf_chunks f) * 32 \<le> hm \<and> hm < 2 ^ 64"
| "kind_fits hm count (Symlink t) \<longleftrightarrow> t = vec_of (vdata t) \<and> length (vdata t) < 2 ^ 16"
| "kind_fits hm count (CharDev d) \<longleftrightarrow> True"

lemma dec_enc_kind:
  assumes "kind_fits hm count k" and "2 \<le> version"
  shows "dec_kind hm version count (enc_kind k @ rest) = Inr (k, rest)"
proof (cases k)
  case (Dir es)
  have "decode_n (dec_entry hm count) (length es) (concat (map enc_entry es) @ rest) = Inr (es, rest)"
    using assms Dir by (intro snap_entry.decode_run) auto
  moreover have "fold (\<lambda>(nm, child) m. bt_insert nm child m) es [] = es"
    using assms Dir fold_bt_insert_sorted [of "[]" es] by simp
  ultimately show ?thesis
    using assms Dir by (simp add: dec_kind_def unat_of_nat_small)
next
  case (File d)
  then have "length (vdata d) < 2 ^ 64" using assms by auto
  then show ?thesis
    using assms File by (simp add: dec_kind_def rd_index_enc)
next
  case (ChunkedFile f)
  have "length (concat (cf_chunks f)) = length (cf_chunks f) * 32"
    using assms ChunkedFile by (simp add: length_concat sum_list_triv cong: map_cong)
  moreover have "as_chunks 32 (concat (cf_chunks f)) = (cf_chunks f, [])"
    using assms ChunkedFile by (intro as_chunks_concat_exact) auto
  ultimately show ?thesis
    using assms ChunkedFile by (auto simp: dec_kind_def dec_chunked_def rd_index_enc)
next
  case (Symlink t)
  then show ?thesis using assms by (simp add: dec_kind_def unat_of_nat_small)
next
  case (CharDev d)
  then show ?thesis by (cases d) (simp_all add: dec_kind_def dec_dev_def dev_tag_def)
qed

definition node_fits :: "nat \<Rightarrow> nat \<Rightarrow> node \<Rightarrow> bool" where
  "node_fits hm count n \<longleftrightarrow> nparent n < count \<and> count \<le> hm \<and> hm < 2 ^ 64 \<and> kind_fits hm count (nkind n)"

interpretation snap_node: wire_codec enc_node "dec_node hm 3 count" "node_fits hm count" for hm count
proof
  show "dec_node hm 3 count (enc_node n @ rest) = Inr (n, rest)" if "node_fits hm count n" for n rest
    using that by (auto simp: dec_node_def enc_node_def node_fits_def rd_index_enc dec_enc_kind)
qed

lemma length_enc_node: "29 \<le> length (enc_node n)"
proof -
  have "1 \<le> length (enc_kind (nkind n))" by (cases "nkind n") simp_all
  then show ?thesis by (simp add: enc_node_def)
qed

lemma length_concat_ge: "(\<And>x. x \<in> set xs \<Longrightarrow> k \<le> length (f x)) \<Longrightarrow> length xs * k \<le> length (concat (map f xs))"
  by (induction xs) (auto intro: add_mono)

section \<open>Round trip\<close>

definition norm_kind :: "node_kind \<Rightarrow> node_kind" where
  "norm_kind k = (case k of File d \<Rightarrow> File (vec_of (vdata d)) | Symlink t \<Rightarrow> Symlink (vec_of (vdata t)) | _ \<Rightarrow> k)"

definition norm_node :: "node \<Rightarrow> node" where
  "norm_node n = n\<lparr>nkind := norm_kind (nkind n)\<rparr>"

lemma enc_norm_node [simp]: "enc_node (norm_node n) = enc_node n"
proof -
  have "enc_kind (norm_kind k) = enc_kind k" for k
    by (cases k) (simp_all add: norm_kind_def vec_of_def)
  then show ?thesis by (simp add: enc_node_def norm_node_def)
qed

text \<open>A tree that the format can hold.\<close>

definition snap_fits :: "nat \<Rightarrow> vfs \<Rightarrow> bool" where
  "snap_fits hm v \<longleftrightarrow> vnodes v \<noteq> [] \<and> vsize v \<le> 4000000 \<and>
     (\<forall>n \<in> set (vnodes v). node_fits hm (vsize v) (norm_node n)) \<and>
     (case vmanifest_root v of None \<Rightarrow> True | Some root \<Rightarrow> length root = 32) \<and>
     (vmanifest_root v = None \<longrightarrow> (\<forall>n \<in> set (vnodes v). \<not> is_chunked n))"

lemma roundtrip_image:
  assumes "snap_fits hm v"
  shows "deserialize hm (serialize v) =
    Inr \<lparr>vnodes = map norm_node (vnodes v), vchunks = [], vmanifest_root = vmanifest_root v,
         vbudget = None, vunlinked = []\<rparr>"
proof -
  let ?N = "vsize v" and ?ns = "map norm_node (vnodes v)"
  have N: "0 < ?N" "?N \<le> 4000000" using assms by (auto simp: snap_fits_def)
  have enc: "concat (map enc_node (vnodes v)) = concat (map enc_node ?ns)"
    by (simp add: o_def)
  have "decode_n (dec_node hm 3 ?N) (length ?ns) (concat (map enc_node ?ns) @ []) = Inr (?ns, [])"
    using assms by (intro snap_node.decode_run) (auto simp: snap_fits_def)
  then have nodes: "decode_n (dec_node hm 3 ?N) ?N (concat (map enc_node (vnodes v))) = Inr (?ns, [])"
    by (simp add: o_def)
  have len: "?N * 29 \<le> length (concat (map enc_node (vnodes v)))"
    using length_concat_ge [of "vnodes v" 29 enc_node] length_enc_node by simp
  have ch: "is_chunked (norm_node n) = is_chunked n" for n
    by (cases "nkind n") (simp_all add: is_chunked_def norm_node_def norm_kind_def)
  have cnt: "unat (of_nat ?N :: u32) = ?N"
    using N by (intro unat_of_nat_small) simp
  have magic: "length SNAPSHOT_MAGIC = 4" by (simp add: SNAPSHOT_MAGIC_def str_def)
  have root: "dec_root 3 ((case vmanifest_root v of Some root \<Rightarrow> 1 # root | None \<Rightarrow> [0]) @ rest) =
      Inr (vmanifest_root v, rest)" for rest
    using assms by (auto simp: dec_root_def snap_fits_def split: option.splits)
  show ?thesis
    using assms N nodes len
    by (auto simp: deserialize_def serialize_def magic SNAPSHOT_VERSION_def root cnt Let_def ch snap_fits_def)
qed

text \<open>C3: a snapshot restores the tree it was taken from: the same nodes under the same numbers,
  with the same names, modes, link counts, times, contents and layouts, and the same manifest
  root. Buffers come back at their exact size, and resident chunks, the budget and the unlinked
  list start empty.\<close>

theorem snapshot_roundtrip:
  assumes "snap_fits hm v"
  shows "deserialize hm (serialize v) =
    Inr \<lparr>vnodes = map norm_node (vnodes v), vchunks = [], vmanifest_root = vmanifest_root v,
         vbudget = None, vunlinked = []\<rparr>"
  using assms by (rule roundtrip_image)

lemma demo_fits: "snap_fits usize_max demo_tree"
proof -
  have "vmanifest_root demo_tree = None" by code_simp
  then show ?thesis
    by (simp add: snap_fits_def node_fits_def norm_node_def norm_kind_def entry_fits_def usize_max_def
        is_chunked_def vec_of_def vec_new_def bt_ok_def str_def demo_nodes)
qed

theorem snapshot_roundtrip_witness:
  "snap_fits usize_max demo_tree \<and>
   deserialize usize_max (serialize demo_tree) =
    Inr \<lparr>vnodes = map norm_node (vnodes demo_tree), vchunks = [], vmanifest_root = vmanifest_root demo_tree,
         vbudget = None, vunlinked = []\<rparr>"
  using snapshot_roundtrip [OF demo_fits] demo_fits by simp

section \<open>Any image that is accepted is a tree the code can work on\<close>

lemma dec_entry_bound: "dec_entry hm count bs = Inr (e, rest) \<Longrightarrow> snd e < count"
  by (auto simp: dec_entry_def rd_bind_def rd_ret_def rd_fail_def split: sum.splits if_splits)

lemma fold_bt_insert_ok:
  "bt_ok m \<Longrightarrow> \<forall>e \<in> set m. snd e < b \<Longrightarrow> \<forall>e \<in> set es. snd e < b \<Longrightarrow>
     bt_ok (fold (\<lambda>(nm, child) m. bt_insert nm child m) es m) \<and>
     (\<forall>e \<in> set (fold (\<lambda>(nm, child) m. bt_insert nm child m) es m). snd e < b)"
proof (induction es arbitrary: m)
  case (Cons e es)
  have "\<forall>x \<in> set (bt_insert (fst e) (snd e) m). snd x < b"
    using set_bt_insert [of "fst e" "snd e" m] Cons.prems by auto
  then show ?case
    using Cons.IH [of "bt_insert (fst e) (snd e) m"] Cons.prems by (simp add: bt_ok_insert split_def)
qed simp

lemma as_chunks_length: "0 < n \<Longrightarrow> length (fst (as_chunks n bs)) * n \<le> length bs"
proof (induction n bs rule: as_chunks.induct)
  case (1 n bs)
  then show ?case
    by (cases "length bs < n") (auto simp: as_chunks_short as_chunks.simps [of n bs] split: prod.splits)
qed

lemma dec_chunked_ok:
  assumes "dec_chunked hm bs = Inr (k, rest)" and "hm < 2 ^ 64"
  shows "kind_ok count k"
proof -
  obtain f sz cs hs n bs' bs'' where f: "k = ChunkedFile f" "chunked_file_new sz cs (fst (as_chunks 32 hs)) = Inr f"
    and hs: "n * 32 \<le> hm" "rd_take Truncated (n * 32) bs' = Inr (hs, bs'')"
    using assms by (auto simp: dec_chunked_def rd_bind_def rd_ret_def rd_fail_def not_less split: sum.splits if_splits)
  have "length hs = n * 32" using hs by (auto simp: rd_take_def split: if_splits)
  then have "length (fst (as_chunks 32 hs)) < 2 ^ 64"
    using as_chunks_length [of 32 hs] hs(1) assms(2) by simp
  then have "cf_ok f" using chunked_file_new_ok [OF f(2)] by blast
  then show ?thesis using f(1) by simp
qed

lemma dec_dir_ok:
  assumes "decode_n (dec_entry hm count) n bs = Inr (es, rest)"
  shows "kind_ok count (Dir (fold (\<lambda>(nm, child) m. bt_insert nm child m) es []))"
proof -
  have "\<forall>e \<in> set es. snd e < count"
    using decode_n_all [of "dec_entry hm count" "\<lambda>e. snd e < count"] dec_entry_bound assms by metis
  then show ?thesis using fold_bt_insert_ok [of "[]" count es] by (simp add: bt_ok_def)
qed

lemma vec_of_ok [simp]: "vec_ok (vec_of d)"
  by (simp add: vec_ok_def vec_of_def)

lemma dec_kind_ok:
  assumes "dec_kind hm version count bs = Inr (k, rest)" and "hm < 2 ^ 64"
  shows "kind_ok count k"
proof -
  obtain tag bs' where "rd_u8 Truncated bs = Inr (tag, bs')"
    using assms by (auto simp: dec_kind_def rd_bind_def split: sum.splits)
  then consider (dir) n bs1 es where "decode_n (dec_entry hm count) n bs1 = Inr (es, rest)"
        "k = Dir (fold (\<lambda>(nm, child) m. bt_insert nm child m) es [])"
    | (plain) d where "k = File (vec_of d)" | (link) d where "k = Symlink (vec_of d)"
    | (dev) d where "k = CharDev d" | (chunked) bs1 where "dec_chunked hm bs1 = Inr (k, rest)"
    using assms
    by (auto simp: dec_kind_def dec_dev_def rd_bind_def rd_map_def rd_ret_def rd_fail_def
        split: sum.splits if_splits)
  then show ?thesis by cases (use assms(2) dec_dir_ok dec_chunked_ok in auto)
qed

lemma dec_node_ok: "dec_node hm version count bs = Inr (n, rest) \<Longrightarrow> hm < 2 ^ 64 \<Longrightarrow> node_ok count n"
  by (auto simp: dec_node_def rd_bind_def rd_ret_def rd_fail_def node_ok_def dest!: dec_kind_ok
      split: sum.splits if_splits)

text \<open>C17: whatever bytes are offered as a snapshot, an image that is accepted is a tree whose
  every index is in range, whose directories are ordered and whose layouts are consistent, so
  that no later operation can panic on it; and no chunk, budget or unlinked node comes with it.\<close>

theorem deserialize_safe:
  assumes "deserialize hm bs = Inr v" and "hm \<le> usize_max"
  shows "vfs_ok v \<and> vsize v \<le> 4000000 \<and> vbudget v = None \<and> vunlinked v = [] \<and> vchunks v = [] \<and>
     (vmanifest_root v = None \<longrightarrow> (\<forall>n \<in> set (vnodes v). \<not> is_chunked n))"
proof -
  obtain version count bs' root nodes where
    dec: "decode_n (dec_node hm version count) count bs' = Inr (nodes, [])" and "count \<noteq> 0" "count \<le> 4000000"
    and v: "v = \<lparr>vnodes = nodes, vchunks = [], vmanifest_root = root, vbudget = None, vunlinked = []\<rparr>"
    and root: "root = None \<longrightarrow> (\<forall>n \<in> set nodes. \<not> is_chunked n)"
    using assms(1)
    by (auto simp: deserialize_def rd_bind_def rd_map_def Let_def split: sum.splits if_splits prod.splits)
  have hm: "hm < 2 ^ 64" using assms(2) by (simp add: usize_max_def)
  have "length nodes = count" using decode_n_length [OF dec] .
  moreover have "\<forall>n \<in> set nodes. node_ok count n"
    using decode_n_all [of "dec_node hm version count" "node_ok count"] dec_node_ok dec hm by metis
  ultimately show ?thesis using \<open>count \<noteq> 0\<close> \<open>count \<le> 4000000\<close> v root by (auto simp: vfs_ok_def)
qed

theorem deserialize_safe_witness:
  "let v = demo_tree\<lparr>vnodes := map norm_node (vnodes demo_tree)\<rparr> in
   deserialize usize_max (serialize demo_tree) = Inr v \<and> vfs_ok v"
proof -
  have "vchunks demo_tree = []" "vbudget demo_tree = None" "vunlinked demo_tree = []"
    by code_simp+
  then have "deserialize usize_max (serialize demo_tree) =
      Inr (demo_tree\<lparr>vnodes := map norm_node (vnodes demo_tree)\<rparr>)"
    using roundtrip_image [OF demo_fits] by (cases demo_tree) simp
  with deserialize_safe [OF this] show ?thesis by simp
qed

end
