(* ===== verification/VfsClimb.thy ===== *)
theory VfsClimb
  imports VfsSnapshot
begin

text \<open>
  The climb of \<^verbatim>\<open>abs_path_of\<close> along parent links. It returns on every tree whose parents are
  ranked below their children, and only there: the loop is bounded by the names it has found
  and not by the links it has followed, and a snapshot may hold a node that is its own parent.
\<close>

section \<open>A ranked tree\<close>

definition parents_ranked :: "(nat \<Rightarrow> nat) \<Rightarrow> vfs \<Rightarrow> bool" where
  "parents_ranked r v \<longleftrightarrow> (\<forall>i < vsize v. i \<noteq> ROOT \<longrightarrow> r (nparent (vnodes v ! i)) < r i)"

lemma abs_climb_returns:
  assumes "vfs_ok v" and "parents_ranked r v" and "i < vsize v"
  shows "\<exists>segs. abs_climb v i acc = Some (Ret segs)"
  using assms(3)
proof (induction "r i" arbitrary: i acc rule: less_induct)
  case less
  let ?p = "nparent (vnodes v ! i)"
  have "?p < vsize v" using vfs_ok_parent [OF assms(1) less.prems] .
  moreover have "r ?p < r i" if "i \<noteq> ROOT"
    using assms(2) less.prems that by (simp add: parents_ranked_def)
  ultimately show ?case
    using less by (subst abs_climb.simps) (auto simp: node_at_def)
qed



section \<open>A node that is its own parent\<close>

lemma abs_climb_stuck:
  assumes "i \<noteq> ROOT" and "node_at v i = Some n" and "nparent n = i" and "climb_segment n i = []"
  shows "abs_climb v i [] = None"
proof -
  let ?P = "\<lambda>w j segs (y :: bytes list run). \<not> (w = v \<and> j = i \<and> segs = ([] :: bytes list))"
  have "?P v i [] y" if "abs_climb v i [] = Some y" for y
  proof (rule abs_climb.raw_induct [OF _ that, of ?P])
    fix climb w j segs y
    assume IH: "\<And>w j segs y. climb w j segs = Some y \<Longrightarrow> ?P w j segs y"
      and eq: "(if j \<noteq> ROOT \<and> length segs < 256 then
          case node_at w j of None \<Rightarrow> Some Panic
          | Some n \<Rightarrow> (case node_at w (nparent n) of None \<Rightarrow> Some Panic
             | Some p \<Rightarrow> climb w (nparent n) (segs @ climb_segment p j))
        else Some (Ret segs)) = Some y"
    show "?P w j segs y"
    proof
      assume "w = v \<and> j = i \<and> segs = []"
      then have "climb v i [] = Some y" using eq assms by simp
      then show False using IH by blast
    qed
  qed
  then show ?thesis by (cases "abs_climb v i []") auto
qed

definition knotted_tree :: vfs where
  "knotted_tree = \<lparr>vnodes =
     [\<lparr>nkind = Dir [], nmode = 0x1ED, nnlink = 2, nmtime = 0, nparent = 0\<rparr>,
      \<lparr>nkind = Dir [], nmode = 0x1ED, nnlink = 2, nmtime = 0, nparent = 1\<rparr>],
     vchunks = [], vmanifest_root = None, vbudget = None, vunlinked = []\<rparr>"

text \<open>C35: there is an image that the decoder accepts, and whose tree is otherwise well formed,
  on which asking for the path of a node never returns.\<close>

theorem accepted_image_hangs_abs_path:
  "\<exists>image v. deserialize usize_max image = Inr v \<and> vfs_ok v \<and> 1 < vsize v \<and> abs_path_of v 1 = None"
proof -
  have "snap_fits usize_max knotted_tree"
    by (simp add: knotted_tree_def snap_fits_def node_fits_def norm_node_def norm_kind_def usize_max_def
        is_chunked_def bt_ok_def)
  then have "deserialize usize_max (serialize knotted_tree) = Inr knotted_tree"
    by (simp add: roundtrip_image) (simp add: knotted_tree_def norm_node_def norm_kind_def)
  moreover have "vfs_ok knotted_tree"
    by (simp add: knotted_tree_def vfs_ok_def node_ok_def bt_ok_def)
  moreover have "abs_path_of knotted_tree 1 = None"
    using abs_climb_stuck [of 1 knotted_tree]
    by (simp add: knotted_tree_def abs_path_of_def node_at_def ROOT_def climb_segment_def)
  ultimately show ?thesis by (intro exI conjI) (auto simp: knotted_tree_def)
qed

end
