(* ===== verification/LiftCache.thy ===== *)
theory LiftCache
  imports Digest
begin

text \<open>
  The header of a persisted lift cache, \<^verbatim>\<open>crates/linux-compat/src/liftcache.rs\<close>: what it commits
  to, its bytes, and the two checks that decide whether a cache may be used. The widest index of
  the host is a parameter, because the count of images is multiplied at that width.
\<close>

section \<open>Header\<close>

definition LC_MAGIC :: bytes where
  "LC_MAGIC = str ''WTLC''"

definition LC_FORMAT_VERSION :: u32 where
  "LC_FORMAT_VERSION = 1"

record lift_cache_header =
  spec_fingerprint :: hash
  image_digests :: "hash list"

datatype lift_error =
    LcTruncated
  | NotALiftCache
  | LcVersion u32
  | LcTooManyImages nat nat
  | LcWrongSpec bytes bytes

definition lc_serialize :: "lift_cache_header \<Rightarrow> bytes" where
  "lc_serialize h =
     LC_MAGIC @ u32_to_le LC_FORMAT_VERSION @ spec_fingerprint h @
     u32_to_le (of_nat (length (image_digests h))) @ concat (image_digests h)"

definition lc_parse :: "nat \<Rightarrow> bytes \<Rightarrow> lift_error + lift_cache_header" where
  "lc_parse host_max bs =
     map_sum id fst (rd_bind (rd_take LcTruncated 4 bs) (\<lambda>magic bs.
       if magic \<noteq> LC_MAGIC then Inl NotALiftCache
       else rd_bind (rd_u32 LcTruncated bs) (\<lambda>version bs.
       if version \<noteq> LC_FORMAT_VERSION then Inl (LcVersion version)
       else rd_bind (rd_take LcTruncated 32 bs) (\<lambda>spec bs.
       rd_bind (rd_u32 LcTruncated bs) (\<lambda>c bs.
         let count = unat c; remaining = length bs in
         if count * 32 > host_max \<or> count * 32 > remaining then Inl (LcTooManyImages count remaining)
         else rd_map (\<lambda>ds. \<lparr>spec_fingerprint = spec, image_digests = ds\<rparr>)
                (decode_n (rd_take LcTruncated 32) count bs))))))"

definition validate_spec :: "lift_cache_header \<Rightarrow> hash \<Rightarrow> lift_error + unit" where
  "validate_spec h current =
     (if spec_fingerprint h \<noteq> current then Inl (LcWrongSpec (hex (spec_fingerprint h)) (hex current))
      else Inr ())"

definition covers_image :: "lift_cache_header \<Rightarrow> hash \<Rightarrow> bool" where
  "covers_image h digest \<longleftrightarrow> digest \<in> set (image_digests h)"

definition fingerprint_hex :: "hash \<Rightarrow> bytes" where
  "fingerprint_hex fingerprint = hex fingerprint"

definition fingerprint_from_hex :: "bytes \<Rightarrow> hash option" where
  "fingerprint_from_hex digits = from_hex digits"

section \<open>What a header commits to\<close>

definition header_ok :: "nat \<Rightarrow> lift_cache_header \<Rightarrow> bool" where
  "header_ok host_max h \<longleftrightarrow> length (spec_fingerprint h) = 32 \<and> (\<forall>d \<in> set (image_digests h). length d = 32) \<and>
     length (image_digests h) < 2 ^ 32 \<and> length (image_digests h) * 32 \<le> host_max"

interpretation digest_run: wire_codec "\<lambda>d. d" "rd_take err 32" "\<lambda>d. length d = 32" for err
  by unfold_locales (simp add: rd_take_def)

lemma decode_digests:
  "decode_n (rd_take err 32) n bs = Inr (ds, rest) \<Longrightarrow>
     bs = concat ds @ rest \<and> length ds = n \<and> (\<forall>d \<in> set ds. length d = 32)"
  by (induction n arbitrary: bs ds rest) (fastforce simp: rd_bind_eq_Inr rd_map_eq_Inr rd_take_eq_Inr)+

lemma lc_parse_serialize:
  assumes "header_ok hm h"
  shows "lc_parse hm (lc_serialize h @ body) = Inr h"
proof -
  let ?ds = "image_digests h"
  have "decode_n (rd_take LcTruncated 32) (length ?ds) (concat ?ds @ body) = Inr (?ds, body)"
    using digest_run.decode_run [of ?ds LcTruncated body] assms by (simp add: header_ok_def)
  moreover have "length (concat ?ds) = length ?ds * 32"
    using assms by (simp add: header_ok_def length_concat sum_list_triv cong: map_cong)
  moreover have "unat (of_nat (length ?ds) :: u32) = length ?ds"
    using assms by (simp add: header_ok_def unsigned_of_nat take_bit_nat_eq_self)
  moreover have "length LC_MAGIC = 4" by (simp add: LC_MAGIC_def str_def)
  ultimately show ?thesis
    using assms by (simp add: lc_parse_def lc_serialize_def header_ok_def Let_def)
qed

lemma rd_u32_eq_Inr:
  "rd_u32 err bs = Inr (w, rest) \<longleftrightarrow> bs = u32_to_le w @ rest"
proof
  assume "rd_u32 err bs = Inr (w, rest)"
  then obtain b where b: "bs = b @ rest" "length b = 4" "w = u32_of_le b"
    by (auto simp: rd_u32_def rd_map_eq_Inr rd_take_eq_Inr)
  have "u32_to_le (u32_of_le b) = b"
    using nat_to_le_to_nat [of b] le_to_nat_less [of b] b(2)
    by (simp add: u32_to_le_def u32_of_le_def unsigned_of_nat take_bit_nat_eq_self)
  with b show "bs = u32_to_le w @ rest" by simp
qed simp

text \<open>A cache is read as a header exactly when it starts with that header's own bytes; what
  follows the header is not looked at, and nothing shorter, of another version or with more
  images than bytes is read at all.\<close>

theorem lift_cache_exact:
  "lc_parse hm bs = Inr h \<longleftrightarrow> header_ok hm h \<and> (\<exists>body. bs = lc_serialize h @ body)"
proof
  assume "lc_parse hm bs = Inr h"
  then obtain version spec c rest ds body where
    bs: "bs = LC_MAGIC @ u32_to_le LC_FORMAT_VERSION @ spec @ u32_to_le c @ rest" and "length spec = 32"
    and c: "unat c * 32 \<le> hm" and ds: "decode_n (rd_take LcTruncated 32) (unat c) rest = Inr (ds, body)"
    and h: "h = \<lparr>spec_fingerprint = spec, image_digests = ds\<rparr>"
    by (auto simp: lc_parse_def rd_bind_eq_Inr rd_map_eq_Inr rd_take_eq_Inr rd_u32_eq_Inr Let_def map_sum_def not_less
        split: sum.splits if_splits)
  from decode_digests [OF ds] have "rest = concat ds @ body" "length ds = unat c" "\<forall>d \<in> set ds. length d = 32"
    by blast+
  then show "header_ok hm h \<and> (\<exists>body. bs = lc_serialize h @ body)"
    using bs \<open>length spec = 32\<close> c h unsigned_less [of c] by (simp add: header_ok_def lc_serialize_def)
next
  assume "header_ok hm h \<and> (\<exists>body. bs = lc_serialize h @ body)"
  then show "lc_parse hm bs = Inr h" using lc_parse_serialize by blast
qed

end
