(* ===== verification/Text.thy ===== *)
theory Text
  imports Digest
begin

text \<open>
  The parts of the Rust standard library that the text formats use: UTF-8 validation and lossy
  decoding, the integer parsers of \<^verbatim>\<open>str::parse\<close> and \<^verbatim>\<open>from_str_radix\<close>, the decimal and octal
  formatters, and trimming of ASCII whitespace.
\<close>

section \<open>UTF-8\<close>

definition utf8_cont :: "u8 \<Rightarrow> bool" where
  "utf8_cont b \<longleftrightarrow> b AND 0xC0 = 0x80"

definition in_range :: "u8 \<Rightarrow> u8 \<Rightarrow> u8 \<Rightarrow> bool" where
  "in_range lo hi b \<longleftrightarrow> lo \<le> b \<and> b \<le> hi"

definition byte_at :: "bytes \<Rightarrow> nat \<Rightarrow> u8" where
  "byte_at bs i = (if i < length bs then bs ! i else 0)"

definition utf8_second :: "u8 \<Rightarrow> u8 \<Rightarrow> bool" where
  "utf8_second b c \<longleftrightarrow>
     (if b = 0xE0 then in_range 0xA0 0xBF c
      else if b = 0xED then in_range 0x80 0x9F c
      else if in_range 0xE1 0xEF b then in_range 0x80 0xBF c
      else if b = 0xF0 then in_range 0x90 0xBF c
      else if in_range 0xF1 0xF3 b then in_range 0x80 0xBF c
      else b = 0xF4 \<and> in_range 0x80 0x8F c)"

text \<open>Whether the text starts with a character, and how many bytes it or the broken piece takes.\<close>

definition utf8_step :: "bytes \<Rightarrow> bool \<times> nat" where
  "utf8_step bs =
     (let b = byte_at bs 0 in
      if b < 0x80 then (True, 1)
      else if in_range 0xC2 0xDF b then (if utf8_cont (byte_at bs 1) then (True, 2) else (False, 1))
      else if in_range 0xE0 0xEF b then
        (if \<not> utf8_second b (byte_at bs 1) then (False, 1)
         else if utf8_cont (byte_at bs 2) then (True, 3) else (False, 2))
      else if in_range 0xF0 0xF4 b then
        (if \<not> utf8_second b (byte_at bs 1) then (False, 1)
         else if \<not> utf8_cont (byte_at bs 2) then (False, 2)
         else if utf8_cont (byte_at bs 3) then (True, 4) else (False, 3))
      else (False, 1))"

lemma utf8_step_pos: "0 < snd (utf8_step bs)"
  by (simp add: utf8_step_def Let_def)

function utf8_pieces :: "bytes \<Rightarrow> (bool \<times> bytes) list" where
  "utf8_pieces bs =
     (if bs = [] then []
      else case utf8_step bs of (ok, n) \<Rightarrow> (ok, take n bs) # utf8_pieces (drop n bs))"
  by pat_completeness auto
termination
  by (relation "measure length") (use utf8_step_pos in \<open>auto simp: prod_eq_iff\<close>)

declare utf8_pieces.simps [simp del]

lemma utf8_pieces_Nil [simp]: "utf8_pieces [] = []"
  by (simp add: utf8_pieces.simps)

definition utf8_valid :: "bytes \<Rightarrow> bool" where
  "utf8_valid bs \<longleftrightarrow> list_all fst (utf8_pieces bs)"

definition from_utf8_lossy :: "bytes \<Rightarrow> bytes" where
  "from_utf8_lossy bs = concat (map (\<lambda>(ok, p). if ok then p else [0xEF, 0xBF, 0xBD]) (utf8_pieces bs))"

lemma utf8_pieces_concat: "concat (map snd (utf8_pieces bs)) = bs"
proof (induction bs rule: utf8_pieces.induct)
  case (1 bs)
  then show ?case
    by (cases "bs = []"; cases "utf8_step bs") (simp_all add: utf8_pieces.simps [of bs] del: concat_eq_Nil_conv)
qed

lemma lossy_valid: "utf8_valid bs \<Longrightarrow> from_utf8_lossy bs = bs"
proof -
  assume "utf8_valid bs"
  then have "map (\<lambda>(ok, p). if ok then p else [0xEF, 0xBF, 0xBD]) (utf8_pieces bs) = map snd (utf8_pieces bs)"
    by (auto simp: utf8_valid_def list_all_iff)
  then have "from_utf8_lossy bs = concat (map snd (utf8_pieces bs))"
    by (simp only: from_utf8_lossy_def)
  then show ?thesis by (simp add: utf8_pieces_concat)
qed

lemma utf8_ascii: "(\<And>b. b \<in> set bs \<Longrightarrow> b < 0x80) \<Longrightarrow> utf8_valid bs"
proof (induction bs)
  case Nil
  then show ?case by (simp add: utf8_valid_def utf8_pieces.simps)
next
  case (Cons b bs)
  then have "utf8_step (b # bs) = (True, 1)" by (simp add: utf8_step_def byte_at_def)
  then show ?case using Cons by (simp add: utf8_valid_def utf8_pieces.simps [of "b # bs"])
qed

section \<open>Integers\<close>

text \<open>The value of a digit character in a radix up to sixteen, as \<^verbatim>\<open>char::to_digit\<close>.\<close>

definition radix_digit :: "nat \<Rightarrow> u8 \<Rightarrow> nat option" where
  "radix_digit radix b =
     (case to_digit16 b of None \<Rightarrow> None | Some d \<Rightarrow> if unat d < radix then Some (unat d) else None)"

definition parse_digits :: "nat \<Rightarrow> bytes \<Rightarrow> nat option" where
  "parse_digits radix ds = map_option (foldl (\<lambda>acc d. acc * radix + d) 0) (those (map (radix_digit radix) ds))"

definition bounded :: "('a \<Rightarrow> bool) \<Rightarrow> 'a option \<Rightarrow> 'a option" where
  "bounded P r = (case r of None \<Rightarrow> None | Some n \<Rightarrow> if P n then Some n else None)"

definition parse_unsigned :: "nat \<Rightarrow> nat \<Rightarrow> bytes \<Rightarrow> nat option" where
  "parse_unsigned radix max_value text =
     bounded (\<lambda>n. n \<le> max_value)
       (if text = [] \<or> text = [43] \<or> text = [45] then None
        else parse_digits radix (if hd text = 43 then tl text else text))"

definition parse_i64 :: "bytes \<Rightarrow> int option" where
  "parse_i64 text =
     bounded (\<lambda>n. - (2 ^ 63) \<le> n \<and> n < 2 ^ 63)
       (if text = [] \<or> text = [43] \<or> text = [45] then None
        else if hd text = 45 then map_option (\<lambda>n. - int n) (parse_digits 10 (tl text))
        else map_option int (parse_digits 10 (if hd text = 43 then tl text else text)))"

text \<open>The formatters: digits of a value, most significant first.\<close>

fun nat_text :: "nat \<Rightarrow> nat \<Rightarrow> bytes" where
  "nat_text radix n =
     (if radix \<le> 1 \<or> n < radix then [hex_digit (of_nat n)]
      else nat_text radix (n div radix) @ [hex_digit (of_nat (n mod radix))])"

declare nat_text.simps [simp del]

definition int_text :: "int \<Rightarrow> bytes" where
  "int_text n = (if n < 0 then 45 # nat_text 10 (nat (- n)) else nat_text 10 (nat n))"

lemma radix_digit_hex:
  assumes "n < radix" "radix \<le> 16"
  shows "radix_digit radix (hex_digit (of_nat n)) = Some n"
proof -
  have "unat (of_nat n :: u8) = n" using assms by (simp add: unsigned_of_nat take_bit_nat_eq_self)
  moreover from this have "(of_nat n :: u8) < 16" using assms by (simp add: word_less_nat_alt)
  ultimately show ?thesis
    using assms by (simp add: radix_digit_def to_digit16_hex_digit)
qed

lemma those_append: "those (xs @ ys) =
    (case those xs of None \<Rightarrow> None | Some a \<Rightarrow> map_option ((@) a) (those ys))"
  by (induction xs) (auto simp: option.map_comp o_def option.map_ident cong: option.map_cong split: option.splits)

lemma parse_nat_text:
  assumes "2 \<le> radix" "radix \<le> 16"
  shows "parse_digits radix (nat_text radix n) = Some n"
  using assms
proof (induction radix n rule: nat_text.induct)
  case (1 radix n)
  show ?case
  proof (cases "n < radix")
    case True
    then show ?thesis using 1 by (simp add: nat_text.simps [of radix n] parse_digits_def radix_digit_hex)
  next
    case False
    then have "parse_digits radix (nat_text radix (n div radix)) = Some (n div radix)"
      using 1 by simp
    moreover have "nat_text radix n = nat_text radix (n div radix) @ [hex_digit (of_nat (n mod radix))]"
      using False 1 by (simp add: nat_text.simps [of radix n])
    ultimately show ?thesis
      using 1 radix_digit_hex [of "n mod radix" radix] by (auto simp: parse_digits_def those_append)
  qed
qed

section \<open>Slices\<close>

definition ascii_whitespace :: "u8 \<Rightarrow> bool" where
  "ascii_whitespace b \<longleftrightarrow> b = 32 \<or> b = 9 \<or> b = 10 \<or> b = 12 \<or> b = 13"

text \<open>\<^verbatim>\<open>splitn\<close>: at most the given number of pieces, the last one unsplit.\<close>

fun splitn :: "nat \<Rightarrow> 'a \<Rightarrow> 'a list \<Rightarrow> 'a list list" where
  "splitn 0 sep xs = []"
| "splitn (Suc 0) sep xs = [xs]"
| "splitn (Suc (Suc n)) sep xs =
     (case position (\<lambda>x. x = sep) xs of
        None \<Rightarrow> [xs]
      | Some i \<Rightarrow> take i xs # splitn (Suc n) sep (drop (Suc i) xs))"

lemma splitn_append: "sep \<notin> set w \<Longrightarrow> splitn (Suc (Suc n)) sep (w @ sep # xs) = w # splitn (Suc n) sep xs"
proof -
  assume "sep \<notin> set w"
  then have "position (\<lambda>x. x = sep) (w @ sep # xs) = Some (length w)"
    by (intro position_append) auto
  then show ?thesis by simp
qed

lemma nat_text_digits: "2 \<le> radix \<Longrightarrow> radix \<le> 16 \<Longrightarrow> b \<in> set (nat_text radix n) \<Longrightarrow> \<exists>d < radix. b = hex_digit (of_nat d)"
proof (induction radix n rule: nat_text.induct)
  case (1 radix n)
  show ?case
  proof (cases "n < radix")
    case True
    then show ?thesis using 1 by (auto simp: nat_text.simps [of radix n])
  next
    case False
    then have "nat_text radix n = nat_text radix (n div radix) @ [hex_digit (of_nat (n mod radix))]"
      using 1 by (simp add: nat_text.simps [of radix n])
    then have "b \<in> set (nat_text radix (n div radix)) \<or> b = hex_digit (of_nat (n mod radix))"
      using 1 by auto
    moreover have "n mod radix < radix" using 1 by simp
    moreover have "\<not> (radix \<le> 1 \<or> n < radix)" using 1 False by simp
    ultimately show ?thesis using "1.IH" "1.prems"(1,2) by blast
  qed
qed

lemma nat_text_ne [simp]: "nat_text radix n \<noteq> []"
  by (simp add: nat_text.simps)

lemma hex_digit_range:
  assumes "d < 16"
  shows "48 \<le> hex_digit (of_nat d) \<and> hex_digit (of_nat d) \<le> 102"
proof -
  have "d \<in> {0, 1, 2, 3, 4, 5, 6, 7, 8, 9, 10, 11, 12, 13, 14, 15}" using assms by simp presburger
  then show ?thesis by (elim insertE) (simp_all add: hex_digit_def)
qed

lemma nat_text_range: "2 \<le> radix \<Longrightarrow> radix \<le> 16 \<Longrightarrow> b \<in> set (nat_text radix n) \<Longrightarrow> 48 \<le> b \<and> b \<le> 102"
  using nat_text_digits [of radix b n] hex_digit_range by fastforce

lemma parse_unsigned_text:
  assumes "2 \<le> radix" "radix \<le> 16"
  shows "n \<le> m \<Longrightarrow> parse_unsigned radix m (nat_text radix n) = Some n"
proof -
  obtain b bs where nt: "nat_text radix n = b # bs" by (cases "nat_text radix n") auto
  then have "48 \<le> b" using nat_text_range [OF assms, of b n] by simp
  then have "b \<noteq> 43" "b \<noteq> 45" by auto
  then show "parse_unsigned radix m (nat_text radix n) = Some n" if "n \<le> m"
    using parse_nat_text [OF assms, of n] that by (simp add: parse_unsigned_def bounded_def nt)
qed

end
