(* ===== verification/Manifest.thy ===== *)
theory Manifest
  imports Text
begin

text \<open>
  The delivery manifest of \<^verbatim>\<open>crates/linux-compat/src/manifest.rs\<close>: the text a host writes, what
  it commits to, and the check of what was delivered. Error messages are constructors that carry
  the line number and what the message names.
\<close>

section \<open>Manifest\<close>

record mf_entry =
  mf_digest :: hash
  mf_size :: nat

type_synonym manifest = "(bytes, mf_entry) btree"

datatype mf_error =
    MfFields nat
  | MfDigest nat
  | MfSize nat
  | MfRelative nat
  | MfTwice nat bytes
  | MfEmpty
  | MfUnknown bytes
  | MfWrongSize bytes nat nat
  | MfWrongDigest bytes bytes bytes

definition mf_trim :: "bytes \<Rightarrow> bytes" where
  "mf_trim line =
     (let start = (case position (\<lambda>b. \<not> ascii_whitespace b) line of None \<Rightarrow> length line | Some i \<Rightarrow> i);
          stop = (case rposition (\<lambda>b. \<not> ascii_whitespace b) line of None \<Rightarrow> start | Some i \<Rightarrow> i + 1)
      in take (stop - start) (drop start line))"

definition mf_line :: "nat \<Rightarrow> nat \<Rightarrow> bytes \<Rightarrow> manifest \<Rightarrow> mf_error + manifest" where
  "mf_line host_max number raw entries =
     (let line = mf_trim raw in
      if line = [] \<or> hd line = 35 then Inr entries
      else (case splitn 3 32 line of
          [digest, sz, path] \<Rightarrow>
            (case from_hex digest of
               None \<Rightarrow> Inl (MfDigest (number + 1))
             | Some digest \<Rightarrow>
                 (case (if utf8_valid sz then parse_unsigned 10 host_max sz else None) of
                    None \<Rightarrow> Inl (MfSize (number + 1))
                  | Some sz \<Rightarrow>
                      (let path = mf_trim path in
                       if path = [] \<or> hd path \<noteq> 47 then Inl (MfRelative (number + 1))
                       else if map_of entries path \<noteq> None then Inl (MfTwice (number + 1) path)
                       else Inr (bt_insert path \<lparr>mf_digest = digest, mf_size = sz\<rparr> entries))))
        | _ \<Rightarrow> Inl (MfFields (number + 1))))"

primrec mf_lines :: "nat \<Rightarrow> nat \<Rightarrow> bytes list \<Rightarrow> manifest \<Rightarrow> mf_error + manifest" where
  "mf_lines host_max number [] entries = Inr entries"
| "mf_lines host_max number (line # rest) entries =
     (case mf_line host_max number line entries of
        Inl e \<Rightarrow> Inl e
      | Inr entries \<Rightarrow> mf_lines host_max (number + 1) rest entries)"

definition mf_parse :: "nat \<Rightarrow> bytes \<Rightarrow> mf_error + manifest" where
  "mf_parse host_max bs =
     (case mf_lines host_max 0 (split_on 10 bs) [] of
        Inl e \<Rightarrow> Inl e
      | Inr entries \<Rightarrow> if entries = [] then Inl MfEmpty else Inr entries)"

definition mf_entry_text :: "bytes \<times> mf_entry \<Rightarrow> bytes" where
  "mf_entry_text e =
     hex (mf_digest (snd e)) @ 32 # nat_text 10 (mf_size (snd e)) @ 32 # from_utf8_lossy (fst e)"

definition mf_to_text :: "manifest \<Rightarrow> bytes" where
  "mf_to_text m = concat (map (\<lambda>e. mf_entry_text e @ [10]) m)"

definition mf_insert :: "bytes \<Rightarrow> hash \<Rightarrow> nat \<Rightarrow> manifest \<Rightarrow> manifest" where
  "mf_insert path digest sz m = bt_insert path \<lparr>mf_digest = digest, mf_size = sz\<rparr> m"

definition mf_get :: "manifest \<Rightarrow> bytes \<Rightarrow> mf_entry option" where
  "mf_get m path = map_of m path"

definition mf_paths :: "manifest \<Rightarrow> bytes list" where
  "mf_paths m = map fst m"

definition mf_covers :: "manifest \<Rightarrow> bytes \<Rightarrow> bool" where
  "mf_covers m path \<longleftrightarrow> map_of m path \<noteq> None"

definition mf_check :: "manifest \<Rightarrow> bytes \<Rightarrow> hash \<Rightarrow> nat \<Rightarrow> mf_error + unit" where
  "mf_check m path digest sz =
     (let name = from_utf8_lossy path in
      case map_of m path of
        None \<Rightarrow> Inl (MfUnknown name)
      | Some entry \<Rightarrow>
          if mf_size entry \<noteq> sz then Inl (MfWrongSize name (mf_size entry) sz)
          else if mf_digest entry \<noteq> digest then Inl (MfWrongDigest name (hex (mf_digest entry)) (hex digest))
          else Inr ())"

section \<open>Trimming\<close>

lemma mf_trim_id:
  assumes "xs \<noteq> []" and "\<not> ascii_whitespace (hd xs)" and "\<not> ascii_whitespace (last xs)"
  shows "mf_trim xs = xs"
proof -
  have "position (\<lambda>b. \<not> ascii_whitespace b) xs = Some 0"
    using assms by (cases xs) auto
  moreover have "rposition (\<lambda>b. \<not> ascii_whitespace b) xs = Some (length xs - 1)"
    using assms rposition_snoc [of "[]" "\<lambda>b. \<not> ascii_whitespace b" "last xs" "butlast xs"] by simp
  ultimately show ?thesis using assms(1) by (simp add: mf_trim_def Let_def)
qed

lemma mf_trim_Nil [simp]: "mf_trim [] = []"
  by (simp add: mf_trim_def rposition_def)

section \<open>A manifest that can be written\<close>

definition mf_writable :: "nat \<Rightarrow> bytes \<times> mf_entry \<Rightarrow> bool" where
  "mf_writable host_max e \<longleftrightarrow> length (mf_digest (snd e)) = 32 \<and> mf_size (snd e) \<le> host_max \<and>
     fst e \<noteq> [] \<and> hd (fst e) = 47 \<and> utf8_valid (fst e) \<and> 10 \<notin> set (fst e) \<and> \<not> ascii_whitespace (last (fst e))"

lemma hex_range: "b \<in> set (hex d) \<Longrightarrow> 48 \<le> b \<and> b \<le> 102"
proof -
  assume "b \<in> set (hex d)"
  then obtain x where "b = hex_digit (drop_bit 4 x) \<or> b = hex_digit (x AND 15)"
    by (auto simp: hex_def)
  then obtain n :: u8 where n: "n < 16" "b = hex_digit n"
    using nibbles_small [of x] by auto
  then have "unat n < 16" by (simp add: word_less_nat_alt)
  from hex_digit_range [OF this] n show ?thesis by simp
qed

lemma hex_ne: "length d = 32 \<Longrightarrow> hex d \<noteq> []"
  using length_hex [of d] by auto

lemma dec_text_plain: "b \<in> set (nat_text 10 n) \<Longrightarrow> 48 \<le> b \<and> b \<le> 102"
  by (rule nat_text_range [of 10]) simp_all

lemma mf_line_text:
  assumes "mf_writable hm (path, e)" and "map_of entries path = None"
  shows "mf_line hm number (mf_entry_text (path, e)) entries = Inr (bt_insert path e entries)"
proof -
  let ?line = "mf_entry_text (path, e)"
  have plain: "32 \<notin> set (hex (mf_digest e))" "32 \<notin> set (nat_text 10 (mf_size e))"
    using hex_range dec_text_plain by fastforce+
  have e: "length (mf_digest e) = 32" "mf_size e \<le> hm" "path \<noteq> []" "hd path = 47" "utf8_valid path"
      "\<not> ascii_whitespace (last path)"
    using assms(1) by (simp_all add: mf_writable_def)
  have line: "?line = hex (mf_digest e) @ 32 # nat_text 10 (mf_size e) @ 32 # path"
    using e by (simp add: mf_entry_text_def lossy_valid)
  have ne: "hex (mf_digest e) \<noteq> []" using hex_ne e by blast
  then have hd: "hd ?line \<in> set (hex (mf_digest e))" by (simp add: line)
  then have hd_plain: "hd ?line \<noteq> 35" "\<not> ascii_whitespace (hd ?line)"
    using hex_range [OF hd] by (auto simp: ascii_whitespace_def)
  have trim: "mf_trim ?line = ?line"
    using e hd_plain by (intro mf_trim_id) (simp_all add: line)
  have "\<not> ascii_whitespace (hd path)" using e by (simp add: ascii_whitespace_def)
  then have trim_path: "mf_trim path = path"
    using e by (intro mf_trim_id) auto
  have "splitn 3 32 ?line = [hex (mf_digest e), nat_text 10 (mf_size e), path]"
    using plain by (simp add: line splitn_append numeral_3_eq_3 del: splitn.simps(3))
  moreover have "utf8_valid (nat_text 10 (mf_size e))"
  proof (rule utf8_ascii)
    fix b
    assume "b \<in> set (nat_text 10 (mf_size e))"
    then have "b \<le> 102" using dec_text_plain by blast
    also have "(102 :: u8) < 0x80" by simp
    finally show "b < 0x80" .
  qed
  moreover have "bt_insert path \<lparr>mf_digest = mf_digest e, mf_size = mf_size e\<rparr> entries = bt_insert path e entries"
    by (cases e) simp
  ultimately show ?thesis
    using e assms(2) hd_plain ne trim_path
    by (simp add: mf_line_def trim Let_def from_hex_hex parse_unsigned_text) (simp add: line)
qed

lemma mf_lines_text:
  assumes "\<forall>e \<in> set m. mf_writable hm e" and "bt_ok (acc @ m)"
  shows "mf_lines hm number (map mf_entry_text m @ [[]]) acc = Inr (acc @ m)"
  using assms
proof (induction m arbitrary: acc number)
  case Nil
  then show ?case by (simp add: mf_line_def)
next
  case (Cons pe m)
  obtain path e where pe: "pe = (path, e)" by (cases pe)
  have less: "\<forall>x \<in> set acc. fst x < path"
    using Cons.prems by (auto simp: bt_ok_def sorted_wrt_append pe)
  then have "map_of acc path = None" by (auto simp: map_of_eq_None_iff)
  moreover have "bt_insert path e acc = acc @ [(path, e)]"
    using less by (induction acc) auto
  ultimately have "mf_line hm number (mf_entry_text pe) acc = Inr (acc @ [pe])"
    using Cons.prems mf_line_text [of hm path e acc number] by (simp add: pe)
  then show ?case using Cons.IH [of "acc @ [pe]"] Cons.prems by simp
qed

lemma split_lines: "(\<And>l. l \<in> set ls \<Longrightarrow> sep \<notin> set l) \<Longrightarrow> split_on sep (concat (map (\<lambda>l. l @ [sep]) ls)) = ls @ [[]]"
  by (induction ls) (simp_all add: split_on_append)

lemma mf_entry_text_line: "mf_writable hm e \<Longrightarrow> 10 \<notin> set (mf_entry_text e)"
  using hex_range [of 10] dec_text_plain [of 10] by (auto simp: mf_writable_def mf_entry_text_def lossy_valid)

text \<open>C30: the text a host writes from a manifest reads back as that manifest: the same paths with
  the same digests and sizes. The paths are absolute UTF-8 without line breaks or trailing blanks.\<close>

theorem manifest_roundtrip:
  assumes "m \<noteq> []" and "bt_ok m" and "\<forall>e \<in> set m. mf_writable hm e"
  shows "mf_parse hm (mf_to_text m) = Inr m"
proof -
  have "10 \<notin> set l" if "l \<in> set (map mf_entry_text m)" for l
    using that mf_entry_text_line assms(3) by auto
  then have "split_on 10 (mf_to_text m) = map mf_entry_text m @ [[]]"
    using split_lines [of "map mf_entry_text m" 10] by (simp add: mf_to_text_def o_def)
  then show ?thesis
    using assms mf_lines_text [of m hm "[]" 0] by (simp add: mf_parse_def)
qed

theorem manifest_roundtrip_witness:
  "let m = [(str ''/a'', \<lparr>mf_digest = replicate 32 7, mf_size = 12\<rparr>)] in
   bt_ok m \<and> (\<forall>e \<in> set m. mf_writable 100 e) \<and> mf_parse 100 (mf_to_text m) = Inr m"
proof -
  let ?m = "[(str ''/a'', \<lparr>mf_digest = replicate 32 7 :: u8 list, mf_size = 12\<rparr>)]"
  have "utf8_valid (str ''/a'')" by code_simp
  then have "mf_writable 100 e" if "e \<in> set ?m" for e
    using that by (simp add: mf_writable_def str_def ascii_whitespace_def)
  with manifest_roundtrip [of ?m 100] show ?thesis by (simp add: Let_def bt_ok_def)
qed

end
