(* ===== verification/ChunkManifest.thy ===== *)
theory ChunkManifest
  imports Chunk Text
begin

text \<open>
  The chunk manifest of \<^verbatim>\<open>crates/linux-compat/src/chunk_manifest.rs\<close>: the canonical text that
  names every path of an immutable image and the layout of its files. Error messages are
  constructors that carry the line number.
\<close>

section \<open>Entries\<close>

datatype cm_kind =
    CmDir
  | CmSymlink bytes
  | CmFile chunked_file u64

record cm_entry =
  cm_path :: bytes
  cm_mode :: u32
  cm_mtime :: int
  cm_kind :: cm_kind

record chunk_manifest =
  cm_root :: hash
  cm_entries :: "cm_entry list"

datatype hex_error = OddLength | NotLowercase

datatype cm_error =
    CmNoNewline | CmNoHeader | CmEmptyLine nat | CmNotUtf8 nat | CmTruncated nat
  | CmBadMode nat | CmModeNotCanonical nat | CmBadMtime nat | CmMtimeNotCanonical nat
  | CmPathHex nat hex_error | CmPathNotAbsolute nat | CmPathNotCanonical nat | CmNotSorted nat
  | CmTwice nat bytes | CmTargetHex nat hex_error | CmBadTarget nat
  | CmBadSize nat | CmBadChunkSize nat | CmLayoutNotCanonical nat
  | CmBadFnv nat | CmFnvLength nat | CmFnvCase nat
  | CmHashHex nat hex_error | CmHashWidth nat | CmBadLayout chunk_error
  | CmUnknownTag nat | CmNamesNothing | CmNoParent bytes bytes

definition CM_HEADER :: bytes where
  "CM_HEADER = str ''webtos-chunk-manifest 1''"

section \<open>Fields\<close>

definition parse_octal :: "nat \<Rightarrow> bytes \<Rightarrow> cm_error + u32" where
  "parse_octal line text =
     result_bind (ok_or (CmBadMode line) (parse_unsigned 8 (2 ^ 32 - 1) text)) (\<lambda>v.
     result_bind (ensure (v \<le> 4095) (CmBadMode line)) (\<lambda>_.
     result_bind (ensure (nat_text 8 v = text) (CmModeNotCanonical line)) (\<lambda>_. Inr (of_nat v))))"

definition hex_value :: "u8 \<Rightarrow> u8 option" where
  "hex_value b =
     (if 48 \<le> b \<and> b \<le> 57 then Some (b - 48)
      else if 97 \<le> b \<and> b \<le> 102 then Some (b - 97 + 10) else None)"

definition decode_hex :: "bytes \<Rightarrow> hex_error + bytes" where
  "decode_hex text =
     result_bind (ensure (length text mod 2 = 0) OddLength) (\<lambda>_.
     result_map (\<lambda>pair.
       result_bind (ok_or NotLowercase (hex_value (pair ! 0))) (\<lambda>hi.
       result_bind (ok_or NotLowercase (hex_value (pair ! 1))) (\<lambda>lo.
         Inr (push_bit 4 hi OR lo)))) (fst (as_chunks 2 text)))"

definition cm_field :: "nat \<Rightarrow> bytes list \<Rightarrow> nat \<Rightarrow> cm_error + bytes" where
  "cm_field line fs at = (if at < length fs then Inr (fs ! at) else Inl (CmTruncated line))"

fun has_double_slash :: "bytes \<Rightarrow> bool" where
  "has_double_slash (x # y # xs) \<longleftrightarrow> x = 47 \<and> y = 47 \<or> has_double_slash (y # xs)"
| "has_double_slash _ \<longleftrightarrow> False"

definition noncanonical :: "bytes \<Rightarrow> bool" where
  "noncanonical path \<longleftrightarrow> length path > 1 \<and> last path = 47 \<or> has_double_slash path \<or>
     (\<exists>part \<in> set (split_on 47 path). part = str ''.'' \<or> part = str ''..'')"

definition cm_hash :: "nat \<Rightarrow> bytes \<Rightarrow> cm_error + hash" where
  "cm_hash line text =
     result_bind (map_err (CmHashHex line) (decode_hex text)) (\<lambda>raw.
       if length raw = 32 then Inr raw else Inl (CmHashWidth line))"

definition cm_file_kind :: "nat \<Rightarrow> bytes list \<Rightarrow> cm_error + cm_kind" where
  "cm_file_kind line fs =
     result_bind (cm_field line fs 4) (\<lambda>size_text.
     result_bind (ok_or (CmBadSize line) (parse_unsigned 10 (2 ^ 64 - 1) size_text)) (\<lambda>sz.
     result_bind (cm_field line fs 5) (\<lambda>chunk_text.
     result_bind (ok_or (CmBadChunkSize line) (parse_unsigned 10 (2 ^ 32 - 1) chunk_text)) (\<lambda>chunk_size.
     result_bind (ensure (nat_text 10 sz = size_text \<and> nat_text 10 chunk_size = chunk_text)
       (CmLayoutNotCanonical line)) (\<lambda>_.
     result_bind (cm_field line fs 6) (\<lambda>fnv_text.
     result_bind (ok_or (CmBadFnv line) (parse_unsigned 16 (2 ^ 64 - 1) fnv_text)) (\<lambda>legacy_fnv.
     result_bind (ensure (length fnv_text = 16) (CmFnvLength line)) (\<lambda>_.
     result_bind (ensure (\<forall>b \<in> set fnv_text. 48 \<le> b \<and> b \<le> 57 \<or> 97 \<le> b \<and> b \<le> 102) (CmFnvCase line)) (\<lambda>_.
     result_bind (cm_field line fs 7) (\<lambda>hash_text.
     result_bind (if hash_text = [] then Inr [] else result_map (cm_hash line) (split_on 44 hash_text)) (\<lambda>hashes.
     result_bind (map_err CmBadLayout (chunked_file_new (of_nat sz) (of_nat chunk_size) hashes)) (\<lambda>f.
       Inr (CmFile f (of_nat legacy_fnv))))))))))))))"

definition cm_kind_of :: "nat \<Rightarrow> bytes \<Rightarrow> bytes list \<Rightarrow> cm_error + cm_kind" where
  "cm_kind_of line tag fs =
     (if tag = str ''d'' \<and> length fs = 4 then Inr CmDir
      else if tag = str ''l'' \<and> length fs = 5 then
        result_bind (cm_field line fs 4) (\<lambda>text.
        result_bind (map_err (CmTargetHex line) (decode_hex text)) (\<lambda>target.
        result_bind (ensure (target \<noteq> [] \<and> 0 \<notin> set target) (CmBadTarget line)) (\<lambda>_.
          Inr (CmSymlink target))))
      else if tag = str ''f'' \<and> length fs = 8 then cm_file_kind line fs
      else Inl (CmUnknownTag line))"

section \<open>Lines and the whole manifest\<close>

definition cm_line :: "nat \<Rightarrow> bytes \<Rightarrow> bytes set \<Rightarrow> bytes option \<Rightarrow> cm_error + cm_entry" where
  "cm_line line text paths previous =
     result_bind (ensure (text \<noteq> []) (CmEmptyLine line)) (\<lambda>_.
     result_bind (ensure (utf8_valid text) (CmNotUtf8 line)) (\<lambda>_.
     let fs = split_on 32 text in
     result_bind (cm_field line fs 0) (\<lambda>tag.
     result_bind (cm_field line fs 1) (\<lambda>mode_text.
     result_bind (parse_octal line mode_text) (\<lambda>mode.
     result_bind (cm_field line fs 2) (\<lambda>mtime_text.
     result_bind (ok_or (CmBadMtime line) (parse_i64 mtime_text)) (\<lambda>mtime.
     result_bind (ensure (int_text mtime = mtime_text) (CmMtimeNotCanonical line)) (\<lambda>_.
     result_bind (cm_field line fs 3) (\<lambda>path_text.
     result_bind (map_err (CmPathHex line) (decode_hex path_text)) (\<lambda>path.
     result_bind (ensure (path \<noteq> [] \<and> hd path = 47 \<and> 0 \<notin> set path) (CmPathNotAbsolute line)) (\<lambda>_.
     result_bind (ensure (\<not> noncanonical path) (CmPathNotCanonical line)) (\<lambda>_.
     result_bind (ensure (case previous of None \<Rightarrow> True | Some before \<Rightarrow> before < path) (CmNotSorted line)) (\<lambda>_.
     result_bind (ensure (path \<notin> paths) (CmTwice line path)) (\<lambda>_.
     result_bind (cm_kind_of line tag fs) (\<lambda>kind.
       Inr \<lparr>cm_path = path, cm_mode = mode, cm_mtime = mtime, cm_kind = kind\<rparr>)))))))))))))))"

primrec cm_lines ::
  "nat \<Rightarrow> bytes list \<Rightarrow> cm_entry list \<Rightarrow> bytes set \<Rightarrow> bytes option \<Rightarrow> cm_error + cm_entry list" where
  "cm_lines line [] entries paths previous = Inr entries"
| "cm_lines line (text # rest) entries paths previous =
     result_bind (cm_line line text paths previous) (\<lambda>e.
       cm_lines (line + 1) rest (entries @ [e]) (insert (cm_path e) paths) (Some (cm_path e)))"

definition cm_parent :: "bytes \<Rightarrow> bytes" where
  "cm_parent path =
     (case rposition (\<lambda>b. b = 47) path of
        None \<Rightarrow> []
      | Some slash \<Rightarrow> if slash = 0 then str ''/'' else take slash path)"

definition cm_parents :: "cm_entry list \<Rightarrow> cm_error + unit" where
  "cm_parents entries =
     (let directories = cm_path ` set (filter (\<lambda>e. cm_kind e = CmDir) entries) in
      result_bind (result_map (\<lambda>e.
        if cm_path e = str ''/'' then Inr ()
        else ensure (cm_parent (cm_path e) = str ''/'' \<or> cm_parent (cm_path e) \<in> directories)
               (CmNoParent (cm_parent (cm_path e)) (cm_path e))) entries) (\<lambda>_. Inr ()))"

definition cm_parse :: "bytes \<Rightarrow> cm_error + chunk_manifest" where
  "cm_parse bs =
     result_bind (ensure (bs \<noteq> [] \<and> last bs = 10) CmNoNewline) (\<lambda>_.
     case split_on 10 (butlast bs) of
       [] \<Rightarrow> Inl CmNoHeader
     | header # lines \<Rightarrow>
         result_bind (ensure (header = CM_HEADER) CmNoHeader) (\<lambda>_.
         result_bind (cm_lines 2 lines [] {} None) (\<lambda>entries.
         result_bind (ensure (entries \<noteq> []) CmNamesNothing) (\<lambda>_.
         result_bind (cm_parents entries) (\<lambda>_.
           Inr \<lparr>cm_root = sha256 bs, cm_entries = entries\<rparr>)))))"

definition cm_file :: "chunk_manifest \<Rightarrow> bytes \<Rightarrow> (chunked_file \<times> u64) option" where
  "cm_file m path =
     List.fold (\<lambda>e acc. case acc of Some r \<Rightarrow> Some r
       | None \<Rightarrow> if cm_path e \<noteq> path then None
                else (case cm_kind e of CmFile f fnv \<Rightarrow> Some (f, fnv) | _ \<Rightarrow> None)) (cm_entries m) None"

section \<open>The canonical text\<close>

text \<open>The one spelling of an entry and of a manifest.\<close>

fun cm_kind_fields :: "cm_kind \<Rightarrow> bytes list" where
  "cm_kind_fields CmDir = []"
| "cm_kind_fields (CmSymlink target) = [hex target]"
| "cm_kind_fields (CmFile f fnv) =
     [nat_text 10 (unat (cf_size f)), nat_text 10 (unat (cf_chunk_size f)), hex (u64_to_be fnv),
      join 44 (map hex (cf_chunks f))]"

fun cm_tag :: "cm_kind \<Rightarrow> bytes" where
  "cm_tag CmDir = str ''d''"
| "cm_tag (CmSymlink target) = str ''l''"
| "cm_tag (CmFile f fnv) = str ''f''"

definition cm_entry_text :: "cm_entry \<Rightarrow> bytes" where
  "cm_entry_text e =
     join 32 ([cm_tag (cm_kind e), nat_text 8 (unat (cm_mode e)), int_text (cm_mtime e), hex (cm_path e)] @
       cm_kind_fields (cm_kind e))"

definition cm_text :: "cm_entry list \<Rightarrow> bytes" where
  "cm_text es = concat (map (\<lambda>l. l @ [10]) (CM_HEADER # map cm_entry_text es))"

lemma hex_value_Some: "hex_value b = Some v \<Longrightarrow> v < 16 \<and> b = hex_digit v"
proof -
  assume h: "hex_value b = Some v"
  consider (digit) "48 \<le> unat b" "unat b \<le> 57" "v = b - 48" | (letter) "97 \<le> unat b" "unat b \<le> 102" "v = b - 97 + 10"
    using h by (auto simp: hex_value_def word_le_nat_alt split: if_splits)
  then show ?thesis
  proof cases
    case digit
    then have "unat v = unat b - 48" by (simp add: unat_minus_exact word_le_nat_alt)
    then show ?thesis using digit by (auto simp: hex_digit_def word_less_nat_alt)
  next
    case letter
    have "unat (b - 87) = unat b - 87" using letter by (simp add: unat_minus_exact word_le_nat_alt)
    then have "unat v = unat b - 87" using letter by simp
    then show ?thesis using letter by (auto simp: hex_digit_def word_less_nat_alt)
  qed
qed

lemma hex_Cons: "hex (b # bs) = hex_digit (drop_bit 4 b) # hex_digit (b AND 0xF) # hex bs"
  by (simp add: hex_def)

lemma hex_pairs:
  "list_all2 (\<lambda>pair y. \<exists>hi lo. hex_value (pair ! 0) = Some hi \<and> hex_value (pair ! 1) = Some lo \<and> push_bit 4 hi OR lo = y)
     ps bs \<Longrightarrow> \<forall>p \<in> set ps. length p = 2 \<Longrightarrow> concat ps = hex bs"
proof (induction rule: list_all2_induct)
  case (Cons p ps y bs)
  obtain a b where p: "p = [a, b]" using Cons.prems by (auto simp: length_Suc_conv numeral_2_eq_2)
  obtain hi lo where d: "hi < 16" "a = hex_digit hi" "lo < 16" "b = hex_digit lo" "y = push_bit 4 hi OR lo"
    using Cons.hyps hex_value_Some by (fastforce simp: p)
  then show ?case
    using Cons.IH Cons.prems nibbles_split [of hi lo] by (simp add: p hex_Cons)
qed (simp add: hex_def)

lemma decode_hex_text:
  assumes "decode_hex text = Inr bs"
  shows "text = hex bs"
proof -
  have "length text mod 2 = 0" using assms by (simp add: decode_hex_def result_bind_Inr)
  then have "concat (fst (as_chunks 2 text)) = text"
    using as_chunks_exact [of 2 "text"] as_chunks_concat [of 2 "text"] by auto
  moreover have "\<forall>p \<in> set (fst (as_chunks 2 text)). length p = 2"
    using as_chunks_width by blast
  ultimately show ?thesis
    using assms hex_pairs [of "fst (as_chunks 2 text)" bs]
    by (simp add: decode_hex_def result_bind_Inr result_map_Inr)
qed

lemma cm_field_Inr [simp]: "cm_field line fs i = Inr x \<longleftrightarrow> i < length fs \<and> x = fs ! i"
  by (auto simp: cm_field_def)

lemma parse_octal_text: "parse_octal line t = Inr mode \<Longrightarrow> t = nat_text 8 (unat mode)"
  by (auto simp: parse_octal_def result_bind_Inr unsigned_of_nat take_bit_nat_eq_self)

lemma bounded_Some [simp]: "bounded P r = Some n \<longleftrightarrow> r = Some n \<and> P n"
  by (auto simp: bounded_def split: option.splits)

text \<open>Sixteen lowercase digits are the big-endian bytes of the value they spell.\<close>

lemma hex_split:
  "length t = 2 * n \<Longrightarrow> \<forall>b \<in> set t. \<exists>v < 16. b = hex_digit v \<Longrightarrow> \<exists>bs. length bs = n \<and> t = hex bs"
proof (induction n arbitrary: t)
  case (Suc n)
  obtain a b r where t: "t = a # b # r"
    using Suc.prems(1) by (metis length_Suc_conv mult_Suc_right add_2_eq_Suc)
  then obtain bs hi lo where "length bs = n" "r = hex bs" "hi < 16" "a = hex_digit hi" "lo < 16" "b = hex_digit lo"
    using Suc.IH [of r] Suc.prems by auto
  then show ?case
    using nibbles_split [of hi lo] by (intro exI [of _ "(push_bit 4 hi OR lo) # bs"]) (simp add: t hex_Cons)
qed (simp add: hex_def)

lemma fold_nibbles: "those (map (radix_digit 16) (hex bs)) = Some (concat (map (\<lambda>b. [unat b div 16, unat b mod 16]) bs))"
proof (induction bs)
  case (Cons b bs)
  have "radix_digit 16 (hex_digit v) = Some (unat v)" if "v < 16" for v
    using that radix_digit_hex [of "unat v" 16] by (simp add: word_less_nat_alt)
  moreover have "unat (drop_bit 4 b) = unat b div 16" by (simp add: drop_bit_eq_div unat_div)
  moreover have "b AND 0xF = take_bit 4 b" by (simp add: take_bit_eq_mask mask_eq_exp_minus_1)
  then have "unat (b AND 0xF) = unat b mod 16" by (simp add: take_bit_eq_mod unat_mod)
  ultimately show ?case using Cons by (simp add: hex_Cons nibbles_small)
qed (simp add: hex_def)

lemma le_to_nat_snoc: "le_to_nat (xs @ [y]) = le_to_nat xs + 256 ^ length xs * unat y"
  by (induction xs) (simp_all add: algebra_simps)

lemma fold_digits:
  "foldl (\<lambda>acc d. acc * 16 + d) a (concat (map (\<lambda>b :: u8. [unat b div 16, unat b mod 16]) bs)) =
     a * 256 ^ length bs + le_to_nat (rev bs)"
proof (induction bs arbitrary: a)
  case (Cons b bs)
  have "(a * 16 + unat b div 16) * 16 + unat b mod 16 = a * 256 + unat b"
    by (simp add: algebra_simps)
  then show ?case using Cons [of "a * 256 + unat b"]
    by (simp add: le_to_nat_snoc algebra_simps)
qed simp

lemma fnv_text:
  assumes "parse_unsigned 16 (2 ^ 64 - 1) t = Some v" and "length t = 16"
    and "\<forall>b \<in> set t. 48 \<le> b \<and> b \<le> 57 \<or> 97 \<le> b \<and> b \<le> (102 :: u8)"
  shows "t = hex (u64_to_be (of_nat v))"
proof -
  have "\<exists>v < 16. b = hex_digit v" if "b \<in> set t" for b
  proof -
    have "hex_value b \<noteq> None" using assms(3) that by (auto simp: hex_value_def)
    then show ?thesis using hex_value_Some by blast
  qed
  then obtain bs where bs: "length bs = 8" "t = hex bs"
    using hex_split [of t 8] assms(2) by auto
  have "hd t \<noteq> 43" using assms(2,3) by (cases t) auto
  then have "v = le_to_nat (rev bs)"
    using assms(1,2) fold_nibbles [of bs] fold_digits [of 0 bs]
    by (auto simp: parse_unsigned_def parse_digits_def bs split: if_splits)
  moreover have "u64_to_le (of_nat (le_to_nat (rev bs))) = rev bs"
    using nat_to_le_to_nat [of "rev bs"] le_to_nat_less [of "rev bs"] bs(1)
    by (simp add: u64_to_le_def unsigned_of_nat take_bit_nat_eq_self)
  ultimately show ?thesis by (simp add: bs u64_to_be_def)
qed

lemma unat_of_nat_le: "n \<le> 2 ^ LENGTH('a) - 1 \<Longrightarrow> unat (of_nat n :: 'a::len word) = n"
  by (simp add: unsigned_of_nat take_bit_nat_eq_self le_less_trans [of n "2 ^ LENGTH('a) - 1"])

lemma hash_texts:
  "result_map (cm_hash line) ts = Inr hs \<Longrightarrow> ts = map hex hs \<and> (\<forall>h \<in> set hs. length h = 32)"
  unfolding result_map_Inr
  by (induction rule: list_all2_induct)
    (auto simp: cm_hash_def result_bind_Inr dest: decode_hex_text split: if_splits)

definition kind_named :: "cm_kind \<Rightarrow> bool" where
  "kind_named k \<longleftrightarrow>
     (case k of CmDir \<Rightarrow> True | CmSymlink target \<Rightarrow> target \<noteq> [] \<and> 0 \<notin> set target
      | CmFile f fnv \<Rightarrow> cf_ok f \<and> (\<forall>h \<in> set (cf_chunks f). length h = 32))"

lemma file_kind_text:
  assumes "cm_file_kind line fs = Inr k" and "length fs = 8" and "length (fs ! 7) < 2 ^ 63"
  shows "\<exists>f fnv. k = CmFile f fnv \<and> drop 4 fs = cm_kind_fields k \<and> kind_named k"
proof -
  obtain sz cs v hs f where
    sz: "parse_unsigned 10 (2 ^ 64 - 1) (fs ! 4) = Some sz" "nat_text 10 sz = fs ! 4"
    and cs: "parse_unsigned 10 (2 ^ 32 - 1) (fs ! 5) = Some cs" "nat_text 10 cs = fs ! 5"
    and v: "parse_unsigned 16 (2 ^ 64 - 1) (fs ! 6) = Some v" "length (fs ! 6) = 16"
      "\<forall>b \<in> set (fs ! 6). 48 \<le> b \<and> b \<le> 57 \<or> 97 \<le> b \<and> b \<le> 102"
    and hs: "(if fs ! 7 = [] then Inr [] else result_map (cm_hash line) (split_on 44 (fs ! 7))) = Inr hs"
    and f: "chunked_file_new (of_nat sz) (of_nat cs) hs = Inr f" and k: "k = CmFile f (of_nat v)"
    using assms(1,2) by (auto simp: cm_file_kind_def result_bind_Inr)
  have h: "fs ! 7 = join 44 (map hex hs) \<and> (\<forall>h \<in> set hs. length h = 32) \<and> length hs \<le> Suc (length (fs ! 7))"
  proof (cases "fs ! 7 = []")
    case False
    with hs have t: "split_on 44 (fs ! 7) = map hex hs" "\<forall>h \<in> set hs. length h = 32"
      using hash_texts by auto
    have "length (split_on sep xs) \<le> Suc (length xs)" for sep and xs :: bytes
      by (induction xs) (auto split: list.splits)
    then show ?thesis using t join_split_on [of 44 "fs ! 7"] by (metis length_map)
  qed (use hs in simp)
  then have "length hs \<le> Suc (length (fs ! 7))" by blast
  with assms(3) have "length hs < 2 ^ 64" by simp
  note cf = chunked_file_new_ok [OF f this]
  have "cf_ok f" "cf_size f = of_nat sz" "cf_chunk_size f = of_nat cs" "cf_chunks f = hs"
    using cf by (blast, simp_all)
  moreover have "unat (of_nat sz :: u64) = sz" "unat (of_nat cs :: u32) = cs"
    using sz(1) cs(1) by (simp_all add: parse_unsigned_def unat_of_nat_le)
  moreover have "drop 4 fs = [fs ! 4, fs ! 5, fs ! 6, fs ! 7]"
    using assms(2) by (simp add: list_eq_iff_nth_eq nth_Cons numeral_eq_Suc less_Suc_eq split: nat.split)
  ultimately show ?thesis
    using h sz(2) cs(2) fnv_text [OF v] k by (simp add: kind_named_def)
qed

lemma four_fields: "4 \<le> length fs \<Longrightarrow> [fs ! 0, fs ! 1, fs ! 2, fs ! 3] @ drop 4 fs = fs"
proof -
  assume "4 \<le> length fs"
  then obtain a b c d r where "fs = a # b # c # d # r"
    by (auto simp: Suc_le_length_iff numeral_eq_Suc)
  then show ?thesis by simp
qed

lemma fifth_field: "length fs = 5 \<Longrightarrow> drop 4 fs = [fs ! 4]"
  by (simp add: list_eq_iff_nth_eq nth_Cons numeral_eq_Suc split: nat.split)

lemma kind_text:
  assumes "cm_kind_of line tag fs = Inr k" and "\<forall>t \<in> set fs. length t < 2 ^ 63"
  shows "tag = cm_tag k \<and> drop 4 fs = cm_kind_fields k \<and> 4 \<le> length fs \<and> kind_named k"
proof -
  consider (dir) "tag = str ''d''" "length fs = 4" "k = CmDir"
    | (link) target where "tag = str ''l''" "length fs = 5" "decode_hex (fs ! 4) = Inr target"
        "target \<noteq> []" "0 \<notin> set target" "k = CmSymlink target"
    | (chunked) "tag = str ''f''" "length fs = 8" "cm_file_kind line fs = Inr k"
    using assms(1) by (auto simp: cm_kind_of_def result_bind_Inr split: if_splits)
  then show ?thesis
  proof cases
    case link
    then show ?thesis using fifth_field [of fs] decode_hex_text [of "fs ! 4" target] by (simp add: kind_named_def)
  next
    case chunked
    then have "length (fs ! 7) < 2 ^ 63" using assms(2) by simp
    from file_kind_text [OF chunked(3,2) this] show ?thesis using chunked by auto
  qed (simp add: kind_named_def)
qed

definition entry_named :: "cm_entry \<Rightarrow> bool" where
  "entry_named e \<longleftrightarrow> cm_path e \<noteq> [] \<and> hd (cm_path e) = 47 \<and> 0 \<notin> set (cm_path e) \<and> \<not> noncanonical (cm_path e) \<and>
     unat (cm_mode e) \<le> 4095 \<and> kind_named (cm_kind e)"

lemma parse_octal_mode: "parse_octal line t = Inr mode \<Longrightarrow> unat mode \<le> 4095"
  by (auto simp: parse_octal_def result_bind_Inr unsigned_of_nat take_bit_nat_eq_self)

lemma split_on_length: "w \<in> set (split_on sep xs) \<Longrightarrow> length w \<le> length xs"
proof (induction xs arbitrary: w)
  case (Cons x xs)
  obtain u us where "split_on sep xs = u # us" by (cases "split_on sep xs") auto
  then show ?case using Cons by (fastforce split: if_splits)
qed simp

lemma cm_line_text:
  assumes "cm_line line t paths previous = Inr e" and "length t < 2 ^ 63"
  shows "t = cm_entry_text e \<and> entry_named e \<and> cm_path e \<notin> paths \<and>
    (case previous of None \<Rightarrow> True | Some before \<Rightarrow> before < cm_path e)"
proof -
  define fs where "fs = split_on 32 t"
  obtain mode mtime path kind where
    mode: "parse_octal line (fs ! 1) = Inr mode" and mtime: "int_text mtime = fs ! 2"
    and path: "decode_hex (fs ! 3) = Inr path" "path \<noteq> []" "hd path = 47" "0 \<notin> set path" "\<not> noncanonical path"
      "path \<notin> paths" "case previous of None \<Rightarrow> True | Some before \<Rightarrow> before < path"
    and kind: "cm_kind_of line (fs ! 0) fs = Inr kind"
    and e: "e = \<lparr>cm_path = path, cm_mode = mode, cm_mtime = mtime, cm_kind = kind\<rparr>"
    using assms(1) by (auto simp: cm_line_def result_bind_Inr Let_def fs_def)
  have "\<forall>w \<in> set fs. length w < 2 ^ 63"
    using split_on_length [of _ 32 t] assms(2) le_less_trans by (auto simp: fs_def)
  from kind_text [OF kind this]
  have k: "fs ! 0 = cm_tag kind" "drop 4 fs = cm_kind_fields kind" "4 \<le> length fs" "kind_named kind" by simp_all
  have "t = join 32 ([fs ! 0, fs ! 1, fs ! 2, fs ! 3] @ drop 4 fs)"
    unfolding four_fields [OF k(3)] unfolding fs_def by (rule join_split_on [symmetric])
  then show ?thesis
    using k path mtime parse_octal_text [OF mode] parse_octal_mode [OF mode] decode_hex_text [OF path(1)]
    by (cases previous) (simp_all add: e cm_entry_text_def entry_named_def)
qed

lemma cm_lines_text:
  assumes "cm_lines line ts entries (cm_path ` set entries) (map_option cm_path (if entries = [] then None else Some (last entries))) = Inr out"
    and "\<forall>t \<in> set ts. length t < 2 ^ 63" and "sorted_wrt (<) (map cm_path entries)"
  shows "\<exists>es. out = entries @ es \<and> ts = map cm_entry_text es \<and> (\<forall>e \<in> set es. entry_named e) \<and>
    sorted_wrt (<) (map cm_path out)"
  using assms
proof (induction ts arbitrary: line entries)
  case (Cons t ts)
  let ?prev = "\<lambda>es. map_option cm_path (if es = [] then None else Some (last es))"
  obtain e where e: "cm_line line t (cm_path ` set entries) (?prev entries) = Inr e"
    and rest: "cm_lines (line + 1) ts (entries @ [e]) (insert (cm_path e) (cm_path ` set entries)) (Some (cm_path e)) = Inr out"
    using Cons.prems(1) by (auto simp: result_bind_Inr)
  have "length t < 2 ^ 63" using Cons.prems(2) by simp
  from cm_line_text [OF e this] have t: "t = cm_entry_text e" "entry_named e"
      "case ?prev entries of None \<Rightarrow> True | Some before \<Rightarrow> before < cm_path e"
    by simp_all
  have "sorted_wrt (<) (map cm_path (entries @ [e]))"
  proof (cases entries rule: rev_cases)
    case (snoc es l)
    then have "\<forall>x \<in> set entries. cm_path x \<le> cm_path l" using Cons.prems(3) by (auto simp: sorted_wrt_append less_le)
    then show ?thesis using Cons.prems(3) t(3) snoc by (auto simp: sorted_wrt_append intro: le_less_trans)
  qed simp
  moreover have "cm_lines (line + 1) ts (entries @ [e]) (cm_path ` set (entries @ [e])) (?prev (entries @ [e])) = Inr out"
    using rest by simp
  ultimately obtain es where "out = (entries @ [e]) @ es" "ts = map cm_entry_text es" "\<forall>e \<in> set es. entry_named e"
      "sorted_wrt (<) (map cm_path out)"
    using Cons.IH [of "line + 1" "entries @ [e]"] Cons.prems(2) by auto
  then show ?case using t by (intro exI [of _ "e # es"]) simp
qed simp

lemma result_map_all: "result_map f xs = Inr ys \<Longrightarrow> x \<in> set xs \<Longrightarrow> \<exists>y. f x = Inr y"
  by (induction xs arbitrary: ys) (auto simp: result_bind_Inr)

text \<open>C18: a chunk manifest has one spelling. Bytes that are accepted are exactly the canonical text
  of the entries read from them, the root is their SHA-256, and the entries are absolute canonical
  paths in strictly increasing order, each below a directory that the manifest names, with
  consistent file layouts.\<close>

theorem chunk_manifest_canonical:
  assumes "cm_parse bs = Inr m" and "length bs < 2 ^ 63"
  shows "bs = cm_text (cm_entries m) \<and> cm_root m = sha256 bs \<and> cm_entries m \<noteq> [] \<and>
    (\<forall>e \<in> set (cm_entries m). entry_named e) \<and> sorted_wrt (<) (map cm_path (cm_entries m)) \<and>
    (\<forall>e \<in> set (cm_entries m). cm_path e = str ''/'' \<or> cm_parent (cm_path e) = str ''/'' \<or>
       (\<exists>d \<in> set (cm_entries m). cm_kind d = CmDir \<and> cm_path d = cm_parent (cm_path e)))"
proof -
  obtain ts es where bs: "bs \<noteq> []" "last bs = 10" "split_on 10 (butlast bs) = CM_HEADER # ts"
    and es: "cm_lines 2 ts [] {} None = Inr es" "es \<noteq> []" "cm_parents es = Inr ()"
    and m: "m = \<lparr>cm_root = sha256 bs, cm_entries = es\<rparr>"
    using assms(1) by (auto simp: cm_parse_def result_bind_Inr split: list.splits)
  have "length t < 2 ^ 63" if "t \<in> set ts" for t
    using split_on_length [of t 10 "butlast bs"] that bs(3) assms(2) by simp
  then have t: "ts = map cm_entry_text es" "\<forall>e \<in> set es. entry_named e" "sorted_wrt (<) (map cm_path es)"
    using cm_lines_text [of 2 ts "[]" es] es(1) by auto
  have "join 10 (l # ls) @ [10] = concat (map (\<lambda>l. l @ [10]) (l # ls))" for l :: bytes and ls
    by (induction ls arbitrary: l) simp_all
  from this [of CM_HEADER ts] have "join 10 (CM_HEADER # ts) @ [10] = cm_text es"
    by (simp only: cm_text_def t(1))
  then have "butlast bs @ [10] = cm_text es"
    using join_split_on [of 10 "butlast bs"] by (simp only: bs(3))
  then have "bs = cm_text es" using bs(1,2) append_butlast_last_id [of bs] by simp
  moreover have "cm_path e = str ''/'' \<or> cm_parent (cm_path e) = str ''/'' \<or>
      (\<exists>d \<in> set es. cm_kind d = CmDir \<and> cm_path d = cm_parent (cm_path e))" if "e \<in> set es" for e
  proof -
    obtain us where "result_map (\<lambda>e. if cm_path e = str ''/'' then Inr ()
        else ensure (cm_parent (cm_path e) = str ''/'' \<or>
            cm_parent (cm_path e) \<in> cm_path ` set (filter (\<lambda>e. cm_kind e = CmDir) es))
          (CmNoParent (cm_parent (cm_path e)) (cm_path e))) es = Inr us"
      using es(3) unfolding cm_parents_def Let_def result_bind_Inr by blast
    from result_map_all [OF this that] show ?thesis by (auto split: if_splits)
  qed
  ultimately show ?thesis using m t es(2) by simp
qed

theorem chunk_manifest_canonical_witness:
  "\<exists>m. cm_parse (CM_HEADER @ str [CHR 0x0A] @ str ''d 755 0 2f'' @ str [CHR 0x0A]) = Inr m \<and>
     cm_text (cm_entries m) = CM_HEADER @ str [CHR 0x0A] @ str ''d 755 0 2f'' @ str [CHR 0x0A]"
proof -
  let ?bs = "CM_HEADER @ str [CHR 0x0A] @ str ''d 755 0 2f'' @ str [CHR 0x0A]"
  let ?e = "\<lparr>cm_path = str ''/'', cm_mode = 0x1ED, cm_mtime = 0, cm_kind = CmDir\<rparr>"
  have "split_on 10 (butlast ?bs) = [CM_HEADER, str ''d 755 0 2f'']" by code_simp
  moreover have "cm_lines 2 [str ''d 755 0 2f''] [] {} None = Inr [?e]"
  proof -
    have "split_on 32 (str ''d 755 0 2f'') = [str ''d'', str ''755'', str ''0'', str ''2f'']" by code_simp
    moreover have "utf8_valid (str ''d 755 0 2f'')" "decode_hex (str ''2f'') = Inr (str ''/'')"
        "\<not> noncanonical (str ''/'')" "str ''d 755 0 2f'' \<noteq> []"
      by code_simp+
    moreover have "nat_text 8 493 = str ''755''" "parse_digits 10 (str ''0'') = Some 0" "nat_text 10 0 = str ''0''"
      by code_simp+
    moreover from this have "parse_octal 2 (str ''755'') = Inr 0x1ED"
      using parse_unsigned_text [of 8 493 "2 ^ 32 - 1"] by (simp add: parse_octal_def)
    moreover have "parse_i64 (str ''0'') = Some 0" "int_text 0 = str ''0''"
      using calculation by (simp_all add: parse_i64_def int_text_def) (simp_all add: str_def)
    ultimately show ?thesis
      by (simp add: cm_line_def Let_def cm_field_def cm_kind_of_def) (simp add: str_def)
  qed
  moreover have "cm_parents [?e] = Inr ()" by code_simp
  ultimately have "cm_parse ?bs = Inr \<lparr>cm_root = sha256 ?bs, cm_entries = [?e]\<rparr>"
    by (simp add: cm_parse_def) (simp add: str_def)
  moreover have "length ?bs < 2 ^ 63" by (simp add: CM_HEADER_def str_def)
  ultimately show ?thesis using chunk_manifest_canonical [of ?bs] by (metis (no_types, lifting))
qed

end
