(* ===== verification/Trace.thy ===== *)
theory Trace
  imports Text
begin

text \<open>
  Execution traces, \<^verbatim>\<open>crates/linux-compat/src/trace.rs\<close>: the events, the ceiling on how many are
  kept, the sampling schedule and the text form. The processor is a parameter: the variable node
  of a register name, its width in bytes, and its value.
\<close>

section \<open>Events\<close>

definition TRACE_FORMAT_VERSION :: u32 where
  "TRACE_FORMAT_VERSION = 1"

definition SAMPLED :: "string list" where
  "SAMPLED = [''RAX'', ''RBX'', ''RCX'', ''RDX'', ''RSI'', ''RDI'', ''RBP'', ''RSP'', ''R8'', ''R9'', ''R10'', ''R11'',
     ''R12'', ''R13'', ''R14'', ''R15'', ''RIP'', ''CF'', ''ZF'', ''SF'', ''OF'', ''AF'', ''PF'', ''DF'']"

definition fnv1a :: "bytes \<Rightarrow> u64" where
  "fnv1a bs = foldl (\<lambda>h b. (h XOR ucast b) * 0x100000001B3) 0xCBF29CE484222325 bs"

datatype syscall_result = SrValue u64 | SrBlocked | SrNoReturn

datatype event =
    EvState u64 "u64 list"
  | EvSyscall u64 u64 u64 "u64 list" syscall_result
  | EvSignal u64 u64 u64
  | EvExit u64 "32 word"
  | EvStop u64 bytes

record 'v trace =
  tversion :: u32
  timage :: "(bytes \<times> nat \<times> u64) option"
  tmanifest_image :: "(bytes \<times> u64 \<times> hash \<times> u64) option"
  targv :: "bytes list"
  tenvp :: "bytes list"
  tregisters :: "(bytes \<times> 'v) list"
  tsample_every :: u64
  tnext_sample :: u64
  tevents :: "event list"
  tbudget :: "nat option"
  tdropped :: u64

section \<open>Operations\<close>

definition trace_new :: "(bytes \<Rightarrow> 'v option) \<Rightarrow> u64 \<Rightarrow> 'v trace" where
  "trace_new varnode sample_every =
     \<lparr>tversion = TRACE_FORMAT_VERSION, timage = None, tmanifest_image = None, targv = [], tenvp = [],
      tregisters = List.map_filter (\<lambda>n. map_option (Pair (str n)) (varnode (str n))) SAMPLED,
      tsample_every = sample_every, tnext_sample = 0, tevents = [], tbudget = None, tdropped = 0\<rparr>"

definition set_image :: "bytes \<Rightarrow> bytes \<Rightarrow> 'v trace \<Rightarrow> 'v trace" where
  "set_image path bs t =
     t\<lparr>tmanifest_image := None, timage := Some (from_utf8_lossy path, length bs, fnv1a bs)\<rparr>"

definition set_manifest_image :: "bytes \<Rightarrow> u64 \<Rightarrow> hash \<Rightarrow> u64 \<Rightarrow> 'v trace \<Rightarrow> 'v trace" where
  "set_manifest_image path len root legacy_fnv t =
     t\<lparr>tversion := 2, timage := None, tmanifest_image := Some (from_utf8_lossy path, len, root, legacy_fnv)\<rparr>"

definition set_args :: "bytes list \<Rightarrow> bytes list \<Rightarrow> 'v trace \<Rightarrow> 'v trace" where
  "set_args argv envp t = t\<lparr>targv := map from_utf8_lossy argv, tenvp := map from_utf8_lossy envp\<rparr>"

definition set_budget :: "nat option \<Rightarrow> 'v trace \<Rightarrow> 'v trace" where
  "set_budget b t = t\<lparr>tbudget := b\<rparr>"

definition trace_room :: "'v trace \<Rightarrow> bool" where
  "trace_room t = (case tbudget t of None \<Rightarrow> True | Some b \<Rightarrow> length (tevents t) < b)"

definition trace_push :: "event \<Rightarrow> 'v trace \<Rightarrow> 'v trace" where
  "trace_push e t =
     (if \<not> trace_room t then t\<lparr>tdropped := tdropped t + 1\<rparr> else t\<lparr>tevents := tevents t @ [e]\<rparr>)"

definition next_sample :: "'v trace \<Rightarrow> u64 option" where
  "next_sample t = (if tsample_every t > 0 then Some (tnext_sample t) else None)"

text \<open>A register is read at its own width and widened.\<close>

definition trace_values :: "('v \<Rightarrow> nat) \<Rightarrow> ('v \<Rightarrow> u64) \<Rightarrow> 'v trace \<Rightarrow> u64 list" where
  "trace_values width_of read_var t =
     map (\<lambda>(_, v). if width_of v = 1 then read_var v AND mask 8
        else if width_of v = 2 then read_var v AND mask 16
        else if width_of v = 4 then read_var v AND mask 32
        else read_var v) (tregisters t)"

definition trace_sample :: "('v \<Rightarrow> nat) \<Rightarrow> ('v \<Rightarrow> u64) \<Rightarrow> u64 \<Rightarrow> 'v trace \<Rightarrow> 'v trace" where
  "trace_sample width_of read_var icount t =
     (let values = trace_values width_of read_var t;
          t = (if trace_room t then t\<lparr>tevents := tevents t @ [EvState icount values]\<rparr>
               else t\<lparr>tdropped := tdropped t + 1\<rparr>)
      in if tsample_every t > 0
         then t\<lparr>tnext_sample := max (saturating_add icount (tsample_every t))
                                  (saturating_add (tnext_sample t) (tsample_every t))\<rparr>
         else t)"

section \<open>Text\<close>

definition hex_text :: "u64 \<Rightarrow> bytes" where
  "hex_text w = str ''0x'' @ nat_text 16 (unat w)"

definition u64_text :: "u64 \<Rightarrow> bytes" where
  "u64_text w = nat_text 10 (unat w)"

fun event_text :: "event \<Rightarrow> bytes" where
  "event_text (EvState icount values) =
     u64_text icount @ str '' state'' @ concat (map (\<lambda>v. 32 # hex_text v) values) @ [10]"
| "event_text (EvSyscall icount pid nr args ret) =
     u64_text icount @ str '' syscall pid='' @ u64_text pid @ str '' nr='' @ u64_text nr @
     str '' args='' @ join 44 (map hex_text args) @
     (case ret of SrValue v \<Rightarrow> str '' ret='' @ hex_text v
      | SrBlocked \<Rightarrow> str '' ret=blocked'' | SrNoReturn \<Rightarrow> str '' ret=noreturn'') @ [10]"
| "event_text (EvSignal icount pid signal) =
     u64_text icount @ str '' signal pid='' @ u64_text pid @ str '' nr='' @ u64_text signal @ [10]"
| "event_text (EvExit icount code) =
     u64_text icount @ str '' exit code='' @ int_text (sint code) @ [10]"
| "event_text (EvStop icount reason) = u64_text icount @ str '' stop '' @ reason @ [10]"

definition trace_to_text :: "'v trace \<Rightarrow> bytes" where
  "trace_to_text t =
     str ''# webtos-trace '' @ nat_text 10 (unat (tversion t)) @ [10] @
     (case timage t of None \<Rightarrow> []
      | Some (path, len, h) \<Rightarrow>
          str ''# image path='' @ path @ str '' len='' @ nat_text 10 len @ str '' hash='' @ hex (u64_to_be h) @ [10]) @
     (case tmanifest_image t of None \<Rightarrow> []
      | Some (path, len, root, legacy_fnv) \<Rightarrow>
          str ''# image path='' @ path @ str '' len='' @ u64_text len @ str '' root='' @ hex root @
          str '' legacy-fnv='' @ hex (u64_to_be legacy_fnv) @ [10]) @
     (if targv t = [] then [] else str ''# argv '' @ join 32 (targv t) @ [10]) @
     concat (map (\<lambda>env. str ''# env '' @ env @ [10]) (tenvp t)) @
     str ''# registers '' @ join 32 (map fst (tregisters t)) @ [10] @
     str ''# sample-every '' @ u64_text (tsample_every t) @ [10] @
     (if tdropped t > 0 then
        str ''# truncated '' @ u64_text (tdropped t) @ str '' events not recorded past a budget of '' @
        nat_text 10 (case tbudget t of None \<Rightarrow> 0 | Some b \<Rightarrow> b) @ [10]
      else []) @
     concat (map event_text (tevents t))"

section \<open>The ceiling\<close>

text \<open>Recording is a sequence of pushes and samples; each produces one event.\<close>

datatype 'v recording = Push event | Sample u64 "'v \<Rightarrow> u64"

fun record_one :: "('v \<Rightarrow> nat) \<Rightarrow> 'v recording \<Rightarrow> 'v trace \<Rightarrow> 'v trace" where
  "record_one w (Push e) t = trace_push e t"
| "record_one w (Sample icount read_var) t = trace_sample w read_var icount t"

fun recorded :: "('v \<Rightarrow> nat) \<Rightarrow> 'v trace \<Rightarrow> 'v recording \<Rightarrow> event" where
  "recorded w t (Push e) = e"
| "recorded w t (Sample icount read_var) = EvState icount (trace_values w read_var t)"

lemma record_one_fields:
  "tbudget (record_one w r t) = tbudget t" "tregisters (record_one w r t) = tregisters t"
  "tsample_every (record_one w r t) = tsample_every t"
  "tevents (record_one w r t) = (if trace_room t then tevents t @ [recorded w t r] else tevents t)"
  "tdropped (record_one w r t) = (if trace_room t then tdropped t else tdropped t + 1)"
  by (cases r; simp add: trace_push_def trace_sample_def Let_def)+

lemma recorded_cong: "tregisters t = tregisters u \<Longrightarrow> recorded w t r = recorded w u r"
  by (cases r) (simp_all add: trace_values_def)

lemma record_all:
  "tbudget t = Some b \<Longrightarrow> length (tevents t) \<le> b \<Longrightarrow>
     tevents (fold (record_one w) rs t) = take b (tevents t @ map (recorded w t) rs) \<and>
     tdropped (fold (record_one w) rs t) = tdropped t + of_nat (length (tevents t) + length rs - b)"
proof (induction rs arbitrary: t)
  case (Cons r rs)
  let ?t = "record_one w r t"
  have same: "map (recorded w ?t) rs = map (recorded w t) rs"
    using recorded_cong [of ?t t w] by (simp add: record_one_fields)
  show ?case
  proof (cases "length (tevents t) < b")
    case True
    then have "tevents ?t = tevents t @ [recorded w t r]" "tdropped ?t = tdropped t"
      using Cons.prems by (simp_all add: record_one_fields trace_room_def)
    then show ?thesis using Cons.IH [of ?t] Cons.prems True same by (simp add: record_one_fields)
  next
    case False
    then have "tevents ?t = tevents t" "tdropped ?t = tdropped t + 1" "length (tevents t) = b"
      using Cons.prems by (simp_all add: record_one_fields trace_room_def)
    then show ?thesis using Cons.IH [of ?t] Cons.prems same by (simp add: record_one_fields)
  qed
qed simp

text \<open>With a ceiling, a trace holds exactly the first events of the run, in order, up to the
  ceiling, and counts every event after them; it says so in its text when there were any.\<close>

theorem trace_keeps_a_prefix:
  assumes "tbudget t = Some b" and "tevents t = []" and "tdropped t = 0" and "length rs < 2 ^ 64"
  shows "let u = fold (record_one w) rs t in
    tevents u = take b (map (recorded w t) rs) \<and> unat (tdropped u) = length rs - b \<and>
    (tdropped u > 0 \<longleftrightarrow> b < length rs)"
proof -
  have "length rs - b < 2 ^ 64" using assms(4) by simp
  then have "unat (of_nat (length rs - b) :: u64) = length rs - b"
    by (simp add: unsigned_of_nat take_bit_nat_eq_self)
  then show ?thesis
    using record_all [of t b w rs] assms(1-3) by (auto simp: Let_def word_less_nat_alt)
qed

theorem trace_keeps_a_prefix_witness:
  "let t = set_budget (Some 1) (trace_new (\<lambda>_. None :: nat option) 0);
       rs = [Push (EvExit 1 0), Push (EvSignal 2 3 4)]; u = fold (record_one (\<lambda>_. 8)) rs t in
   tevents u = [EvExit 1 0] \<and> unat (tdropped u) = 1"
  using trace_keeps_a_prefix [of "set_budget (Some 1) (trace_new (\<lambda>_. None :: nat option) 0)" 1
      "[Push (EvExit 1 0), Push (EvSignal 2 3 4)]" "\<lambda>_. 8"]
  by (simp add: set_budget_def trace_new_def Let_def)

end
