(* ===== verification/Pager.thy ===== *)
theory Pager
  imports Vfs
begin

text \<open>
  File-backed mappings and page-in requests, \<^verbatim>\<open>crates/linux-compat/src/pager.rs\<close>: the table of
  mappings of each address space, the construction of a page from the mappings that touch it, the
  one outstanding request, and its completion. Addresses are 64-bit words and wrap as in the
  source; an index past the end of the page buffer is a panic.
\<close>

section \<open>Mappings\<close>

definition PERM_NONE :: u8 where "PERM_NONE = 0"
definition PERM_INIT :: u8 where "PERM_INIT = 1"
definition PERM_READ :: u8 where "PERM_READ = 2"
definition PERM_WRITE :: u8 where "PERM_WRITE = 4"
definition PERM_EXEC :: u8 where "PERM_EXEC = 8"

definition PAGE_SIZE :: u64 where
  "PAGE_SIZE = 4096"

definition page_of :: "u64 \<Rightarrow> u64" where
  "page_of a = a AND NOT (PAGE_SIZE - 1)"

datatype access_kind = AccRead | AccWrite | AccExecute

definition required_perm :: "access_kind \<Rightarrow> u8" where
  "required_perm access = (case access of AccRead \<Rightarrow> PERM_READ | AccWrite \<Rightarrow> PERM_WRITE | AccExecute \<Rightarrow> PERM_EXEC)"

record page_request =
  rq_ticket :: u64
  rq_hash :: hash
  rq_asid :: u64
  rq_generation :: u64
  rq_page :: u64
  rq_access :: access_kind

record file_mapping =
  fm_start :: u64
  fm_end :: u64
  fm_data_start :: u64
  fm_file_offset :: u64
  fm_file_len :: u64
  fm_perm :: u8
  fm_fill :: u8
  fm_file :: chunked_file

datatype fm_error = FmRange | FmDataOverflow | FmOutside | FmPastFile

definition fm_new ::
  "u64 \<Rightarrow> u64 \<Rightarrow> u64 \<Rightarrow> u64 \<Rightarrow> u64 \<Rightarrow> u8 \<Rightarrow> u8 \<Rightarrow> chunked_file \<Rightarrow> fm_error + file_mapping" where
  "fm_new start stop data_start file_offset file_len final_perm fill f =
     (if start \<ge> stop \<or> start mod PAGE_SIZE \<noteq> 0 \<or> stop mod PAGE_SIZE \<noteq> 0 then Inl FmRange
      else (case checked_add data_start file_len of
          None \<Rightarrow> Inl FmDataOverflow
        | Some data_end \<Rightarrow>
            if data_start < start \<or> data_end > stop then Inl FmOutside
            else if (case checked_add file_offset file_len of None \<Rightarrow> True | Some e \<Rightarrow> e > cf_size f) then Inl FmPastFile
            else Inr \<lparr>fm_start = start, fm_end = stop, fm_data_start = data_start, fm_file_offset = file_offset,
                      fm_file_len = file_len, fm_perm = final_perm, fm_fill = fill, fm_file = f\<rparr>))"

definition fm_data_end :: "file_mapping \<Rightarrow> u64" where
  "fm_data_end m = fm_data_start m + fm_file_len m"

definition fm_clipped :: "file_mapping \<Rightarrow> u64 \<Rightarrow> u64 \<Rightarrow> file_mapping option" where
  "fm_clipped m start stop =
     (if start \<ge> stop \<or> start \<ge> fm_end m \<or> stop \<le> fm_start m then None
      else let start = max start (fm_start m);
               stop = min stop (fm_end m);
               data_start = min (max (fm_data_start m) start) stop;
               data_end = max (min (fm_data_end m) stop) data_start;
               skipped = saturating_sub data_start (fm_data_start m)
           in Some (m\<lparr>fm_start := start, fm_end := stop, fm_data_start := data_start,
                      fm_file_offset := fm_file_offset m + skipped, fm_file_len := data_end - data_start\<rparr>))"

definition touches :: "u64 \<Rightarrow> file_mapping \<Rightarrow> bool" where
  "touches page m \<longleftrightarrow> fm_start m \<le> page \<and> page < fm_end m"

record address_space =
  sp_generation :: u64
  sp_mappings :: "file_mapping list"

definition bump :: "u64 \<Rightarrow> u64" where
  "bump g = max (g + 1) 1"

datatype pg_why = ShortRange | SecondPageIn | BadChunk nat nat nat

datatype fault_resolution =
    NotLazy
  | PgReady u64 bytes u8
  | PgMissing page_request
  | PgInvalid pg_why

record pager =
  pg_spaces :: "(u64, address_space) btree"
  pg_resident :: "(u64 \<times> u64) set"
  pg_pending :: "page_request option"
  pg_next_ticket :: u64
  pg_page_ins :: u64
  pg_by_access :: "u64 list"

definition pager_new :: pager where
  "pager_new = \<lparr>pg_spaces = [], pg_resident = {}, pg_pending = None, pg_next_ticket = 0, pg_page_ins = 0,
                pg_by_access = [0, 0, 0]\<rparr>"

section \<open>Queries\<close>

definition pg_map :: "u64 \<Rightarrow> file_mapping \<Rightarrow> pager \<Rightarrow> pager" where
  "pg_map asid m p =
     (let sp = (case map_of (pg_spaces p) asid of None \<Rightarrow> \<lparr>sp_generation = 0, sp_mappings = []\<rparr> | Some sp \<Rightarrow> sp)
      in p\<lparr>pg_spaces := bt_insert asid
             \<lparr>sp_generation = bump (sp_generation sp), sp_mappings = sp_mappings sp @ [m]\<rparr> (pg_spaces p)\<rparr>)"

definition pg_is_empty :: "pager \<Rightarrow> bool" where
  "pg_is_empty p \<longleftrightarrow> (\<forall>e \<in> set (pg_spaces p). sp_mappings (snd e) = [])"

definition pg_generation :: "pager \<Rightarrow> u64 \<Rightarrow> u64" where
  "pg_generation p asid = (case map_of (pg_spaces p) asid of None \<Rightarrow> 0 | Some sp \<Rightarrow> sp_generation sp)"

function nonresident_from :: "pager \<Rightarrow> u64 \<Rightarrow> address_space \<Rightarrow> u64 \<Rightarrow> u64 \<Rightarrow> u64 list" where
  "nonresident_from p asid sp page stop =
     (if page < stop then
        (if (asid, page) \<notin> pg_resident p \<and> (\<exists>m \<in> set (sp_mappings sp). touches page m) then [page] else []) @
        nonresident_from p asid sp (saturating_add page PAGE_SIZE) stop
      else [])"
  by pat_completeness auto
termination
proof (relation "measure (\<lambda>(p, asid, sp, page, stop). 2 ^ 64 - unat page)")
  fix p :: pager and asid page stop :: u64 and sp
  assume "page < stop"
  then have "unat page < unat stop" "unat stop < 2 ^ 64"
    using unsigned_less [of stop, where ?'a = nat] by (simp_all add: word_less_nat_alt)
  then show "((p, asid, sp, saturating_add page PAGE_SIZE, stop), p, asid, sp, page, stop)
      \<in> measure (\<lambda>(p, asid, sp, page, stop). 2 ^ 64 - unat page)"
    by (simp add: unat_saturating_add PAGE_SIZE_def)
qed simp

declare nonresident_from.simps [simp del]

definition nonresident_pages :: "pager \<Rightarrow> u64 \<Rightarrow> u64 \<Rightarrow> u64 \<Rightarrow> u64 list" where
  "nonresident_pages p asid start len =
     (case map_of (pg_spaces p) asid of
        None \<Rightarrow> []
      | Some sp \<Rightarrow> nonresident_from p asid sp (page_of start) (saturating_add start len))"

definition page_state :: "pager \<Rightarrow> u64 \<Rightarrow> u64 \<Rightarrow> (bool \<times> u8) option" where
  "page_state p asid address =
     (let page = page_of address in
      case map_of (pg_spaces p) asid of
        None \<Rightarrow> None
      | Some sp \<Rightarrow>
          map_option (\<lambda>m. ((asid, page) \<in> pg_resident p, fm_perm m)) (find (touches page) (rev (sp_mappings sp))))"

section \<open>Building a page\<close>

datatype fill_out = Filled bytes u8 | FillMissing hash | FillInvalid pg_why

definition fill_slice :: "u64 \<Rightarrow> u64 \<Rightarrow> bytes \<Rightarrow> bytes \<Rightarrow> bytes run" where
  "fill_slice lo hi part bs =
     (if unat lo \<le> unat hi \<and> unat hi \<le> length bs then Ret (put_at (unat lo) part bs) else Panic)"

primrec fill_page :: "chunk_store \<Rightarrow> u64 \<Rightarrow> file_mapping list \<Rightarrow> bytes \<Rightarrow> u8 \<Rightarrow> fill_out run" where
  "fill_page st page [] bs final_perm = Ret (Filled bs final_perm)"
| "fill_page st page (m # ms) bs final_perm =
     (let final_perm = fm_perm m;
          zero_start = max (fm_data_end m) page;
          zero_end = min (fm_end m) (page + PAGE_SIZE)
      in case (if zero_start < zero_end
               then fill_slice (zero_start - page) (zero_end - page)
                      (replicate (unat (zero_end - zero_start)) 0) bs
               else Ret bs) of
           Panic \<Rightarrow> Panic
         | Ret bs \<Rightarrow>
             (let copy_start = max page (fm_data_start m);
                  copy_end = min (page + PAGE_SIZE) (fm_data_end m)
              in if copy_start \<ge> copy_end then fill_page st page ms bs final_perm
                 else let file_offset = fm_file_offset m + (copy_start - fm_data_start m);
                          len = unat (copy_end - copy_start)
                      in case cs_read_range st (fm_file m) file_offset len of
                           Panic \<Rightarrow> Panic
                         | Ret (Ready part) \<Rightarrow>
                             if length part = len
                             then (case fill_slice (copy_start - page) (copy_start - page + of_nat len) part bs of
                                     Panic \<Rightarrow> Panic
                                   | Ret bs \<Rightarrow> fill_page st page ms bs final_perm)
                             else Ret (FillInvalid ShortRange)
                         | Ret (Missing h) \<Rightarrow> Ret (FillMissing h)
                         | Ret (Invalid i got want) \<Rightarrow> Ret (FillInvalid (BadChunk i got want))))"

text \<open>The request for an absent chunk: the outstanding one if it is this one, none while another
  is outstanding, else a fresh ticket.\<close>

definition pg_request :: "u64 \<Rightarrow> u64 \<Rightarrow> u64 \<Rightarrow> access_kind \<Rightarrow> hash \<Rightarrow> pager \<Rightarrow> fault_resolution \<times> pager" where
  "pg_request asid generation page access h p =
     (case pg_pending p of
        Some request \<Rightarrow>
          if rq_hash request = h \<and> rq_asid request = asid \<and> rq_generation request = generation \<and> rq_page request = page
          then (PgMissing request, p) else (PgInvalid SecondPageIn, p)
      | None \<Rightarrow>
          let ticket = bump (pg_next_ticket p);
              request = \<lparr>rq_ticket = ticket, rq_hash = h, rq_asid = asid, rq_generation = generation,
                         rq_page = page, rq_access = access\<rparr>
          in (PgMissing request, p\<lparr>pg_next_ticket := ticket, pg_pending := Some request\<rparr>))"

definition last_grants :: "file_mapping list \<Rightarrow> u8 \<Rightarrow> bool" where
  "last_grants ms required \<longleftrightarrow> ms \<noteq> [] \<and> fm_perm (last ms) AND required \<noteq> 0"

text \<open>The page a fault is about: the page of its address, or the next one when that page is
  resident and the access may straddle the two.\<close>

definition fault_page :: "pager \<Rightarrow> u64 \<Rightarrow> address_space \<Rightarrow> u64 \<Rightarrow> access_kind \<Rightarrow> (u64 \<times> file_mapping list) option" where
  "fault_page p asid sp address access =
     (let page = page_of address;
          touching = filter (touches page) (sp_mappings sp)
      in if touching = [] then None
         else if (asid, page) \<notin> pg_resident p then Some (page, touching)
         else if \<not> last_grants touching (required_perm access) then None
         else let after = saturating_add page PAGE_SIZE;
                  after_touching = filter (touches after) (sp_mappings sp)
              in if \<not> last_grants after_touching (required_perm access) \<or> (asid, after) \<in> pg_resident p then None
                 else Some (after, after_touching))"

definition pg_resolve :: "chunk_store \<Rightarrow> u64 \<Rightarrow> u64 \<Rightarrow> access_kind \<Rightarrow> pager \<Rightarrow> (fault_resolution \<times> pager) run" where
  "pg_resolve st asid address access p =
     (case map_of (pg_spaces p) asid of
        None \<Rightarrow> Ret (NotLazy, p)
      | Some sp \<Rightarrow>
          (case fault_page p asid sp address access of
             None \<Rightarrow> Ret (NotLazy, p)
           | Some (page, touching) \<Rightarrow>
               (case fill_page st page touching (replicate 4096 (fm_fill (hd touching))) PERM_INIT of
                  Panic \<Rightarrow> Panic
                | Ret (Filled bs perm) \<Rightarrow> Ret (PgReady page bs perm, p)
                | Ret (FillMissing h) \<Rightarrow> Ret (pg_request asid (sp_generation sp) page access h p)
                | Ret (FillInvalid why) \<Rightarrow> Ret (PgInvalid why, p))))"

definition mark_resident :: "u64 \<Rightarrow> u64 \<Rightarrow> access_kind \<Rightarrow> pager \<Rightarrow> pager" where
  "mark_resident asid address access p =
     (let page = page_of address;
          i = (case access of AccRead \<Rightarrow> 0 | AccWrite \<Rightarrow> 1 | AccExecute \<Rightarrow> 2)
      in if (asid, page) \<in> pg_resident p then p
         else p\<lparr>pg_resident := insert (asid, page) (pg_resident p), pg_page_ins := pg_page_ins p + 1,
                pg_by_access := (pg_by_access p)[i := pg_by_access p ! i + 1]\<rparr>)"

section \<open>Completion and changes of the table\<close>

datatype complete_error = NoPageIn | WrongTicket | StaleTicket | BadChunkPut put_error

definition pg_complete :: "u64 \<Rightarrow> rvec \<Rightarrow> pager \<Rightarrow> vfs \<Rightarrow> (complete_error + unit) \<times> pager \<times> vfs" where
  "pg_complete ticket bs p v =
     (case pg_pending p of
        None \<Rightarrow> (Inl NoPageIn, p, v)
      | Some request \<Rightarrow>
          if rq_ticket request \<noteq> ticket then (Inl WrongTicket, p, v)
          else if \<not> (case map_of (pg_spaces p) (rq_asid request) of
                      None \<Rightarrow> False
                    | Some sp \<Rightarrow> sp_generation sp = rq_generation request \<and>
                        (\<exists>m \<in> set (sp_mappings sp). touches (rq_page request) m))
          then (Inl StaleTicket, p\<lparr>pg_pending := None\<rparr>, v)
          else (case put_chunk (rq_hash request) bs v of
                  Inl e \<Rightarrow> (Inl (BadChunkPut e), p, v)
                | Inr w \<Rightarrow> (Inr (), p\<lparr>pg_pending := None\<rparr>, w)))"

definition drop_space :: "u64 \<Rightarrow> pager \<Rightarrow> pager" where
  "drop_space asid p =
     p\<lparr>pg_spaces := bt_remove asid (pg_spaces p), pg_resident := Set.filter (\<lambda>e. fst e \<noteq> asid) (pg_resident p)\<rparr>"

definition outside :: "u64 \<Rightarrow> u64 \<Rightarrow> file_mapping \<Rightarrow> bool" where
  "outside start stop m \<longleftrightarrow> fm_end m \<le> start \<or> fm_start m \<ge> stop"

definition opt_list :: "'a option \<Rightarrow> 'a list" where
  "opt_list r = (case r of None \<Rightarrow> [] | Some x \<Rightarrow> [x])"

definition unmap_one :: "u64 \<Rightarrow> u64 \<Rightarrow> file_mapping \<Rightarrow> file_mapping list" where
  "unmap_one start stop m =
     (if outside start stop m then [m]
      else opt_list (fm_clipped m (fm_start m) start) @ opt_list (fm_clipped m stop (fm_end m)))"

definition pg_unmap :: "u64 \<Rightarrow> u64 \<Rightarrow> u64 \<Rightarrow> pager \<Rightarrow> pager" where
  "pg_unmap asid start len p =
     (case checked_add start len of
        None \<Rightarrow> drop_space asid p
      | Some stop \<Rightarrow>
          (case map_of (pg_spaces p) asid of
             None \<Rightarrow> p
           | Some sp \<Rightarrow>
               p\<lparr>pg_spaces := bt_insert asid \<lparr>sp_generation = bump (sp_generation sp),
                    sp_mappings = concat (map (unmap_one start stop) (sp_mappings sp))\<rparr> (pg_spaces p),
                 pg_resident := Set.filter (\<lambda>(a, page). a \<noteq> asid \<or> page < start \<or> page \<ge> stop) (pg_resident p)\<rparr>))"

definition protect_one :: "u64 \<Rightarrow> u64 \<Rightarrow> u8 \<Rightarrow> file_mapping \<Rightarrow> file_mapping list" where
  "protect_one start stop new_perm m =
     (if outside start stop m then [m]
      else opt_list (fm_clipped m (fm_start m) start) @
           opt_list (map_option (\<lambda>middle. middle\<lparr>fm_perm := new_perm\<rparr>) (fm_clipped m start stop)) @
           opt_list (fm_clipped m stop (fm_end m)))"

definition pg_protect :: "u64 \<Rightarrow> u64 \<Rightarrow> u64 \<Rightarrow> u8 \<Rightarrow> pager \<Rightarrow> pager" where
  "pg_protect asid start len new_perm p =
     (case checked_add start len of
        None \<Rightarrow> p
      | Some stop \<Rightarrow>
          (case map_of (pg_spaces p) asid of
             None \<Rightarrow> p
           | Some sp \<Rightarrow>
               p\<lparr>pg_spaces := bt_insert asid \<lparr>sp_generation = bump (sp_generation sp),
                    sp_mappings = concat (map (protect_one start stop new_perm) (sp_mappings sp))\<rparr> (pg_spaces p)\<rparr>))"

definition remap_kept :: "u64 \<Rightarrow> u64 \<Rightarrow> file_mapping \<Rightarrow> file_mapping list" where
  "remap_kept old_start old_end m = unmap_one old_start old_end m"

definition remap_moved :: "u64 \<Rightarrow> u64 \<Rightarrow> u64 \<Rightarrow> u64 \<Rightarrow> file_mapping \<Rightarrow> file_mapping list" where
  "remap_moved old_start old_end copy_end new_start m =
     (if outside old_start old_end m then []
      else opt_list (map_option (\<lambda>part.
             let delta = new_start - old_start in
             part\<lparr>fm_start := fm_start part + delta, fm_end := fm_end part + delta,
                  fm_data_start := fm_data_start part + delta\<rparr>) (fm_clipped m old_start copy_end)))"

definition remap_tail :: "u64 \<Rightarrow> u64 \<Rightarrow> u64 \<Rightarrow> u64 \<Rightarrow> file_mapping \<Rightarrow> file_mapping list" where
  "remap_tail old_end old_len new_start new_len source =
     (let tail_start = saturating_add new_start old_len;
          tail_end = saturating_add new_start new_len
      in if tail_start < tail_end then
           (let offset_at_tail = min (saturating_add (fm_file_offset source)
                                    (saturating_sub old_end (fm_data_start source))) (cf_size (fm_file source));
                file_len = min (saturating_sub (cf_size (fm_file source)) offset_at_tail) (tail_end - tail_start)
            in case fm_new tail_start tail_end tail_start offset_at_tail file_len (fm_perm source) (fm_fill source) (fm_file source) of
                 Inl _ \<Rightarrow> []
               | Inr tail \<Rightarrow> [tail])
         else [])"

definition pg_remap :: "u64 \<Rightarrow> u64 \<Rightarrow> u64 \<Rightarrow> u64 \<Rightarrow> u64 \<Rightarrow> pager \<Rightarrow> pager" where
  "pg_remap asid old_start old_len new_start new_len p =
     (case map_of (pg_spaces p) asid of
        None \<Rightarrow> p
      | Some sp \<Rightarrow>
          let old_end = saturating_add old_start old_len;
              copy_end = saturating_add old_start (min old_len new_len);
              source = (if new_len > old_len
                        then find (\<lambda>m. fm_start m < old_end \<and> old_end \<le> fm_end m) (rev (sp_mappings sp)) else None);
              kept = concat (map (remap_kept old_start old_end) (sp_mappings sp));
              moved = concat (map (remap_moved old_start old_end copy_end new_start) (sp_mappings sp)) @
                      (case source of None \<Rightarrow> [] | Some m \<Rightarrow> remap_tail old_end old_len new_start new_len m);
              old_resident = Set.filter (\<lambda>(a, page). a = asid \<and> old_start \<le> page \<and> page < copy_end) (pg_resident p)
          in p\<lparr>pg_spaces := bt_insert asid \<lparr>sp_generation = bump (sp_generation sp), sp_mappings = kept @ moved\<rparr> (pg_spaces p),
               pg_resident := Set.filter (\<lambda>(a, page). a \<noteq> asid \<or> page < old_start \<or> page \<ge> old_end) (pg_resident p) \<union>
                 (\<lambda>(a, page). (asid, new_start + (page - old_start))) ` old_resident\<rparr>)"

definition fork_space :: "u64 \<Rightarrow> u64 \<Rightarrow> pager \<Rightarrow> pager" where
  "fork_space parent child p =
     (case map_of (pg_spaces p) parent of
        None \<Rightarrow> p
      | Some sp \<Rightarrow>
          p\<lparr>pg_spaces := bt_insert child sp (pg_spaces p),
            pg_resident := pg_resident p \<union> (\<lambda>(a, page). (child, page)) ` Set.filter (\<lambda>e. fst e = parent) (pg_resident p)\<rparr>)"

end
