(* ===== verification/PagerProps.thy ===== *)
theory PagerProps
  imports Pager VfsInv
begin

text \<open>
  What the pager promises. A mapping is read as a partial function from addresses to bytes; a
  page built by \<open>pg_resolve\<close> is the composition of the mappings that touch it; clipping, unmapping
  and protecting change that function only where they say; and a completion is accepted only for
  the generation it was asked in.
\<close>

section \<open>The meaning of a mapping\<close>

text \<open>\<open>cont\<close> gives the authoritative content of a file. Before the data of a mapping nothing is
  written, after it zeros are.\<close>

definition mapping_byte :: "(chunked_file \<Rightarrow> bytes) \<Rightarrow> file_mapping \<Rightarrow> nat \<Rightarrow> u8 option" where
  "mapping_byte cont m a =
     (if a < unat (fm_data_start m) then None
      else if a < unat (fm_data_start m) + unat (fm_file_len m)
      then Some (cont (fm_file m) ! (unat (fm_file_offset m) + (a - unat (fm_data_start m))))
      else Some 0)"

definition mapping_ok :: "file_mapping \<Rightarrow> bool" where
  "mapping_ok m \<longleftrightarrow> unat (fm_start m) < unat (fm_end m) \<and>
     unat (fm_start m) mod 4096 = 0 \<and> unat (fm_end m) mod 4096 = 0 \<and>
     unat (fm_start m) \<le> unat (fm_data_start m) \<and>
     unat (fm_data_start m) + unat (fm_file_len m) \<le> unat (fm_end m) \<and>
     (0 < unat (fm_file_len m) \<longrightarrow>
        unat (fm_file_offset m) + unat (fm_file_len m) \<le> unat (cf_size (fm_file m))) \<and>
     cf_ok (fm_file m) \<and> cf_fits (fm_file m)"

lemma unat_page_size [simp]: "unat PAGE_SIZE = 4096"
  by (simp add: PAGE_SIZE_def)

lemma u64_lt: "unat (x :: u64) < 2 ^ 64"
  using unsigned_less [of x, where ?'a = nat] by simp

lemma data_end_nat: "mapping_ok m \<Longrightarrow> unat (fm_data_end m) = unat (fm_data_start m) + unat (fm_file_len m)"
  using u64_lt [of "fm_end m"] by (simp add: fm_data_end_def mapping_ok_def unat_plus_exact)

lemma fm_new_ok:
  assumes "fm_new start stop data_start off len perm fill f = Inr m" and "cf_ok f" and "cf_fits f"
  shows "mapping_ok m"
proof -
  have "start < stop" "start mod PAGE_SIZE = 0" "stop mod PAGE_SIZE = 0"
    using assms(1) by (auto simp: fm_new_def split: if_splits)
  then have "unat start mod 4096 = 0" "unat stop mod 4096 = 0"
    by (metis unat_mod unat_page_size unsigned_0)+
  then show ?thesis
    using assms \<open>start < stop\<close>
    by (auto simp: fm_new_def mapping_ok_def checked_add_Some word_less_nat_alt not_less word_le_nat_alt
        split: if_splits option.splits)
qed

lemma clip_nat:
  assumes ok: "mapping_ok m" and c: "fm_clipped m a b = Some c"
  shows "unat (fm_start c) = max (unat a) (unat (fm_start m))"
    and "unat (fm_end c) = min (unat b) (unat (fm_end m))"
    and "unat (fm_start c) < unat (fm_end c)"
    and "unat (fm_data_start c) = min (max (unat (fm_data_start m)) (unat (fm_start c))) (unat (fm_end c))"
    and "unat (fm_data_start c) + unat (fm_file_len c) =
      max (min (unat (fm_data_start m) + unat (fm_file_len m)) (unat (fm_end c))) (unat (fm_data_start c))"
    and "fm_file_offset c = fm_file_offset m + saturating_sub (fm_data_start c) (fm_data_start m)"
    and "fm_perm c = fm_perm m" "fm_fill c = fm_fill m" "fm_file c = fm_file m"
proof -
  have lt: "unat a < unat b" "unat a < unat (fm_end m)" "unat (fm_start m) < unat b"
    using c by (auto simp: fm_clipped_def word_le_nat_alt split: if_splits)
  have se: "unat (fm_start m) < unat (fm_end m)" using ok by (simp add: mapping_ok_def)
  have c': "c = m\<lparr>fm_start := max a (fm_start m), fm_end := min b (fm_end m),
      fm_data_start := min (max (fm_data_start m) (max a (fm_start m))) (min b (fm_end m)),
      fm_file_offset := fm_file_offset m + saturating_sub (min (max (fm_data_start m) (max a (fm_start m))) (min b (fm_end m))) (fm_data_start m),
      fm_file_len := max (min (fm_data_end m) (min b (fm_end m))) (min (max (fm_data_start m) (max a (fm_start m))) (min b (fm_end m))) -
        min (max (fm_data_start m) (max a (fm_start m))) (min b (fm_end m))\<rparr>"
    using c by (auto simp: fm_clipped_def Let_def split: if_splits)
  show 1: "unat (fm_start c) = max (unat a) (unat (fm_start m))"
    and 2: "unat (fm_end c) = min (unat b) (unat (fm_end m))"
    and 3: "unat (fm_data_start c) = min (max (unat (fm_data_start m)) (unat (fm_start c))) (unat (fm_end c))"
    by (simp_all add: c' unat_max_word unat_min_word)
  show "unat (fm_start c) < unat (fm_end c)" using 1 2 lt se by simp
  show "fm_file_offset c = fm_file_offset m + saturating_sub (fm_data_start c) (fm_data_start m)"
    and "fm_perm c = fm_perm m" "fm_fill c = fm_fill m" "fm_file c = fm_file m"
    by (simp_all add: c')
  have "fm_file_len c = max (min (fm_data_end m) (fm_end c)) (fm_data_start c) - fm_data_start c"
    by (simp add: c')
  then have "unat (fm_file_len c) = unat (max (min (fm_data_end m) (fm_end c)) (fm_data_start c)) - unat (fm_data_start c)"
    by (simp add: unat_minus_exact)
  then show "unat (fm_data_start c) + unat (fm_file_len c) =
      max (min (unat (fm_data_start m) + unat (fm_file_len m)) (unat (fm_end c))) (unat (fm_data_start c))"
    by (simp add: unat_max_word unat_min_word data_end_nat [OF ok])
qed

lemma clip_offset:
  assumes ok: "mapping_ok m" and c: "fm_clipped m a b = Some c" and data: "0 < unat (fm_file_len c)"
  shows "unat (fm_file_offset c) = unat (fm_file_offset m) + (unat (fm_data_start c) - unat (fm_data_start m))"
    and "unat (fm_data_start m) \<le> unat (fm_data_start c)"
    and "unat (fm_data_start c) + unat (fm_file_len c) \<le> unat (fm_data_start m) + unat (fm_file_len m)"
proof -
  note n = clip_nat [OF ok c]
  have m: "unat (fm_start m) \<le> unat (fm_data_start m)"
      "0 < unat (fm_file_len m) \<Longrightarrow> unat (fm_file_offset m) + unat (fm_file_len m) \<le> unat (cf_size (fm_file m))"
    using ok by (simp_all add: mapping_ok_def)
  have lt: "unat (fm_data_start c) < min (unat (fm_data_start m) + unat (fm_file_len m)) (unat (fm_end c))"
    using n(5) data by linarith
  then have ds: "unat (fm_data_start c) = max (unat (fm_data_start m)) (unat (fm_start c))"
    using n(4) by linarith
  show le: "unat (fm_data_start m) \<le> unat (fm_data_start c)" using ds by simp
  show len: "unat (fm_data_start c) + unat (fm_file_len c) \<le> unat (fm_data_start m) + unat (fm_file_len m)"
    using n(5) lt by linarith
  have "unat (fm_file_offset m) + (unat (fm_data_start c) - unat (fm_data_start m)) < 2 ^ 64"
    using m(2) le len data u64_lt [of "cf_size (fm_file m)"] by linarith
  then show "unat (fm_file_offset c) = unat (fm_file_offset m) + (unat (fm_data_start c) - unat (fm_data_start m))"
    by (simp add: n(6) unat_plus_exact unat_saturating_sub)
qed

lemma clip_ok:
  assumes ok: "mapping_ok m" and c: "fm_clipped m a b = Some c"
    and al: "unat a mod 4096 = 0" "unat b mod 4096 = 0"
  shows "mapping_ok c"
proof -
  note n = clip_nat [OF ok c]
  have m: "unat (fm_start m) mod 4096 = 0" "unat (fm_end m) mod 4096 = 0" "cf_ok (fm_file m)" "cf_fits (fm_file m)"
    using ok by (simp_all add: mapping_ok_def)
  have file_bound: "unat (fm_file_offset c) + unat (fm_file_len c) \<le> unat (cf_size (fm_file c))"
    if d: "0 < unat (fm_file_len c)"
  proof -
    have "0 < unat (fm_file_len m)" using clip_offset(2,3) [OF ok c d] d by linarith
    then have "unat (fm_file_offset m) + unat (fm_file_len m) \<le> unat (cf_size (fm_file m))"
      using ok by (simp add: mapping_ok_def)
    then show ?thesis unfolding n(9) using clip_offset [OF ok c d] by linarith
  qed
  have al': "unat (fm_start c) mod 4096 = 0" "unat (fm_end c) mod 4096 = 0"
    using n(1,2) al m(1,2) by (simp_all add: max_def min_def)
  show ?thesis
    unfolding mapping_ok_def using n(3,4,5) file_bound al' m(3,4) by (simp add: n(9))
qed

lemma clip_byte:
  assumes ok: "mapping_ok m" and c: "fm_clipped m a b = Some c"
    and x: "unat (fm_start c) \<le> x" "x < unat (fm_end c)"
  shows "mapping_byte cont c x = mapping_byte cont m x"
proof -
  note n = clip_nat [OF ok c]
  have before: "x < unat (fm_data_start c) \<longleftrightarrow> x < unat (fm_data_start m)"
    using n(4) x by linarith
  show ?thesis
  proof (cases "x < unat (fm_data_start m)")
    case True
    then show ?thesis using before by (simp add: mapping_byte_def)
  next
    case False
    have inside: "x < unat (fm_data_start c) + unat (fm_file_len c) \<longleftrightarrow> x < unat (fm_data_start m) + unat (fm_file_len m)"
      using n(5) x before False by linarith
    show ?thesis
    proof (cases "x < unat (fm_data_start m) + unat (fm_file_len m)")
      case True
      then have d: "0 < unat (fm_file_len c)" using inside before False by linarith
      have "unat (fm_file_offset c) + (x - unat (fm_data_start c)) = unat (fm_file_offset m) + (x - unat (fm_data_start m))"
        using clip_offset(1,2) [OF ok c d] before False by linarith
      then show ?thesis using True False before inside by (simp add: mapping_byte_def n(9))
    next
      case False
      then show ?thesis using before inside by (simp add: mapping_byte_def)
    qed
  qed
qed

section \<open>What a page is made of\<close>

text \<open>The mappings that touch a page, in order, reduced to what each contributes to it.\<close>

type_synonym layer = "u8 \<times> u8 \<times> u8 option list"

definition layer_of :: "(chunked_file \<Rightarrow> bytes) \<Rightarrow> u64 \<Rightarrow> file_mapping \<Rightarrow> layer" where
  "layer_of cont page m = (fm_fill m, fm_perm m, map (mapping_byte cont m) [unat page ..< unat page + 4096])"

definition layers :: "(chunked_file \<Rightarrow> bytes) \<Rightarrow> u64 \<Rightarrow> file_mapping list \<Rightarrow> layer list" where
  "layers cont page ms = map (layer_of cont page) (filter (touches page) ms)"

lemma layers_simps [simp]:
  "layers cont page [] = []"
  "layers cont page (m # ms) = (if touches page m then [layer_of cont page m] else []) @ layers cont page ms"
  "layers cont page (ms @ ns) = layers cont page ms @ layers cont page ns"
  by (simp_all add: layers_def)

lemma layers_concat: "layers cont page (concat mss) = concat (map (layers cont page) mss)"
  by (induction mss) simp_all

abbreviation aligned :: "u64 \<Rightarrow> bool" where
  "aligned a \<equiv> unat a mod 4096 = 0"

lemma aligned_gap: "a mod 4096 = 0 \<Longrightarrow> b mod 4096 = 0 \<Longrightarrow> a < b \<Longrightarrow> a + 4096 \<le> (b :: nat)"
  by (auto simp: mod_eq_0_iff_dvd elim!: dvdE)

lemma layers_clip:
  assumes "mapping_ok m" and al: "aligned a" "aligned b" "aligned page"
  shows "layers cont page (opt_list (fm_clipped m a b)) =
    (if touches page m \<and> a \<le> page \<and> page < b then [layer_of cont page m] else [])"
proof (cases "fm_clipped m a b")
  case None
  have "unat (fm_start m) < unat (fm_end m)" using assms by (simp add: mapping_ok_def)
  then have "\<not> (touches page m \<and> a \<le> page \<and> page < b)"
    using None by (auto simp: fm_clipped_def Let_def touches_def word_le_nat_alt word_less_nat_alt split: if_splits)
  then show ?thesis using None by (simp add: opt_list_def)
next
  case (Some c)
  note n = clip_nat [OF assms(1) Some]
  have t: "touches page c \<longleftrightarrow> touches page m \<and> a \<le> page \<and> page < b"
    by (auto simp: touches_def word_le_nat_alt word_less_nat_alt n(1,2))
  have "layer_of cont page c = layer_of cont page m" if "touches page c"
  proof -
    have "unat page + 4096 \<le> unat (fm_end c)"
      using that clip_ok [OF assms(1) Some al(1,2)] al(3)
      by (intro aligned_gap) (simp_all add: mapping_ok_def touches_def word_less_nat_alt)
    then have "mapping_byte cont c x = mapping_byte cont m x" if "x \<in> set [unat page ..< unat page + 4096]" for x
      using that \<open>touches page c\<close> clip_byte [OF assms(1) Some] by (simp add: touches_def word_le_nat_alt)
    then show ?thesis by (simp add: layer_of_def n(7,8))
  qed
  then show ?thesis using t Some by (simp add: opt_list_def)
qed

lemma layers_unmap_one:
  assumes "mapping_ok m" and "aligned start" "aligned stop" "aligned page" and "start \<le> stop"
  shows "layers cont page (unmap_one start stop m) =
    (if start \<le> page \<and> page < stop then [] else layers cont page [m])"
proof -
  have al: "aligned (fm_start m)" "aligned (fm_end m)" using assms(1) by (simp_all add: mapping_ok_def)
  note c = layers_clip [OF assms(1) al(1) assms(2,4), of cont] layers_clip [OF assms(1) assms(3) al(2) assms(4), of cont]
  show ?thesis
    using assms(5) by (auto simp: unmap_one_def c outside_def touches_def)
qed

lemma layers_protect_one:
  assumes "mapping_ok m" and "aligned start" "aligned stop" "aligned page" and "start \<le> stop"
  shows "layers cont page (protect_one start stop new_perm m) =
    (if start \<le> page \<and> page < stop then map (\<lambda>(f, _, bs). (f, new_perm, bs)) (layers cont page [m])
     else layers cont page [m])"
proof -
  have al: "aligned (fm_start m)" "aligned (fm_end m)" using assms(1) by (simp_all add: mapping_ok_def)
  have perm: "layers cont page (opt_list (map_option (\<lambda>middle. middle\<lparr>fm_perm := new_perm\<rparr>) r)) =
      map (\<lambda>(f, _, bs). (f, new_perm, bs)) (layers cont page (opt_list r))" for r
    by (cases r) (auto simp: opt_list_def layer_of_def touches_def mapping_byte_def)
  note c = layers_clip [OF assms(1) al(1) assms(2,4), of cont] layers_clip [OF assms(1) assms(3) al(2) assms(4), of cont]
    layers_clip [OF assms(1-4), of cont]
  show ?thesis
    using assms(5) by (auto simp: protect_one_def c perm outside_def touches_def layer_of_def)
qed

section \<open>A page is its layers\<close>

definition paint :: "bytes \<Rightarrow> u8 option list \<Rightarrow> bytes" where
  "paint bs over = map2 (\<lambda>b w. case w of None \<Rightarrow> b | Some x \<Rightarrow> x) bs over"

definition painted :: "bytes \<Rightarrow> layer list \<Rightarrow> bytes" where
  "painted bs ls = foldl (\<lambda>bs l. paint bs (snd (snd l))) bs ls"

definition page_image :: "layer list \<Rightarrow> bytes \<times> u8" where
  "page_image ls = (painted (replicate 4096 (fst (hd ls))) ls, fst (snd (last ls)))"

lemma length_paint [simp]: "length (paint bs over) = min (length bs) (length over)"
  by (simp add: paint_def)

lemma mapping_byte_page:
  assumes "ds + len \<le> stop" and "P + 4096 \<le> stop" and "length bs = 4096" and "off + len \<le> length content \<or> len = 0"
    and z: "z = (if max (ds + len) P < P + 4096
        then put_at (max (ds + len) P - P) (replicate (P + 4096 - max (ds + len) P) 0) bs else bs)"
    and c: "c = (if max P ds < min (P + 4096) (ds + len)
        then put_at (max P ds - P) (take (min (P + 4096) (ds + len) - max P ds) (drop (off + (max P ds - ds)) content)) z else z)"
  shows "c = paint bs (map (\<lambda>a. if a < ds then None else if a < ds + len then Some (content ! (off + (a - ds))) else Some (0 :: u8))
      [P ..< P + 4096])"
proof (rule nth_equalityI)
  have lz: "length z = 4096" using assms(3) by (auto simp: z)
  have lpart: "length (take (min (P + 4096) (ds + len) - max P ds) (drop (off + (max P ds - ds)) content)) =
      min (P + 4096) (ds + len) - max P ds" if "max P ds < min (P + 4096) (ds + len)"
    using assms(4) that by auto
  then have lc: "length c = 4096" using lz by (auto simp: c)
  then show "length c = length (paint bs (map (\<lambda>a. if a < ds then None else if a < ds + len
      then Some (content ! (off + (a - ds))) else Some 0) [P ..< P + 4096]))"
    using assms(3) by simp
  fix i
  assume "i < length c"
  then have i: "i < 4096" by (simp add: lc)
  have zi: "z ! i = (if ds + len \<le> P + i then 0 else bs ! i)"
    using i assms(3) by (auto simp: z nth_put_at)
  have "c ! i = (if ds \<le> P + i \<and> P + i < ds + len then content ! (off + (P + i - ds)) else z ! i)"
  proof (cases "max P ds < min (P + 4096) (ds + len)")
    case True
    define lo n o2 part where "lo = max P ds - P" and "n = min (P + 4096) (ds + len) - max P ds"
      and "o2 = off + (max P ds - ds)" and "part = take n (drop o2 content)"
    have part: "length part = n" using lpart [OF True] by (simp only: part_def n_def o2_def)
    have fit: "lo + n \<le> 4096" using True by (auto simp: lo_def n_def)
    have "c = put_at lo part z" using True by (simp add: c lo_def n_def part_def o2_def)
    then have "c ! i = (if lo \<le> i \<and> i < lo + n then part ! (i - lo) else z ! i)"
      using nth_put_at [of lo part z i] part fit lz i by simp
    moreover have "lo \<le> i \<and> i < lo + n \<longleftrightarrow> ds \<le> P + i \<and> P + i < ds + len"
      using True i by (auto simp: lo_def n_def)
    moreover have "part ! (i - lo) = content ! (off + (P + i - ds))" if "lo \<le> i \<and> i < lo + n"
    proof -
      have "o2 \<le> length content" using assms(4) True by (auto simp: o2_def)
      then have "part ! (i - lo) = content ! (o2 + (i - lo))"
        using that unfolding part_def by (subst nth_take) auto
      moreover have "o2 + (i - lo) = off + (P + i - ds)" using that by (auto simp: lo_def o2_def)
      ultimately show ?thesis by simp
    qed
    ultimately show ?thesis by simp
  next
    case False
    then have "\<not> (ds \<le> P + i \<and> P + i < ds + len)" using i by auto
    moreover have "c = z" using False c by (simp only: if_False)
    ultimately show ?thesis by auto
  qed
  then show "c ! i = paint bs (map (\<lambda>a. if a < ds then None else if a < ds + len
      then Some (content ! (off + (a - ds))) else Some 0) [P ..< P + 4096]) ! i"
    using i assms(3) by (auto simp: paint_def zi)
qed

text \<open>The store holds nothing but the content of the mapped files.\<close>

definition backed :: "chunk_store \<Rightarrow> (chunked_file \<Rightarrow> bytes) \<Rightarrow> file_mapping \<Rightarrow> bool" where
  "backed st cont m \<longleftrightarrow> mapping_ok m \<and> carries st (fm_file m) (cont (fm_file m))"

lemma read_result_Ready: "read_result st f idx bs = Ready part \<Longrightarrow> part = bs"
  by (auto simp: read_result_def split: option.splits)

lemma touched_page:
  assumes "mapping_ok m" and "touches page m" and "aligned page"
  shows "unat page + 4096 \<le> unat (fm_end m)" and "unat (page + PAGE_SIZE) = unat page + 4096"
proof -
  show le: "unat page + 4096 \<le> unat (fm_end m)"
    using assms by (intro aligned_gap) (simp_all add: touches_def mapping_ok_def word_less_nat_alt)
  show "unat (page + PAGE_SIZE) = unat page + 4096"
    using le u64_lt [of "fm_end m"] by (subst unat_plus_exact) simp_all
qed

lemma zero_step:
  fixes page :: u64 and P :: nat defines "P \<equiv> unat page"
  assumes ok: "mapping_ok m" and t: "touches page m" "aligned page" and bs: "length bs = 4096"
    and de: "unat (fm_data_end m) = d"
  shows "(if max (fm_data_end m) page < min (fm_end m) (page + PAGE_SIZE)
      then fill_slice (max (fm_data_end m) page - page) (min (fm_end m) (page + PAGE_SIZE) - page)
        (replicate (unat (min (fm_end m) (page + PAGE_SIZE) - max (fm_data_end m) page)) 0) bs
      else Ret bs) =
    Ret (if max d P < P + 4096 then put_at (max d P - P) (replicate (P + 4096 - max d P) 0) bs else bs)"
proof -
  define zs ze where "zs = max (fm_data_end m) page" and "ze = min (fm_end m) (page + PAGE_SIZE)"
  note page = touched_page [OF ok t]
  have u: "unat zs = max d P" "unat ze = P + 4096"
    using page by (simp_all add: zs_def ze_def unat_max_word unat_min_word de P_def)
  have "unat (zs - page) = max d P - P"
    using unat_minus_exact [of page zs] u(1) by (simp add: zs_def P_def)
  moreover have "unat (ze - page) = 4096"
    using unat_minus_exact [of page ze] u(2) by (simp add: word_le_nat_alt P_def)
  moreover have "unat (ze - zs) = P + 4096 - max d P" if "zs < ze"
    unfolding u [symmetric] using that by (intro unat_minus_exact) simp
  moreover have "zs < ze \<longleftrightarrow> max d P < P + 4096" unfolding word_less_nat_alt u ..
  ultimately show ?thesis
    unfolding zs_def [symmetric] ze_def [symmetric] using bs by (auto simp: fill_slice_def)
qed

lemma copy_step:
  fixes page :: u64 and P :: nat defines "P \<equiv> unat page"
  assumes ok: "mapping_ok m" and t: "touches page m" "aligned page" and z: "length z = 4096"
    and de: "unat (fm_data_end m) = unat (fm_data_start m) + len" and ds: "unat (fm_data_start m) = ds"
    and lt: "\<not> min (page + PAGE_SIZE) (fm_data_end m) \<le> max page (fm_data_start m)"
    and len: "n = unat (min (page + PAGE_SIZE) (fm_data_end m) - max page (fm_data_start m))"
  shows "n = min (P + 4096) (ds + len) - max P ds" and "max P ds < min (P + 4096) (ds + len)"
    and "unat (max page (fm_data_start m) - fm_data_start m) = max P ds - ds"
    and "length part = n \<Longrightarrow> fill_slice (max page (fm_data_start m) - page) (max page (fm_data_start m) - page + of_nat n) part z =
      Ret (put_at (max P ds - P) part z)"
proof -
  define cs ce where "cs = max page (fm_data_start m)" and "ce = min (page + PAGE_SIZE) (fm_data_end m)"
  note page = touched_page [OF ok t]
  have u: "unat cs = max P ds" "unat ce = min (P + 4096) (ds + len)"
    using page by (simp_all add: cs_def ce_def unat_max_word unat_min_word de ds P_def)
  have less: "cs < ce" using lt unfolding cs_def ce_def by (simp only: not_le)
  then show lt': "max P ds < min (P + 4096) (ds + len)" by (simp add: word_less_nat_alt u)
  show n: "n = min (P + 4096) (ds + len) - max P ds"
    using unat_minus_exact [of cs ce] less len by (simp add: u cs_def [symmetric] ce_def [symmetric])
  show "unat (max page (fm_data_start m) - fm_data_start m) = max P ds - ds"
    using unat_minus_exact [of "fm_data_start m" cs] u(1) ds by (simp add: cs_def)
  have lo: "unat (cs - page) = max P ds - P"
    using unat_minus_exact [of page cs] u(1) by (simp add: cs_def P_def)
  have fit: "max P ds - P + n \<le> 4096" using n lt' by auto
  have "unat (of_nat n :: u64) = n" using fit by (simp add: unsigned_of_nat take_bit_nat_eq_self)
  then have "unat (cs - page + of_nat n) = max P ds - P + n"
    using fit lo by (subst unat_plus_exact) simp_all
  then show "fill_slice (max page (fm_data_start m) - page) (max page (fm_data_start m) - page + of_nat n) part z =
      Ret (put_at (max P ds - P) part z)" if "length part = n"
    unfolding cs_def [symmetric] using fit z lo by (simp add: fill_slice_def diff_le_mono)
qed

lemma mapped_read:
  assumes "cf_ok f" "cf_fits f" "carries st f content" "0 < n" "n < 2 ^ 64"
  shows "\<exists>r. cs_read_range st f off n = Ret r \<and>
    (\<forall>part. r = Ready part \<longrightarrow> length part = n \<longrightarrow> part = take n (drop (unat off) content))"
proof -
  have "part = take n (drop (unat off) content)" if "length part = n"
    "(if stop \<le> unat off then Ready [] else read_result st f idx (take n (drop (unat off) content))) = Ready part"
    for stop idx part
    using that assms(4) by (cases "stop \<le> unat off") (auto dest: read_result_Ready)
  then show ?thesis
    unfolding read_range_nat [OF assms(1,2,3,5)] Let_def by blast
qed

declare fill_page.simps(2) [simp del]

lemma fill_page_step:
  assumes b: "backed st cont m" and t: "touches page m" and al: "aligned page" and bs: "length bs = 4096"
  shows "(\<exists>r. fill_page st page (m # ms) bs perm = Ret r \<and> (\<forall>out p. r \<noteq> Filled out p)) \<or>
    fill_page st page (m # ms) bs perm = fill_page st page ms (paint bs (snd (snd (layer_of cont page m)))) (fm_perm m)"
proof -
  define P ds len off where "P = unat page" and "ds = unat (fm_data_start m)" and "len = unat (fm_file_len m)"
    and "off = unat (fm_file_offset m)"
  let ?content = "cont (fm_file m)" and ?cs = "max page (fm_data_start m)" and ?ce = "min (page + PAGE_SIZE) (fm_data_end m)"
  have ok: "mapping_ok m" and carry: "carries st (fm_file m) ?content" using b by (simp_all add: backed_def)
  have de: "unat (fm_data_end m) = ds + len" using data_end_nat [OF ok] by (simp add: ds_def len_def)
  have le: "ds + len \<le> unat (fm_end m)" "0 < len \<Longrightarrow> off + len \<le> length ?content"
    using ok carry by (simp_all add: mapping_ok_def ds_def len_def off_def carries_def)
  define z where "z = (if max (ds + len) P < P + 4096
      then put_at (max (ds + len) P - P) (replicate (P + 4096 - max (ds + len) P) 0) bs else bs)"
  have lz: "length z = 4096" using bs by (auto simp: z_def)
  have layer: "snd (snd (layer_of cont page m)) = map (\<lambda>a. if a < ds then None else if a < ds + len
      then Some (?content ! (off + (a - ds))) else Some 0) [P ..< P + 4096]"
    by (simp add: layer_of_def mapping_byte_def [abs_def] P_def ds_def len_def off_def)
  have le2: "off + len \<le> length ?content \<or> len = 0" using le(2) by auto
  note painted = mapping_byte_page [OF le(1) touched_page(1) [OF ok t al, folded P_def] bs le2 z_def, folded layer]
  have run: "fill_page st page (m # ms) bs perm =
      (if ?ce \<le> ?cs then fill_page st page ms z (fm_perm m)
       else case cs_read_range st (fm_file m) (fm_file_offset m + (?cs - fm_data_start m)) (unat (?ce - ?cs)) of
           Panic \<Rightarrow> Panic
         | Ret (Ready part) \<Rightarrow>
             if length part = unat (?ce - ?cs)
             then (case fill_slice (?cs - page) (?cs - page + of_nat (unat (?ce - ?cs))) part z of
                     Panic \<Rightarrow> Panic | Ret bs \<Rightarrow> fill_page st page ms bs (fm_perm m))
             else Ret (FillInvalid ShortRange)
         | Ret (Missing h) \<Rightarrow> Ret (FillMissing h)
         | Ret (Invalid i got want) \<Rightarrow> Ret (FillInvalid (BadChunk i got want)))"
    using zero_step [OF ok t al bs de] unfolding fill_page.simps Let_def
    by (simp only: run.case z_def [symmetric] P_def [symmetric])
  show ?thesis
  proof (cases "?ce \<le> ?cs")
    case True
    have "unat ?cs = max P ds" "unat ?ce = min (P + 4096) (ds + len)"
      using touched_page [OF ok t al] by (simp_all add: unat_max_word unat_min_word de P_def ds_def)
    then have "\<not> max P ds < min (P + 4096) (ds + len)" using True by (simp only: word_le_nat_alt not_less)
    then have "z = paint bs (snd (snd (layer_of cont page m)))" by (intro painted) (simp only: if_False)
    moreover have "fill_page st page (m # ms) bs perm = fill_page st page ms z (fm_perm m)"
      using run True by (simp only: if_True)
    ultimately show ?thesis by simp
  next
    case False
    define n where "n = unat (?ce - ?cs)"
    note c = copy_step [OF ok t al lz de [unfolded ds_def] ds_def [symmetric] False n_def, folded P_def]
    have o: "unat (fm_file_offset m + (?cs - fm_data_start m)) = off + (max P ds - ds)"
    proof -
      have "off + (max P ds - ds) < 2 ^ 64"
        using le(2) c(2) carry u64_lt [of "cf_size (fm_file m)"] by (auto simp: carries_def)
      then show ?thesis using c(3) by (simp add: unat_plus_exact off_def)
    qed
    have n: "0 < n" "n < 2 ^ 64" using c(1,2) u64_lt [of "?ce - ?cs"] by (simp_all only: n_def) simp
    have "cf_ok (fm_file m)" "cf_fits (fm_file m)" using ok by (simp_all add: mapping_ok_def)
    from mapped_read [OF this carry n, of "fm_file_offset m + (?cs - fm_data_start m)", unfolded o]
    obtain r where r: "cs_read_range st (fm_file m) (fm_file_offset m + (?cs - fm_data_start m)) n = Ret r"
        "\<And>part. r = Ready part \<Longrightarrow> length part = n \<Longrightarrow> part = take n (drop (off + (max P ds - ds)) ?content)"
      by blast
    have run': "fill_page st page (m # ms) bs perm =
        (case r of Ready part \<Rightarrow>
             if length part = n
             then (case fill_slice (?cs - page) (?cs - page + of_nat n) part z of
                     Panic \<Rightarrow> Panic | Ret bs \<Rightarrow> fill_page st page ms bs (fm_perm m))
             else Ret (FillInvalid ShortRange)
         | Missing h \<Rightarrow> Ret (FillMissing h)
         | Invalid i got want \<Rightarrow> Ret (FillInvalid (BadChunk i got want)))"
      using run False r(1) by (simp only: if_False n_def [symmetric] run.case)
    have part: "put_at (max P ds - P) part z = paint bs (snd (snd (layer_of cont page m)))"
      if "r = Ready part" "length part = n" for part
      using r(2) [OF that] c(1,2) by (intro painted) (simp only: if_True)
    show ?thesis
      using run' part c(4) by (cases r) auto
  qed
qed

lemma fill_page_exact:
  "\<forall>m \<in> set ms. backed st cont m \<and> touches page m \<Longrightarrow> aligned page \<Longrightarrow> length bs = 4096 \<Longrightarrow>
     (\<exists>r. fill_page st page ms bs perm = Ret r) \<and>
     (\<forall>out p. fill_page st page ms bs perm = Ret (Filled out p) \<longrightarrow>
        out = painted bs (map (layer_of cont page) ms) \<and> p = last (perm # map fm_perm ms))"
proof (induction ms arbitrary: bs perm)
  case (Cons m ms)
  let ?bs = "paint bs (snd (snd (layer_of cont page m)))"
  have "length ?bs = 4096" using Cons.prems by (simp add: layer_of_def)
  then have IH: "(\<exists>r. fill_page st page ms ?bs (fm_perm m) = Ret r) \<and>
     (\<forall>out p. fill_page st page ms ?bs (fm_perm m) = Ret (Filled out p) \<longrightarrow>
        out = painted ?bs (map (layer_of cont page) ms) \<and> p = last (fm_perm m # map fm_perm ms))"
    using Cons.IH [of ?bs "fm_perm m"] Cons.prems by simp
  consider (stop) r where "fill_page st page (m # ms) bs perm = Ret r" "\<forall>out p. r \<noteq> Filled out p"
    | (go) "fill_page st page (m # ms) bs perm = fill_page st page ms ?bs (fm_perm m)"
    using fill_page_step [of st cont m page bs ms perm] Cons.prems by auto
  then show ?case
  proof cases
    case stop
    then show ?thesis by auto
  next
    case go
    then show ?thesis using IH by (simp add: painted_def)
  qed
qed (simp add: painted_def)

lemma page_of_aligned: "aligned (page_of a)"
proof -
  have "PAGE_SIZE - 1 = mask 12" by (simp add: PAGE_SIZE_def mask_eq_exp_minus_1)
  then have "take_bit 12 (page_of a) = 0"
    by (simp add: page_of_def take_bit_eq_mask and.assoc)
  then have "unat (take_bit 12 (page_of a)) = 0" by simp
  then show ?thesis by (simp add: take_bit_eq_mod unat_mod)
qed

lemma fault_page_Some:
  assumes "fault_page p asid sp address access = Some (page, ms)" and "\<forall>m \<in> set (sp_mappings sp). mapping_ok m"
  shows "ms = filter (touches page) (sp_mappings sp) \<and> ms \<noteq> [] \<and> aligned page \<and> (asid, page) \<notin> pg_resident p \<and>
    (page = page_of address \<or> page = page_of address + PAGE_SIZE)"
proof -
  let ?here = "page_of address" and ?next = "saturating_add (page_of address) PAGE_SIZE"
  consider (here) "page = ?here" "ms = filter (touches ?here) (sp_mappings sp)" "ms \<noteq> []" "(asid, ?here) \<notin> pg_resident p"
    | (adjacent) "page = ?next" "ms = filter (touches ?next) (sp_mappings sp)" "ms \<noteq> []" "(asid, ?next) \<notin> pg_resident p"
    using assms(1) by (auto simp: fault_page_def Let_def last_grants_def split: if_splits)
  then show ?thesis
  proof cases
    case here
    then show ?thesis using page_of_aligned by simp
  next
    case adjacent
    then obtain m where "m \<in> set (sp_mappings sp)" "touches ?next m" by (auto simp: filter_empty_conv)
    then have "?next \<noteq> -1" by (auto simp: touches_def)
    then have "?next = ?here + PAGE_SIZE" "unat ?here + 4096 < 2 ^ 64"
      by (auto simp: saturating_add_def split: if_splits)
    moreover from this have "aligned (?here + PAGE_SIZE)"
      using page_of_aligned [of address] unat_plus_exact [of ?here PAGE_SIZE] by simp
    ultimately show ?thesis using adjacent by simp
  qed
qed

text \<open>C20: a page handed to the guest is exactly what its mappings say. Whenever the store holds
  nothing but authentic content, a fault is answered without a panic, and a page that is answered
  is the composition, in order, of the mappings that touch it, with the permission of the last.\<close>

theorem resolved_page_is_exact:
  assumes "map_of (pg_spaces p) asid = Some sp" and "\<forall>m \<in> set (sp_mappings sp). backed st cont m"
  shows "\<exists>r q. pg_resolve st asid address access p = Ret (r, q) \<and>
    (\<forall>page bs perm. r = PgReady page bs perm \<longrightarrow>
       q = p \<and> (asid, page) \<notin> pg_resident p \<and> (page = page_of address \<or> page = page_of address + PAGE_SIZE) \<and>
       (bs, perm) = page_image (layers cont page (sp_mappings sp)))"
proof (cases "fault_page p asid sp address access")
  case None
  then show ?thesis using assms(1) by (simp add: pg_resolve_def)
next
  case (Some pm)
  obtain page ms where pm: "pm = (page, ms)" by (cases pm)
  have fp: "ms = filter (touches page) (sp_mappings sp)" "ms \<noteq> []" "aligned page" "(asid, page) \<notin> pg_resident p"
      "page = page_of address \<or> page = page_of address + PAGE_SIZE"
    using fault_page_Some [of p asid sp address access page ms] Some pm assms(2) by (auto simp: backed_def)
  let ?fill = "fill_page st page ms (replicate 4096 (fm_fill (hd ms))) PERM_INIT"
  have exact: "(\<exists>r. ?fill = Ret r) \<and> (\<forall>out q. ?fill = Ret (Filled out q) \<longrightarrow>
      out = painted (replicate 4096 (fm_fill (hd ms))) (map (layer_of cont page) ms) \<and> q = last (PERM_INIT # map fm_perm ms))"
    using fp assms(2) by (intro fill_page_exact) auto
  moreover have "page_image (layers cont page (sp_mappings sp)) =
      (painted (replicate 4096 (fm_fill (hd ms))) (map (layer_of cont page) ms), last (PERM_INIT # map fm_perm ms))"
    using fp(1,2) by (simp add: page_image_def layers_def hd_map last_map layer_of_def)
  ultimately show ?thesis
    using assms(1) Some fp(4,5) by (auto simp: pg_resolve_def pm pg_request_def Let_def split: fill_out.splits option.splits)
qed

definition demo_file :: chunked_file where
  "demo_file = \<lparr>cf_size = 5000, cf_chunk_size = 4096, cf_chunks = [[1], [2]]\<rparr>"

definition demo_mapping :: file_mapping where
  "demo_mapping = \<lparr>fm_start = 0x4000, fm_end = 0x6000, fm_data_start = 0x4000, fm_file_offset = 0, fm_file_len = 5000,
     fm_perm = 3, fm_fill = 0, fm_file = demo_file\<rparr>"

definition demo_pager :: pager where
  "demo_pager = pg_map 7 demo_mapping pager_new"

lemma demo_file_ok: "cf_ok demo_file" "cf_fits demo_file"
  by (simp_all add: cf_ok_def cf_fits_def demo_file_def)

lemma demo_mapping_ok: "mapping_ok demo_mapping"
  using demo_file_ok by (simp add: mapping_ok_def demo_mapping_def demo_file_def)

theorem resolved_page_is_exact_witness:
  "let cont = (\<lambda>_. replicate 5000 9) in
   \<exists>sp r q. map_of (pg_spaces demo_pager) 7 = Some sp \<and> (\<forall>m \<in> set (sp_mappings sp). backed [] cont m) \<and>
     pg_resolve [] 7 0x4010 AccRead demo_pager = Ret (r, q)"
proof -
  let ?cont = "\<lambda>_ :: chunked_file. replicate 5000 (9 :: u8)" and ?sp = "\<lparr>sp_generation = 1, sp_mappings = [demo_mapping]\<rparr>"
  have "map_of (pg_spaces demo_pager) 7 = Some ?sp"
    by (simp add: demo_pager_def pg_map_def pager_new_def bump_def)
  moreover have "\<forall>m \<in> set (sp_mappings ?sp). backed [] ?cont m"
    using demo_mapping_ok by (simp add: backed_def carries_def resident_def cs_get_def)
      (simp add: demo_mapping_def demo_file_def)
  ultimately show ?thesis
    using resolved_page_is_exact [where p = demo_pager and asid = 7 and sp = ?sp and st = "[]" and cont = ?cont
        and address = "0x4010" and access = AccRead] unfolding Let_def by blast
qed

section \<open>Refinement of the table\<close>

text \<open>The table as the rest of the system sees it: for every address space and page, the layers
  that make the page. Unmapping and protecting are the two obvious operations on it.\<close>

definition mappings_of :: "pager \<Rightarrow> u64 \<Rightarrow> file_mapping list" where
  "mappings_of p asid = (case map_of (pg_spaces p) asid of None \<Rightarrow> [] | Some sp \<Rightarrow> sp_mappings sp)"

definition table_of :: "(chunked_file \<Rightarrow> bytes) \<Rightarrow> pager \<Rightarrow> u64 \<Rightarrow> u64 \<Rightarrow> layer list" where
  "table_of cont p asid page = (if aligned page then layers cont page (mappings_of p asid) else [])"

definition spec_unmap :: "u64 \<Rightarrow> nat \<Rightarrow> nat \<Rightarrow> (u64 \<Rightarrow> u64 \<Rightarrow> layer list) \<Rightarrow> u64 \<Rightarrow> u64 \<Rightarrow> layer list" where
  "spec_unmap asid lo hi T a page = (if a = asid \<and> lo \<le> unat page \<and> unat page < hi then [] else T a page)"

definition spec_protect :: "u64 \<Rightarrow> nat \<Rightarrow> nat \<Rightarrow> u8 \<Rightarrow> (u64 \<Rightarrow> u64 \<Rightarrow> layer list) \<Rightarrow> u64 \<Rightarrow> u64 \<Rightarrow> layer list" where
  "spec_protect asid lo hi perm T a page =
     (if a = asid \<and> lo \<le> unat page \<and> unat page < hi then map (\<lambda>(f, _, bs). (f, perm, bs)) (T a page) else T a page)"

definition pager_ok :: "pager \<Rightarrow> bool" where
  "pager_ok p \<longleftrightarrow> bt_ok (pg_spaces p) \<and> (\<forall>e \<in> set (pg_spaces p). \<forall>m \<in> set (sp_mappings (snd e)). mapping_ok m)"

lemma pager_ok_mapping: "pager_ok p \<Longrightarrow> m \<in> set (mappings_of p asid) \<Longrightarrow> mapping_ok m"
  by (cases "map_of (pg_spaces p) asid") (fastforce simp: pager_ok_def mappings_of_def dest: map_of_SomeD)+

lemma mappings_of_insert:
  "bt_ok (pg_spaces p) \<Longrightarrow> pg_spaces q = bt_insert asid sp (pg_spaces p) \<Longrightarrow>
     mappings_of q a = (if a = asid then sp_mappings sp else mappings_of p a)"
  by (simp add: mappings_of_def map_of_bt_insert)

lemma layers_map_concat:
  "(\<And>m. m \<in> set ms \<Longrightarrow> layers cont page (f m) = (if c then g (layers cont page [m]) else layers cont page [m])) \<Longrightarrow>
     (\<And>xs ys. g (xs @ ys) = g xs @ g ys) \<Longrightarrow> g [] = [] \<Longrightarrow>
     layers cont page (concat (map f ms)) = (if c then g (layers cont page ms) else layers cont page ms)"
proof (induction ms)
  case (Cons m ms)
  have "layers cont page (m # ms) = layers cont page [m] @ layers cont page ms" by simp
  then show ?case using Cons by (simp only: list.map concat.simps layers_simps(3) list.set_intros) (auto simp: Cons)
qed (simp_all add: layers_concat)

lemma unmapped_layers:
  assumes ok: "pager_ok p" and al: "aligned start" "aligned stop" "aligned page" and "start \<le> stop"
  shows "layers cont page (concat (map (unmap_one start stop) (mappings_of p asid))) =
      (if start \<le> page \<and> page < stop then [] else layers cont page (mappings_of p asid))"
    and "layers cont page (concat (map (protect_one start stop perm) (mappings_of p asid))) =
      (if start \<le> page \<and> page < stop then map (\<lambda>(f, _, bs). (f, perm, bs)) (layers cont page (mappings_of p asid))
       else layers cont page (mappings_of p asid))"
proof -
  have m: "mapping_ok m" if "m \<in> set (mappings_of p asid)" for m using that pager_ok_mapping [OF ok] by blast
  show "layers cont page (concat (map (unmap_one start stop) (mappings_of p asid))) =
      (if start \<le> page \<and> page < stop then [] else layers cont page (mappings_of p asid))"
    by (rule layers_map_concat) (use layers_unmap_one [OF m al assms(5)] in simp_all)
  show "layers cont page (concat (map (protect_one start stop perm) (mappings_of p asid))) =
      (if start \<le> page \<and> page < stop then map (\<lambda>(f, _, bs). (f, perm, bs)) (layers cont page (mappings_of p asid))
       else layers cont page (mappings_of p asid))"
    by (rule layers_map_concat) (use layers_protect_one [OF m al assms(5)] in simp_all)
qed

lemma unmapped_mappings:
  assumes "bt_ok (pg_spaces p)" and "checked_add start len = Some stop"
  shows "mappings_of (pg_unmap asid start len p) a =
      (if a = asid then concat (map (unmap_one start stop) (mappings_of p asid)) else mappings_of p a)"
    and "mappings_of (pg_protect asid start len perm p) a =
      (if a = asid then concat (map (protect_one start stop perm) (mappings_of p asid)) else mappings_of p a)"
  using assms by (auto simp: pg_unmap_def pg_protect_def mappings_of_def map_of_bt_insert split: option.splits)

text \<open>C21: unmapping and protecting an aligned range refine the obvious operations on the table of
  pages: inside the range the layers are gone, or keep their content and take the new permission,
  and every other page of every address space is what it was.\<close>

theorem unmap_protect_refine:
  assumes ok: "pager_ok p" and al: "aligned start" "aligned len" and fit: "unat start + unat len < 2 ^ 64"
  shows "table_of cont (pg_unmap asid start len p) =
      spec_unmap asid (unat start) (unat start + unat len) (table_of cont p) \<and>
    table_of cont (pg_protect asid start len perm p) =
      spec_protect asid (unat start) (unat start + unat len) perm (table_of cont p)"
proof -
  define stop where "stop = start + len"
  have stop: "unat stop = unat start + unat len" using fit by (simp add: stop_def unat_plus_exact)
  then have c: "checked_add start len = Some stop" by (simp add: checked_add_Some)
  have al': "aligned stop" "start \<le> stop" using al stop by (simp_all add: mod_add_eq [symmetric] word_le_nat_alt)
  have bt: "bt_ok (pg_spaces p)" using ok by (simp add: pager_ok_def)
  note m = unmapped_mappings [OF bt c] unmapped_layers [OF ok al(1) al'(1) _ al'(2)]
  have "table_of cont (pg_unmap asid start len p) a page =
      spec_unmap asid (unat start) (unat start + unat len) (table_of cont p) a page" for a page
    by (simp add: table_of_def spec_unmap_def m word_le_nat_alt word_less_nat_alt stop)
  moreover have "table_of cont (pg_protect asid start len perm p) a page =
      spec_protect asid (unat start) (unat start + unat len) perm (table_of cont p) a page" for a page
    by (simp add: table_of_def spec_protect_def m word_le_nat_alt word_less_nat_alt stop)
  ultimately show ?thesis by blast
qed

lemma demo_pager_ok: "pager_ok demo_pager"
  using demo_mapping_ok by (simp add: pager_ok_def demo_pager_def pg_map_def pager_new_def bt_ok_def)

theorem unmap_protect_refine_witness:
  "pager_ok demo_pager \<and>
   table_of (\<lambda>_. replicate 5000 9) (pg_unmap 7 0x4000 0x1000 demo_pager) =
     spec_unmap 7 0x4000 0x5000 (table_of (\<lambda>_. replicate 5000 9) demo_pager)"
  using unmap_protect_refine [OF demo_pager_ok, of "0x4000" "0x1000"] demo_pager_ok by simp

section \<open>The invariant\<close>

lemma clipped_all_ok:
  assumes "mapping_ok m" and "aligned a" "aligned b"
  shows "\<forall>c \<in> set (unmap_one a b m). mapping_ok c" and "\<forall>c \<in> set (protect_one a b perm m). mapping_ok c"
proof -
  have al: "aligned (fm_start m)" "aligned (fm_end m)" using assms(1) by (simp_all add: mapping_ok_def)
  note ok = clip_ok [OF assms(1) _ al(1) assms(2)] clip_ok [OF assms(1) _ assms(3) al(2)] clip_ok [OF assms(1) _ assms(2,3)]
  have perm: "mapping_ok c \<Longrightarrow> mapping_ok (c\<lparr>fm_perm := perm\<rparr>)" for c by (simp add: mapping_ok_def)
  show "\<forall>c \<in> set (unmap_one a b m). mapping_ok c"
    using assms(1) ok by (auto simp: unmap_one_def opt_list_def split: option.splits)
  show "\<forall>c \<in> set (protect_one a b perm m). mapping_ok c"
    using assms(1) ok perm by (auto simp: protect_one_def opt_list_def split: option.splits)
qed

lemma moved_ok:
  assumes ok: "mapping_ok m" and c: "c \<in> set (remap_moved os oe ce ns m)"
    and al: "aligned os" "aligned ce" "aligned ns" and fit: "unat ns + (unat ce - unat os) < 2 ^ 64"
  shows "mapping_ok c"
proof -
  define delta where "delta = ns - os"
  obtain part where part: "fm_clipped m os ce = Some part"
    and c': "c = part\<lparr>fm_start := fm_start part + delta, fm_end := fm_end part + delta, fm_data_start := fm_data_start part + delta\<rparr>"
    using c by (cases "fm_clipped m os ce") (auto simp: remap_moved_def opt_list_def delta_def Let_def split: if_splits)
  note n = clip_nat [OF ok part] and pok = clip_ok [OF ok part al(1,2)]
  have move: "unat (x + delta) = unat ns + (unat x - unat os)" if "unat os \<le> unat x" "unat x \<le> unat ce" for x
  proof -
    have e: "x + delta = ns + (x - os)" by (simp add: delta_def)
    have m: "unat (x - os) = unat x - unat os" using that by (simp add: unat_minus_exact word_le_nat_alt)
    have "unat ns + (unat x - unat os) < 2 ^ 64" using that fit by linarith
    then show ?thesis unfolding e by (subst unat_plus_exact) (simp_all add: m)
  qed
  have le: "unat os \<le> unat (fm_start part)" "unat (fm_start part) \<le> unat (fm_data_start part)"
      "unat (fm_data_start part) + unat (fm_file_len part) \<le> unat (fm_end part)" "unat (fm_end part) \<le> unat ce"
      "unat (fm_start part) < unat (fm_end part)"
    using n(1,2) pok by (simp_all add: mapping_ok_def)
  have mod: "(unat ns + (unat x - unat os)) mod 4096 = 0" if "aligned x" for x
    using that al by (simp add: mod_eq_0_iff_dvd)
  have pal: "aligned (fm_start part)" "aligned (fm_end part)" using pok by (simp_all add: mapping_ok_def)
  have nats: "unat (fm_start c) = unat ns + (unat (fm_start part) - unat os)"
      "unat (fm_end c) = unat ns + (unat (fm_end part) - unat os)"
      "unat (fm_data_start c) = unat ns + (unat (fm_data_start part) - unat os)"
    using le by (simp_all add: c' move)
  have "aligned (fm_start c)" "aligned (fm_end c)" unfolding nats by (simp_all only: mod pal)
  moreover have "unat (fm_start c) < unat (fm_end c)" "unat (fm_start c) \<le> unat (fm_data_start c)"
      "unat (fm_data_start c) + unat (fm_file_len part) \<le> unat (fm_end c)"
    unfolding nats using le by linarith+
  moreover have "fm_file_len c = fm_file_len part" "fm_file_offset c = fm_file_offset part" "fm_file c = fm_file part"
    by (simp_all add: c')
  ultimately show ?thesis
    using pok by (simp add: mapping_ok_def)
qed

lemma tail_ok:
  assumes "mapping_ok m" and "t \<in> set (remap_tail oe ol ns nl m)"
  shows "mapping_ok t"
  using assms(2) fm_new_ok assms(1)
  by (auto simp: remap_tail_def Let_def mapping_ok_def [of m] split: if_splits sum.splits)

text \<open>The operations on the table, and what their callers guarantee: ranges are page aligned and
  lie below the top of the address space, and a mapping is built by \<^verbatim>\<open>FileMapping::new\<close> on a
  consistent layout.\<close>

datatype pager_op =
    OpMap u64 file_mapping
  | OpUnmap u64 u64 u64
  | OpProtect u64 u64 u64 u8
  | OpRemap u64 u64 u64 u64 u64
  | OpFork u64 u64
  | OpDrop u64
  | OpMark u64 u64 access_kind

fun pager_exec :: "pager_op \<Rightarrow> pager \<Rightarrow> pager" where
  "pager_exec (OpMap asid m) p = pg_map asid m p"
| "pager_exec (OpUnmap asid start len) p = pg_unmap asid start len p"
| "pager_exec (OpProtect asid start len perm) p = pg_protect asid start len perm p"
| "pager_exec (OpRemap asid os ol ns nl) p = pg_remap asid os ol ns nl p"
| "pager_exec (OpFork parent child) p = fork_space parent child p"
| "pager_exec (OpDrop asid) p = drop_space asid p"
| "pager_exec (OpMark asid address access) p = mark_resident asid address access p"

fun pager_pre :: "pager_op \<Rightarrow> bool" where
  "pager_pre (OpMap asid m) \<longleftrightarrow> mapping_ok m"
| "pager_pre (OpUnmap asid start len) \<longleftrightarrow> aligned start \<and> aligned len"
| "pager_pre (OpProtect asid start len perm) \<longleftrightarrow> aligned start \<and> aligned len"
| "pager_pre (OpRemap asid os ol ns nl) \<longleftrightarrow> aligned os \<and> aligned ol \<and> aligned ns \<and> aligned nl \<and>
     unat os + unat ol < 2 ^ 64 \<and> unat ns + unat nl < 2 ^ 64"
| "pager_pre _ \<longleftrightarrow> True"

inductive pager_reach :: "pager \<Rightarrow> bool" where
  start: "pager_reach pager_new"
| op: "pager_reach p \<Longrightarrow> pager_pre op \<Longrightarrow> pager_reach (pager_exec op p)"
| fault: "pager_reach p \<Longrightarrow> pg_resolve st asid address access p = Ret (r, q) \<Longrightarrow> pager_reach q"
| complete: "pager_reach p \<Longrightarrow> pg_complete ticket bs p v = (r, q, w) \<Longrightarrow> pager_reach q"

lemma pager_ok_insert:
  assumes "pager_ok p" and "pg_spaces q = bt_insert asid sp (pg_spaces p)" and "\<forall>m \<in> set (sp_mappings sp). mapping_ok m"
  shows "pager_ok q"
  using assms set_bt_insert [of asid sp "pg_spaces p"] by (fastforce simp: pager_ok_def bt_ok_insert)

lemma pager_ok_same: "pager_ok p \<Longrightarrow> pg_spaces q = pg_spaces p \<Longrightarrow> pager_ok q"
  by (simp add: pager_ok_def)

lemma pager_ok_space: "pager_ok p \<Longrightarrow> map_of (pg_spaces p) asid = Some sp \<Longrightarrow> m \<in> set (sp_mappings sp) \<Longrightarrow> mapping_ok m"
  using pager_ok_mapping [of p m asid] by (simp add: mappings_of_def)

lemma drop_space_ok: "pager_ok p \<Longrightarrow> pager_ok (drop_space asid p)"
proof -
  assume ok: "pager_ok p"
  have "set (bt_remove asid (pg_spaces p)) \<subseteq> set (pg_spaces p)"
    by (auto simp: bt_remove_def)
  then show ?thesis using ok by (auto simp: pager_ok_def drop_space_def bt_ok_remove)
qed

lemma map_ok: "pager_ok p \<Longrightarrow> mapping_ok m \<Longrightarrow> pager_ok (pg_map asid m p)"
  using pager_ok_space [of p asid]
  by (cases "map_of (pg_spaces p) asid") (auto simp: pg_map_def Let_def intro!: pager_ok_insert [of p])

lemma stop_aligned: "aligned start \<Longrightarrow> aligned len \<Longrightarrow> checked_add start len = Some stop \<Longrightarrow> aligned stop"
  by (simp add: checked_add_Some mod_eq_0_iff_dvd)

lemma unmap_ok:
  assumes ok: "pager_ok p" and al: "aligned start" "aligned len"
  shows "pager_ok (pg_unmap asid start len p)" and "pager_ok (pg_protect asid start len perm p)"
proof -
  have one: "\<forall>c \<in> set (concat (map (unmap_one start stop) (sp_mappings sp))). mapping_ok c"
      "\<forall>c \<in> set (concat (map (protect_one start stop perm) (sp_mappings sp))). mapping_ok c"
    if "map_of (pg_spaces p) asid = Some sp" "checked_add start len = Some stop" for sp stop
    using clipped_all_ok [OF pager_ok_space [OF ok that(1)] al(1) stop_aligned [OF al that(2)]] by auto
  show "pager_ok (pg_unmap asid start len p)"
  proof (cases "checked_add start len")
    case None
    then show ?thesis using drop_space_ok [OF ok] by (simp add: pg_unmap_def)
  next
    case (Some stop)
    show ?thesis
    proof (cases "map_of (pg_spaces p) asid")
      case (Some sp)
      show ?thesis
        using one(1) [OF Some \<open>checked_add start len = Some stop\<close>] Some \<open>checked_add start len = Some stop\<close>
        by (intro pager_ok_insert [OF ok]) (auto simp: pg_unmap_def)
    qed (use Some ok in \<open>simp add: pg_unmap_def\<close>)
  qed
  show "pager_ok (pg_protect asid start len perm p)"
  proof (cases "checked_add start len")
    case (Some stop)
    show ?thesis
    proof (cases "map_of (pg_spaces p) asid")
      case (Some sp)
      show ?thesis
        using one(2) [OF Some \<open>checked_add start len = Some stop\<close>] Some \<open>checked_add start len = Some stop\<close>
        by (intro pager_ok_insert [OF ok]) (auto simp: pg_protect_def)
    qed (use Some ok in \<open>simp add: pg_protect_def\<close>)
  qed (use ok in \<open>simp add: pg_protect_def\<close>)
qed

lemma remap_ok:
  assumes ok: "pager_ok p" and pre: "aligned os" "aligned ol" "aligned ns" "aligned nl"
    "unat os + unat ol < 2 ^ 64" "unat ns + unat nl < 2 ^ 64"
  shows "pager_ok (pg_remap asid os ol ns nl p)"
proof (cases "map_of (pg_spaces p) asid")
  case None
  then show ?thesis using ok by (simp add: pg_remap_def)
next
  case (Some sp)
  define oe ce where "oe = saturating_add os ol" and "ce = saturating_add os (min ol nl)"
  define source where "source = (if nl > ol
      then find (\<lambda>m. fm_start m < oe \<and> oe \<le> fm_end m) (rev (sp_mappings sp)) else None)"
  have u: "unat oe = unat os + unat ol" "unat ce = unat os + min (unat ol) (unat nl)"
    using pre by (auto simp: oe_def ce_def unat_saturating_add unat_min_word)
  have al: "aligned oe" "aligned ce" using pre by (simp_all add: u mod_eq_0_iff_dvd min_def)
  have fit: "unat ns + (unat ce - unat os) < 2 ^ 64" using pre by (simp add: u min_def)
  have m: "mapping_ok m" if "m \<in> set (sp_mappings sp)" for m using pager_ok_space [OF ok Some that] .
  have kept: "mapping_ok c" if "c \<in> set (concat (map (remap_kept os oe) (sp_mappings sp)))" for c
    using that m clipped_all_ok(1) [OF _ pre(1) al(1)] by (auto simp: remap_kept_def)
  have moved: "mapping_ok c" if "c \<in> set (concat (map (remap_moved os oe ce ns) (sp_mappings sp)))" for c
    using that m moved_ok [OF _ _ pre(1) al(2) pre(3) fit] by auto
  have "mapping_ok x" if "source = Some x" for x
    using that m by (auto simp: source_def find_Some_iff nth_mem rev_nth split: if_splits)
  then have tail: "mapping_ok c" if "c \<in> set (case source of None \<Rightarrow> [] | Some m \<Rightarrow> remap_tail oe ol ns nl m)" for c
    using that tail_ok by (cases source) auto
  have spaces: "pg_spaces (pg_remap asid os ol ns nl p) = bt_insert asid
      \<lparr>sp_generation = bump (sp_generation sp), sp_mappings = concat (map (remap_kept os oe) (sp_mappings sp)) @
         concat (map (remap_moved os oe ce ns) (sp_mappings sp)) @
         (case source of None \<Rightarrow> [] | Some m \<Rightarrow> remap_tail oe ol ns nl m)\<rparr> (pg_spaces p)"
    unfolding oe_def ce_def source_def using Some by (simp add: pg_remap_def Let_def)
  show ?thesis
    by (rule pager_ok_insert [OF ok spaces]) (use kept moved tail in auto)
qed

lemma fork_ok: "pager_ok p \<Longrightarrow> pager_ok (fork_space parent child p)"
  using pager_ok_space [of p parent]
  by (cases "map_of (pg_spaces p) parent") (auto simp: fork_space_def intro!: pager_ok_insert [of p])

lemma resolve_spaces: "pg_resolve st asid address access p = Ret (r, q) \<Longrightarrow> pg_spaces q = pg_spaces p"
  by (auto simp: pg_resolve_def pg_request_def Let_def split: option.splits run.splits fill_out.splits if_splits)

lemma complete_spaces: "pg_complete ticket bs p v = (r, q, w) \<Longrightarrow> pg_spaces q = pg_spaces p"
  by (auto simp: pg_complete_def split: option.splits sum.splits if_splits)



section \<open>Completions\<close>

lemma put_chunk_hash: "put_chunk h bs v = Inr w \<Longrightarrow> sha256 (vdata bs) = h"
  by (auto simp: put_chunk_def cs_insert_def split: if_splits sum.splits)

text \<open>C25: a delivery enters the store only for the one outstanding request, only while the address
  space is in the generation the request was made in and still maps the page, and only when its
  digest is the requested one; otherwise the file system is untouched.\<close>

theorem completion_is_current:
  assumes "pg_complete ticket bs p v = (r, q, w)"
  shows "(r = Inr () \<longrightarrow> (\<exists>rq sp. pg_pending p = Some rq \<and> rq_ticket rq = ticket \<and>
      map_of (pg_spaces p) (rq_asid rq) = Some sp \<and> sp_generation sp = rq_generation rq \<and>
      (\<exists>m \<in> set (sp_mappings sp). touches (rq_page rq) m) \<and> sha256 (vdata bs) = rq_hash rq \<and> pg_pending q = None)) \<and>
    (r \<noteq> Inr () \<longrightarrow> w = v)"
  using assms put_chunk_hash
  by (auto simp: pg_complete_def split: option.splits sum.splits if_splits)

theorem completion_is_current_witness:
  "let h = sha256 [1];
       p = demo_pager\<lparr>pg_pending := Some \<lparr>rq_ticket = 1, rq_hash = h, rq_asid = 7, rq_generation = 0, rq_page = 0x4000,
             rq_access = AccRead\<rparr>\<rparr>
   in \<exists>q. pg_complete 1 (vec_of [1]) p vfs_root_only = (Inl StaleTicket, q, vfs_root_only)"
proof -
  let ?p = "demo_pager\<lparr>pg_pending := Some \<lparr>rq_ticket = 1, rq_hash = sha256 [1], rq_asid = 7, rq_generation = 0,
      rq_page = 0x4000, rq_access = AccRead\<rparr>\<rparr>"
  obtain r q w where c: "pg_complete 1 (vec_of [1]) ?p vfs_root_only = (r, q, w)"
    by (cases "pg_complete 1 (vec_of [1]) ?p vfs_root_only") auto
  have "r = Inl StaleTicket"
    using c by (simp add: pg_complete_def demo_pager_def pg_map_def pager_new_def bump_def)
  with completion_is_current [OF c] c show ?thesis by (auto simp: Let_def)
qed

section \<open>An unaligned protection\<close>

definition demo_store :: chunk_store where
  "demo_store = [([1], vec_of (replicate 4096 9))]"

lemma demo_store_holds: "carries demo_store demo_file (replicate 5000 9)" "resident demo_store demo_file 0"
proof -
  have len: "chunk_len demo_file 0 = 4096" by (simp add: chunk_len_def demo_file_def)
  show "resident demo_store demo_file 0"
    by (simp add: resident_def cs_get_def demo_store_def len) (simp add: demo_file_def vec_of_def)
  have "\<not> resident demo_store demo_file (Suc 0)"
    by (simp add: resident_def cs_get_def demo_store_def demo_file_def)
  then have "i = 0" if "i < length (cf_chunks demo_file)" "resident demo_store demo_file i" for i
    using that by (cases i) (auto simp: demo_file_def less_Suc_eq)
  then show "carries demo_store demo_file (replicate 5000 9)"
    by (fastforce simp: carries_def demo_file_def cs_get_def demo_store_def vec_of_def)
qed

lemma demo_store_read:
  assumes "0 < len" "len \<le> 4096"
  shows "cs_read_range demo_store demo_file 0 len = Ret (Ready (replicate len 9))"
proof -
  have "(4095 + len) div 4096 = 1" using assms by (simp add: div_nat_eqI)
  then show ?thesis
    using read_range_nat [OF demo_file_ok demo_store_holds(1), of len 0] assms demo_store_holds(2)
    by (simp add: read_result_def demo_file_def)
qed

lemma demo_protected:
  "pg_protect 7 0x4800 0x1000 3 demo_pager = demo_pager\<lparr>pg_spaces := [(7, \<lparr>sp_generation = 2, sp_mappings =
     [demo_mapping\<lparr>fm_end := 0x4800, fm_file_len := 0x800\<rparr>,
      demo_mapping\<lparr>fm_start := 0x4800, fm_end := 0x5800, fm_data_start := 0x4800, fm_file_offset := 0x800, fm_file_len := 5000 - 0x800\<rparr>,
      demo_mapping\<lparr>fm_start := 0x5800, fm_data_start := 0x5800, fm_file_offset := 0x1800, fm_file_len := 0\<rparr>]\<rparr>)]\<rparr>"
  by (simp add: pg_protect_def demo_pager_def pg_map_def pager_new_def bump_def protect_one_def outside_def fm_clipped_def
     demo_mapping_def fm_data_end_def checked_add_def saturating_add_def saturating_sub_def opt_list_def)

text \<open>\<open>pg_protect\<close> does not round its range to pages, and \<^verbatim>\<open>mprotect\<close> passes the address of
  the guest on as it is: protecting from the middle of a page that is not resident yet loses the
  rest of that page. The page is then filled from the file only up to that address.\<close>

theorem unaligned_protect_loses_data:
  "let p = pg_protect 7 0x4800 0x1000 3 demo_pager in
    pg_resolve demo_store 7 0x4000 AccRead demo_pager = Ret (PgReady 0x4000 (replicate 4096 9) 3, demo_pager) \<and>
    pg_resolve demo_store 7 0x4000 AccRead p = Ret (PgReady 0x4000 (replicate 0x800 9 @ replicate 0x800 0) 3, p)"
proof -
  have whole: "fill_page demo_store 0x4000 [demo_mapping] (replicate 4096 0) PERM_INIT = Ret (Filled (replicate 4096 9) 3)"
    using demo_store_read [of 4096] by (simp add: demo_mapping_def fm_data_end_def PAGE_SIZE_def fill_slice_def put_at_def fill_page.simps(2))
  have half: "fill_page demo_store 0x4000 [demo_mapping\<lparr>fm_end := 0x4800, fm_file_len := 0x800\<rparr>] (replicate 4096 0) PERM_INIT =
      Ret (Filled (replicate 0x800 9 @ replicate 0x800 0) 3)"
    using demo_store_read [of 2048] by (simp add: demo_mapping_def fm_data_end_def PAGE_SIZE_def fill_slice_def put_at_def fill_page.simps(2))
  have page: "page_of 0x4000 = 0x4000" by (simp add: page_of_def PAGE_SIZE_def)
  have "fault_page demo_pager 7 \<lparr>sp_generation = 1, sp_mappings = [demo_mapping]\<rparr> 0x4000 AccRead = Some (0x4000, [demo_mapping])"
    by (simp add: fault_page_def page demo_pager_def pg_map_def pager_new_def) (simp add: touches_def demo_mapping_def)
  moreover have "map_of (pg_spaces demo_pager) 7 = Some \<lparr>sp_generation = 1, sp_mappings = [demo_mapping]\<rparr>"
    "pg_resident demo_pager = {}" "fm_fill demo_mapping = 0"
    by (simp_all add: demo_pager_def pg_map_def pager_new_def bump_def demo_mapping_def)
  ultimately show ?thesis
    using whole half unfolding Let_def demo_protected
    by (simp add: pg_resolve_def fault_page_def page) (simp add: touches_def demo_mapping_def)
qed

end
