(* ===== verification/AbiCalls.thy ===== *)
theory AbiCalls
  imports Abi
begin

text \<open>
  The remaining constants of \<^verbatim>\<open>crates/linux-compat/src/abi.rs\<close> that the descriptor, process,
  signal and notification calls use.
\<close>

section \<open>Errno values\<close>

definition E2BIG :: u64 where "E2BIG = 7"
definition ENOEXEC :: u64 where "ENOEXEC = 8"
definition EACCES :: u64 where "EACCES = 13"
definition ENOTTY :: u64 where "ENOTTY = 25"
definition EFBIG :: u64 where "EFBIG = 27"
definition ESPIPE :: u64 where "ESPIPE = 29"
definition ERANGE :: u64 where "ERANGE = 34"
definition ENODEV :: u64 where "ENODEV = 19"
definition ENOSYS :: u64 where "ENOSYS = 38"
definition EDESTADDRREQ :: u64 where "EDESTADDRREQ = 89"
definition EPROTONOSUPPORT :: u64 where "EPROTONOSUPPORT = 93"
definition EOPNOTSUPP :: u64 where "EOPNOTSUPP = 95"
definition EADDRINUSE :: u64 where "EADDRINUSE = 98"
definition ECONNRESET :: u64 where "ECONNRESET = 104"
definition ENOTSOCK :: u64 where "ENOTSOCK = 88"
definition ENOTCONN :: u64 where "ENOTCONN = 107"
definition ETIMEDOUT :: u64 where "ETIMEDOUT = 110"

lemmas call_errno_defs = E2BIG_def ENOEXEC_def EACCES_def ENOTTY_def EFBIG_def ESPIPE_def ERANGE_def ENODEV_def ENOSYS_def EDESTADDRREQ_def EPROTONOSUPPORT_def EOPNOTSUPP_def EADDRINUSE_def ECONNRESET_def ENOTSOCK_def ENOTCONN_def ETIMEDOUT_def

section \<open>Opening, seeking and path flags\<close>

definition O_CREAT :: u64 where "O_CREAT = 64"
definition O_EXCL :: u64 where "O_EXCL = 128"
definition O_TRUNC :: u64 where "O_TRUNC = 512"
definition O_APPEND :: u64 where "O_APPEND = 1024"
definition O_NONBLOCK :: u64 where "O_NONBLOCK = 2048"
definition O_DIRECTORY :: u64 where "O_DIRECTORY = 65536"
definition O_NOFOLLOW :: u64 where "O_NOFOLLOW = 131072"
definition O_CLOEXEC :: u64 where "O_CLOEXEC = 524288"
definition AT_FDCWD :: u64 where "AT_FDCWD = - 100"
definition AT_SYMLINK_NOFOLLOW :: u64 where "AT_SYMLINK_NOFOLLOW = 0x100"
definition AT_REMOVEDIR :: u64 where "AT_REMOVEDIR = 0x200"
definition AT_EMPTY_PATH :: u64 where "AT_EMPTY_PATH = 0x1000"
definition SEEK_SET :: u64 where "SEEK_SET = 0"
definition SEEK_CUR :: u64 where "SEEK_CUR = 1"
definition SEEK_END :: u64 where "SEEK_END = 2"
definition S_IFMT :: u32 where "S_IFMT = 61440"
definition S_IFIFO :: u32 where "S_IFIFO = 4096"
definition DT_UNKNOWN :: u8 where "DT_UNKNOWN = 0"

lemmas open_flag_defs = O_CREAT_def O_EXCL_def O_TRUNC_def O_APPEND_def O_NONBLOCK_def O_DIRECTORY_def O_NOFOLLOW_def O_CLOEXEC_def AT_FDCWD_def AT_SYMLINK_NOFOLLOW_def AT_REMOVEDIR_def AT_EMPTY_PATH_def SEEK_SET_def SEEK_CUR_def SEEK_END_def S_IFMT_def S_IFIFO_def DT_UNKNOWN_def

section \<open>fcntl commands\<close>

definition F_DUPFD :: u64 where "F_DUPFD = 0"
definition F_GETFD :: u64 where "F_GETFD = 1"
definition F_SETFD :: u64 where "F_SETFD = 2"
definition F_GETFL :: u64 where "F_GETFL = 3"
definition F_SETFL :: u64 where "F_SETFL = 4"
definition F_GETLK :: u64 where "F_GETLK = 5"
definition F_SETLK :: u64 where "F_SETLK = 6"
definition F_SETLKW :: u64 where "F_SETLKW = 7"
definition F_OFD_GETLK :: u64 where "F_OFD_GETLK = 36"
definition F_OFD_SETLK :: u64 where "F_OFD_SETLK = 37"
definition F_OFD_SETLKW :: u64 where "F_OFD_SETLKW = 38"
definition F_UNLCK :: u16 where "F_UNLCK = 2"
definition F_DUPFD_CLOEXEC :: u64 where "F_DUPFD_CLOEXEC = 1030"
definition FD_CLOEXEC :: u64 where "FD_CLOEXEC = 1"

lemmas fcntl_defs = F_DUPFD_def F_GETFD_def F_SETFD_def F_GETFL_def F_SETFL_def F_GETLK_def F_SETLK_def F_SETLKW_def F_OFD_GETLK_def F_OFD_SETLK_def F_OFD_SETLKW_def F_UNLCK_def F_DUPFD_CLOEXEC_def FD_CLOEXEC_def

section \<open>inotify events\<close>

definition IN_ACCESS :: u32 where "IN_ACCESS = 0x1"
definition IN_MODIFY :: u32 where "IN_MODIFY = 0x2"
definition IN_ATTRIB :: u32 where "IN_ATTRIB = 0x4"
definition IN_CLOSE_WRITE :: u32 where "IN_CLOSE_WRITE = 0x8"
definition IN_CLOSE_NOWRITE :: u32 where "IN_CLOSE_NOWRITE = 0x10"
definition IN_OPEN :: u32 where "IN_OPEN = 0x20"
definition IN_MOVED_FROM :: u32 where "IN_MOVED_FROM = 0x40"
definition IN_MOVED_TO :: u32 where "IN_MOVED_TO = 0x80"
definition IN_CREATE :: u32 where "IN_CREATE = 0x100"
definition IN_DELETE :: u32 where "IN_DELETE = 0x200"
definition IN_DELETE_SELF :: u32 where "IN_DELETE_SELF = 0x400"
definition IN_MOVE_SELF :: u32 where "IN_MOVE_SELF = 0x800"
definition IN_ISDIR :: u32 where "IN_ISDIR = 0x40000000"
definition IN_Q_OVERFLOW :: u32 where "IN_Q_OVERFLOW = 0x4000"
definition IN_ALL_EVENTS :: u32 where "IN_ALL_EVENTS = 0xfff"

lemmas inotify_defs = IN_ACCESS_def IN_MODIFY_def IN_ATTRIB_def IN_CLOSE_WRITE_def IN_CLOSE_NOWRITE_def IN_OPEN_def IN_MOVED_FROM_def IN_MOVED_TO_def IN_CREATE_def IN_DELETE_def IN_DELETE_SELF_def IN_MOVE_SELF_def IN_ISDIR_def IN_Q_OVERFLOW_def IN_ALL_EVENTS_def

section \<open>Terminal requests\<close>

definition TCGETS :: u64 where "TCGETS = 0x5401"
definition TCSETS :: u64 where "TCSETS = 0x5402"
definition TCSETSW :: u64 where "TCSETSW = 0x5403"
definition TCSETSF :: u64 where "TCSETSF = 0x5404"
definition TCFLSH :: u64 where "TCFLSH = 0x540b"
definition TIOCGWINSZ :: u64 where "TIOCGWINSZ = 0x5413"
definition TIOCSWINSZ :: u64 where "TIOCSWINSZ = 0x5414"
definition TIOCSPTLCK :: u64 where "TIOCSPTLCK = 0x40045431"
definition TIOCGPTN :: u64 where "TIOCGPTN = 0x80045430"
definition TIOCGPTPEER :: u64 where "TIOCGPTPEER = 0x5441"
definition TIOCSCTTY :: u64 where "TIOCSCTTY = 0x540e"
definition TIOCNOTTY :: u64 where "TIOCNOTTY = 0x5422"
definition TIOCGPGRP :: u64 where "TIOCGPGRP = 0x540f"
definition TIOCSPGRP :: u64 where "TIOCSPGRP = 0x5410"
definition FIONREAD :: u64 where "FIONREAD = 0x541b"
definition FIONBIO :: u64 where "FIONBIO = 0x5421"
definition FIONCLEX :: u64 where "FIONCLEX = 0x5450"
definition FIOCLEX :: u64 where "FIOCLEX = 0x5451"

lemmas ioctl_defs = TCGETS_def TCSETS_def TCSETSW_def TCSETSF_def TCFLSH_def TIOCGWINSZ_def TIOCSWINSZ_def TIOCSPTLCK_def TIOCGPTN_def TIOCGPTPEER_def TIOCSCTTY_def TIOCNOTTY_def TIOCGPGRP_def TIOCSPGRP_def FIONREAD_def FIONBIO_def FIONCLEX_def FIOCLEX_def

section \<open>Other constants\<close>

definition PROT_READ :: u64 where "PROT_READ = 0x1"
definition PROT_WRITE :: u64 where "PROT_WRITE = 0x2"
definition PROT_EXEC :: u64 where "PROT_EXEC = 0x4"
definition MAP_SHARED :: u64 where "MAP_SHARED = 0x1"
definition MAP_PRIVATE :: u64 where "MAP_PRIVATE = 0x2"
definition MAP_FIXED :: u64 where "MAP_FIXED = 0x10"
definition MAP_ANONYMOUS :: u64 where "MAP_ANONYMOUS = 0x20"
definition ARCH_SET_FS :: u64 where "ARCH_SET_FS = 0x1002"
definition ARCH_GET_FS :: u64 where "ARCH_GET_FS = 0x1003"

lemmas other_defs = PROT_READ_def PROT_WRITE_def PROT_EXEC_def MAP_SHARED_def MAP_PRIVATE_def MAP_FIXED_def MAP_ANONYMOUS_def ARCH_SET_FS_def ARCH_GET_FS_def

end
