(* ===== verification/Fd.thy ===== *)
theory Fd
  imports AbiCalls Vfs
begin

text \<open>
  Open file descriptions, descriptor tables and the kernel objects they refer to:
  \<^verbatim>\<open>crates/linux-compat/src/fd.rs\<close>.

  The source shares objects through \<^verbatim>\<open>Rc<RefCell<..>>\<close>. The model keeps an explicit heap,
  \<open>kheap\<close>, with one finite map per kind of object; a reference is the address of its cell. The
  strong counts that decide when something is dropped are explicit for the two kinds of cell whose
  drop has an effect: open file descriptions (\<^verbatim>\<open>impl Drop for Description\<close>) and descriptor tables,
  whose drop releases the descriptions in them. The storage of the other cells is never observed
  once nothing refers to them, so they are kept. A call to the host's network broker made by a drop
  is recorded in \<open>kh_closed\<close>, in order.
\<close>

unbundle bit_operations_syntax

section \<open>Objects\<close>

datatype std_stream = StdIn | StdOut | StdErr

record pipe_inner =
  pi_data :: bytes
  pi_readers :: u32
  pi_writers :: u32
  pi_activity :: u64

record pty =
  pt_id :: u64
  pt_m2s :: bytes
  pt_s2m :: bytes
  pt_termios :: bytes
  pt_winsize :: "u16 list"
  pt_masters :: u32
  pt_slaves :: u32
  pt_slave_ever_opened :: bool
  pt_activity :: u64
  pt_fg_pgrp :: u64

record eventfd_inner =
  ev_count :: u64
  ev_semaphore :: bool
  ev_activity :: u64

record inotify_watch =
  iw_descriptor :: u32 \<comment> \<open>an \<^verbatim>\<open>i32\<close>, as its bit pattern\<close>
  iw_node :: nat
  iw_path :: bytes
  iw_mask :: u32

record inotify_event =
  ie_descriptor :: u32
  ie_mask :: u32
  ie_cookie :: u32
  ie_name :: bytes

record inotify_inner =
  in_watches :: "inotify_watch list"
  in_next_descriptor :: u32
  in_queue :: "inotify_event list"
  in_overflowed :: bool
  in_activity :: u64

definition INOTIFY_QUEUE_LIMIT :: nat where
  "INOTIFY_QUEUE_LIMIT = 16384"

record timerfd_inner =
  tf_next_expiry :: "u64 option"
  tf_interval :: u64

datatype socket_kind = TcpSocket | UdpSocket

text \<open>A \<^verbatim>\<open>SocketAddrV4\<close>: the four octets as a big-endian word, and the port.\<close>

type_synonym sockaddr_v4 = "u32 \<times> u16"

text \<open>The broker a socket goes through is named by a number: the brokers are the host's.\<close>

record net_socket =
  ns_broker :: nat
  ns_kind :: socket_kind
  ns_handle :: "u64 option"
  ns_peer :: "sockaddr_v4 option"
  ns_activity :: u64

record epoll_inner =
  ep_interests :: "(u64, u32 \<times> u64) btree"
  ep_edge_fired :: "(u64, u32 \<times> u64) btree"

text \<open>A \<^verbatim>\<open>...Ref\<close> of the source is the address of the cell.\<close>

datatype backing =
    BStd std_stream
  | BFile nat
  | BDir nat u64
  | BDev dev
  | BPipe nat bool \<comment> \<open>the pipe, and whether this is its write end\<close>
  | BSocketPair nat nat \<comment> \<open>\<^verbatim>\<open>rx\<close> and \<^verbatim>\<open>tx\<close>\<close>
  | BEventFd nat
  | BTimerFd nat
  | BNet nat
  | BEpoll nat
  | BPtyMaster nat
  | BPtySlave nat
  | BInotify nat

record description =
  d_backing :: backing
  d_offset :: u64
  d_flags :: u64

definition readable :: "description \<Rightarrow> bool" where
  "readable d \<longleftrightarrow> d_flags d AND O_ACCMODE \<noteq> O_WRONLY"

definition writable :: "description \<Rightarrow> bool" where
  "writable d \<longleftrightarrow> d_flags d AND O_ACCMODE \<noteq> O_RDONLY"

text \<open>\<^verbatim>\<open>desc\<close> is the address of the description.\<close>

record fd_entry =
  fe_desc :: nat
  fe_cloexec :: bool

type_synonym fd_table = "fd_entry option list"

record kheap =
  kh_next :: nat
  kh_pipes :: "nat \<Rightarrow> pipe_inner option"
  kh_ptys :: "nat \<Rightarrow> pty option"
  kh_events :: "nat \<Rightarrow> eventfd_inner option"
  kh_inotifies :: "nat \<Rightarrow> inotify_inner option"
  kh_timers :: "nat \<Rightarrow> timerfd_inner option"
  kh_nets :: "nat \<Rightarrow> net_socket option"
  kh_epolls :: "nat \<Rightarrow> epoll_inner option"
  kh_ofds :: "nat \<Rightarrow> (nat \<times> description) option"
  kh_tables :: "nat \<Rightarrow> (nat \<times> fd_table) option"
  kh_closed :: "(nat \<times> u64) list"
  kh_words :: "nat \<Rightarrow> u64 option" \<comment> \<open>\<^verbatim>\<open>Rc<Cell<u64>>\<close> cells of \<^verbatim>\<open>proc.rs\<close>\<close>
  kh_flags :: "nat \<Rightarrow> bool option" \<comment> \<open>\<^verbatim>\<open>Rc<Cell<bool>>\<close>\<close>
  kh_sigs :: "nat \<Rightarrow> (u64 \<Rightarrow> bytes option) option" \<comment> \<open>tables of 32-byte signal actions\<close>

definition kheap_empty :: kheap where
  "kheap_empty = \<lparr>kh_next = 0, kh_pipes = (\<lambda>_. None), kh_ptys = (\<lambda>_. None), kh_events = (\<lambda>_. None),
     kh_inotifies = (\<lambda>_. None), kh_timers = (\<lambda>_. None), kh_nets = (\<lambda>_. None), kh_epolls = (\<lambda>_. None),
     kh_ofds = (\<lambda>_. None), kh_tables = (\<lambda>_. None), kh_closed = [], kh_words = (\<lambda>_. None),
     kh_flags = (\<lambda>_. None), kh_sigs = (\<lambda>_. None)\<rparr>"

section \<open>Terminals\<close>

definition C_CC :: nat where
  "C_CC = 17"

definition c_cc_default :: bytes where
  "c_cc_default = [3, 28, 127, 21, 4, 0, 1, 0, 17, 19, 26, 0, 18, 15, 23, 22, 0, 0, 0]"

definition pty_new :: "u64 \<Rightarrow> pty" where
  "pty_new i =
     (let termios = replicate 36 0;
          termios = put_at 0 (u32_to_le 0x0500) termios;
          termios = put_at 4 (u32_to_le 0x0005) termios;
          termios = put_at 8 (u32_to_le 0x00bf) termios;
          termios = put_at 12 (u32_to_le 0x8a3b) termios;
          termios = put_at C_CC c_cc_default termios
      in \<lparr>pt_id = i, pt_m2s = [], pt_s2m = [], pt_termios = termios, pt_winsize = [24, 80, 0, 0],
          pt_masters = 1, pt_slaves = 0, pt_slave_ever_opened = False, pt_activity = 0, pt_fg_pgrp = 0\<rparr>)"

definition termios_word :: "nat \<Rightarrow> pty \<Rightarrow> u32" where
  "termios_word off p = u32_of_le (take 4 (drop off (pt_termios p)))"

definition onlcr :: "pty \<Rightarrow> bool" where
  "onlcr p \<longleftrightarrow> termios_word 4 p AND 0x1 \<noteq> 0 \<and> termios_word 4 p AND 0x4 \<noteq> 0"

definition tostop :: "pty \<Rightarrow> bool" where
  "tostop p \<longleftrightarrow> termios_word 12 p AND 0x100 \<noteq> 0"

definition isig :: "pty \<Rightarrow> bool" where
  "isig p \<longleftrightarrow> termios_word 12 p AND 0x1 \<noteq> 0"

text \<open>The signal a byte raises: a disabled control character is NUL and matches nothing.\<close>

definition raised :: "pty \<Rightarrow> u8 \<Rightarrow> u64 option" where
  "raised p b =
     (let intr = pt_termios p ! C_CC; quit = pt_termios p ! (C_CC + 1); susp = pt_termios p ! (C_CC + 10)
      in if intr \<noteq> 0 \<and> b = intr then Some 2
         else if quit \<noteq> 0 \<and> b = quit then Some 3
         else if susp \<noteq> 0 \<and> b = susp then Some 20
         else None)"

primrec feed_bytes :: "(u8 \<Rightarrow> u64 option) \<Rightarrow> bytes \<Rightarrow> u64 option \<Rightarrow> bytes \<Rightarrow> u64 option \<times> bytes" where
  "feed_bytes sig [] signal queue = (signal, queue)"
| "feed_bytes sig (b # bs) signal queue =
     (case sig b of
        Some s \<Rightarrow> feed_bytes sig bs (Some s) []
      | None \<Rightarrow> feed_bytes sig bs signal (queue @ [b]))"

definition feed_input :: "bytes \<Rightarrow> pty \<Rightarrow> u64 option \<times> pty" where
  "feed_input bs p =
     (if \<not> isig p then (None, p\<lparr>pt_m2s := pt_m2s p @ bs, pt_activity := pt_activity p + 1\<rparr>)
      else let (signal, queue) = feed_bytes (raised p) bs None (pt_m2s p)
           in (signal, p\<lparr>pt_m2s := queue, pt_activity := pt_activity p + 1\<rparr>))"

section \<open>Dropping a description\<close>

definition pipe_drop_reader :: "pipe_inner \<Rightarrow> pipe_inner" where
  "pipe_drop_reader p = p\<lparr>pi_readers := saturating_sub (pi_readers p) 1, pi_activity := pi_activity p + 1\<rparr>"

definition pipe_drop_writer :: "pipe_inner \<Rightarrow> pipe_inner" where
  "pipe_drop_writer p = p\<lparr>pi_writers := saturating_sub (pi_writers p) 1, pi_activity := pi_activity p + 1\<rparr>"

definition at_cell :: "('a \<Rightarrow> 'a) \<Rightarrow> nat \<Rightarrow> (nat \<Rightarrow> 'a option) \<Rightarrow> nat \<Rightarrow> 'a option" where
  "at_cell f i m = m(i := map_option f (m i))"

definition description_drop :: "description \<Rightarrow> kheap \<Rightarrow> kheap" where
  "description_drop d h =
     (case d_backing d of
        BPipe p write_end \<Rightarrow>
          h\<lparr>kh_pipes := at_cell (if write_end then pipe_drop_writer else pipe_drop_reader) p (kh_pipes h)\<rparr>
      | BSocketPair rx tx \<Rightarrow>
          h\<lparr>kh_pipes := at_cell pipe_drop_writer tx (at_cell pipe_drop_reader rx (kh_pipes h))\<rparr>
      | BNet s \<Rightarrow>
          (case kh_nets h s of
             None \<Rightarrow> h
           | Some socket \<Rightarrow>
               (case ns_handle socket of
                  None \<Rightarrow> h
                | Some handle \<Rightarrow> h\<lparr>kh_closed := kh_closed h @ [(ns_broker socket, handle)]\<rparr>))
      | BPtyMaster p \<Rightarrow>
          h\<lparr>kh_ptys := at_cell (\<lambda>t. t\<lparr>pt_masters := saturating_sub (pt_masters t) 1, pt_activity := pt_activity t + 1\<rparr>) p (kh_ptys h)\<rparr>
      | BPtySlave p \<Rightarrow>
          h\<lparr>kh_ptys := at_cell (\<lambda>t. t\<lparr>pt_slaves := saturating_sub (pt_slaves t) 1, pt_activity := pt_activity t + 1\<rparr>) p (kh_ptys h)\<rparr>
      | _ \<Rightarrow> h)"

text \<open>\<^verbatim>\<open>Rc::new\<close>, \<^verbatim>\<open>Rc::clone\<close> and the drop of an \<^verbatim>\<open>Rc\<close> on descriptions.\<close>

definition ofd_new :: "description \<Rightarrow> kheap \<Rightarrow> nat \<times> kheap" where
  "ofd_new d h = (kh_next h, h\<lparr>kh_next := Suc (kh_next h), kh_ofds := (kh_ofds h)(kh_next h \<mapsto> (1, d))\<rparr>)"

definition ofd_clone :: "nat \<Rightarrow> kheap \<Rightarrow> kheap" where
  "ofd_clone i h = h\<lparr>kh_ofds := at_cell (\<lambda>(n, d). (Suc n, d)) i (kh_ofds h)\<rparr>"

definition ofd_drop :: "nat \<Rightarrow> kheap \<Rightarrow> kheap" where
  "ofd_drop i h =
     (case kh_ofds h i of
        None \<Rightarrow> h
      | Some (n, d) \<Rightarrow>
          if n > 1 then h\<lparr>kh_ofds := (kh_ofds h)(i \<mapsto> (n - 1, d))\<rparr>
          else description_drop d (h\<lparr>kh_ofds := (kh_ofds h)(i := None)\<rparr>))"

definition entry_drop :: "fd_entry \<Rightarrow> kheap \<Rightarrow> kheap" where
  "entry_drop e = ofd_drop (fe_desc e)"

primrec slots_drop :: "fd_table \<Rightarrow> kheap \<Rightarrow> kheap" where
  "slots_drop [] h = h"
| "slots_drop (s # ss) h = slots_drop ss (case s of None \<Rightarrow> h | Some e \<Rightarrow> entry_drop e h)"

primrec slots_clone :: "fd_table \<Rightarrow> kheap \<Rightarrow> kheap" where
  "slots_clone [] h = h"
| "slots_clone (s # ss) h = slots_clone ss (case s of None \<Rightarrow> h | Some e \<Rightarrow> ofd_clone (fe_desc e) h)"

section \<open>Descriptor tables\<close>

definition FD_LIMIT :: nat where
  "FD_LIMIT = 1024"

definition slot :: "fd_table \<Rightarrow> nat \<Rightarrow> fd_entry option" where
  "slot t fd = (if fd < length t then t ! fd else None)"

definition fds_iter :: "fd_table \<Rightarrow> (nat \<times> fd_entry) list" where
  "fds_iter t = List.map_filter (\<lambda>(fd, s). map_option (\<lambda>e. (fd, e)) s) (enumerate 0 t)"

definition fds_get :: "fd_table \<Rightarrow> u64 \<Rightarrow> errno + fd_entry" where
  "fds_get t fd = (case slot t (unat fd) of None \<Rightarrow> Inl EBADF | Some e \<Rightarrow> Inr e)"

definition pad_to :: "nat \<Rightarrow> fd_table \<Rightarrow> fd_table" where
  "pad_to n t = t @ replicate (n - length t) None"

text \<open>The entry moves into the table, or is dropped with the error: the third component is what
  has to be dropped.\<close>

definition fds_insert_from :: "nat \<Rightarrow> fd_entry \<Rightarrow> fd_table \<Rightarrow> (errno + u64) \<times> fd_table \<times> fd_entry option" where
  "fds_insert_from lo e t =
     (if lo \<ge> FD_LIMIT then (Inl EINVAL, t, Some e)
      else let t = pad_to lo t in
        (case position (\<lambda>s. s = None) (drop lo t) of
           Some i \<Rightarrow> (Inr (of_nat (lo + i)), t[lo + i := Some e], None)
         | None \<Rightarrow>
             if length t \<ge> FD_LIMIT then (Inl EMFILE, t, Some e)
             else (Inr (of_nat (length t)), t @ [Some e], None)))"

text \<open>Storing over an occupied slot drops what was there.\<close>

definition fds_insert_at :: "u64 \<Rightarrow> fd_entry \<Rightarrow> fd_table \<Rightarrow> (errno + u64) \<times> fd_table \<times> fd_entry option" where
  "fds_insert_at fd e t =
     (if unat fd \<ge> FD_LIMIT then (Inl EBADF, t, Some e)
      else let t = pad_to (Suc (unat fd)) t
           in (Inr fd, t[unat fd := Some e], t ! unat fd))"

definition fds_close :: "u64 \<Rightarrow> fd_table \<Rightarrow> (errno + unit) \<times> fd_table \<times> fd_entry option" where
  "fds_close fd t =
     (if unat fd < length t
      then (case t ! unat fd of
              None \<Rightarrow> (Inl EBADF, t, None)
            | Some e \<Rightarrow> (Inr (), t[unat fd := None], Some e))
      else (Inl EBADF, t, None))"

definition cloexec_slot :: "fd_entry option \<Rightarrow> bool" where
  "cloexec_slot s = (case s of None \<Rightarrow> False | Some e \<Rightarrow> fe_cloexec e)"

definition fds_close_cloexec :: "fd_table \<Rightarrow> fd_table \<times> fd_table" where
  "fds_close_cloexec t =
     (map (\<lambda>s. if cloexec_slot s then None else s) t, filter cloexec_slot t)"

section \<open>Tables on the heap\<close>

definition table_at :: "nat \<Rightarrow> kheap \<Rightarrow> fd_table" where
  "table_at t h = (case kh_tables h t of None \<Rightarrow> [] | Some (n, es) \<Rightarrow> es)"

definition set_table :: "nat \<Rightarrow> fd_table \<Rightarrow> kheap \<Rightarrow> kheap" where
  "set_table t es h = h\<lparr>kh_tables := at_cell (\<lambda>(n, _). (n, es)) t (kh_tables h)\<rparr>"

definition drop_opt :: "fd_entry option \<Rightarrow> kheap \<Rightarrow> kheap" where
  "drop_opt r h = (case r of None \<Rightarrow> h | Some e \<Rightarrow> entry_drop e h)"

definition table_new :: "kheap \<Rightarrow> nat \<times> kheap" where
  "table_new h =
     (let (i, h) = ofd_new \<lparr>d_backing = BStd StdIn, d_offset = 0, d_flags = O_RDONLY\<rparr> h;
          (j, h) = ofd_new \<lparr>d_backing = BStd StdOut, d_offset = 0, d_flags = O_WRONLY\<rparr> h;
          (k, h) = ofd_new \<lparr>d_backing = BStd StdErr, d_offset = 0, d_flags = O_WRONLY\<rparr> h;
          es = map (\<lambda>d. Some \<lparr>fe_desc = d, fe_cloexec = False\<rparr>) [i, j, k]
      in (kh_next h, h\<lparr>kh_next := Suc (kh_next h), kh_tables := (kh_tables h)(kh_next h \<mapsto> (1, es))\<rparr>))"

definition table_share :: "nat \<Rightarrow> kheap \<Rightarrow> kheap" where
  "table_share t h = h\<lparr>kh_tables := at_cell (\<lambda>(n, es). (Suc n, es)) t (kh_tables h)\<rparr>"

definition table_clone :: "nat \<Rightarrow> kheap \<Rightarrow> nat \<times> kheap" where
  "table_clone t h =
     (let es = table_at t h; h = slots_clone es h
      in (kh_next h, h\<lparr>kh_next := Suc (kh_next h), kh_tables := (kh_tables h)(kh_next h \<mapsto> (1, es))\<rparr>))"

definition table_drop :: "nat \<Rightarrow> kheap \<Rightarrow> kheap" where
  "table_drop t h =
     (case kh_tables h t of
        None \<Rightarrow> h
      | Some (n, es) \<Rightarrow>
          if n > 1 then h\<lparr>kh_tables := (kh_tables h)(t \<mapsto> (n - 1, es))\<rparr>
          else slots_drop es (h\<lparr>kh_tables := (kh_tables h)(t := None)\<rparr>))"

definition table_insert_from :: "nat \<Rightarrow> nat \<Rightarrow> fd_entry \<Rightarrow> kheap \<Rightarrow> (errno + u64) \<times> kheap" where
  "table_insert_from t lo e h =
     (let (r, es, dropped) = fds_insert_from lo e (table_at t h)
      in (r, drop_opt dropped (set_table t es h)))"

definition table_insert_at :: "nat \<Rightarrow> u64 \<Rightarrow> fd_entry \<Rightarrow> kheap \<Rightarrow> (errno + u64) \<times> kheap" where
  "table_insert_at t fd e h =
     (let (r, es, dropped) = fds_insert_at fd e (table_at t h)
      in (r, drop_opt dropped (set_table t es h)))"

definition table_close :: "nat \<Rightarrow> u64 \<Rightarrow> kheap \<Rightarrow> (errno + unit) \<times> kheap" where
  "table_close t fd h =
     (let (r, es, dropped) = fds_close fd (table_at t h)
      in (r, drop_opt dropped (set_table t es h)))"

definition table_close_cloexec :: "nat \<Rightarrow> kheap \<Rightarrow> kheap" where
  "table_close_cloexec t h =
     (let (es, dropped) = fds_close_cloexec (table_at t h)
      in slots_drop dropped (set_table t es h))"

end
