(* ===== verification/FdCalls.thy ===== *)
theory FdCalls
  imports Fd
begin

text \<open>
  What the descriptor calls of \<^verbatim>\<open>crates/linux-compat/src/syscall.rs\<close> do to the objects: \<^verbatim>\<open>dup\<close>,
  \<^verbatim>\<open>fcntl\<close>, \<^verbatim>\<open>close_range\<close>, and the calls that make pipes, socket pairs, event, timer and epoll
  descriptors. The table is the one of the calling process; a call that also copies to guest memory
  is finished by the machine layer.
\<close>

unbundle bit_operations_syntax

section \<open>Objects behind a new descriptor\<close>

definition pipe_new :: "kheap \<Rightarrow> nat \<times> kheap" where
  "pipe_new h = (kh_next h, h\<lparr>kh_next := Suc (kh_next h), kh_pipes := (kh_pipes h)(kh_next h \<mapsto>
     \<lparr>pi_data = [], pi_readers = 1, pi_writers = 1, pi_activity = 0\<rparr>)\<rparr>)"

definition event_new :: "eventfd_inner \<Rightarrow> kheap \<Rightarrow> nat \<times> kheap" where
  "event_new e h = (kh_next h, h\<lparr>kh_next := Suc (kh_next h), kh_events := (kh_events h)(kh_next h \<mapsto> e)\<rparr>)"

definition timer_new :: "kheap \<Rightarrow> nat \<times> kheap" where
  "timer_new h = (kh_next h, h\<lparr>kh_next := Suc (kh_next h), kh_timers := (kh_timers h)(kh_next h \<mapsto>
     \<lparr>tf_next_expiry = None, tf_interval = 0\<rparr>)\<rparr>)"

definition epoll_new :: "kheap \<Rightarrow> nat \<times> kheap" where
  "epoll_new h = (kh_next h, h\<lparr>kh_next := Suc (kh_next h), kh_epolls := (kh_epolls h)(kh_next h \<mapsto>
     \<lparr>ep_interests = [], ep_edge_fired = []\<rparr>)\<rparr>)"

definition inotify_new :: "kheap \<Rightarrow> nat \<times> kheap" where
  "inotify_new h = (kh_next h, h\<lparr>kh_next := Suc (kh_next h), kh_inotifies := (kh_inotifies h)(kh_next h \<mapsto>
     \<lparr>in_watches = [], in_next_descriptor = 1, in_queue = [], in_overflowed = False, in_activity = 0\<rparr>)\<rparr>)"

definition install_fd :: "nat \<Rightarrow> backing \<Rightarrow> u64 \<Rightarrow> bool \<Rightarrow> kheap \<Rightarrow> (errno + u64) \<times> kheap" where
  "install_fd t b flags cloexec h =
     (let (i, h) = ofd_new \<lparr>d_backing = b, d_offset = 0, d_flags = flags\<rparr> h
      in table_insert_from t 0 \<lparr>fe_desc = i, fe_cloexec = cloexec\<rparr> h)"

section \<open>Duplication and descriptor flags\<close>

text \<open>The entry is cloned before the insertion: the clone is what a failing insertion drops.\<close>

definition sys_dup :: "nat \<Rightarrow> u64 \<Rightarrow> u64 \<Rightarrow> bool \<Rightarrow> kheap \<Rightarrow> (errno + u64) \<times> kheap" where
  "sys_dup t fd lo cloexec h =
     (case fds_get (table_at t h) fd of
        Inl e \<Rightarrow> (Inl e, h)
      | Inr entry \<Rightarrow>
          table_insert_from t (unat lo) \<lparr>fe_desc = fe_desc entry, fe_cloexec = cloexec\<rparr> (ofd_clone (fe_desc entry) h))"

definition sys_dup2 :: "nat \<Rightarrow> u64 \<Rightarrow> u64 \<Rightarrow> bool \<Rightarrow> kheap \<Rightarrow> (errno + u64) \<times> kheap" where
  "sys_dup2 t fd new_fd cloexec h =
     (case fds_get (table_at t h) fd of
        Inl e \<Rightarrow> (Inl e, h)
      | Inr entry \<Rightarrow>
          let h = ofd_clone (fe_desc entry) h in
          if fd = new_fd then (Inr new_fd, entry_drop entry h)
          else table_insert_at t new_fd \<lparr>fe_desc = fe_desc entry, fe_cloexec = cloexec\<rparr> h)"

definition set_cloexec :: "nat \<Rightarrow> u64 \<Rightarrow> bool \<Rightarrow> kheap \<Rightarrow> (errno + unit) \<times> kheap" where
  "set_cloexec t fd flag h =
     (case fds_get (table_at t h) fd of
        Inl e \<Rightarrow> (Inl e, h)
      | Inr entry \<Rightarrow> (Inr (), set_table t ((table_at t h)[unat fd := Some (entry\<lparr>fe_cloexec := flag\<rparr>)]) h))"

definition ofd_at :: "nat \<Rightarrow> u64 \<Rightarrow> kheap \<Rightarrow> errno + nat \<times> description" where
  "ofd_at t fd h =
     (case fds_get (table_at t h) fd of
        Inl e \<Rightarrow> Inl e
      | Inr entry \<Rightarrow>
          (case kh_ofds h (fe_desc entry) of None \<Rightarrow> Inl EBADF | Some (n, d) \<Rightarrow> Inr (fe_desc entry, d)))"

definition set_ofd :: "nat \<Rightarrow> description \<Rightarrow> kheap \<Rightarrow> kheap" where
  "set_ofd i d h = h\<lparr>kh_ofds := at_cell (\<lambda>(n, _). (n, d)) i (kh_ofds h)\<rparr>"

definition fcntl_setfl :: "u64 \<Rightarrow> description \<Rightarrow> description" where
  "fcntl_setfl arg d = d\<lparr>d_flags := (d_flags d AND O_ACCMODE) OR (arg AND (O_APPEND OR O_NONBLOCK))\<rparr>"

datatype fcntl_out = FcDone "errno + u64" | FcGetlk

text \<open>\<^verbatim>\<open>fcntl\<close>; \<open>FcGetlk\<close> is a query of a record lock on an open descriptor, which only writes the
  caller's structure.\<close>

definition fcntl_heap :: "nat \<Rightarrow> u64 \<Rightarrow> u64 \<Rightarrow> u64 \<Rightarrow> kheap \<Rightarrow> fcntl_out \<times> kheap" where
  "fcntl_heap t fd cmd arg h =
     (if cmd = F_DUPFD then (let (r, h) = sys_dup t fd arg False h in (FcDone r, h))
      else if cmd = F_DUPFD_CLOEXEC then (let (r, h) = sys_dup t fd arg True h in (FcDone r, h))
      else if cmd = F_GETFD then
        (FcDone (case fds_get (table_at t h) fd of Inl e \<Rightarrow> Inl e | Inr entry \<Rightarrow> Inr (if fe_cloexec entry then FD_CLOEXEC else 0)), h)
      else if cmd = F_SETFD then
        (let (r, h) = set_cloexec t fd (arg AND FD_CLOEXEC \<noteq> 0) h in (FcDone (case r of Inl e \<Rightarrow> Inl e | Inr _ \<Rightarrow> Inr 0), h))
      else if cmd = F_GETFL then
        (FcDone (case ofd_at t fd h of Inl e \<Rightarrow> Inl e | Inr (i, d) \<Rightarrow> Inr (d_flags d)), h)
      else if cmd = F_SETFL then
        (case ofd_at t fd h of Inl e \<Rightarrow> (FcDone (Inl e), h) | Inr (i, d) \<Rightarrow> (FcDone (Inr 0), set_ofd i (fcntl_setfl arg d) h))
      else if cmd \<in> {F_SETLK, F_SETLKW, F_OFD_SETLK, F_OFD_SETLKW} then
        (FcDone (case fds_get (table_at t h) fd of Inl e \<Rightarrow> Inl e | Inr _ \<Rightarrow> Inr 0), h)
      else if cmd \<in> {F_GETLK, F_OFD_GETLK} then
        (case fds_get (table_at t h) fd of Inl e \<Rightarrow> (FcDone (Inl e), h) | Inr _ \<Rightarrow> (FcGetlk, h))
      else (FcDone (Inl EINVAL), h))"

definition CLOSE_RANGE_CLOEXEC :: u64 where
  "CLOSE_RANGE_CLOEXEC = 4"

definition close_range_one :: "nat \<Rightarrow> u64 \<Rightarrow> nat \<Rightarrow> kheap \<Rightarrow> kheap" where
  "close_range_one t flags fd h =
     (if flags AND CLOSE_RANGE_CLOEXEC \<noteq> 0 then snd (set_cloexec t (of_nat fd) True h)
      else snd (table_close t (of_nat fd) h))"

definition sys_close_range :: "nat \<Rightarrow> u64 \<Rightarrow> u64 \<Rightarrow> u64 \<Rightarrow> kheap \<Rightarrow> (errno + u64) \<times> kheap" where
  "sys_close_range t first_fd last_fd flags h =
     (if first_fd > last_fd then (Inl EINVAL, h)
      else let fds = filter (\<lambda>fd. first_fd \<le> of_nat fd \<and> of_nat fd \<le> last_fd) (map fst (fds_iter (table_at t h)))
           in (Inr 0, fold (close_range_one t flags) fds h))"

section \<open>Pipes and the other descriptors\<close>

text \<open>\<^verbatim>\<open>sys_pipe\<close> up to the copy of the two numbers: a failing second insertion leaves the first
  descriptor installed.\<close>

definition pipe_end :: "nat \<Rightarrow> nat \<Rightarrow> bool \<Rightarrow> u64 \<Rightarrow> kheap \<Rightarrow> (errno + u64) \<times> kheap" where
  "pipe_end t p write_end flags h =
     install_fd t (BPipe p write_end)
       ((if write_end then O_WRONLY else O_RDONLY) OR (flags AND O_NONBLOCK)) (flags AND O_CLOEXEC \<noteq> 0) h"

definition pipe_fds :: "nat \<Rightarrow> u64 \<Rightarrow> kheap \<Rightarrow> (errno + u64 \<times> u64) \<times> kheap" where
  "pipe_fds t flags h =
     (let (p, h) = pipe_new h in
      case pipe_end t p False flags h of
        (Inl e, h) \<Rightarrow> (Inl e, h)
      | (Inr read_fd, h) \<Rightarrow>
          (case pipe_end t p True flags h of
             (Inl e, h) \<Rightarrow> (Inl e, h)
           | (Inr write_fd, h) \<Rightarrow> (Inr (read_fd, write_fd), h)))"

definition AF_UNIX :: u64 where "AF_UNIX = 1"
definition SOCK_TYPE_MASK :: u64 where "SOCK_TYPE_MASK = 0xff"
definition SOCK_STREAM :: u64 where "SOCK_STREAM = 1"
definition SOCK_DGRAM :: u64 where "SOCK_DGRAM = 2"
definition SOCK_SEQPACKET :: u64 where "SOCK_SEQPACKET = 5"
definition SOCK_CLOEXEC :: u64 where "SOCK_CLOEXEC = 0x80000"

definition socketpair_fds :: "nat \<Rightarrow> u64 \<Rightarrow> u64 \<Rightarrow> kheap \<Rightarrow> (errno + u64 \<times> u64) \<times> kheap" where
  "socketpair_fds t domain sock_type h =
     (if domain \<noteq> AF_UNIX then (Inl EAFNOSUPPORT, h)
      else if sock_type AND SOCK_TYPE_MASK \<notin> {SOCK_STREAM, SOCK_DGRAM, SOCK_SEQPACKET} then (Inl EPROTONOSUPPORT, h)
      else let (ab, h) = pipe_new h; (ba, h) = pipe_new h; cloexec = (sock_type AND SOCK_CLOEXEC \<noteq> 0) in
        case install_fd t (BSocketPair ba ab) O_RDWR cloexec h of
          (Inl e, h) \<Rightarrow> (Inl e, h)
        | (Inr fd_a, h) \<Rightarrow>
            (case install_fd t (BSocketPair ab ba) O_RDWR cloexec h of
               (Inl e, h) \<Rightarrow> (Inl e, h)
             | (Inr fd_b, h) \<Rightarrow> (Inr (fd_a, fd_b), h)))"

definition EFD_SEMAPHORE :: u64 where "EFD_SEMAPHORE = 1"

definition sys_eventfd :: "nat \<Rightarrow> u64 \<Rightarrow> u64 \<Rightarrow> kheap \<Rightarrow> (errno + u64) \<times> kheap" where
  "sys_eventfd t initval flags h =
     (let (i, h) = event_new \<lparr>ev_count = initval, ev_semaphore = (flags AND EFD_SEMAPHORE \<noteq> 0), ev_activity = 0\<rparr> h
      in install_fd t (BEventFd i) (O_RDWR OR (flags AND O_NONBLOCK)) (flags AND O_CLOEXEC \<noteq> 0) h)"

definition sys_timerfd_create :: "nat \<Rightarrow> u64 \<Rightarrow> kheap \<Rightarrow> (errno + u64) \<times> kheap" where
  "sys_timerfd_create t flags h =
     (let (i, h) = timer_new h
      in install_fd t (BTimerFd i) (O_RDONLY OR (flags AND O_NONBLOCK)) (flags AND O_CLOEXEC \<noteq> 0) h)"

definition sys_epoll_create :: "nat \<Rightarrow> u64 \<Rightarrow> kheap \<Rightarrow> (errno + u64) \<times> kheap" where
  "sys_epoll_create t flags h =
     (let (i, h) = epoll_new h in install_fd t (BEpoll i) O_RDWR (flags AND O_CLOEXEC \<noteq> 0) h)"

end
