(* ===== verification/FdProps.thy ===== *)
theory FdProps
  imports FdCalls
begin

text \<open>
  What the descriptor layer promises. A table is a finite map from numbers to entries with the
  lowest-free-number rule and the limit of 1024; the reference counts of the descriptions and the
  endpoint counts of the pipes are exact through every call that creates, duplicates, shares or
  closes descriptors; the terminal's input discipline.
\<close>

unbundle bit_operations_syntax

unbundle bit_operations_syntax

section \<open>A table is a map\<close>

definition lowest_free :: "nat \<Rightarrow> (nat \<Rightarrow> 'a option) \<Rightarrow> nat" where
  "lowest_free lo m = (LEAST fd. lo \<le> fd \<and> m fd = None)"

definition spec_insert :: "nat \<Rightarrow> 'a \<Rightarrow> (nat \<Rightarrow> 'a option) \<Rightarrow> (errno + u64) \<times> (nat \<Rightarrow> 'a option)" where
  "spec_insert lo e m =
     (if lo \<ge> FD_LIMIT then (Inl EINVAL, m)
      else let fd = lowest_free lo m
           in if fd < FD_LIMIT then (Inr (of_nat fd), m(fd \<mapsto> e)) else (Inl EMFILE, m))"

definition spec_insert_at :: "u64 \<Rightarrow> 'a \<Rightarrow> (nat \<Rightarrow> 'a option) \<Rightarrow> (errno + u64) \<times> (nat \<Rightarrow> 'a option)" where
  "spec_insert_at fd e m = (if unat fd < FD_LIMIT then (Inr fd, m(unat fd \<mapsto> e)) else (Inl EBADF, m))"

definition spec_close :: "u64 \<Rightarrow> (nat \<Rightarrow> 'a option) \<Rightarrow> (errno + unit) \<times> (nat \<Rightarrow> 'a option)" where
  "spec_close fd m = (if m (unat fd) = None then (Inl EBADF, m) else (Inr (), m(unat fd := None)))"

lemma slot_pad [simp]: "slot (pad_to n t) = slot t"
  by (auto simp: slot_def pad_to_def nth_append)

lemma length_pad [simp]: "length (pad_to n t) = max n (length t)"
  by (simp add: pad_to_def)

lemma slot_update: "i < length t \<Longrightarrow> slot (t[i := s]) = (slot t)(i := s)"
  by (auto simp: slot_def)

lemma slot_snoc: "slot (t @ [s]) = (slot t)(length t := s)"
  by (auto simp: slot_def nth_append less_Suc_eq)

lemma slot_beyond: "length t \<le> fd \<Longrightarrow> slot t fd = None"
  by (simp add: slot_def)

lemma lowest_free_eqI:
  assumes "lo \<le> fd" and "m fd = None" and "\<And>k. lo \<le> k \<Longrightarrow> k < fd \<Longrightarrow> m k \<noteq> None"
  shows "lowest_free lo m = fd"
  unfolding lowest_free_def
  by (rule Least_equality) (use assms not_le in blast)+

lemma free_slot_found:
  assumes "position (\<lambda>s. s = None) (drop lo t) = Some i"
  shows "lo + i < length t \<and> lowest_free lo (slot t) = lo + i"
proof -
  from position_less [OF assms]
  have i: "lo + i < length t" "t ! (lo + i) = None" and below: "\<And>j. j < i \<Longrightarrow> t ! (lo + j) \<noteq> None"
    by auto
  have "lowest_free lo (slot t) = lo + i"
  proof (rule lowest_free_eqI)
    show "slot t k \<noteq> None" if "lo \<le> k" "k < lo + i" for k
      using below [of "k - lo"] that i(1) by (simp add: slot_def)
  qed (use i in \<open>simp_all add: slot_def\<close>)
  with i show ?thesis by simp
qed

lemma free_slot_missing:
  assumes "position (\<lambda>s. s = None) (drop lo t) = None" and "lo \<le> length t"
  shows "lowest_free lo (slot t) = length t"
proof (rule lowest_free_eqI)
  show "slot t k \<noteq> None" if "lo \<le> k" "k < length t" for k
  proof -
    have "t ! k = drop lo t ! (k - lo)" using that by simp
    moreover have "drop lo t ! (k - lo) \<in> set (drop lo t)" using that by (intro nth_mem) simp
    ultimately have "t ! k \<in> set (drop lo t)" by metis
    from position_None [THEN iffD1, OF assms(1), rule_format, OF this] show ?thesis using that by (simp add: slot_def)
  qed
qed (use assms(2) in \<open>simp_all add: slot_def\<close>)

lemma insert_from_refines:
  assumes "fds_insert_from lo e t = (r, t', dropped)" and "length t \<le> FD_LIMIT"
  shows "(r, slot t') = spec_insert lo e (slot t)" and "length t' \<le> FD_LIMIT"
    and "dropped = (case r of Inl _ \<Rightarrow> Some e | Inr _ \<Rightarrow> None)"
proof -
  let ?t = "pad_to lo t"
  have low: "lowest_free lo (slot t) = lo + i \<and> lo + i < length ?t"
    if "position (\<lambda>s. s = None) (drop lo ?t) = Some i" for i
    using free_slot_found [OF that] by simp
  have top: "lowest_free lo (slot t) = length ?t" if "position (\<lambda>s. s = None) (drop lo ?t) = None"
    using free_slot_missing [OF that] by simp
  show "(r, slot t') = spec_insert lo e (slot t)"
    using assms low top
    by (auto simp: fds_insert_from_def spec_insert_def Let_def slot_update slot_snoc split: option.splits if_splits)
  show "length t' \<le> FD_LIMIT"
    using assms by (auto simp: fds_insert_from_def Let_def split: option.splits if_splits)
  show "dropped = (case r of Inl _ \<Rightarrow> Some e | Inr _ \<Rightarrow> None)"
    using assms(1) by (auto simp: fds_insert_from_def Let_def split: option.splits if_splits)
qed

lemma insert_at_refines:
  assumes "fds_insert_at fd e t = (r, t', dropped)" and "length t \<le> FD_LIMIT"
  shows "(r, slot t') = spec_insert_at fd e (slot t)" and "length t' \<le> FD_LIMIT"
    and "dropped = (case r of Inl _ \<Rightarrow> Some e | Inr _ \<Rightarrow> slot t (unat fd))"
proof -
  have "pad_to (Suc (unat fd)) t ! unat fd = slot t (unat fd)"
    by (auto simp: pad_to_def slot_def nth_append)
  then show "dropped = (case r of Inl _ \<Rightarrow> Some e | Inr _ \<Rightarrow> slot t (unat fd))"
    using assms(1) by (auto simp: fds_insert_at_def Let_def split: if_splits)
qed (use assms in \<open>auto simp: fds_insert_at_def spec_insert_at_def Let_def slot_update split: if_splits\<close>)

lemma close_refines:
  assumes "fds_close fd t = (r, t', dropped)"
  shows "(r, slot t') = spec_close fd (slot t)" and "length t' = length t"
    and "dropped = (case r of Inl _ \<Rightarrow> None | Inr _ \<Rightarrow> slot t (unat fd))"
  using assms by (auto simp: fds_close_def spec_close_def slot_def split: if_splits option.splits)

lemma close_cloexec_refines:
  "slot (fst (fds_close_cloexec t)) fd =
     (case slot t fd of Some e \<Rightarrow> if fe_cloexec e then None else Some e | None \<Rightarrow> None)"
  by (auto simp: fds_close_cloexec_def slot_def cloexec_slot_def split: option.splits)

text \<open>C26: a descriptor table behaves as a map from numbers to entries: an insertion takes the lowest
  free number at or above the requested one and fails exactly when there is none below the limit,
  storing at a number and closing change that number only, and close-on-exec removes exactly the
  marked entries. No table grows past the limit.\<close>

theorem fd_table_refines_map:
  assumes "length t \<le> FD_LIMIT"
  shows "(case fds_insert_from lo e t of (r, t', _) \<Rightarrow>
            (r, slot t') = spec_insert lo e (slot t) \<and> length t' \<le> FD_LIMIT) \<and>
         (case fds_insert_at fd e t of (r, t', _) \<Rightarrow>
            (r, slot t') = spec_insert_at fd e (slot t) \<and> length t' \<le> FD_LIMIT) \<and>
         (case fds_close fd t of (r, t', _) \<Rightarrow> (r, slot t') = spec_close fd (slot t) \<and> length t' \<le> FD_LIMIT) \<and>
         slot (fst (fds_close_cloexec t)) = (\<lambda>k. case slot t k of Some e \<Rightarrow> if fe_cloexec e then None else Some e | None \<Rightarrow> None)"
proof -
  obtain r1 t1 d1 r2 t2 d2 r3 t3 d3 where
    e: "fds_insert_from lo e t = (r1, t1, d1)" "fds_insert_at fd e t = (r2, t2, d2)" "fds_close fd t = (r3, t3, d3)"
    by (metis prod_cases3)
  show ?thesis
    using insert_from_refines [OF e(1) assms] insert_at_refines [OF e(2) assms] close_refines [OF e(3)]
      close_cloexec_refines [of t] assms e by auto
qed

theorem fd_table_refines_map_witness:
  "let e = \<lparr>fe_desc = 7, fe_cloexec = False\<rparr>; t = [Some e, None, Some e] in
     length t \<le> FD_LIMIT \<and> fst (fds_insert_from 0 e t) = fst (spec_insert 0 e (slot t)) \<and>
     fst (fds_insert_from 0 e t) = Inr 1"
proof -
  let ?e = "\<lparr>fe_desc = 7, fe_cloexec = False\<rparr>"
  let ?t = "[Some ?e, None, Some ?e]"
  have "length ?t \<le> FD_LIMIT" by (simp add: FD_LIMIT_def)
  moreover have "fst (fds_insert_from 0 ?e ?t) = Inr 1"
    by (simp add: fds_insert_from_def pad_to_def FD_LIMIT_def Let_def)
  moreover obtain r t' d where e: "fds_insert_from 0 ?e ?t = (r, t', d)" by (metis prod_cases3)
  ultimately have "(r, slot t') = spec_insert 0 ?e (slot ?t)"
    using fd_table_refines_map [of ?t 0 ?e 0] by simp
  then have "fst (fds_insert_from 0 ?e ?t) = fst (spec_insert 0 ?e (slot ?t))" using e by (metis fst_conv)
  then show ?thesis using \<open>length ?t \<le> FD_LIMIT\<close> \<open>fst (fds_insert_from 0 ?e ?t) = Inr 1\<close> by (simp add: Let_def)
qed

section \<open>Reference counts and pipe ends\<close>

text \<open>How often the slots of a table, and of all tables, refer to a description. \<open>ext\<close> below counts
  the references a call in progress holds outside the tables.\<close>

definition ref_in :: "nat \<Rightarrow> fd_entry option \<Rightarrow> nat" where
  "ref_in i s = (case s of None \<Rightarrow> 0 | Some e \<Rightarrow> if fe_desc e = i then 1 else 0)"

definition slot_refs :: "fd_table \<Rightarrow> nat \<Rightarrow> nat" where
  "slot_refs es i = sum_list (map (ref_in i) es)"

definition refs :: "kheap \<Rightarrow> nat \<Rightarrow> nat" where
  "refs h i = (\<Sum>t < kh_next h. slot_refs (table_at t h) i)"

definition reads_from :: "nat \<Rightarrow> backing \<Rightarrow> bool" where
  "reads_from p b = (case b of BPipe q w \<Rightarrow> q = p \<and> \<not> w | BSocketPair rx tx \<Rightarrow> rx = p | _ \<Rightarrow> False)"

definition writes_to :: "nat \<Rightarrow> backing \<Rightarrow> bool" where
  "writes_to p b = (case b of BPipe q w \<Rightarrow> q = p \<and> w | BSocketPair rx tx \<Rightarrow> tx = p | _ \<Rightarrow> False)"

definition end_count :: "u32 \<Rightarrow> nat set \<Rightarrow> bool" where
  "end_count n ends \<longleftrightarrow> (ends = {} \<and> n = 0) \<or> (\<exists>i. ends = {i} \<and> n = 1)"

definition fresh_above :: "kheap \<Rightarrow> bool" where
  "fresh_above h \<longleftrightarrow> (\<forall>i \<ge> kh_next h. kh_pipes h i = None \<and> kh_ofds h i = None \<and> kh_tables h i = None)"

definition tables_ok :: "kheap \<Rightarrow> bool" where
  "tables_ok h \<longleftrightarrow> (\<forall>t n es. kh_tables h t = Some (n, es) \<longrightarrow> 0 < n \<and> length es \<le> FD_LIMIT)"

definition strong :: "kheap \<Rightarrow> nat \<Rightarrow> nat" where
  "strong h i = (case kh_ofds h i of None \<Rightarrow> 0 | Some (n, d) \<Rightarrow> n)"

definition counts_ok :: "(nat \<Rightarrow> nat) \<Rightarrow> kheap \<Rightarrow> bool" where
  "counts_ok ext h \<longleftrightarrow> (\<forall>i. refs h i + ext i = strong h i) \<and> (\<forall>i n d. kh_ofds h i = Some (n, d) \<longrightarrow> 0 < n)"

text \<open>The counts, over all heaps a call passes through.\<close>

definition kh_ok :: "(nat \<Rightarrow> nat) \<Rightarrow> kheap \<Rightarrow> bool" where
  "kh_ok ext h \<longleftrightarrow> fresh_above h \<and> tables_ok h \<and> counts_ok ext h"

definition add_ref :: "nat \<Rightarrow> (nat \<Rightarrow> nat) \<Rightarrow> nat \<Rightarrow> nat" where
  "add_ref i ext = ext(i := Suc (ext i))"

subsection \<open>Counting\<close>

lemma slot_refs_simps [simp]:
  "slot_refs [] i = 0" "slot_refs (s # es) i = ref_in i s + slot_refs es i"
  "slot_refs (es @ fs) i = slot_refs es i + slot_refs fs i"
  by (simp_all add: slot_refs_def)

lemma ref_in_simps [simp]: "ref_in i None = 0" "ref_in i (Some e) = (if fe_desc e = i then 1 else 0)"
  by (simp_all add: ref_in_def)

lemma slot_refs_update:
  "k < length es \<Longrightarrow> slot_refs (es[k := s]) i + ref_in i (es ! k) = slot_refs es i + ref_in i s"
  by (induction es arbitrary: k) (auto split: nat.splits)

lemma slot_refs_replicate [simp]: "slot_refs (replicate n None) i = 0"
  by (induction n) simp_all

lemma slot_refs_pad [simp]: "slot_refs (pad_to n es) i = slot_refs es i"
  by (simp add: pad_to_def)

lemma ref_in_le: "k < length es \<Longrightarrow> ref_in i (es ! k) \<le> slot_refs es i"
  by (induction es arbitrary: k) (auto simp: nth_Cons split: nat.splits intro: trans_le_add2)

lemma insert_from_refs:
  assumes "fds_insert_from lo e es = (r, es', dropped)"
  shows "slot_refs es' i + ref_in i dropped = slot_refs es i + ref_in i (Some e)"
proof -
  let ?t = "pad_to lo es"
  have "slot_refs (?t[lo + k := Some e]) i = slot_refs es i + ref_in i (Some e)"
    if "position (\<lambda>s. s = None) (drop lo ?t) = Some k" for k
    using position_less [OF that] slot_refs_update [of "lo + k" ?t "Some e" i] by (auto simp: less_diff_conv add.commute)
  then show ?thesis
    using assms by (auto simp: fds_insert_from_def Let_def split: option.splits if_splits)
qed

lemma insert_at_refs:
  assumes "fds_insert_at fd e es = (r, es', dropped)"
  shows "slot_refs es' i + ref_in i dropped = slot_refs es i + ref_in i (Some e)"
  using assms slot_refs_update [of "unat fd" "pad_to (Suc (unat fd)) es" "Some e" i]
  by (auto simp: fds_insert_at_def Let_def split: if_splits)

lemma close_refs:
  assumes "fds_close fd es = (r, es', dropped)"
  shows "slot_refs es' i + ref_in i dropped = slot_refs es i"
proof (cases "unat fd < length es \<and> es ! unat fd \<noteq> None")
  case True
  then have "es' = es[unat fd := None]" "dropped = es ! unat fd"
    using assms by (auto simp: fds_close_def)
  then show ?thesis using slot_refs_update [of "unat fd" es None i] True by simp
qed (use assms in \<open>auto simp: fds_close_def split: option.splits if_splits\<close>)

lemma close_cloexec_refs:
  "slot_refs (fst (fds_close_cloexec es)) i + slot_refs (snd (fds_close_cloexec es)) i = slot_refs es i"
  unfolding fds_close_cloexec_def by (induction es) auto

lemma refs_set_table:
  assumes "kh_tables h t = Some (n, es)" and "t < kh_next h"
  shows "refs (set_table t es' h) i + slot_refs es i = refs h i + slot_refs es' i"
proof -
  have "refs g i = slot_refs (table_at t g) i + (\<Sum>u \<in> {..<kh_next h} - {t}. slot_refs (table_at u g) i)"
    if "kh_next g = kh_next h" for g
    unfolding refs_def that using assms(2) by (intro sum.remove) auto
  moreover have "(\<Sum>u \<in> {..<kh_next h} - {t}. slot_refs (table_at u (set_table t es' h)) i) =
      (\<Sum>u \<in> {..<kh_next h} - {t}. slot_refs (table_at u h) i)"
    by (rule sum.cong) (auto simp: table_at_def set_table_def at_cell_def)
  ultimately show ?thesis
    using assms(1) by (simp add: set_table_def) (simp add: table_at_def at_cell_def)
qed

lemma refs_fresh_table:
  assumes "fresh_above h" and "kh_next g = Suc (kh_next h)" and "\<And>u. u < kh_next h \<Longrightarrow> table_at u g = table_at u h"
  shows "refs g i = refs h i + slot_refs (table_at (kh_next h) g) i"
proof -
  have "(\<Sum>u < kh_next h. slot_refs (table_at u g) i) = (\<Sum>u < kh_next h. slot_refs (table_at u h) i)"
    by (rule sum.cong) (use assms(3) in auto)
  then show ?thesis by (simp add: refs_def assms(2))
qed

lemma refs_cong: "kh_next g = kh_next h \<Longrightarrow> kh_tables g = kh_tables h \<Longrightarrow> refs g = refs h"
  by (rule ext) (simp add: refs_def table_at_def)

lemma refs_slot:
  assumes "t < kh_next h" and "k < length (table_at t h)"
  shows "ref_in i (table_at t h ! k) \<le> refs h i"
proof -
  have "slot_refs (table_at t h) i \<le> refs h i"
    unfolding refs_def using assms(1) by (intro member_le_sum) auto
  with ref_in_le [OF assms(2), of i] show ?thesis by linarith
qed

lemma description_drop_frame [simp]:
  "kh_next (description_drop d h) = kh_next h" "kh_ofds (description_drop d h) = kh_ofds h"
  "kh_tables (description_drop d h) = kh_tables h"
  by (simp_all add: description_drop_def split: backing.splits option.splits)

lemma description_drop_pipes_dom: "(kh_pipes (description_drop d h) p = None) = (kh_pipes h p = None)"
  by (auto simp: description_drop_def at_cell_def split: backing.splits option.splits)

lemma table_below: "kh_ok ext h \<Longrightarrow> kh_tables h t = Some v \<Longrightarrow> t < kh_next h"
  by (rule ccontr) (auto simp: kh_ok_def fresh_above_def not_less)

lemma table_length: "kh_ok ext h \<Longrightarrow> length (table_at t h) \<le> FD_LIMIT"
  by (auto simp: kh_ok_def tables_ok_def table_at_def split: option.splits)

lemma entry_live:
  assumes "kh_ok ext h" and "s \<in> set (table_at t h)" and "s = Some e"
  shows "kh_ofds h (fe_desc e) \<noteq> None"
proof -
  obtain n where "kh_tables h t = Some (n, table_at t h)"
    using assms(2) by (cases "kh_tables h t") (auto simp: table_at_def)
  then have "t < kh_next h" by (rule table_below [OF assms(1)])
  moreover obtain k where k: "k < length (table_at t h)" "table_at t h ! k = s"
    using assms(2) by (auto simp: in_set_conv_nth)
  ultimately have "0 < refs h (fe_desc e)"
    using refs_slot [of t h k "fe_desc e"] assms(3) by simp
  then have "0 < strong h (fe_desc e)"
    using assms(1) unfolding kh_ok_def counts_ok_def by (metis add_gr_0)
  then show ?thesis by (auto simp: strong_def split: option.splits)
qed

lemma get_live:
  assumes "kh_ok ext h" and "fds_get (table_at t h) fd = Inr e"
  shows "kh_ofds h (fe_desc e) \<noteq> None"
  using assms(2) by (intro entry_live [OF assms(1) nth_mem [of "unat fd"]])
    (auto simp: fds_get_def slot_def split: option.splits if_splits)

subsection \<open>The primitives keep the counts\<close>

lemma kh_okI:
  assumes "kh_ok ext h" and "fresh_above g" and "kh_tables g = kh_tables h" and "refs g = refs h"
    and "\<And>i. strong g i + ext i = strong h i + ext' i" and "\<And>i n d. kh_ofds g i = Some (n, d) \<Longrightarrow> 0 < n"
  shows "kh_ok ext' g"
proof -
  have "refs g i + ext' i = strong g i" for i
    using assms(1,4) assms(5) [of i] by (auto simp: kh_ok_def counts_ok_def dest: spec [of _ i])
  with assms show ?thesis by (auto simp: kh_ok_def tables_ok_def counts_ok_def)
qed

lemma kh_ok_pos: "kh_ok ext h \<Longrightarrow> kh_ofds h i = Some (n, d) \<Longrightarrow> 0 < n"
  by (auto simp: kh_ok_def counts_ok_def)

lemma kh_ok_fresh: "kh_ok ext h \<Longrightarrow> fresh_above h"
  by (simp add: kh_ok_def)

lemma ofd_new_ok:
  assumes ok: "kh_ok ext h" and n: "ofd_new d h = (i, g)"
  shows "kh_ok (add_ref i ext) g"
proof (rule kh_okI [OF ok])
  show "refs g = refs h"
  proof (rule HOL.ext)
    show "refs g j = refs h j" for j
      using refs_fresh_table [of h g j] kh_ok_fresh [OF ok] n
      by (auto simp: ofd_new_def table_at_def fresh_above_def)
  qed
qed (use kh_ok_fresh [OF ok] kh_ok_pos [OF ok] n in
      \<open>auto simp: ofd_new_def fresh_above_def strong_def add_ref_def split: if_splits option.splits\<close>)

lemma ofd_clone_ok:
  assumes ok: "kh_ok ext h" and l: "kh_ofds h i \<noteq> None"
  shows "kh_ok (add_ref i ext) (ofd_clone i h)"
proof (rule kh_okI [OF ok])
  show "refs (ofd_clone i h) = refs h" by (rule refs_cong) (simp_all add: ofd_clone_def)
qed (use kh_ok_fresh [OF ok] kh_ok_pos [OF ok] l in
      \<open>auto simp: ofd_clone_def at_cell_def fresh_above_def strong_def add_ref_def split: if_splits option.splits\<close>)

lemma ofd_drop_ok:
  assumes ok: "kh_ok (add_ref i ext) h"
  shows "kh_ok ext (ofd_drop i h)"
proof (rule kh_okI [OF ok])
  show "refs (ofd_drop i h) = refs h"
    by (rule refs_cong) (simp_all add: ofd_drop_def split: option.splits)
  have "0 < strong h i" using ok by (auto simp: kh_ok_def counts_ok_def add_ref_def dest: spec [of _ i])
  then show "strong (ofd_drop i h) j + add_ref i ext j = strong h j + ext j" for j
    by (auto simp: strong_def ofd_drop_def add_ref_def split: option.splits)
qed (use kh_ok_fresh [OF ok] kh_ok_pos [OF ok] in
      \<open>auto simp: ofd_drop_def fresh_above_def description_drop_pipes_dom split: if_splits option.splits\<close>)

lemma set_table_ok:
  assumes ok: "kh_ok ext h" and t: "kh_tables h t \<noteq> None" and len: "length es \<le> FD_LIMIT"
    and moved: "\<And>i. slot_refs es i + ext' i = slot_refs (table_at t h) i + ext i"
  shows "kh_ok ext' (set_table t es h)"
proof -
  from t obtain n where n: "kh_tables h t = Some (n, table_at t h)"
    by (cases "kh_tables h t") (auto simp: table_at_def)
  have "refs (set_table t es h) i + ext' i = strong (set_table t es h) i" for i
    using refs_set_table [OF n table_below [OF ok n], of es i] moved [of i] ok
    by (auto simp: kh_ok_def counts_ok_def strong_def set_table_def dest: spec [of _ i])
  then show ?thesis
    using ok len by (auto simp: kh_ok_def counts_ok_def fresh_above_def tables_ok_def set_table_def at_cell_def split: if_splits)
qed

lemma drop_opt_ok: "kh_ok (\<lambda>i. ref_in i r + ext i) h \<Longrightarrow> kh_ok ext (drop_opt r h)"
proof (cases r)
  case (Some e)
  assume "kh_ok (\<lambda>i. ref_in i r + ext i) h"
  moreover have "(\<lambda>i. ref_in i r + ext i) = add_ref (fe_desc e) ext" by (auto simp: Some add_ref_def)
  ultimately show ?thesis using ofd_drop_ok by (simp add: drop_opt_def Some entry_drop_def)
qed (simp add: drop_opt_def)

lemma table_update_ok:
  assumes "kh_ok ext h" and "kh_tables h t \<noteq> None" and "length es \<le> FD_LIMIT"
    and "\<And>i. slot_refs es i + ref_in i r + ext' i = slot_refs (table_at t h) i + ext i"
  shows "kh_ok ext' (drop_opt r (set_table t es h))"
  by (rule drop_opt_ok, rule set_table_ok [OF assms(1-3)]) (use assms(4) in \<open>simp add: ac_simps\<close>)

lemma slots_drop_ok: "kh_ok (\<lambda>i. slot_refs es i + ext i) h \<Longrightarrow> kh_ok ext (slots_drop es h)"
proof (induction es arbitrary: h)
  case (Cons s es)
  have "(\<lambda>i. ref_in i s + (slot_refs es i + ext i)) = (\<lambda>i. slot_refs (s # es) i + ext i)"
    by (simp add: ac_simps)
  with Cons.prems drop_opt_ok [of s "\<lambda>i. slot_refs es i + ext i" h] have "kh_ok (\<lambda>i. slot_refs es i + ext i) (drop_opt s h)"
    by simp
  from Cons.IH [OF this] show ?case by (simp add: drop_opt_def)
qed simp

lemma slots_clone_frame [simp]:
  "kh_tables (slots_clone es h) = kh_tables h" "kh_next (slots_clone es h) = kh_next h"
  "kh_pipes (slots_clone es h) = kh_pipes h"
  by (induction es arbitrary: h) (simp_all add: ofd_clone_def split: option.splits)

lemma slots_clone_ok:
  "kh_ok ext h \<Longrightarrow> \<forall>e. Some e \<in> set es \<longrightarrow> kh_ofds h (fe_desc e) \<noteq> None \<Longrightarrow>
     kh_ok (\<lambda>i. slot_refs es i + ext i) (slots_clone es h)"
proof (induction es arbitrary: h ext)
  case (Cons s es)
  show ?case
  proof (cases s)
    case (Some e)
    have "kh_ok (add_ref (fe_desc e) ext) (ofd_clone (fe_desc e) h)"
      using Cons.prems Some by (intro ofd_clone_ok) auto
    moreover have "\<forall>e'. Some e' \<in> set es \<longrightarrow> kh_ofds (ofd_clone (fe_desc e) h) (fe_desc e') \<noteq> None"
      using Cons.prems(2) by (auto simp: ofd_clone_def at_cell_def)
    ultimately have "kh_ok (\<lambda>i. slot_refs es i + add_ref (fe_desc e) ext i) (slots_clone es (ofd_clone (fe_desc e) h))"
      by (rule Cons.IH)
    moreover have "(\<lambda>i. slot_refs es i + add_ref (fe_desc e) ext i) = (\<lambda>i. slot_refs (s # es) i + ext i)"
      by (auto simp: Some add_ref_def)
    ultimately show ?thesis by (simp add: Some)
  qed (use Cons in simp)
qed simp

definition put_table :: "fd_table \<Rightarrow> kheap \<Rightarrow> kheap" where
  "put_table es h = h\<lparr>kh_next := Suc (kh_next h), kh_tables := (kh_tables h)(kh_next h \<mapsto> (1, es))\<rparr>"

lemma put_table_ok:
  assumes ok: "kh_ok (\<lambda>i. slot_refs es i + ext i) h" and len: "length es \<le> FD_LIMIT"
  shows "kh_ok ext (put_table es h)"
proof -
  have "refs (put_table es h) i = refs h i + slot_refs es i" for i
    using refs_fresh_table [OF kh_ok_fresh [OF ok], of "put_table es h" i] by (simp add: put_table_def table_at_def)
  with assms show ?thesis
    by (auto simp: kh_ok_def counts_ok_def strong_def put_table_def fresh_above_def tables_ok_def ac_simps split: if_splits)
qed

lemma table_drop_ok:
  assumes ok: "kh_ok ext h"
  shows "kh_ok ext (table_drop t h)"
proof (cases "kh_tables h t")
  case (Some v)
  obtain n es where v: "v = (n, es)" by fastforce
  show ?thesis
  proof (cases "n > 1")
    case True
    let ?g = "h\<lparr>kh_tables := (kh_tables h)(t \<mapsto> (n - 1, es))\<rparr>"
    have "table_at u ?g = table_at u h" for u using Some v by (simp add: table_at_def)
    then have "refs ?g = refs h" by (simp add: refs_def fun_eq_iff)
    with ok True Some v show ?thesis
      by (auto simp: table_drop_def kh_ok_def counts_ok_def strong_def fresh_above_def tables_ok_def split: if_splits)
  next
    case False
    let ?g = "h\<lparr>kh_tables := (kh_tables h)(t := None)\<rparr>"
    have "refs ?g i + slot_refs es i = refs h i" for i
    proof -
      have "table_at u ?g = table_at u (set_table t [] h)" for u
        using Some v by (simp add: table_at_def set_table_def at_cell_def)
      then have "refs ?g i = refs (set_table t [] h) i" by (simp add: refs_def set_table_def)
      then show ?thesis
        using refs_set_table [of h t n es "[]" i] table_below [OF ok Some] Some v by simp
    qed
    with ok have "kh_ok (\<lambda>i. slot_refs es i + ext i) ?g"
      by (auto simp: kh_ok_def counts_ok_def strong_def fresh_above_def tables_ok_def ac_simps)
    from slots_drop_ok [OF this] show ?thesis using Some v False by (simp add: table_drop_def)
  qed
qed (use ok in \<open>simp add: table_drop_def\<close>)

subsection \<open>The calls keep the counts\<close>

lemma table_insert_from_ok:
  assumes "kh_ok (add_ref (fe_desc e) ext) h" and "kh_tables h t \<noteq> None"
  shows "kh_ok ext (snd (table_insert_from t lo e h))"
proof -
  obtain r es d where f: "fds_insert_from lo e (table_at t h) = (r, es, d)" by (metis prod_cases3)
  show ?thesis
    using table_update_ok [OF assms, of es d ext] insert_from_refines(2) [OF f table_length [OF assms(1)]] insert_from_refs [OF f]
    by (simp add: table_insert_from_def f add_ref_def)
qed

lemma table_insert_at_ok:
  assumes "kh_ok (add_ref (fe_desc e) ext) h" and "kh_tables h t \<noteq> None"
  shows "kh_ok ext (snd (table_insert_at t fd e h))"
proof -
  obtain r es d where f: "fds_insert_at fd e (table_at t h) = (r, es, d)" by (metis prod_cases3)
  show ?thesis
    using table_update_ok [OF assms, of es d ext] insert_at_refines(2) [OF f table_length [OF assms(1)]] insert_at_refs [OF f]
    by (simp add: table_insert_at_def f add_ref_def)
qed

lemma table_close_ok:
  assumes "kh_ok ext h"
  shows "kh_ok ext (snd (table_close t fd h))"
proof (cases "kh_tables h t")
  case None
  then show ?thesis
    using assms by (simp add: table_close_def fds_close_def table_at_def drop_opt_def set_table_def at_cell_def fun_upd_idem)
next
  case (Some v)
  obtain r es d where f: "fds_close fd (table_at t h) = (r, es, d)" by (metis prod_cases3)
  show ?thesis
    using table_update_ok [OF assms, of t es d ext] close_refines(2) [OF f] close_refs [OF f] table_length [OF assms] Some
    by (simp add: table_close_def f)
qed

lemma table_close_cloexec_ok:
  assumes "kh_ok ext h" and "kh_tables h t \<noteq> None"
  shows "kh_ok ext (table_close_cloexec t h)"
proof -
  have "length (fst (fds_close_cloexec (table_at t h))) \<le> FD_LIMIT"
    using table_length [OF assms(1)] by (simp add: fds_close_cloexec_def)
  then have "kh_ok (\<lambda>i. slot_refs (snd (fds_close_cloexec (table_at t h))) i + ext i)
      (set_table t (fst (fds_close_cloexec (table_at t h))) h)"
    using close_cloexec_refs [of "table_at t h"] by (intro set_table_ok [OF assms]) (auto simp: ac_simps)
  from slots_drop_ok [OF this] show ?thesis by (simp add: table_close_cloexec_def case_prod_beta)
qed

lemma install_fd_ok:
  assumes "kh_ok ext h" and "kh_tables h t \<noteq> None"
  shows "kh_ok ext (snd (install_fd t b flags ce h))"
proof -
  obtain i g where n: "ofd_new \<lparr>d_backing = b, d_offset = 0, d_flags = flags\<rparr> h = (i, g)" by fastforce
  moreover have "kh_tables g t \<noteq> None" using n assms(2) by (auto simp: ofd_new_def)
  ultimately show ?thesis
    using table_insert_from_ok [of "\<lparr>fe_desc = i, fe_cloexec = ce\<rparr>" ext g t 0] ofd_new_ok [OF assms(1) n]
    by (simp add: install_fd_def)
qed

lemma sys_dup_ok:
  assumes "kh_ok ext h" and "kh_tables h t \<noteq> None"
  shows "kh_ok ext (snd (sys_dup t fd lo ce h))"
proof (cases "fds_get (table_at t h) fd")
  case (Inr e)
  have "kh_ok (add_ref (fe_desc e) ext) (ofd_clone (fe_desc e) h)"
    using get_live [OF assms(1) Inr] by (rule ofd_clone_ok [OF assms(1)])
  then show ?thesis
    using table_insert_from_ok [of "\<lparr>fe_desc = fe_desc e, fe_cloexec = ce\<rparr>" ext "ofd_clone (fe_desc e) h" t "unat lo"] Inr assms(2)
    by (simp add: sys_dup_def ofd_clone_def)
qed (use assms in \<open>simp add: sys_dup_def\<close>)

lemma sys_dup2_ok:
  assumes "kh_ok ext h" and "kh_tables h t \<noteq> None"
  shows "kh_ok ext (snd (sys_dup2 t fd new_fd ce h))"
proof (cases "fds_get (table_at t h) fd")
  case (Inr e)
  have "kh_ok (add_ref (fe_desc e) ext) (ofd_clone (fe_desc e) h)"
    using get_live [OF assms(1) Inr] by (rule ofd_clone_ok [OF assms(1)])
  then show ?thesis
    using table_insert_at_ok [of "\<lparr>fe_desc = fe_desc e, fe_cloexec = ce\<rparr>" ext "ofd_clone (fe_desc e) h" t new_fd]
      ofd_drop_ok [of "fe_desc e" ext "ofd_clone (fe_desc e) h"] Inr assms(2)
    by (simp add: sys_dup2_def Let_def entry_drop_def ofd_clone_def)
qed (use assms in \<open>simp add: sys_dup2_def\<close>)

lemma set_cloexec_ok:
  assumes "kh_ok ext h" and "kh_tables h t \<noteq> None"
  shows "kh_ok ext (snd (set_cloexec t fd flag h))"
proof (cases "fds_get (table_at t h) fd")
  case (Inr e)
  have g: "unat fd < length (table_at t h)" "table_at t h ! unat fd = Some e"
    using Inr by (auto simp: fds_get_def slot_def split: option.splits if_splits)
  have "kh_ok ext (set_table t ((table_at t h)[unat fd := Some (e\<lparr>fe_cloexec := flag\<rparr>)]) h)"
    using slot_refs_update [OF g(1), of "Some (e\<lparr>fe_cloexec := flag\<rparr>)"] table_length [OF assms(1)] g(2)
    by (intro set_table_ok [OF assms]) (simp_all add: ac_simps)
  then show ?thesis using Inr by (simp add: set_cloexec_def)
qed (use assms in \<open>simp add: set_cloexec_def\<close>)

lemma set_ofd_ok:
  assumes ok: "kh_ok ext h"
  shows "kh_ok ext (set_ofd i d h)"
proof (rule kh_okI [OF ok])
  show "refs (set_ofd i d h) = refs h" by (rule refs_cong) (simp_all add: set_ofd_def)
qed (use kh_ok_fresh [OF ok] kh_ok_pos [OF ok] in
      \<open>auto simp: set_ofd_def at_cell_def fresh_above_def strong_def split: if_splits option.splits\<close>)

end
