(* ===== verification/FdEnds.thy ===== *)
theory FdEnds
  imports FdProps
begin

text \<open>
  The endpoint counts of pipes and socket pairs. Each live description of an end is counted, so the
  end of file and the broken pipe are seen exactly when the last descriptor on the other end is gone,
  whatever mix of duplication, forks, execs and closes led there.
\<close>

unbundle bit_operations_syntax

subsection \<open>The ends of the pipes\<close>

definition backing_at :: "kheap \<Rightarrow> nat \<Rightarrow> backing option" where
  "backing_at h i = map_option (\<lambda>v. d_backing (snd v)) (kh_ofds h i)"

definition ends_at :: "kheap \<Rightarrow> nat \<Rightarrow> (u32 \<times> u32) option" where
  "ends_at h p = map_option (\<lambda>inner. (pi_readers inner, pi_writers inner)) (kh_pipes h p)"

text \<open>The counts of a pipe that some live description still refers to are the numbers of live
  descriptions of its two ends, and there is at most one of each.\<close>

definition ends_spec :: "(nat \<Rightarrow> backing option) \<Rightarrow> (nat \<Rightarrow> (u32 \<times> u32) option) \<Rightarrow> bool" where
  "ends_spec bk en \<longleftrightarrow> (\<forall>i rx tx. bk i = Some (BSocketPair rx tx) \<longrightarrow> rx \<noteq> tx) \<and>
     (\<forall>p. let rs = {i. \<exists>b. bk i = Some b \<and> reads_from p b}; ws = {i. \<exists>b. bk i = Some b \<and> writes_to p b} in
        case en p of None \<Rightarrow> rs = {} \<and> ws = {} | Some (r, w) \<Rightarrow> rs \<union> ws \<noteq> {} \<longrightarrow> end_count r rs \<and> end_count w ws)"

definition ends_ok :: "kheap \<Rightarrow> bool" where
  "ends_ok h = ends_spec (backing_at h) (ends_at h)"

lemma backing_at_cong: "kh_ofds g = kh_ofds h \<Longrightarrow> backing_at g = backing_at h"
  by (simp add: backing_at_def fun_eq_iff)

lemma ends_at_cong: "kh_pipes g = kh_pipes h \<Longrightarrow> ends_at g = ends_at h"
  by (simp add: ends_at_def fun_eq_iff)

lemma ends_ok_frame: "kh_ofds g = kh_ofds h \<Longrightarrow> kh_pipes g = kh_pipes h \<Longrightarrow> ends_ok g = ends_ok h"
  by (simp add: ends_ok_def backing_at_cong [of g h] ends_at_cong [of g h])

text \<open>What a drop does to the two counts of every pipe.\<close>

definition drop_ends :: "backing \<Rightarrow> (nat \<Rightarrow> (u32 \<times> u32) option) \<Rightarrow> nat \<Rightarrow> (u32 \<times> u32) option" where
  "drop_ends b en p = map_option (\<lambda>(r, w). (if reads_from p b then saturating_sub r 1 else r,
     if writes_to p b then saturating_sub w 1 else w)) (en p)"

lemma ends_description_drop: "ends_at (description_drop d h) = drop_ends (d_backing d) (ends_at h)"
  by (auto simp: fun_eq_iff ends_at_def drop_ends_def description_drop_def at_cell_def reads_from_def writes_to_def
      pipe_drop_reader_def pipe_drop_writer_def option.map_comp comp_def split: backing.splits option.splits)

lemma backing_description_drop [simp]: "backing_at (description_drop d h) = backing_at h"
  by (simp add: backing_at_def fun_eq_iff)

lemma ends_spec_drop:
  assumes "ends_spec bk en" and "bk i = Some b"
  shows "ends_spec (bk(i := None)) (drop_ends b en)"
proof -
  have s: "\<And>j rx tx. bk j = Some (BSocketPair rx tx) \<Longrightarrow> rx \<noteq> tx" using assms(1) by (simp add: ends_spec_def)
  have p: "let rs = {j. \<exists>c. (bk(i := None)) j = Some c \<and> reads_from p c}; ws = {j. \<exists>c. (bk(i := None)) j = Some c \<and> writes_to p c}
    in case drop_ends b en p of None \<Rightarrow> rs = {} \<and> ws = {} | Some (r, w) \<Rightarrow> rs \<union> ws \<noteq> {} \<longrightarrow> end_count r rs \<and> end_count w ws" for p
  proof -
    define rs ws where "rs = {j. \<exists>c. bk j = Some c \<and> reads_from p c}" and "ws = {j. \<exists>c. bk j = Some c \<and> writes_to p c}"
    have sub: "{j. \<exists>c. (bk(i := None)) j = Some c \<and> reads_from p c} = rs - {i}"
      "{j. \<exists>c. (bk(i := None)) j = Some c \<and> writes_to p c} = ws - {i}"
      by (auto simp: rs_def ws_def)
    have mem: "i \<in> rs \<longleftrightarrow> reads_from p b" "i \<in> ws \<longleftrightarrow> writes_to p b" using assms(2) by (auto simp: rs_def ws_def)
    have old: "case en p of None \<Rightarrow> rs = {} \<and> ws = {} | Some (r, w) \<Rightarrow> rs \<union> ws \<noteq> {} \<longrightarrow> end_count r rs \<and> end_count w ws"
      using assms(1) unfolding ends_spec_def Let_def rs_def ws_def by (elim conjE) (erule spec)
    show ?thesis
      unfolding sub Let_def
      using old mem by (auto simp: drop_ends_def end_count_def saturating_sub_def split: option.splits)
  qed
  show ?thesis using s p by (auto simp: ends_spec_def split: if_splits)
qed

lemma ofd_drop_ends:
  assumes "ends_ok h"
  shows "ends_ok (ofd_drop i h)"
proof (cases "kh_ofds h i")
  case (Some v)
  obtain n d where v: "v = (n, d)" by fastforce
  show ?thesis
  proof (cases "n > 1")
    case True
    then have "backing_at (ofd_drop i h) = backing_at h" "ends_at (ofd_drop i h) = ends_at h"
      using Some v by (auto simp: ofd_drop_def backing_at_def ends_at_def fun_eq_iff)
    then show ?thesis using assms by (simp add: ends_ok_def)
  next
    case False
    let ?g = "h\<lparr>kh_ofds := (kh_ofds h)(i := None)\<rparr>"
    have g: "ofd_drop i h = description_drop d ?g" using Some v False by (simp add: ofd_drop_def)
    have "backing_at ?g = (backing_at h)(i := None)" "ends_at ?g = ends_at h" "backing_at h i = Some (d_backing d)"
      using Some v by (auto simp: backing_at_def ends_at_def fun_eq_iff)
    then show ?thesis
      using ends_spec_drop [of "backing_at h" "ends_at h" i "d_backing d"] assms
      by (simp add: g ends_ok_def ends_description_drop)
  qed
qed (use assms in \<open>simp add: ofd_drop_def\<close>)

lemma drop_opt_ends: "ends_ok h \<Longrightarrow> ends_ok (drop_opt r h)"
  by (cases r) (simp_all add: drop_opt_def entry_drop_def ofd_drop_ends)

lemma slots_drop_ends: "ends_ok h \<Longrightarrow> ends_ok (slots_drop es h)"
  using drop_opt_ends by (induction es arbitrary: h) (auto simp: drop_opt_def)

lemma ends_cong: "backing_at g = backing_at h \<Longrightarrow> ends_at g = ends_at h \<Longrightarrow> ends_ok h \<Longrightarrow> ends_ok g"
  by (simp add: ends_ok_def)

lemma ofd_clone_ends: "ends_ok h \<Longrightarrow> ends_ok (ofd_clone i h)"
  by (rule ends_cong) (auto simp: ofd_clone_def backing_at_def ends_at_def at_cell_def fun_eq_iff option.map_comp comp_def case_prod_beta)

lemma set_table_ends [simp]: "ends_ok (set_table t es h) = ends_ok h"
  by (rule ends_ok_frame) (simp_all add: set_table_def)

lemma slots_clone_ends: "ends_ok h \<Longrightarrow> ends_ok (slots_clone es h)"
  using ofd_clone_ends by (induction es arbitrary: h) (auto split: option.splits)

definition plain :: "backing \<Rightarrow> bool" where
  "plain b \<longleftrightarrow> (\<forall>p. \<not> reads_from p b \<and> \<not> writes_to p b)"

lemma ends_spec_plain:
  assumes "ends_spec bk en" and "bk i = None" and "plain b"
  shows "ends_spec (bk(i \<mapsto> b)) en"
proof -
  have "{j. \<exists>c. (bk(i \<mapsto> b)) j = Some c \<and> reads_from p c} = {j. \<exists>c. bk j = Some c \<and> reads_from p c}"
    "{j. \<exists>c. (bk(i \<mapsto> b)) j = Some c \<and> writes_to p c} = {j. \<exists>c. bk j = Some c \<and> writes_to p c}" for p
    using assms(2,3) by (auto simp: plain_def)
  moreover have "b \<noteq> BSocketPair rx tx" for rx tx
    using assms(3) by (auto simp: plain_def reads_from_def)
  ultimately show ?thesis using assms(1) by (simp add: ends_spec_def)
qed

lemma ofd_new_ends:
  assumes "ends_ok h" and "fresh_above h" and "plain (d_backing d)" and "ofd_new d h = (i, g)"
  shows "ends_ok g"
proof -
  have "backing_at g = (backing_at h)(kh_next h \<mapsto> d_backing d)" "ends_at g = ends_at h" "backing_at h (kh_next h) = None"
    using assms(2,4) by (auto simp: ofd_new_def backing_at_def ends_at_def fun_eq_iff fresh_above_def)
  then show ?thesis using ends_spec_plain assms(1,3) by (simp add: ends_ok_def)
qed

lemma table_ops_ends:
  assumes "ends_ok h"
  shows "ends_ok (snd (table_insert_from t lo e h))" "ends_ok (snd (table_insert_at t fd e h))"
    "ends_ok (snd (table_close t fd h))" "ends_ok (table_close_cloexec t h)" "ends_ok (put_table es h)"
  using assms drop_opt_ends slots_drop_ends ends_ok_frame [of "put_table es h" h]
  by (auto simp: table_insert_from_def table_insert_at_def table_close_def table_close_cloexec_def put_table_def
      split: prod.splits)

lemma table_drop_ends: "ends_ok h \<Longrightarrow> ends_ok (table_drop t h)"
proof -
  assume "ends_ok h"
  then have "ends_ok (h\<lparr>kh_tables := f\<rparr>)" for f
    using ends_ok_frame [of "h\<lparr>kh_tables := f\<rparr>" h] by simp
  then show ?thesis using \<open>ends_ok h\<close> slots_drop_ends by (auto simp: table_drop_def split: option.splits)
qed

lemma install_fd_ends:
  assumes "ends_ok h" and "fresh_above h" and "plain b"
  shows "ends_ok (snd (install_fd t b flags ce h))"
proof -
  obtain i g where n: "ofd_new \<lparr>d_backing = b, d_offset = 0, d_flags = flags\<rparr> h = (i, g)" by fastforce
  then have "ends_ok g" using ofd_new_ends [OF assms(1,2) _ n] assms(3) by simp
  then show ?thesis using n table_ops_ends(1) by (simp add: install_fd_def)
qed

text \<open>The two outcomes of installing a descriptor, on descriptions and pipe ends.\<close>

lemma install_fd_cases:
  assumes "install_fd t b flags ce h = (r, g)" and "fresh_above h"
  shows "kh_next g = Suc (kh_next h)"
    and "case r of Inr fd \<Rightarrow> backing_at g = (backing_at h)(kh_next h \<mapsto> b) \<and> ends_at g = ends_at h
         | Inl e \<Rightarrow> backing_at g = backing_at h \<and> ends_at g = drop_ends b (ends_at h)"
proof -
  let ?e = "\<lparr>fe_desc = kh_next h, fe_cloexec = ce\<rparr>"
  let ?d = "\<lparr>d_backing = b, d_offset = 0, d_flags = flags\<rparr>"
  obtain h1 where n: "ofd_new ?d h = (kh_next h, h1)" by (simp add: ofd_new_def)
  obtain es dr where f: "fds_insert_from 0 ?e (table_at t h1) = (r, es, dr)" and g: "g = drop_opt dr (set_table t es h1)"
    using assms(1) n by (auto simp: install_fd_def table_insert_from_def split: prod.splits)
  have dr: "dr = (case r of Inl _ \<Rightarrow> Some ?e | Inr _ \<Rightarrow> None)"
    using f by (auto simp: fds_insert_from_def Let_def split: option.splits if_splits)
  have h1: "kh_next h1 = Suc (kh_next h)" "kh_ofds h1 = (kh_ofds h)(kh_next h \<mapsto> (1, ?d))" "kh_pipes h1 = kh_pipes h"
    using n by (auto simp: ofd_new_def)
  have none: "kh_ofds h (kh_next h) = None" using assms(2) by (simp add: fresh_above_def)
  show "kh_next g = Suc (kh_next h)"
    using h1 by (simp add: g dr drop_opt_def entry_drop_def ofd_drop_def set_table_def split: sum.splits option.splits)
  show "case r of Inr fd \<Rightarrow> backing_at g = (backing_at h)(kh_next h \<mapsto> b) \<and> ends_at g = ends_at h
         | Inl e \<Rightarrow> backing_at g = backing_at h \<and> ends_at g = drop_ends b (ends_at h)"
  proof (cases r)
    case (Inr fd)
    then show ?thesis
      using h1 by (auto simp: g dr drop_opt_def set_table_def backing_at_def ends_at_def fun_eq_iff)
  next
    case (Inl e)
    let ?s = "(set_table t es h1)\<lparr>kh_ofds := kh_ofds h\<rparr>"
    have "(kh_ofds h1)(kh_next h := None) = kh_ofds h" using h1 none by (auto simp: fun_eq_iff)
    then have "g = description_drop ?d ?s"
      using h1 by (simp add: g dr Inl drop_opt_def entry_drop_def ofd_drop_def set_table_def)
    moreover have "backing_at ?s = backing_at h" "ends_at ?s = ends_at h"
      using h1 by (auto simp: set_table_def backing_at_def ends_at_def fun_eq_iff)
    ultimately show ?thesis by (simp add: Inl ends_description_drop)
  qed
qed

lemma install_fd_fresh:
  assumes "install_fd t b flags ce h = (r, g)" and "fresh_above h"
  shows "fresh_above g"
proof -
  obtain h1 where n: "ofd_new \<lparr>d_backing = b, d_offset = 0, d_flags = flags\<rparr> h = (kh_next h, h1)" by (simp add: ofd_new_def)
  then have "fresh_above h1" using assms(2) by (auto simp: ofd_new_def fresh_above_def)
  then have "fresh_above (set_table t es h1)" for es by (auto simp: fresh_above_def set_table_def at_cell_def)
  moreover have "fresh_above (drop_opt dr k)" if "fresh_above k" for dr k
    using that by (auto simp: drop_opt_def entry_drop_def ofd_drop_def fresh_above_def description_drop_pipes_dom split: option.splits)
  ultimately show ?thesis
    using assms(1) n by (auto simp: install_fd_def table_insert_from_def split: prod.splits)
qed

lemma pipe_new_effect:
  assumes "pipe_new h = (p, g)"
  shows "p = kh_next h" "kh_next g = Suc (kh_next h)" "backing_at g = backing_at h" "ends_at g = (ends_at h)(kh_next h \<mapsto> (1, 1))"
    "kh_tables g = kh_tables h" "fresh_above h \<Longrightarrow> fresh_above g"
  using assms by (auto simp: pipe_new_def backing_at_def ends_at_def fun_eq_iff fresh_above_def)

lemma unused_pipe:
  assumes "ends_spec bk en" and "en p = None"
  shows "bk i = Some b \<Longrightarrow> \<not> reads_from p b \<and> \<not> writes_to p b"
  using assms unfolding ends_spec_def Let_def by (auto dest!: spec [of _ p])

text \<open>New descriptions on new pipes.\<close>

lemma ends_spec_extend:
  assumes inv: "ends_spec bk en"
    and old: "\<And>i b. bk i = Some b \<Longrightarrow> bk' i = Some b"
    and new: "\<And>i b p. bk' i = Some b \<Longrightarrow> bk i = None \<Longrightarrow> reads_from p b \<or> writes_to p b \<Longrightarrow> en p = None"
    and sock: "\<And>i rx tx. bk' i = Some (BSocketPair rx tx) \<Longrightarrow> bk i = None \<Longrightarrow> rx \<noteq> tx"
    and kept: "\<And>p. en p \<noteq> None \<Longrightarrow> en' p = en p"
    and made: "\<And>p. en p = None \<Longrightarrow>
      (let rs = {i. \<exists>b. bk' i = Some b \<and> bk i = None \<and> reads_from p b}; ws = {i. \<exists>b. bk' i = Some b \<and> bk i = None \<and> writes_to p b} in
       case en' p of None \<Rightarrow> rs = {} \<and> ws = {} | Some (r, w) \<Rightarrow> rs \<union> ws \<noteq> {} \<longrightarrow> end_count r rs \<and> end_count w ws)"
  shows "ends_spec bk' en'"
proof -
  have s: "rx \<noteq> tx" if "bk' i = Some (BSocketPair rx tx)" for i rx tx
  proof (cases "bk i")
    case (Some b)
    then show ?thesis using that old inv by (force simp: ends_spec_def)
  qed (use that sock in blast)
  have ends: "let rs = {i. \<exists>b. bk' i = Some b \<and> reads_from p b}; ws = {i. \<exists>b. bk' i = Some b \<and> writes_to p b} in
      case en' p of None \<Rightarrow> rs = {} \<and> ws = {} | Some (r, w) \<Rightarrow> rs \<union> ws \<noteq> {} \<longrightarrow> end_count r rs \<and> end_count w ws" for p
  proof (cases "en p")
    case None
    have "bk i = None" if "bk' i = Some b" "reads_from p b \<or> writes_to p b" for i b
      using unused_pipe [OF inv None] old that by (metis not_Some_eq option.inject)
    then have "{i. \<exists>b. bk' i = Some b \<and> reads_from p b} = {i. \<exists>b. bk' i = Some b \<and> bk i = None \<and> reads_from p b}"
      "{i. \<exists>b. bk' i = Some b \<and> writes_to p b} = {i. \<exists>b. bk' i = Some b \<and> bk i = None \<and> writes_to p b}"
      by blast+
    then show ?thesis using made [OF None] by simp
  next
    case (Some c)
    have same: "bk i = Some b" if "bk' i = Some b" "reads_from p b \<or> writes_to p b" for i b
      using new [OF that(1) _ that(2)] old [of i] Some that(1) by (metis option.distinct(1) option.exhaust)
    have "{i. \<exists>b. bk' i = Some b \<and> reads_from p b} = {i. \<exists>b. bk i = Some b \<and> reads_from p b}"
      "{i. \<exists>b. bk' i = Some b \<and> writes_to p b} = {i. \<exists>b. bk i = Some b \<and> writes_to p b}"
      using old same by blast+
    moreover have "let rs = {i. \<exists>b. bk i = Some b \<and> reads_from p b}; ws = {i. \<exists>b. bk i = Some b \<and> writes_to p b} in
      case en p of None \<Rightarrow> rs = {} \<and> ws = {} | Some (r, w) \<Rightarrow> rs \<union> ws \<noteq> {} \<longrightarrow> end_count r rs \<and> end_count w ws"
      using inv unfolding ends_spec_def by (elim conjE) (erule spec)
    ultimately show ?thesis using kept [of p] Some by simp
  qed
  show ?thesis unfolding ends_spec_def using s ends by blast
qed

lemma end_count_simps [simp]: "end_count 0 {}" "end_count 1 {i}"
  by (auto simp: end_count_def)

lemma fresh_at:
  assumes "fresh_above h" and "kh_next h \<le> i"
  shows "backing_at h i = None" "ends_at h i = None"
  using assms by (auto simp: backing_at_def ends_at_def fresh_above_def)

lemma ends_spec_idle:
  assumes "ends_spec bk en" and "\<And>p. en p \<noteq> None \<Longrightarrow> en' p = en p"
  shows "ends_spec bk en'"
  using assms(2) by (intro ends_spec_extend [OF assms(1)]) (auto split: option.splits)

lemma ends_spec_pipe:
  assumes inv: "ends_spec bk en" and "en p = None" and "bk i = None" and "bk j = None" and "i \<noteq> j"
  shows "ends_spec (bk(i \<mapsto> BPipe p False)) (en(p \<mapsto> (1, 0)))"
    and "ends_spec (bk(i \<mapsto> BPipe p False, j \<mapsto> BPipe p True)) (en(p \<mapsto> (1, 1)))"
proof -
  let ?one = "bk(i \<mapsto> BPipe p False)" and ?two = "bk(i \<mapsto> BPipe p False, j \<mapsto> BPipe p True)"
  have sets: "{k. \<exists>b. ?one k = Some b \<and> bk k = None \<and> reads_from q b} = (if q = p then {i} else {})"
    "{k. \<exists>b. ?one k = Some b \<and> bk k = None \<and> writes_to q b} = {}"
    "{k. \<exists>b. ?two k = Some b \<and> bk k = None \<and> reads_from q b} = (if q = p then {i} else {})"
    "{k. \<exists>b. ?two k = Some b \<and> bk k = None \<and> writes_to q b} = (if q = p then {j} else {})" for q
    using assms(3-5) by (auto simp: reads_from_def writes_to_def split: if_splits)
  show "ends_spec ?one (en(p \<mapsto> (1, 0)))"
    by (rule ends_spec_extend [OF inv], unfold Let_def sets)
      (use assms(2-5) in \<open>auto simp: reads_from_def writes_to_def split: if_splits\<close>)
  show "ends_spec ?two (en(p \<mapsto> (1, 1)))"
    by (rule ends_spec_extend [OF inv], unfold Let_def sets)
      (use assms(2-5) in \<open>auto simp: reads_from_def writes_to_def split: if_splits\<close>)
qed

lemma ends_spec_sockets:
  assumes inv: "ends_spec bk en" and "en p = None" and "en q = None" and "p \<noteq> q" and "bk i = None" and "bk j = None" and "i \<noteq> j"
  shows "ends_spec (bk(i \<mapsto> BSocketPair q p)) (en(p \<mapsto> (0, 1), q \<mapsto> (1, 0)))"
    and "ends_spec (bk(i \<mapsto> BSocketPair q p, j \<mapsto> BSocketPair p q)) (en(p \<mapsto> (1, 1), q \<mapsto> (1, 1)))"
proof -
  let ?one = "bk(i \<mapsto> BSocketPair q p)" and ?two = "bk(i \<mapsto> BSocketPair q p, j \<mapsto> BSocketPair p q)"
  have sets: "{k. \<exists>b. ?one k = Some b \<and> bk k = None \<and> reads_from s b} = (if s = q then {i} else {})"
    "{k. \<exists>b. ?one k = Some b \<and> bk k = None \<and> writes_to s b} = (if s = p then {i} else {})"
    "{k. \<exists>b. ?two k = Some b \<and> bk k = None \<and> reads_from s b} = (if s = q then {i} else if s = p then {j} else {})"
    "{k. \<exists>b. ?two k = Some b \<and> bk k = None \<and> writes_to s b} = (if s = p then {i} else if s = q then {j} else {})" for s
    using assms(4-7) by (auto simp: reads_from_def writes_to_def split: if_splits)
  show "ends_spec ?one (en(p \<mapsto> (0, 1), q \<mapsto> (1, 0)))"
    by (rule ends_spec_extend [OF inv], unfold Let_def sets)
      (use assms(2-7) in \<open>auto simp: reads_from_def writes_to_def split: if_splits\<close>)
  show "ends_spec ?two (en(p \<mapsto> (1, 1), q \<mapsto> (1, 1)))"
    by (rule ends_spec_extend [OF inv], unfold Let_def sets)
      (use assms(2-7) in \<open>auto simp: reads_from_def writes_to_def split: if_splits\<close>)
qed

lemma drop_ends_simps:
  "drop_ends (BPipe p False) (en(p \<mapsto> (r, w))) = en(p \<mapsto> (saturating_sub r 1, w))"
  "drop_ends (BPipe p True) (en(p \<mapsto> (r, w))) = en(p \<mapsto> (r, saturating_sub w 1))"
  "p \<noteq> q \<Longrightarrow> drop_ends (BSocketPair q p) (en(p \<mapsto> (r, w), q \<mapsto> (r', w'))) =
     en(p \<mapsto> (r, saturating_sub w 1), q \<mapsto> (saturating_sub r' 1, w'))"
  by (auto simp: fun_eq_iff drop_ends_def reads_from_def writes_to_def)
    (metis (mono_tags) case_prod_eta id_apply option.map_id0)+

lemma pipe_fds_ends:
  assumes inv: "ends_ok h" and fresh: "fresh_above h"
  shows "ends_ok (snd (pipe_fds t flags h))" and "fresh_above (snd (pipe_fds t flags h))"
proof -
  let ?p = "kh_next h"
  obtain h0 where n: "pipe_new h = (?p, h0)" by (simp add: pipe_new_def)
  note e0 = pipe_new_effect [OF n]
  obtain r1 h1 where i1: "pipe_end t ?p False flags h0 = (r1, h1)" by fastforce
  note c1 = install_fd_cases [OF i1 [unfolded pipe_end_def] e0(6) [OF fresh]] 
  note f1 = install_fd_fresh [OF i1 [unfolded pipe_end_def] e0(6) [OF fresh]]
  obtain r2 h2 where i2: "pipe_end t ?p True flags h1 = (r2, h2)" by fastforce
  note c2 = install_fd_cases [OF i2 [unfolded pipe_end_def] f1]
  note f2 = install_fd_fresh [OF i2 [unfolded pipe_end_def] f1]
  have free: "backing_at h i = None" "ends_at h i = None" if "?p \<le> i" for i using fresh_at [OF fresh that] .
  have res: "snd (pipe_fds t flags h) = (case r1 of Inl _ \<Rightarrow> h1 | Inr _ \<Rightarrow> h2)"
    using n i1 i2 by (simp add: pipe_fds_def split: sum.splits)
  then show "fresh_above (snd (pipe_fds t flags h))" using f1 f2 by (simp split: sum.splits)
  have spec: "ends_spec (backing_at h) (ends_at h)" using inv by (simp add: ends_ok_def)
  show "ends_ok (snd (pipe_fds t flags h))"
  proof (cases r1)
    case (Inl e)
    then have "backing_at h1 = backing_at h" "ends_at h1 = (ends_at h)(?p \<mapsto> (0, 1))"
      using c1(2) e0 by (simp_all add: drop_ends_simps saturating_sub_def)
    then show ?thesis
      unfolding res Inl ends_ok_def by (simp, intro ends_spec_idle [OF spec]) (use free(2) [of ?p] in auto)
  next
    case (Inr fd)
    have b1: "backing_at h1 = (backing_at h)(Suc ?p \<mapsto> BPipe ?p False)" "ends_at h1 = (ends_at h)(?p \<mapsto> (1, 1))" "kh_next h1 = Suc (Suc ?p)"
      using c1 e0 Inr by simp_all
    then have "ends_spec (backing_at h2) (ends_at h2)"
      using c2(2) ends_spec_pipe [OF spec, of ?p "Suc ?p" "Suc (Suc ?p)"] free
      by (cases r2) (simp_all add: drop_ends_simps saturating_sub_def)
    then show ?thesis by (simp add: res Inr ends_ok_def)
  qed
qed

lemma socketpair_fds_ends:
  assumes inv: "ends_ok h" and fresh: "fresh_above h"
  shows "ends_ok (snd (socketpair_fds t domain ty h))" and "fresh_above (snd (socketpair_fds t domain ty h))"
proof -
  let ?p = "kh_next h" and ?c = "ty AND SOCK_CLOEXEC \<noteq> 0"
  obtain g where n: "pipe_new h = (?p, g)" by (simp add: pipe_new_def)
  note e = pipe_new_effect [OF n]
  obtain h0 where n0: "pipe_new g = (Suc ?p, h0)" using e(2) by (simp add: pipe_new_def)
  note e0 = pipe_new_effect [OF n0] and f0 = pipe_new_effect(6) [OF n0 e(6) [OF fresh]]
  obtain r1 h1 where i1: "install_fd t (BSocketPair (Suc ?p) ?p) O_RDWR ?c h0 = (r1, h1)" by fastforce
  note c1 = install_fd_cases [OF i1 f0] and f1 = install_fd_fresh [OF i1 f0]
  obtain r2 h2 where i2: "install_fd t (BSocketPair ?p (Suc ?p)) O_RDWR ?c h1 = (r2, h2)" by fastforce
  note c2 = install_fd_cases [OF i2 f1] and f2 = install_fd_fresh [OF i2 f1]
  have free: "backing_at h i = None" "ends_at h i = None" if "?p \<le> i" for i using fresh_at [OF fresh that] .
  have res: "snd (socketpair_fds t domain ty h) \<in> {h, case r1 of Inl _ \<Rightarrow> h1 | Inr _ \<Rightarrow> h2}"
    unfolding socketpair_fds_def
    by (cases r1; cases r2; simp only: n n0 i1 i2 Let_def prod.case sum.case snd_conv split: if_split; simp)
  then show "fresh_above (snd (socketpair_fds t domain ty h))" using fresh f1 f2 by (auto split: sum.splits)
  have spec: "ends_spec (backing_at h) (ends_at h)" using inv by (simp add: ends_ok_def)
  have "ends_ok (case r1 of Inl _ \<Rightarrow> h1 | Inr _ \<Rightarrow> h2)"
  proof (cases r1)
    case (Inl x)
    then have "backing_at h1 = backing_at h" "ends_at h1 = (ends_at h)(?p \<mapsto> (1, 0), Suc ?p \<mapsto> (0, 1))"
      using c1(2) e(2-4) e0(2-4) by (simp_all add: drop_ends_simps saturating_sub_def)
    then show ?thesis
      unfolding Inl ends_ok_def by (simp, intro ends_spec_idle [OF spec]) (use free(2) [of ?p] free(2) [of "Suc ?p"] in auto)
  next
    case (Inr fd)
    have b1: "backing_at h1 = (backing_at h)(Suc (Suc ?p) \<mapsto> BSocketPair (Suc ?p) ?p)"
      "ends_at h1 = (ends_at h)(?p \<mapsto> (1, 1), Suc ?p \<mapsto> (1, 1))" "kh_next h1 = Suc (Suc (Suc ?p))"
      using c1 e(2-4) e0(2-4) Inr by simp_all
    have "drop_ends (BSocketPair ?p (Suc ?p)) (ends_at h1) = (ends_at h)(?p \<mapsto> (0, 1), Suc ?p \<mapsto> (1, 0))"
      using drop_ends_simps(3) [of "Suc ?p" ?p "ends_at h" 1 1 1 1]
      by (simp add: b1 fun_upd_twist [of ?p "Suc ?p"] saturating_sub_def)
    then have "ends_spec (backing_at h2) (ends_at h2)"
      using c2(2) b1 ends_spec_sockets [OF spec, of ?p "Suc ?p" "Suc (Suc ?p)" "Suc (Suc (Suc ?p))"] free
      by (cases r2) simp_all
    then show ?thesis by (simp add: Inr ends_ok_def)
  qed
  with res inv show "ends_ok (snd (socketpair_fds t domain ty h))" by auto
qed

subsection \<open>Every interleaving of calls\<close>

text \<open>The heaps the descriptor calls reach, in any order and from any number of tables. \<open>frame\<close>
  stands for every change of the other objects and of the data of a pipe.\<close>

definition same_ends :: "kheap \<Rightarrow> kheap \<Rightarrow> bool" where
  "same_ends h g \<longleftrightarrow> kh_next h \<le> kh_next g \<and> kh_ofds g = kh_ofds h \<and> kh_tables g = kh_tables h \<and> ends_at g = ends_at h"

inductive kh_reach :: "kheap \<Rightarrow> bool" where
  start: "kh_reach kheap_empty"
| new_table: "kh_reach h \<Longrightarrow> kh_reach (snd (table_new h))"
| thread: "kh_reach h \<Longrightarrow> kh_reach (table_share t h)"
| fork: "kh_reach h \<Longrightarrow> kh_reach (snd (table_clone t h))"
| exit: "kh_reach h \<Longrightarrow> kh_reach (table_drop t h)"
| exec: "kh_reach h \<Longrightarrow> kh_tables h t \<noteq> None \<Longrightarrow> kh_reach (table_close_cloexec t h)"
| close: "kh_reach h \<Longrightarrow> kh_reach (snd (table_close t fd h))"
| close_range: "kh_reach h \<Longrightarrow> kh_tables h t \<noteq> None \<Longrightarrow> kh_reach (snd (sys_close_range t a b flags h))"
| dup: "kh_reach h \<Longrightarrow> kh_tables h t \<noteq> None \<Longrightarrow> kh_reach (snd (sys_dup t fd lo ce h))"
| dup2: "kh_reach h \<Longrightarrow> kh_tables h t \<noteq> None \<Longrightarrow> kh_reach (snd (sys_dup2 t fd fd' ce h))"
| fcntl: "kh_reach h \<Longrightarrow> kh_tables h t \<noteq> None \<Longrightarrow> kh_reach (snd (fcntl_heap t fd cmd arg h))"
| install: "kh_reach h \<Longrightarrow> kh_tables h t \<noteq> None \<Longrightarrow> plain b \<Longrightarrow> kh_reach (snd (install_fd t b flags ce h))"
| pipe: "kh_reach h \<Longrightarrow> kh_tables h t \<noteq> None \<Longrightarrow> kh_reach (snd (pipe_fds t flags h))"
| socketpair: "kh_reach h \<Longrightarrow> kh_tables h t \<noteq> None \<Longrightarrow> kh_reach (snd (socketpair_fds t domain ty h))"
| frame: "kh_reach h \<Longrightarrow> same_ends h g \<Longrightarrow> kh_reach g"

definition kh_good :: "kheap \<Rightarrow> bool" where
  "kh_good h \<longleftrightarrow> kh_ok (\<lambda>_. 0) h \<and> ends_ok h"

lemma kh_goodD: "kh_good h \<Longrightarrow> kh_ok (\<lambda>_. 0) h" "kh_good h \<Longrightarrow> ends_ok h" "kh_good h \<Longrightarrow> fresh_above h"
  by (auto simp: kh_good_def kh_ok_def)

lemma frame_ok:
  assumes "kh_ok ext h" and "same_ends h g"
  shows "kh_ok ext g"
proof -
  have f: "fresh_above h" using assms(1) by (simp add: kh_ok_def)
  have none: "kh_tables h t = None" if "kh_next h \<le> t" for t using f that by (simp add: fresh_above_def)
  have "refs g i = refs h i" for i
  proof -
    have "refs g i = (\<Sum>t < kh_next g. slot_refs (table_at t h) i)"
      using assms(2) by (simp add: refs_def table_at_def same_ends_def)
    also have "\<dots> = (\<Sum>t < kh_next h. slot_refs (table_at t h) i)"
      using assms(2) none by (intro sum.mono_neutral_right) (auto simp: same_ends_def table_at_def not_less)
    finally show ?thesis by (simp add: refs_def)
  qed
  moreover have "kh_pipes g i = None" if "kh_next g \<le> i" for i
  proof -
    have "ends_at g i = None" using f that assms(2) by (simp add: same_ends_def ends_at_def fresh_above_def)
    then show ?thesis by (simp add: ends_at_def)
  qed
  ultimately show ?thesis
    using assms f by (auto simp: kh_ok_def counts_ok_def strong_def tables_ok_def fresh_above_def same_ends_def)
qed

lemma frame_good: "kh_good h \<Longrightarrow> same_ends h g \<Longrightarrow> kh_good g"
  using frame_ok [of "\<lambda>_. 0" h g] backing_at_cong [of g h]
  by (auto simp: kh_good_def ends_ok_def same_ends_def)

lemma pipe_new_same: "fst (pipe_new h) = kh_next h"
  by (simp add: pipe_new_def)

lemma pipe_new_ok:
  assumes "kh_ok ext h" and "pipe_new h = (p, g)"
  shows "kh_ok ext g"
proof -
  have "refs g = refs h"
  proof (rule HOL.ext)
    show "refs g i = refs h i" for i
      using refs_fresh_table [OF kh_ok_fresh [OF assms(1)], of g i] kh_ok_fresh [OF assms(1)] assms(2)
      by (auto simp: pipe_new_def table_at_def fresh_above_def)
  qed
  then show ?thesis
    using assms(2) kh_ok_fresh [OF assms(1)] kh_ok_pos [OF assms(1)]
    by (intro kh_okI [OF assms(1)]) (auto simp: pipe_new_def strong_def fresh_above_def)
qed

lemma drop_keeps_tables [simp]: "kh_tables (ofd_drop i h) = kh_tables h" "kh_tables (drop_opt r h) = kh_tables h"
  by (simp_all add: ofd_drop_def drop_opt_def entry_drop_def split: option.splits prod.splits)

lemma install_fd_table: "install_fd t b flags ce h = (r, g) \<Longrightarrow> kh_tables h u \<noteq> None \<Longrightarrow> kh_tables g u \<noteq> None"
  by (auto simp: install_fd_def ofd_new_def table_insert_from_def set_table_def at_cell_def split: prod.splits)

lemma table_close_keeps: "kh_tables h u \<noteq> None \<Longrightarrow> kh_tables (snd (table_close t fd h)) u \<noteq> None"
  by (auto simp: table_close_def set_table_def at_cell_def split: prod.splits)

lemma pipe_fds_ok:
  assumes "kh_ok ext h" and "kh_tables h t \<noteq> None"
  shows "kh_ok ext (snd (pipe_fds t flags h))"
proof -
  obtain p h0 where n: "pipe_new h = (p, h0)" by fastforce
  obtain r1 h1 where i1: "pipe_end t p False flags h0 = (r1, h1)" by fastforce
  obtain r2 h2 where i2: "pipe_end t p True flags h1 = (r2, h2)" by fastforce
  have o0: "kh_ok ext h0" and t0: "kh_tables h0 t \<noteq> None"
    using pipe_new_ok [OF assms(1) n] pipe_new_effect(5) [OF n] assms(2) by simp_all
  have o1: "kh_ok ext h1" using install_fd_ok [OF o0 t0] i1 by (metis pipe_end_def snd_conv)
  have "kh_tables h1 t \<noteq> None" using install_fd_table [OF _ t0] i1 unfolding pipe_end_def by blast
  then have "kh_ok ext h2" using install_fd_ok [OF o1] i2 by (metis pipe_end_def snd_conv)
  with o1 show ?thesis using n i1 i2 by (simp add: pipe_fds_def split: sum.splits)
qed

lemma socketpair_fds_ok:
  assumes "kh_ok ext h" and "kh_tables h t \<noteq> None"
  shows "kh_ok ext (snd (socketpair_fds t domain ty h))"
proof -
  let ?c = "ty AND SOCK_CLOEXEC \<noteq> 0"
  obtain p g where n: "pipe_new h = (p, g)" by fastforce
  obtain q h0 where n0: "pipe_new g = (q, h0)" by fastforce
  obtain r1 h1 where i1: "install_fd t (BSocketPair q p) O_RDWR ?c h0 = (r1, h1)" by fastforce
  obtain r2 h2 where i2: "install_fd t (BSocketPair p q) O_RDWR ?c h1 = (r2, h2)" by fastforce
  have o0: "kh_ok ext h0" and t0: "kh_tables h0 t \<noteq> None"
    using pipe_new_ok [OF pipe_new_ok [OF assms(1) n] n0] pipe_new_effect(5) [OF n] pipe_new_effect(5) [OF n0] assms(2) by simp_all
  have o1: "kh_ok ext h1" and "kh_tables h1 t \<noteq> None"
    using install_fd_ok [OF o0 t0, of "BSocketPair q p" O_RDWR ?c] install_fd_table [OF i1 t0] i1 by simp_all
  then have o2: "kh_ok ext h2" using install_fd_ok [OF o1, of t "BSocketPair p q" O_RDWR ?c] i2 by simp
  have "snd (socketpair_fds t domain ty h) \<in> {h, case r1 of Inl _ \<Rightarrow> h1 | Inr _ \<Rightarrow> h2}"
    unfolding socketpair_fds_def
    by (cases r1; cases r2; simp only: n n0 i1 i2 Let_def prod.case sum.case snd_conv split: if_split; simp)
  then show ?thesis using assms(1) o1 o2 by (auto split: sum.splits)
qed

lemma set_ofd_ends: "kh_ofds h i = Some (n, d) \<Longrightarrow> d_backing d' = d_backing d \<Longrightarrow> ends_ok h \<Longrightarrow> ends_ok (set_ofd i d' h)"
  by (rule ends_cong) (auto simp: set_ofd_def backing_at_def ends_at_def at_cell_def fun_eq_iff)

lemma sys_dup_ends: "ends_ok h \<Longrightarrow> ends_ok (snd (sys_dup t fd lo ce h))"
  using table_ops_ends(1) [OF ofd_clone_ends] by (auto simp: sys_dup_def split: sum.splits)

lemma sys_dup2_ends: "ends_ok h \<Longrightarrow> ends_ok (snd (sys_dup2 t fd fd' ce h))"
  using table_ops_ends(2) [OF ofd_clone_ends] ofd_drop_ends [OF ofd_clone_ends]
  by (auto simp: sys_dup2_def Let_def entry_drop_def split: sum.splits)

lemma set_cloexec_ends: "ends_ok h \<Longrightarrow> ends_ok (snd (set_cloexec t fd flag h))"
  by (simp add: set_cloexec_def split: sum.splits)

lemma fcntl_good:
  assumes g: "kh_good h" and t: "kh_tables h t \<noteq> None"
  shows "kh_good (snd (fcntl_heap t fd cmd arg h))"
proof -
  note ok = kh_goodD [OF g]
  have "kh_good (snd (sys_dup t fd arg b h))" "kh_good (snd (set_cloexec t fd b h))" for b
    using sys_dup_ok [OF ok(1) t] sys_dup_ends [OF ok(2)] set_cloexec_ok [OF ok(1) t] set_cloexec_ends [OF ok(2)]
    by (simp_all add: kh_good_def)
  moreover have "kh_good (set_ofd i (fcntl_setfl arg d) h)" if at: "ofd_at t fd h = Inr (i, d)" for i d
  proof -
    obtain n where "kh_ofds h i = Some (n, d)" using at by (auto simp: ofd_at_def split: sum.splits option.splits)
    then show ?thesis
      using set_ofd_ok [OF ok(1), of i "fcntl_setfl arg d"] set_ofd_ends [OF _ _ ok(2), of i n d "fcntl_setfl arg d"]
      by (simp add: kh_good_def fcntl_setfl_def)
  qed
  ultimately show ?thesis
    using g unfolding fcntl_heap_def by (auto simp: case_prod_beta split: sum.splits prod.splits)
qed

lemma close_range_one_good:
  assumes "kh_good h" and "kh_tables h t \<noteq> None"
  shows "kh_good (close_range_one t flags fd h) \<and> kh_tables (close_range_one t flags fd h) t \<noteq> None"
  using set_cloexec_ok [OF kh_goodD(1) [OF assms(1)] assms(2), of "of_nat fd" True] set_cloexec_ends [OF kh_goodD(2) [OF assms(1)], of t "of_nat fd" True]
    table_close_ok [OF kh_goodD(1) [OF assms(1)], of t "of_nat fd"] table_ops_ends(3) [OF kh_goodD(2) [OF assms(1)], of t "of_nat fd"] assms
    table_close_keeps [OF assms(2), of t "of_nat fd"]
  by (simp add: close_range_one_def kh_good_def) (simp add: set_cloexec_def set_table_def at_cell_def split: sum.splits)

lemma close_range_good:
  assumes "kh_good h" and "kh_tables h t \<noteq> None"
  shows "kh_good (snd (sys_close_range t a b flags h))"
proof -
  have "kh_good (fold (close_range_one t flags) fds h)" for fds
  proof -
    have "kh_good (fold (close_range_one t flags) fds h) \<and> kh_tables (fold (close_range_one t flags) fds h) t \<noteq> None"
      using assms close_range_one_good by (induction fds arbitrary: h) (simp, simp only: fold_simps, blast)
    then show ?thesis by blast
  qed
  then show ?thesis using assms by (simp add: sys_close_range_def Let_def)
qed

lemma table_new_good:
  assumes "kh_good h"
  shows "kh_good (snd (table_new h))"
proof -
  let ?d = "\<lambda>s f. \<lparr>d_backing = BStd s, d_offset = 0, d_flags = f\<rparr>"
  let ?z = "\<lambda>_ :: nat. 0 :: nat"
  obtain i h1 where n1: "ofd_new (?d StdIn O_RDONLY) h = (i, h1)" by fastforce
  obtain j h2 where n2: "ofd_new (?d StdOut O_WRONLY) h1 = (j, h2)" by fastforce
  obtain k h3 where n3: "ofd_new (?d StdErr O_WRONLY) h2 = (k, h3)" by fastforce
  let ?es = "map (\<lambda>d. Some \<lparr>fe_desc = d, fe_cloexec = False\<rparr>) [i, j, k]"
  have "kh_ok (add_ref k (add_ref j (add_ref i ?z))) h3"
    using ofd_new_ok [OF ofd_new_ok [OF ofd_new_ok [OF kh_goodD(1) [OF assms] n1] n2] n3] .
  moreover have "add_ref k (add_ref j (add_ref i ?z)) = (\<lambda>x. slot_refs ?es x + ?z x)"
    by (auto simp: add_ref_def fun_eq_iff)
  ultimately have "kh_ok ?z (put_table ?es h3)" by (intro put_table_ok) (simp_all add: FD_LIMIT_def)
  moreover have p: "plain (BStd s)" for s by (simp add: plain_def reads_from_def writes_to_def)
  have f: "fresh_above h1" "fresh_above h2"
    using kh_goodD(3) [OF assms] n1 n2 by (auto simp: ofd_new_def fresh_above_def)
  have "ends_ok h3"
    using ofd_new_ends [OF ofd_new_ends [OF ofd_new_ends [OF kh_goodD(2,3) [OF assms] _ n1] f(1) _ n2] f(2) _ n3] p by simp
  ultimately show ?thesis
    using table_ops_ends(5) [of h3 ?es] n1 n2 n3
    by (simp add: kh_good_def table_new_def put_table_def)
qed

lemma table_clone_good:
  assumes "kh_good h"
  shows "kh_good (snd (table_clone t h))"
proof -
  let ?es = "table_at t h"
  have "kh_ok (\<lambda>i. slot_refs ?es i + 0) (slots_clone ?es h)"
    using entry_live [OF kh_goodD(1) [OF assms]] by (intro slots_clone_ok [OF kh_goodD(1) [OF assms]]) blast
  from put_table_ok [OF this table_length [OF kh_goodD(1) [OF assms]]]
  show ?thesis
    using table_ops_ends(5) [OF slots_clone_ends [OF kh_goodD(2) [OF assms]], of ?es ?es]
    by (simp add: kh_good_def table_clone_def put_table_def Let_def)
qed

lemma table_share_good:
  assumes "kh_good h"
  shows "kh_good (table_share t h)"
proof -
  have "table_at u (table_share t h) = table_at u h" for u
    by (auto simp: table_share_def table_at_def at_cell_def split: option.splits)
  then have "refs (table_share t h) = refs h" by (simp add: refs_def table_share_def fun_eq_iff)
  then have "kh_ok (\<lambda>_. 0) (table_share t h)"
    using kh_goodD(1) [OF assms]
    by (auto simp: kh_ok_def counts_ok_def strong_def fresh_above_def tables_ok_def table_share_def at_cell_def split: if_splits)
  moreover have "ends_ok (table_share t h) = ends_ok h" by (rule ends_ok_frame) (simp_all add: table_share_def)
  ultimately show ?thesis using assms by (simp add: kh_good_def)
qed

lemma kh_reach_good: "kh_reach h \<Longrightarrow> kh_good h"
proof (induction rule: kh_reach.induct)
  case start
  then show ?case
    by (simp add: kh_good_def kh_ok_def fresh_above_def tables_ok_def counts_ok_def refs_def strong_def kheap_empty_def
        ends_ok_def ends_spec_def backing_at_def ends_at_def)
next
  case (exit h t)
  then show ?case using table_drop_ok [of "\<lambda>_. 0" h t] table_drop_ends by (simp add: kh_good_def)
next
  case (exec h t)
  then show ?case using table_close_cloexec_ok [of "\<lambda>_. 0" h t] table_ops_ends(4) by (simp add: kh_good_def)
next
  case (close h t fd)
  then show ?case using table_close_ok [of "\<lambda>_. 0" h t fd] table_ops_ends(3) by (simp add: kh_good_def)
next
  case (dup h t fd lo ce)
  then show ?case using sys_dup_ok [of "\<lambda>_. 0" h t fd lo ce] sys_dup_ends by (simp add: kh_good_def)
next
  case (dup2 h t fd fd' ce)
  then show ?case using sys_dup2_ok [of "\<lambda>_. 0" h t fd fd' ce] sys_dup2_ends by (simp add: kh_good_def)
next
  case (install h t b flags ce)
  then show ?case
    using install_fd_ok [of "\<lambda>_. 0" h t b flags ce] install_fd_ends [of h b t flags ce] kh_goodD(3) by (simp add: kh_good_def)
next
  case (pipe h t flags)
  then show ?case using pipe_fds_ok [of "\<lambda>_. 0" h t flags] pipe_fds_ends(1) [of h t flags] kh_goodD(3) by (simp add: kh_good_def)
next
  case (socketpair h t domain ty)
  then show ?case
    using socketpair_fds_ok [of "\<lambda>_. 0" h t domain ty] socketpair_fds_ends(1) [of h t domain ty] kh_goodD(3) by (simp add: kh_good_def)
qed (simp_all add: table_new_good table_clone_good table_share_good close_range_good fcntl_good frame_good)

text \<open>Whether some descriptor, in some table, is open on a backing that satisfies \<open>P\<close>.\<close>

definition has_descriptor :: "(backing \<Rightarrow> bool) \<Rightarrow> kheap \<Rightarrow> bool" where
  "has_descriptor P h \<longleftrightarrow> (\<exists>t fd e n d. slot (table_at t h) fd = Some e \<and> kh_ofds h (fe_desc e) = Some (n, d) \<and> P (d_backing d))"

lemma slot_refs_pos: "0 < slot_refs es i \<Longrightarrow> \<exists>fd e. slot es fd = Some e \<and> fe_desc e = i"
proof (induction es)
  case (Cons s es)
  show ?case
  proof (cases "0 < slot_refs es i")
    case True
    then obtain fd e where "slot es fd = Some e" "fe_desc e = i" using Cons.IH by blast
    then have "slot (s # es) (Suc fd) = Some e \<and> fe_desc e = i" by (simp add: slot_def split: if_splits)
    then show ?thesis by blast
  next
    case False
    then obtain e where "s = Some e" "fe_desc e = i" using Cons.prems by (auto simp: ref_in_def split: option.splits if_splits)
    then have "slot (s # es) 0 = Some e \<and> fe_desc e = i" by (simp add: slot_def)
    then show ?thesis by blast
  qed
qed simp

lemma has_descriptor_live:
  assumes "kh_ok (\<lambda>_. 0) h"
  shows "has_descriptor P h \<longleftrightarrow> {i. \<exists>b. backing_at h i = Some b \<and> P b} \<noteq> {}"
proof
  assume "{i. \<exists>b. backing_at h i = Some b \<and> P b} \<noteq> {}"
  then obtain i n d where i: "kh_ofds h i = Some (n, d)" "P (d_backing d)" by (auto simp: backing_at_def)
  have "refs h i = n" using assms i(1) by (auto simp: kh_ok_def counts_ok_def strong_def dest!: spec [of _ i])
  then have "0 < refs h i" using kh_ok_pos [OF assms i(1)] by simp
  then obtain t where "0 < slot_refs (table_at t h) i" unfolding refs_def by (metis gr0I sum.neutral)
  then obtain fd e where "slot (table_at t h) fd = Some e" "fe_desc e = i" using slot_refs_pos by blast
  with i show "has_descriptor P h" unfolding has_descriptor_def by blast
qed (force simp: has_descriptor_def backing_at_def)

lemma end_counts:
  assumes "rs \<union> ws \<noteq> {} \<longrightarrow> end_count r rs \<and> end_count w ws"
  shows "(rs \<noteq> {} \<longrightarrow> (w = 0 \<longleftrightarrow> \<not> ws \<noteq> {})) \<and> (ws \<noteq> {} \<longrightarrow> (r = 0 \<longleftrightarrow> \<not> rs \<noteq> {}))"
  using assms by (auto simp: end_count_def)

text \<open>C1: whatever calls created, duplicated, shared, passed on or closed descriptors, a reader of a
  pipe or socket pair finds its peer gone, the end of file, exactly when no descriptor of any process
  is open on the writing end any more, and a writer finds no reader exactly when no descriptor is open
  on the reading end.\<close>

theorem pipe_ends_exact:
  assumes "kh_reach h" and "kh_pipes h p = Some inner"
  shows "(has_descriptor (reads_from p) h \<longrightarrow> (pi_writers inner = 0 \<longleftrightarrow> \<not> has_descriptor (writes_to p) h)) \<and>
         (has_descriptor (writes_to p) h \<longrightarrow> (pi_readers inner = 0 \<longleftrightarrow> \<not> has_descriptor (reads_from p) h))"
proof -
  note good = kh_reach_good [OF assms(1)]
  let ?rs = "{i. \<exists>b. backing_at h i = Some b \<and> reads_from p b}" and ?ws = "{i. \<exists>b. backing_at h i = Some b \<and> writes_to p b}"
  have "ends_at h p = Some (pi_readers inner, pi_writers inner)" using assms(2) by (simp add: ends_at_def)
  moreover have "let rs = ?rs; ws = ?ws in
      case ends_at h p of None \<Rightarrow> rs = {} \<and> ws = {} | Some (r, w) \<Rightarrow> rs \<union> ws \<noteq> {} \<longrightarrow> end_count r rs \<and> end_count w ws"
    using kh_goodD(2) [OF good] unfolding ends_ok_def ends_spec_def by (elim conjE) (erule spec)
  ultimately have "?rs \<union> ?ws \<noteq> {} \<longrightarrow> end_count (pi_readers inner) ?rs \<and> end_count (pi_writers inner) ?ws"
    by (simp only: Let_def option.case prod.case)
  then show ?thesis
    unfolding has_descriptor_live [OF kh_goodD(1) [OF good]] by (rule end_counts)
qed

definition demo_heap :: kheap where
  "demo_heap = (let (t, h) = table_new kheap_empty; (r, h) = pipe_fds t 0 h; (u, h) = table_clone t h
     in snd (table_close t 4 h))"

theorem pipe_ends_exact_witness:
  "kh_reach demo_heap \<and> (\<exists>inner. kh_pipes demo_heap 4 = Some inner \<and> pi_writers inner \<noteq> 0) \<and>
   has_descriptor (reads_from 4) demo_heap \<and> has_descriptor (writes_to 4) demo_heap"
proof -
  obtain t h where h: "table_new kheap_empty = (t, h)" by fastforce
  obtain r g where g: "pipe_fds t 0 h = (r, g)" by fastforce
  obtain u k where k: "table_clone t g = (u, k)" by fastforce
  have d: "demo_heap = snd (table_close t 4 k)" by (simp add: demo_heap_def h g k)
  have "kh_reach h" using kh_reach.new_table [OF kh_reach.start] h by simp
  moreover have "kh_tables h t \<noteq> None" using h by (auto simp: table_new_def ofd_new_def)
  ultimately have "kh_reach g" using kh_reach.pipe [of h t 0] g by simp
  then have "kh_reach k" using kh_reach.fork [of g t] k by simp
  then have reach: "kh_reach demo_heap" unfolding d by (rule kh_reach.close)
  have "slot (table_at 7 demo_heap) 3 = Some \<lparr>fe_desc = 5, fe_cloexec = False\<rparr>"
    "map_option (\<lambda>(n, d). d_backing d) (kh_ofds demo_heap 5) = Some (BPipe 4 False)"
    "kh_pipes demo_heap 4 = Some \<lparr>pi_data = [], pi_readers = 1, pi_writers = 1, pi_activity = 0\<rparr>"
    by code_simp+
  then have r: "has_descriptor (reads_from 4) demo_heap" and p: "kh_pipes demo_heap 4 = Some \<lparr>pi_data = [], pi_readers = 1, pi_writers = 1, pi_activity = 0\<rparr>"
    unfolding has_descriptor_def by (force simp: reads_from_def)+
  with pipe_ends_exact [OF reach p] reach show ?thesis by simp
qed

section \<open>A failing pipe call\<close>

lemma insert_full:
  assumes "None \<notin> set es"
  shows "fds_insert_from 0 e es = (if length es \<ge> FD_LIMIT then (Inl EMFILE, es, Some e) else (Inr (of_nat (length es)), es @ [Some e], None))"
proof -
  have "position (\<lambda>s. s = None) es = None" by (rule position_None [THEN iffD2]) (metis assms)
  then show ?thesis by (simp add: fds_insert_from_def pad_to_def FD_LIMIT_def)
qed

text \<open>When the table has room for one more descriptor only, the call fails with \<open>EMFILE\<close> but the
  reading end stays open in the last slot: the table of the process is full from then on.\<close>

theorem failed_pipe_keeps_read_end:
  assumes "kh_tables h t = Some (n, es)" and "length es = 1023" and "None \<notin> set es"
  shows "fst (pipe_fds t flags h) = Inl EMFILE \<and>
         slot (table_at t (snd (pipe_fds t flags h))) 1023 = Some \<lparr>fe_desc = Suc (kh_next h), fe_cloexec = (flags AND O_CLOEXEC \<noteq> 0)\<rparr>"
proof -
  let ?e = "\<lparr>fe_desc = Suc (kh_next h), fe_cloexec = (flags AND O_CLOEXEC \<noteq> 0)\<rparr>"
  have "fds_insert_from 0 e es = (Inr (of_nat (length es)), es @ [Some e], None)" for e
    using insert_full [OF assms(3)] assms(2) by (simp add: FD_LIMIT_def)
  moreover have "fds_insert_from 0 e (es @ [Some ?e]) = (Inl EMFILE, es @ [Some ?e], Some e)" for e
    using insert_full [of "es @ [Some ?e]" e] assms(2,3) by (simp add: FD_LIMIT_def)
  ultimately show ?thesis
    using assms by (simp add: pipe_fds_def pipe_new_def pipe_end_def install_fd_def ofd_new_def table_insert_from_def
        table_at_def set_table_def at_cell_def drop_opt_def entry_drop_def ofd_drop_def description_drop_def slot_def nth_append)
qed

theorem failed_pipe_keeps_read_end_witness:
  "let es = replicate 1023 (Some \<lparr>fe_desc = 0, fe_cloexec = False\<rparr>);
       h = kheap_empty\<lparr>kh_next := 1, kh_tables := (\<lambda>_. None)(0 \<mapsto> (1, es))\<rparr>
   in fst (pipe_fds 0 0 h) = Inl EMFILE"
  using failed_pipe_keeps_read_end [of "kheap_empty\<lparr>kh_next := 1, kh_tables := (\<lambda>_. None)(0 \<mapsto> (1, replicate 1023 (Some \<lparr>fe_desc = 0, fe_cloexec = False\<rparr>)))\<rparr>"
      0 1 "replicate 1023 (Some \<lparr>fe_desc = 0, fe_cloexec = False\<rparr>)" 0]
  by (simp add: Let_def)

end
