(* ===== verification/Proc.thy ===== *)
theory Proc
  imports FdCalls
begin

text \<open>
  Processes, threads and the scheduler's queues: \<^verbatim>\<open>crates/linux-compat/src/proc.rs\<close>. The CPU
  snapshot of a parked task is the type parameter \<open>'c\<close> and the address-space map of a thread group
  is \<open>'map\<close>: both belong to the processor. What a process shares through \<^verbatim>\<open>Rc\<close> with its threads
  (descriptor table, break, mapping cursor, signal dispositions) is a cell of the heap. Whether a
  socket has something to read is the broker's answer, the argument \<open>net\<close>.
\<close>

unbundle bit_operations_syntax

definition ROOT_PID :: u64 where "ROOT_PID = 1000"
definition MMAP_BASE :: u64 where "MMAP_BASE = 0x1000000000"
definition PIPE_CAPACITY :: nat where "PIPE_CAPACITY = 0x100000"

section \<open>Processes\<close>

record 'c process =
  p_pid :: u64
  p_tgid :: u64
  p_ppid :: u64
  p_pgid :: u64
  p_fds :: nat
  p_cwd :: nat
  p_umask :: u32
  p_brk_end :: nat
  p_mmap_next :: nat
  p_sigactions :: nat
  p_sigmask :: u64
  p_pending_signals :: u64
  p_signal_saved :: "'c list"
  p_signal_saved_mask :: "u64 list"
  p_altstack :: "(u64 \<times> u64) option"
  p_altstack_depth :: u32
  p_altstack_frames :: "bool list"
  p_exe_path :: bytes
  p_argv :: "bytes list"
  p_envp :: "bytes list"
  p_clear_child_tid :: u64
  p_asid :: u64
  p_vfork_done :: "nat option"
  p_stopped :: bool
  p_stop_report :: "u64 option"

definition word_new :: "u64 \<Rightarrow> kheap \<Rightarrow> nat \<times> kheap" where
  "word_new w h = (kh_next h, h\<lparr>kh_next := Suc (kh_next h), kh_words := (kh_words h)(kh_next h \<mapsto> w)\<rparr>)"

definition flag_new :: "bool \<Rightarrow> kheap \<Rightarrow> nat \<times> kheap" where
  "flag_new b h = (kh_next h, h\<lparr>kh_next := Suc (kh_next h), kh_flags := (kh_flags h)(kh_next h \<mapsto> b)\<rparr>)"

definition sigs_new :: "(u64 \<Rightarrow> bytes option) \<Rightarrow> kheap \<Rightarrow> nat \<times> kheap" where
  "sigs_new m h = (kh_next h, h\<lparr>kh_next := Suc (kh_next h), kh_sigs := (kh_sigs h)(kh_next h \<mapsto> m)\<rparr>)"

definition word_at :: "nat \<Rightarrow> kheap \<Rightarrow> u64" where
  "word_at i h = (case kh_words h i of None \<Rightarrow> 0 | Some w \<Rightarrow> w)"

definition flag_at :: "nat \<Rightarrow> kheap \<Rightarrow> bool" where
  "flag_at i h = (case kh_flags h i of None \<Rightarrow> False | Some b \<Rightarrow> b)"

definition set_flag :: "nat \<Rightarrow> kheap \<Rightarrow> kheap" where
  "set_flag i h = h\<lparr>kh_flags := at_cell (\<lambda>_. True) i (kh_flags h)\<rparr>"

definition sigs_at :: "nat \<Rightarrow> kheap \<Rightarrow> u64 \<Rightarrow> bytes option" where
  "sigs_at i h = (case kh_sigs h i of None \<Rightarrow> (\<lambda>_. None) | Some m \<Rightarrow> m)"

definition initial :: "kheap \<Rightarrow> 'c process \<times> kheap" where
  "initial h =
     (let (t, h) = table_new h; (b, h) = word_new 0 h; (m, h) = word_new MMAP_BASE h; (s, h) = sigs_new (\<lambda>_. None) h
      in (\<lparr>p_pid = ROOT_PID, p_tgid = ROOT_PID, p_ppid = 1, p_pgid = ROOT_PID, p_fds = t, p_cwd = 0, p_umask = 18,
           p_brk_end = b, p_mmap_next = m, p_sigactions = s, p_sigmask = 0, p_pending_signals = 0, p_signal_saved = [],
           p_signal_saved_mask = [], p_altstack = None, p_altstack_depth = 0, p_altstack_frames = [], p_exe_path = [],
           p_argv = [], p_envp = [], p_clear_child_tid = 0, p_asid = 0, p_vfork_done = None, p_stopped = False,
           p_stop_report = None\<rparr>, h))"

text \<open>\<^verbatim>\<open>alloc_asid\<close> is a process-wide counter of the host: the fresh number is an argument.\<close>

definition fork_child :: "u64 \<Rightarrow> u64 \<Rightarrow> 'c process \<Rightarrow> kheap \<Rightarrow> 'c process \<times> kheap" where
  "fork_child pid asid p h =
     (let (t, h) = table_clone (p_fds p) h; (b, h) = word_new (word_at (p_brk_end p) h) h;
          (m, h) = word_new (word_at (p_mmap_next p) h) h; (s, h) = sigs_new (sigs_at (p_sigactions p) h) h
      in (\<lparr>p_pid = pid, p_tgid = pid, p_ppid = p_tgid p, p_pgid = p_pgid p, p_fds = t, p_cwd = p_cwd p, p_umask = p_umask p,
           p_brk_end = b, p_mmap_next = m, p_sigactions = s, p_sigmask = p_sigmask p, p_pending_signals = 0,
           p_signal_saved = [], p_signal_saved_mask = [], p_altstack = p_altstack p, p_altstack_depth = 0,
           p_altstack_frames = [], p_exe_path = p_exe_path p, p_argv = p_argv p, p_envp = p_envp p,
           p_clear_child_tid = 0, p_asid = asid, p_vfork_done = None, p_stopped = False, p_stop_report = None\<rparr>, h))"

definition thread_sibling :: "u64 \<Rightarrow> 'c process \<Rightarrow> kheap \<Rightarrow> 'c process \<times> kheap" where
  "thread_sibling tid p h =
     (\<lparr>p_pid = tid, p_tgid = p_tgid p, p_ppid = p_ppid p, p_pgid = p_pgid p, p_fds = p_fds p, p_cwd = p_cwd p,
       p_umask = p_umask p, p_brk_end = p_brk_end p, p_mmap_next = p_mmap_next p, p_sigactions = p_sigactions p,
       p_sigmask = p_sigmask p, p_pending_signals = 0, p_signal_saved = [], p_signal_saved_mask = [], p_altstack = None,
       p_altstack_depth = 0, p_altstack_frames = [], p_exe_path = p_exe_path p, p_argv = p_argv p, p_envp = p_envp p,
       p_clear_child_tid = 0, p_asid = p_asid p, p_vfork_done = None, p_stopped = False, p_stop_report = None\<rparr>,
      table_share (p_fds p) h)"

section \<open>Waiting\<close>

datatype watch =
    WPipeReadable nat
  | WPipeWritable nat
  | WEvent nat
  | WTimer nat
  | WNetReadable nat
  | WPipeActivity nat u64
  | WEventActivity nat u64
  | WPtyReadable nat bool
  | WPtyActivity nat u64
  | WInotifyReadable nat
  | WInotifyActivity nat u64
  | WAlways

text \<open>The filter of \<^verbatim>\<open>wait4\<close> is an \<^verbatim>\<open>i64\<close>, kept as its bit pattern.\<close>

datatype park_state =
    PsReady
  | PsWaitChild u64 bool
  | PsFutex u64 bool "u64 option"
  | PsPipeRead nat
  | PsPipeWrite nat
  | PsWaiting "watch list" "u64 option"
  | PsVforkDone nat

type_synonym net_readable = "nat \<Rightarrow> u64 \<Rightarrow> bool"

definition pipe_read_ready :: "kheap \<Rightarrow> nat \<Rightarrow> bool" where
  "pipe_read_ready h p = (case kh_pipes h p of None \<Rightarrow> False | Some pipe \<Rightarrow> pi_data pipe \<noteq> [] \<or> pi_writers pipe = 0)"

definition pipe_write_ready :: "kheap \<Rightarrow> nat \<Rightarrow> bool" where
  "pipe_write_ready h p =
     (case kh_pipes h p of None \<Rightarrow> False | Some pipe \<Rightarrow> length (pi_data pipe) < PIPE_CAPACITY \<or> pi_readers pipe = 0)"

fun watch_ready :: "net_readable \<Rightarrow> kheap \<Rightarrow> u64 \<Rightarrow> watch \<Rightarrow> bool" where
  "watch_ready net h now (WPipeReadable p) = pipe_read_ready h p"
| "watch_ready net h now (WPipeWritable p) = pipe_write_ready h p"
| "watch_ready net h now (WEvent e) = (case kh_events h e of None \<Rightarrow> False | Some ev \<Rightarrow> ev_count ev > 0)"
| "watch_ready net h now (WTimer t) =
     (case kh_timers h t of None \<Rightarrow> False
      | Some tm \<Rightarrow> (case tf_next_expiry tm of None \<Rightarrow> False | Some x \<Rightarrow> now \<ge> x))"
| "watch_ready net h now (WNetReadable s) =
     (case kh_nets h s of None \<Rightarrow> False
      | Some socket \<Rightarrow> (case ns_handle socket of None \<Rightarrow> False | Some handle \<Rightarrow> net (ns_broker socket) handle))"
| "watch_ready net h now (WPipeActivity p seen) = (case kh_pipes h p of None \<Rightarrow> False | Some pipe \<Rightarrow> pi_activity pipe \<noteq> seen)"
| "watch_ready net h now (WEventActivity e seen) = (case kh_events h e of None \<Rightarrow> False | Some ev \<Rightarrow> ev_activity ev \<noteq> seen)"
| "watch_ready net h now (WPtyReadable p master) =
     (case kh_ptys h p of None \<Rightarrow> False
      | Some pty \<Rightarrow> if master then pt_s2m pty \<noteq> [] \<or> (pt_slave_ever_opened pty \<and> pt_slaves pty = 0)
                  else pt_m2s pty \<noteq> [] \<or> pt_masters pty = 0)"
| "watch_ready net h now (WPtyActivity p seen) = (case kh_ptys h p of None \<Rightarrow> False | Some pty \<Rightarrow> pt_activity pty \<noteq> seen)"
| "watch_ready net h now (WInotifyReadable i) =
     (case kh_inotifies h i of None \<Rightarrow> False | Some inner \<Rightarrow> in_queue inner \<noteq> [] \<or> in_overflowed inner)"
| "watch_ready net h now (WInotifyActivity i seen) = (case kh_inotifies h i of None \<Rightarrow> False | Some inner \<Rightarrow> in_activity inner \<noteq> seen)"
| "watch_ready net h now WAlways = True"

section \<open>The scheduler\<close>

record 'c parked_task =
  pk_proc :: "'c process"
  pk_cpu :: 'c
  pk_state :: park_state

record zombie =
  z_pid :: u64
  z_ppid :: u64
  z_status :: u32

record ('c, 'map) scheduler =
  sc_parked :: "'c parked_task list"
  sc_zombies :: "zombie list"
  sc_group_maps :: "u64 \<Rightarrow> 'map option"
  sc_next_pid :: u64

definition scheduler_new :: "('c, 'map) scheduler" where
  "scheduler_new = \<lparr>sc_parked = [], sc_zombies = [], sc_group_maps = (\<lambda>_. None), sc_next_pid = ROOT_PID + 1\<rparr>"

definition group_has_parked :: "('c, 'map) scheduler \<Rightarrow> u64 \<Rightarrow> bool" where
  "group_has_parked s tgid \<longleftrightarrow> list_ex (\<lambda>t. p_tgid (pk_proc t) = tgid) (sc_parked s)"

definition next_pid :: "('c, 'map) scheduler \<Rightarrow> u64 \<times> ('c, 'map) scheduler" where
  "next_pid s = (sc_next_pid s, s\<lparr>sc_next_pid := sc_next_pid s + 1\<rparr>)"

definition child_matches :: "u64 \<Rightarrow> u64 \<Rightarrow> u64 \<Rightarrow> u64 \<Rightarrow> bool" where
  "child_matches ppid pid_filter child_pid child_ppid \<longleftrightarrow> child_ppid = ppid \<and> (pid_filter = -1 \<or> child_pid = pid_filter)"

definition has_child :: "('c, 'map) scheduler \<Rightarrow> u64 \<Rightarrow> u64 \<Rightarrow> bool" where
  "has_child s ppid pid_filter \<longleftrightarrow>
     list_ex (\<lambda>z. child_matches ppid pid_filter (z_pid z) (z_ppid z)) (sc_zombies s) \<or>
     list_ex (\<lambda>t. child_matches ppid pid_filter (p_tgid (pk_proc t)) (p_ppid (pk_proc t))) (sc_parked s)"

definition set_proc :: "('c process \<Rightarrow> 'c process) \<Rightarrow> 'c parked_task \<Rightarrow> 'c parked_task" where
  "set_proc f t = t\<lparr>pk_proc := f (pk_proc t)\<rparr>"

definition take_stop_report :: "u64 \<Rightarrow> u64 \<Rightarrow> ('c, 'map) scheduler \<Rightarrow> (u64 \<times> u64) option \<times> ('c, 'map) scheduler" where
  "take_stop_report ppid pid_filter s =
     (case position (\<lambda>t. child_matches ppid pid_filter (p_tgid (pk_proc t)) (p_ppid (pk_proc t)) \<and> p_stop_report (pk_proc t) \<noteq> None) (sc_parked s) of
        None \<Rightarrow> (None, s)
      | Some i \<Rightarrow>
          let t = sc_parked s ! i
          in (map_option (\<lambda>sig. (p_tgid (pk_proc t), sig)) (p_stop_report (pk_proc t)),
              s\<lparr>sc_parked := (sc_parked s)[i := set_proc (p_stop_report_update (\<lambda>_. None)) t]\<rparr>))"

definition remove_at :: "nat \<Rightarrow> 'a list \<Rightarrow> 'a list" where
  "remove_at i xs = take i xs @ drop (Suc i) xs"

definition take_zombie :: "u64 \<Rightarrow> u64 \<Rightarrow> ('c, 'map) scheduler \<Rightarrow> zombie option \<times> ('c, 'map) scheduler" where
  "take_zombie ppid pid_filter s =
     (case position (\<lambda>z. child_matches ppid pid_filter (z_pid z) (z_ppid z)) (sc_zombies s) of
        None \<Rightarrow> (None, s)
      | Some i \<Rightarrow> (Some (sc_zombies s ! i), s\<lparr>sc_zombies := remove_at i (sc_zombies s)\<rparr>))"

definition waits_on :: "u64 \<Rightarrow> park_state \<Rightarrow> bool" where
  "waits_on addr ps = (case ps of PsFutex waiting woken deadline \<Rightarrow> waiting = addr \<and> \<not> woken | _ \<Rightarrow> False)"

definition wake_state :: "park_state \<Rightarrow> park_state" where
  "wake_state ps = (case ps of PsFutex waiting woken deadline \<Rightarrow> PsFutex waiting True deadline | _ \<Rightarrow> ps)"

text \<open>The loop of \<^verbatim>\<open>futex_wake\<close>: the count so far, and the tasks behind the cursor.\<close>

primrec wake_tasks :: "u64 \<Rightarrow> u64 \<Rightarrow> u64 \<Rightarrow> 'c parked_task list \<Rightarrow> u64 \<times> 'c parked_task list" where
  "wake_tasks addr count woken [] = (woken, [])"
| "wake_tasks addr count woken (t # ts) =
     (if woken \<ge> count then (woken, t # ts)
      else if waits_on addr (pk_state t)
      then (let (n, ts) = wake_tasks addr count (woken + 1) ts in (n, t\<lparr>pk_state := wake_state (pk_state t)\<rparr> # ts))
      else (let (n, ts) = wake_tasks addr count woken ts in (n, t # ts)))"

definition futex_wake :: "u64 \<Rightarrow> u64 \<Rightarrow> ('c, 'map) scheduler \<Rightarrow> u64 \<times> ('c, 'map) scheduler" where
  "futex_wake addr count s = (let (n, ts) = wake_tasks addr count 0 (sc_parked s) in (n, s\<lparr>sc_parked := ts\<rparr>))"

definition deadline_passed :: "u64 \<Rightarrow> u64 option \<Rightarrow> bool" where
  "deadline_passed now d = (case d of None \<Rightarrow> False | Some x \<Rightarrow> now \<ge> x)"

definition wait_is_satisfied :: "net_readable \<Rightarrow> kheap \<Rightarrow> ('c, 'map) scheduler \<Rightarrow> u64 \<Rightarrow> 'c parked_task \<Rightarrow> bool" where
  "wait_is_satisfied net h s now t =
     (case pk_state t of
        PsReady \<Rightarrow> True
      | PsFutex addr woken deadline \<Rightarrow> woken \<or> deadline_passed now deadline
      | PsWaitChild pid untraced \<Rightarrow>
          list_ex (\<lambda>z. child_matches (p_tgid (pk_proc t)) pid (z_pid z) (z_ppid z)) (sc_zombies s) \<or>
          (untraced \<and> list_ex (\<lambda>c. p_stop_report (pk_proc c) \<noteq> None \<and>
             child_matches (p_tgid (pk_proc t)) pid (p_tgid (pk_proc c)) (p_ppid (pk_proc c))) (sc_parked s))
      | PsPipeRead p \<Rightarrow> pipe_read_ready h p
      | PsPipeWrite p \<Rightarrow> pipe_write_ready h p
      | PsWaiting watches deadline \<Rightarrow> deadline_passed now deadline \<or> list_ex (watch_ready net h now) watches
      | PsVforkDone d \<Rightarrow> flag_at d h)"

definition vfork_wait :: "park_state \<Rightarrow> bool" where
  "vfork_wait ps = (case ps of PsVforkDone d \<Rightarrow> True | _ \<Rightarrow> False)"

definition deliverable :: "'c process \<Rightarrow> u64" where
  "deliverable p = p_pending_signals p AND NOT (p_sigmask p)"

definition runnable :: "net_readable \<Rightarrow> kheap \<Rightarrow> ('c, 'map) scheduler \<Rightarrow> u64 \<Rightarrow> 'c parked_task \<Rightarrow> bool" where
  "runnable net h s now t \<longleftrightarrow>
     (if p_stopped (pk_proc t) then False
      else if deliverable (pk_proc t) \<noteq> 0 \<and> \<not> vfork_wait (pk_state t) then True
      else wait_is_satisfied net h s now t)"

definition find_ready :: "net_readable \<Rightarrow> kheap \<Rightarrow> ('c, 'map) scheduler \<Rightarrow> u64 \<Rightarrow> nat option" where
  "find_ready net h s now = position (runnable net h s now) (sc_parked s)"

definition watch_expiry :: "kheap \<Rightarrow> watch \<Rightarrow> u64 option" where
  "watch_expiry h w = (case w of WTimer t \<Rightarrow> (case kh_timers h t of None \<Rightarrow> None | Some tm \<Rightarrow> tf_next_expiry tm) | _ \<Rightarrow> None)"

definition opt_to_list :: "'a option \<Rightarrow> 'a list" where
  "opt_to_list r = (case r of None \<Rightarrow> [] | Some x \<Rightarrow> [x])"

definition task_deadlines :: "kheap \<Rightarrow> 'c parked_task \<Rightarrow> u64 list" where
  "task_deadlines h t =
     (case pk_state t of
        PsFutex addr woken (Some deadline) \<Rightarrow> [deadline]
      | PsWaiting watches deadline \<Rightarrow> List.map_filter (watch_expiry h) watches @ opt_to_list deadline
      | _ \<Rightarrow> [])"

definition least :: "u64 list \<Rightarrow> u64 option" where
  "least xs = (if xs = [] then None else Some (fold min (tl xs) (hd xs)))"

definition earliest_deadline :: "kheap \<Rightarrow> ('c, 'map) scheduler \<Rightarrow> u64 option" where
  "earliest_deadline h s = least (concat (map (task_deadlines h) (filter (\<lambda>t. \<not> p_stopped (pk_proc t)) (sc_parked s))))"

definition watch_handle :: "kheap \<Rightarrow> watch \<Rightarrow> u64 option" where
  "watch_handle h w = (case w of WNetReadable s \<Rightarrow> (case kh_nets h s of None \<Rightarrow> None | Some socket \<Rightarrow> ns_handle socket) | _ \<Rightarrow> None)"

definition net_watch_handles :: "kheap \<Rightarrow> ('c, 'map) scheduler \<Rightarrow> u64 list" where
  "net_watch_handles h s =
     concat (map (\<lambda>t. case pk_state t of PsWaiting watches _ \<Rightarrow> List.map_filter (watch_handle h) watches | _ \<Rightarrow> []) (sc_parked s))"

end
