(* ===== verification/ProcProps.thy ===== *)
theory ProcProps
  imports Proc
begin

text \<open>
  What the scheduler's queues promise: an idle machine that warps its clock to the earliest deadline
  always finds a task to run; a futex wake reaches exactly the longest waiting tasks; the zombies of
  a parent are reaped once each, in the order they died.
\<close>

section \<open>Deadlines\<close>

lemma fold_min_member: "fold min xs (x::'a::linorder) \<in> set (x # xs)"
  by (induction xs arbitrary: x) (auto simp: min_def)

lemma fold_min_le: "y \<in> set (x # xs) \<Longrightarrow> fold min xs (x::'a::linorder) \<le> y"
proof (induction xs arbitrary: x y)
  case (Cons z zs)
  have below: "fold min zs (min z x) \<le> min z x" by (rule Cons.IH) simp
  show ?case
  proof (cases "y \<in> set zs")
    case True
    then show ?thesis using Cons.IH [of y "min z x"] by simp
  next
    case False
    then have "min z x \<le> y" using Cons.prems by auto
    with below have "fold min zs (min z x) \<le> y" by (rule order_trans)
    then show ?thesis by simp
  qed
qed simp

lemma least_member: "least xs = Some d \<Longrightarrow> d \<in> set xs"
  using fold_min_member [of "tl xs" "hd xs"] by (cases xs) (auto simp: least_def)

lemma least_le: "least xs = Some d \<Longrightarrow> x \<in> set xs \<Longrightarrow> d \<le> x"
  using fold_min_le [of x "hd xs" "tl xs"] by (cases xs) (auto simp: least_def)

lemma watch_expiry_ready: "watch_expiry h w = Some d \<Longrightarrow> d \<le> now \<Longrightarrow> watch_ready net h now w"
  by (cases w) (auto simp: watch_expiry_def split: option.splits)

lemma set_map_filter_expiry: "d \<in> set (List.map_filter f ws) \<longleftrightarrow> (\<exists>w \<in> set ws. f w = Some d)"
  by (induction ws) (auto simp: map_filter_simps split: option.splits)

lemma task_deadline_wakes:
  assumes "d \<in> set (task_deadlines h t)" "d \<le> now"
  shows "wait_is_satisfied net h s now t"
  using assms watch_expiry_ready [OF _ assms(2)]
  by (auto simp: task_deadlines_def wait_is_satisfied_def deadline_passed_def list_ex_iff opt_to_list_def
      set_map_filter_expiry split: park_state.splits option.splits)

lemma find_ready_iff: "(\<exists>i. find_ready net h s now = Some i) \<longleftrightarrow> (\<exists>t \<in> set (sc_parked s). runnable net h s now t)"
  unfolding find_ready_def using position_None [of "runnable net h s now" "sc_parked s"] by auto

lemma deadline_member:
  "earliest_deadline h s = Some d \<Longrightarrow> \<exists>t \<in> set (sc_parked s). \<not> p_stopped (pk_proc t) \<and> d \<in> set (task_deadlines h t)"
  unfolding earliest_deadline_def by (drule least_member) auto

lemma not_stopped_runnable: "\<not> p_stopped (pk_proc t) \<Longrightarrow> wait_is_satisfied net h s now t \<Longrightarrow> runnable net h s now t"
  by (simp add: runnable_def)

text \<open>
  C13: an idle machine makes progress. When the earliest deadline of the parked tasks is \<open>d\<close>, some
  task is runnable at every time from \<open>d\<close> on, the task the scheduler picks is runnable, not stopped,
  and no task before it in the queue is runnable.
\<close>

theorem idle_warp_wakes:
  assumes "earliest_deadline h s = Some d" "d \<le> now"
  shows "\<exists>i. find_ready net h s now = Some i \<and> i < length (sc_parked s) \<and> runnable net h s now (sc_parked s ! i) \<and>
             \<not> p_stopped (pk_proc (sc_parked s ! i)) \<and> (\<forall>j<i. \<not> runnable net h s now (sc_parked s ! j))"
proof -
  obtain t where "t \<in> set (sc_parked s)" "\<not> p_stopped (pk_proc t)" "d \<in> set (task_deadlines h t)"
    using deadline_member [OF assms(1)] by blast
  then have "\<exists>i. find_ready net h s now = Some i"
    unfolding find_ready_iff using task_deadline_wakes assms(2) not_stopped_runnable by blast
  then obtain i where "find_ready net h s now = Some i" by blast
  with position_less [of "runnable net h s now" "sc_parked s" i] show ?thesis
    unfolding find_ready_def by (auto simp: runnable_def split: if_splits)
qed

section \<open>Futex wakes\<close>

definition waiters :: "u64 \<Rightarrow> 'c parked_task list \<Rightarrow> nat" where
  "waiters addr ts = length (filter (\<lambda>t. waits_on addr (pk_state t)) ts)"

definition woken_task :: "'c parked_task \<Rightarrow> 'c parked_task" where
  "woken_task t = t\<lparr>pk_state := wake_state (pk_state t)\<rparr>"

lemma waiters_simps [simp]:
  "waiters addr [] = 0"
  "waiters addr (t # ts) = (if waits_on addr (pk_state t) then Suc (waiters addr ts) else waiters addr ts)"
  by (simp_all add: waiters_def)

lemma waiters_le: "waiters addr ts \<le> length ts"
  by (simp add: waiters_def)

definition wake_spec :: "u64 \<Rightarrow> nat \<Rightarrow> 'c parked_task list \<Rightarrow> nat \<Rightarrow> 'c parked_task" where
  "wake_spec addr room ts i =
     (if waits_on addr (pk_state (ts ! i)) \<and> waiters addr (take i ts) < room then woken_task (ts ! i) else ts ! i)"

lemma map_wake_spec_Cons:
  "map (wake_spec addr room (t # ts)) [0..<length (t # ts)] =
     (if waits_on addr (pk_state t)
      then (if 0 < room then woken_task t else t) # map (wake_spec addr (room - 1) ts) [0..<length ts]
      else t # map (wake_spec addr room ts) [0..<length ts])"
proof -
  have "[0..<length (t # ts)] = 0 # map Suc [0..<length ts]" by (simp add: upt_conv_Cons map_Suc_upt del: upt_Suc)
  then show ?thesis by (auto simp: wake_spec_def comp_def)
qed

lemma wake_spec_none: "map (wake_spec addr 0 ts) [0..<length ts] = ts"
  by (rule nth_equalityI) (auto simp: wake_spec_def)

lemma unat_Suc_bounded: "unat (w::u64) + n < 2 ^ 64 \<Longrightarrow> 0 < n \<Longrightarrow> unat (w + 1) = Suc (unat w)"
  by (subst unat_plus_exact) auto

lemma wake_tasks_exact:
  assumes "unat woken + length ts < 2 ^ 64"
  shows "wake_tasks addr count woken ts =
           (woken + of_nat (min (unat count - unat woken) (waiters addr ts)),
            map (wake_spec addr (unat count - unat woken) ts) [0..<length ts])"
  using assms
proof (induction ts arbitrary: woken)
  case (Cons t ts)
  have next_unat: "unat (woken + 1) = Suc (unat woken)"
    using Cons.prems by (intro unat_Suc_bounded [of _ "length (t # ts)"]) simp_all
  show ?case
  proof (cases "woken \<ge> count")
    case True
    then have "unat count - unat woken = 0" by (simp add: word_le_nat_alt)
    then show ?thesis using True wake_spec_none [of addr "t # ts"] by simp
  next
    case False
    then have room: "unat count - unat woken = Suc (unat count - unat (woken + 1))"
      using next_unat by (simp add: word_le_nat_alt)
    have step: "wake_tasks addr count w ts =
        (w + of_nat (min (unat count - unat w) (waiters addr ts)), map (wake_spec addr (unat count - unat w) ts) [0..<length ts])"
      if "w = woken \<or> w = woken + 1" for w
      using that Cons.prems next_unat by (intro Cons.IH) auto
    show ?thesis
      unfolding map_wake_spec_Cons
      using False room step by (auto simp: woken_task_def)
  qed
qed simp

text \<open>
  C19: a futex wake of \<open>count\<close> reports the smaller of \<open>count\<close> and the number of tasks waiting
  unwoken at the address, sets the flag of exactly the first that many of them in queue order, and
  leaves every other task, the zombies, the maps and the process counter as they were. The bound says
  that fewer than 2^64 tasks are parked.
\<close>

theorem futex_wake_exact:
  assumes "length (sc_parked s) < 2 ^ 64"
  shows "futex_wake addr count s =
           (of_nat (min (unat count) (waiters addr (sc_parked s))),
            s\<lparr>sc_parked := map (wake_spec addr (unat count) (sc_parked s)) [0..<length (sc_parked s)]\<rparr>)"
  using wake_tasks_exact [of 0 "sc_parked s" addr count] assms by (simp add: futex_wake_def)

section \<open>Reaping\<close>

definition matching :: "u64 \<Rightarrow> u64 \<Rightarrow> zombie \<Rightarrow> bool" where
  "matching ppid pid_filter z = child_matches ppid pid_filter (z_pid z) (z_ppid z)"

lemma position_split: "position P xs = Some i \<Longrightarrow> xs = take i xs @ xs ! i # drop (Suc i) xs \<and> P (xs ! i) \<and> (\<forall>x \<in> set (take i xs). \<not> P x)"
  using position_less [of P xs i] by (auto simp: id_take_nth_drop [symmetric] in_set_conv_nth)

primrec reap :: "nat \<Rightarrow> u64 \<Rightarrow> u64 \<Rightarrow> ('c, 'map) scheduler \<Rightarrow> zombie list \<times> ('c, 'map) scheduler" where
  "reap 0 ppid pid_filter s = ([], s)"
| "reap (Suc n) ppid pid_filter s =
     (case take_zombie ppid pid_filter s of
        (None, s) \<Rightarrow> ([], s)
      | (Some z, s) \<Rightarrow> let (zs, s) = reap n ppid pid_filter s in (z # zs, s))"

lemma take_zombie_None: "\<forall>z \<in> set (sc_zombies s). \<not> matching ppid pf z \<Longrightarrow> take_zombie ppid pf s = (None, s)"
  by (simp add: take_zombie_def matching_def position_None [THEN iffD2])

lemma take_zombie_Some:
  "\<forall>z \<in> set xs. \<not> matching ppid pf z \<Longrightarrow> matching ppid pf z \<Longrightarrow> sc_zombies s = xs @ z # ys \<Longrightarrow>
   take_zombie ppid pf s = (Some z, s\<lparr>sc_zombies := xs @ ys\<rparr>)"
  using position_append [of xs "matching ppid pf" z ys]
  by (simp add: take_zombie_def matching_def [abs_def] remove_at_def)

lemma reap_all:
  assumes "length (filter (matching ppid pf) (sc_zombies s)) \<le> n"
  shows "reap n ppid pf s =
           (filter (matching ppid pf) (sc_zombies s), s\<lparr>sc_zombies := filter (\<lambda>z. \<not> matching ppid pf z) (sc_zombies s)\<rparr>)"
  using assms
proof (induction n arbitrary: s)
  case 0
  then have "\<forall>z \<in> set (sc_zombies s). \<not> matching ppid pf z" by (simp add: filter_empty_conv)
  then have "filter (\<lambda>z. \<not> matching ppid pf z) (sc_zombies s) = sc_zombies s" by (simp add: filter_id_conv)
  with 0 show ?case by simp
next
  case (Suc n)
  show ?case
  proof (cases "\<exists>z \<in> set (sc_zombies s). matching ppid pf z")
    case False
    then have "filter (\<lambda>z. \<not> matching ppid pf z) (sc_zombies s) = sc_zombies s" "filter (matching ppid pf) (sc_zombies s) = []"
      by (auto simp: filter_id_conv filter_empty_conv)
    with False show ?thesis by (simp add: take_zombie_None)
  next
    case True
    then obtain xs z ys where zs: "sc_zombies s = xs @ z # ys" "matching ppid pf z" "\<forall>z \<in> set xs. \<not> matching ppid pf z"
      using split_list_first_prop [of "sc_zombies s" "matching ppid pf"] by blast
    have "filter (matching ppid pf) xs = []" using zs(3) by (simp add: filter_empty_conv)
    then show ?thesis
      using Suc.IH [of "s\<lparr>sc_zombies := xs @ ys\<rparr>"] Suc.prems zs by (simp add: take_zombie_Some [OF zs(3,2,1)])
  qed
qed

text \<open>
  C22: children are collected once each and in the order they died. Reaping until nothing is left
  returns exactly the matching zombies of the parent in queue order, leaves exactly the others, and a
  further attempt finds nothing.
\<close>

theorem reap_in_exit_order:
  assumes "length (sc_zombies s) \<le> n"
  shows "\<exists>s'. reap n ppid pf s = (filter (matching ppid pf) (sc_zombies s), s') \<and>
              s' = s\<lparr>sc_zombies := filter (\<lambda>z. \<not> matching ppid pf z) (sc_zombies s)\<rparr> \<and>
              take_zombie ppid pf s' = (None, s')"
  using reap_all [of ppid pf s n] assms length_filter_le [of "matching ppid pf" "sc_zombies s"]
  by (auto intro: take_zombie_None)

section \<open>Concrete queues\<close>

text \<open>Three tasks of the root process: one waits on a futex until 700, one on the same futex for
  ever, one on another address; two dead children wait to be collected.\<close>

definition demo_task :: "park_state \<Rightarrow> unit parked_task" where
  "demo_task ps = \<lparr>pk_proc = fst (initial kheap_empty), pk_cpu = (), pk_state = ps\<rparr>"

definition demo_sched :: "(unit, unit) scheduler" where
  "demo_sched = scheduler_new\<lparr>
     sc_parked := map demo_task [PsFutex 64 False (Some 700), PsFutex 64 False None, PsFutex 128 False (Some 900)],
     sc_zombies := [\<lparr>z_pid = 1002, z_ppid = 1000, z_status = 0\<rparr>, \<lparr>z_pid = 1003, z_ppid = 1002, z_status = 9\<rparr>,
                    \<lparr>z_pid = 1001, z_ppid = 1000, z_status = 256\<rparr>]\<rparr>"

lemma demo_not_stopped: "p_stopped (fst (initial h)) = False"
  by (simp add: initial_def Let_def case_prod_beta)

lemma demo_deadline: "earliest_deadline kheap_empty demo_sched = Some 700"
  by (simp add: earliest_deadline_def demo_sched_def demo_task_def demo_not_stopped task_deadlines_def least_def)

theorem idle_warp_wakes_witness:
  "\<exists>i. find_ready (\<lambda>_ _. False) kheap_empty demo_sched 700 = Some i \<and> i < length (sc_parked demo_sched) \<and>
       runnable (\<lambda>_ _. False) kheap_empty demo_sched 700 (sc_parked demo_sched ! i) \<and>
       \<not> p_stopped (pk_proc (sc_parked demo_sched ! i)) \<and>
       (\<forall>j<i. \<not> runnable (\<lambda>_ _. False) kheap_empty demo_sched 700 (sc_parked demo_sched ! j))"
  by (rule idle_warp_wakes [OF demo_deadline]) simp

theorem futex_wake_exact_witness:
  "fst (futex_wake 64 1 demo_sched) = 1 \<and>
   map pk_state (sc_parked (snd (futex_wake 64 1 demo_sched))) =
     [PsFutex 64 True (Some 700), PsFutex 64 False None, PsFutex 128 False (Some 900)]"
  using futex_wake_exact [of demo_sched 64 1]
  by (simp add: demo_sched_def demo_task_def wake_spec_def woken_task_def waits_on_def wake_state_def upt_conv_Cons)

theorem reap_in_exit_order_witness:
  "map z_pid (fst (reap 3 1000 (-1) demo_sched)) = [1002, 1001] \<and>
   map z_pid (sc_zombies (snd (reap 3 1000 (-1) demo_sched))) = [1003]"
  using reap_in_exit_order [of demo_sched 3 1000 "-1"]
  by (auto simp: demo_sched_def matching_def child_matches_def)

end
