(* ===== verification/Machine.thy ===== *)
theory Machine
  imports Proc Pager Trace Manifest
begin

text \<open>
  The machine a system call runs on: the registers of the virtual processor, guest memory, and the
  part of \<^verbatim>\<open>LinuxEnv\<close> (\<^verbatim>\<open>crates/linux-compat/src/lib.rs\<close>) that the process, signal and descriptor calls
  use, with the copies to and from guest memory of \<^verbatim>\<open>crates/linux-compat/src/syscall.rs\<close>.

  The processor and its memory belong to the vendored engine and the network to the host: the
  operations the calls use of them are the fields of \<open>ops\<close>, a parameter of every definition. A
  write reports whether it was permitted together with the memory it leaves. A snapshot of the
  processor is the whole register record. A panic of the page-in code is recorded in \<open>e_panicked\<close>,
  which nothing clears.
\<close>

unbundle bit_operations_syntax

section \<open>Processor and host\<close>

datatype exc_code = ExternalAddr | OtherCode u32

type_synonym exception = "exc_code \<times> u64"

record 'x cpu =
  c_rax :: u64
  c_rdi :: u64
  c_rsi :: u64
  c_rdx :: u64
  c_r10 :: u64
  c_r8 :: u64
  c_r9 :: u64
  c_rsp :: u64
  c_fs_offset :: u64
  c_next_pc :: u64
  c_pc :: u64
  c_exception :: exception
  c_pending_exception :: "exception option"
  c_block_id :: u64
  c_block_offset :: u64
  c_icount :: u64
  c_rest :: 'x

text \<open>\<^verbatim>\<open>net::RecvOutcome\<close>: what a broker has to say when asked for bytes.\<close>

datatype recv_outcome = RcvData bytes | RcvClosed | RcvWouldBlock

record ('m, 'map, 'h) ops =
  op_read :: "u64 \<Rightarrow> nat \<Rightarrow> 'm \<Rightarrow> bytes option"
  op_write :: "u64 \<Rightarrow> bytes \<Rightarrow> 'm \<Rightarrow> bool \<times> 'm"
  op_update_perm :: "u64 \<Rightarrow> u64 \<Rightarrow> u8 \<Rightarrow> 'm \<Rightarrow> bool \<times> 'm"
  op_take_map :: "'m \<Rightarrow> 'map \<times> 'm"
  op_restore_map :: "'map \<Rightarrow> 'm \<Rightarrow> 'm"
  op_snapshot_map :: "'m \<Rightarrow> 'map \<times> 'm"
  op_readable :: "'h \<Rightarrow> nat \<Rightarrow> u64 \<Rightarrow> bool"
  op_host_driven :: "nat \<Rightarrow> bool"
  op_wait_ready :: "nat \<Rightarrow> u64 list \<Rightarrow> u64 \<Rightarrow> 'h \<Rightarrow> bool \<times> 'h"
  op_total_pages :: "'m \<Rightarrow> nat"
  op_capacity :: "'m \<Rightarrow> nat"
  op_mapping :: "'m \<Rightarrow> (u64 \<times> u64) list"
  op_get_perm :: "u64 \<Rightarrow> 'm \<Rightarrow> u8"
  op_map_memory :: "u64 \<Rightarrow> u64 \<Rightarrow> u8 \<Rightarrow> 'm \<Rightarrow> bool \<times> 'm"
  op_unmap :: "u64 \<Rightarrow> u64 \<Rightarrow> 'm \<Rightarrow> bool \<times> 'm"
  op_find_free :: "u64 \<Rightarrow> u64 \<Rightarrow> u64 \<Rightarrow> 'm \<Rightarrow> u64 option"
  op_grants :: "nat \<Rightarrow> bool"
  op_tcp_connect :: "nat \<Rightarrow> sockaddr_v4 \<Rightarrow> 'h \<Rightarrow> (errno + u64) \<times> 'h"
  op_tcp_send :: "nat \<Rightarrow> u64 \<Rightarrow> bytes \<Rightarrow> 'h \<Rightarrow> (errno + nat) \<times> 'h"
  op_tcp_recv :: "nat \<Rightarrow> u64 \<Rightarrow> nat \<Rightarrow> 'h \<Rightarrow> (errno + recv_outcome) \<times> 'h"
  op_tcp_shutdown_write :: "nat \<Rightarrow> u64 \<Rightarrow> 'h \<Rightarrow> (errno + unit) \<times> 'h"
  op_udp_open :: "nat \<Rightarrow> 'h \<Rightarrow> (errno + u64) \<times> 'h"
  op_udp_send_to :: "nat \<Rightarrow> u64 \<Rightarrow> sockaddr_v4 \<Rightarrow> bytes \<Rightarrow> 'h \<Rightarrow> (errno + nat) \<times> 'h"
  op_udp_recv_from :: "nat \<Rightarrow> u64 \<Rightarrow> nat \<Rightarrow> 'h \<Rightarrow> (errno + (bytes \<times> sockaddr_v4) option) \<times> 'h"
  op_local_addr :: "nat \<Rightarrow> u64 \<Rightarrow> 'h \<Rightarrow> sockaddr_v4 option \<times> 'h"

datatype vm_exit = Halt | Deadlock | Interrupted

datatype outcome = ORet "errno + u64" | Switched | Exit vm_exit

record shared_map =
  sm_asid :: u64
  sm_addr :: u64
  sm_len :: u64
  sm_node :: nat
  sm_offset :: u64

text \<open>A secret behind a handle: its bytes, and the principal that may read them.\<close>

record host_secret =
  hs_value :: bytes
  hs_principal :: bytes

record ('x, 'm, 'map, 'h) mach =
  m_cpu :: "'x cpu"
  m_mem :: 'm
  e_host :: 'h
  e_heap :: kheap
  e_vfs :: vfs
  e_proc :: "'x cpu process"
  e_sched :: "('x cpu, 'map) scheduler"
  e_last_group :: u64
  e_net :: "nat option"
  e_warp_nanos :: u64
  e_epoch_base_sec :: u64
  e_inotify :: "nat list"
  e_inotify_cookie :: u32
  e_stdio_pty :: "nat option"
  e_stdio_input :: bytes
  e_terminal_input_wait :: bool
  e_network_wait :: bool
  e_page_in_wait :: bool
  e_pager :: pager
  e_network_expired :: bool
  e_trace :: "nat trace option"
  e_exit_code :: "u32 option"
  e_next_asid :: u64
  e_shared_maps :: "shared_map list"
  e_opened_files :: "nat set option"
  e_rng_state :: u64
  e_output :: bytes
  e_secret_handles :: "(u64, host_secret) btree"
  e_secret_nodes :: "(nat, u64) btree"
  e_agent_principal :: "bytes option"
  e_manifest :: "manifest option"
  e_ptys :: "(u64, nat) btree"
  e_next_pty_id :: u64
  e_file_chunk_wait :: "(u64 \<times> hash) option"
  e_next_file_ticket :: u64
  e_panicked :: bool

abbreviation with_cpu :: "('x cpu \<Rightarrow> 'x cpu) \<Rightarrow> ('x, 'm, 'map, 'h) mach \<Rightarrow> ('x, 'm, 'map, 'h) mach" where
  "with_cpu f s \<equiv> s\<lparr>m_cpu := f (m_cpu s)\<rparr>"

abbreviation with_proc :: "('x cpu process \<Rightarrow> 'x cpu process) \<Rightarrow> ('x, 'm, 'map, 'h) mach \<Rightarrow> ('x, 'm, 'map, 'h) mach" where
  "with_proc f s \<equiv> s\<lparr>e_proc := f (e_proc s)\<rparr>"

abbreviation with_sched ::
  "(('x cpu, 'map) scheduler \<Rightarrow> ('x cpu, 'map) scheduler) \<Rightarrow> ('x, 'm, 'map, 'h) mach \<Rightarrow> ('x, 'm, 'map, 'h) mach" where
  "with_sched f s \<equiv> s\<lparr>e_sched := f (e_sched s)\<rparr>"

abbreviation with_heap :: "(kheap \<Rightarrow> kheap) \<Rightarrow> ('x, 'm, 'map, 'h) mach \<Rightarrow> ('x, 'm, 'map, 'h) mach" where
  "with_heap f s \<equiv> s\<lparr>e_heap := f (e_heap s)\<rparr>"

definition now_nanos :: "('x, 'm, 'map, 'h) mach \<Rightarrow> u64" where
  "now_nanos s = saturating_add (c_icount (m_cpu s)) (e_warp_nanos s)"

definition record_exit :: "u32 \<Rightarrow> ('x, 'm, 'map, 'h) mach \<Rightarrow> ('x, 'm, 'map, 'h) mach" where
  "record_exit code s = s\<lparr>e_exit_code := Some code\<rparr>"

definition trace_event :: "event \<Rightarrow> ('x, 'm, 'map, 'h) mach \<Rightarrow> ('x, 'm, 'map, 'h) mach" where
  "trace_event e s = s\<lparr>e_trace := map_option (trace_push e) (e_trace s)\<rparr>"

definition alloc_asid :: "('x, 'm, 'map, 'h) mach \<Rightarrow> u64 \<times> ('x, 'm, 'map, 'h) mach" where
  "alloc_asid s = (e_next_asid s, s\<lparr>e_next_asid := e_next_asid s + 1\<rparr>)"

text \<open>A call on the descriptor table of the running process.\<close>

definition on_table ::
  "(nat \<Rightarrow> kheap \<Rightarrow> (errno + 'a) \<times> kheap) \<Rightarrow> ('x, 'm, 'map, 'h) mach \<Rightarrow> (errno + 'a) \<times> ('x, 'm, 'map, 'h) mach" where
  "on_table f s = (let (r, h) = f (p_fds (e_proc s)) (e_heap s) in (r, s\<lparr>e_heap := h\<rparr>))"

section \<open>Guest memory access\<close>

definition PAGE_IN_RESTART :: errno where
  "PAGE_IN_RESTART = 0x50414745"

definition install_page ::
  "('m, 'map, 'h) ops \<Rightarrow> u64 \<Rightarrow> bytes \<Rightarrow> u8 \<Rightarrow> access_kind \<Rightarrow> ('x, 'm, 'map, 'h) mach \<Rightarrow> (errno + unit) \<times> ('x, 'm, 'map, 'h) mach" where
  "install_page ops page bs p access s =
     (let (ok, mem) = op_write ops page bs (m_mem s) in
      if \<not> ok then (Inl EFAULT, s\<lparr>m_mem := mem\<rparr>)
      else let (ok, mem) = op_update_perm ops page PAGE_SIZE p mem in
        if \<not> ok then (Inl EFAULT, s\<lparr>m_mem := mem\<rparr>)
        else (Inr (), s\<lparr>m_mem := mem, e_pager := mark_resident (p_asid (e_proc s)) page access (e_pager s)\<rparr>))"

definition touch_cold ::
  "('m, 'map, 'h) ops \<Rightarrow> u64 \<Rightarrow> access_kind \<Rightarrow> ('x, 'm, 'map, 'h) mach \<Rightarrow> (errno + unit) \<times> ('x, 'm, 'map, 'h) mach" where
  "touch_cold ops page access s =
     (case pg_resolve (vchunks (e_vfs s)) (p_asid (e_proc s)) page access (e_pager s) of
        Panic \<Rightarrow> (Inl EFAULT, s\<lparr>e_panicked := True\<rparr>)
      | Ret (r, p) \<Rightarrow>
          let s = s\<lparr>e_pager := p\<rparr> in
          (case r of
             PgReady resolved bs final_perm \<Rightarrow> install_page ops resolved bs final_perm access s
           | PgMissing _ \<Rightarrow>
               (Inl PAGE_IN_RESTART,
                s\<lparr>e_page_in_wait := True, m_cpu := (m_cpu s)\<lparr>c_pending_exception := Some (c_exception (m_cpu s))\<rparr>\<rparr>)
           | PgInvalid why \<Rightarrow> (Inl EIO, s)
           | NotLazy \<Rightarrow> (Inr (), s)))"

definition touch_page ::
  "('m, 'map, 'h) ops \<Rightarrow> u64 \<Rightarrow> access_kind \<Rightarrow> ('x, 'm, 'map, 'h) mach \<Rightarrow> (errno + unit) \<times> ('x, 'm, 'map, 'h) mach" where
  "touch_page ops page access s =
     (case page_state (e_pager s) (p_asid (e_proc s)) page of
        None \<Rightarrow> (Inr (), s)
      | Some (is_resident, final_perm) \<Rightarrow>
          if final_perm AND required_perm access = 0 then (Inl EFAULT, s)
          else if is_resident then (Inr (), s)
          else touch_cold ops page access s)"

function touch_loop ::
  "('m, 'map, 'h) ops \<Rightarrow> access_kind \<Rightarrow> u64 \<Rightarrow> u64 \<Rightarrow> ('x, 'm, 'map, 'h) mach \<Rightarrow> (errno + unit) \<times> ('x, 'm, 'map, 'h) mach" where
  "touch_loop ops access page stop s =
     (if page < stop then
        (case touch_page ops page access s of
           (Inl e, s) \<Rightarrow> (Inl e, s)
         | (Inr _, s) \<Rightarrow> touch_loop ops access (saturating_add page PAGE_SIZE) stop s)
      else (Inr (), s))"
  by pat_completeness auto
termination
proof (relation "measure (\<lambda>(ops, access, page, stop, s). 2 ^ 64 - unat page)")
  fix ops :: "('m, 'map, 'h) ops" and access and page stop :: u64 and s s' :: "('x, 'm, 'map, 'h) mach"
  assume "page < stop"
  then have "unat page < unat stop" "unat stop < 2 ^ 64"
    using unsigned_less [of stop, where ?'a = nat] by (simp_all add: word_less_nat_alt)
  then show "((ops, access, saturating_add page PAGE_SIZE, stop, s'), ops, access, page, stop, s)
      \<in> measure (\<lambda>(ops, access, page, stop, s). 2 ^ 64 - unat page)"
    by (simp add: unat_saturating_add PAGE_SIZE_def)
qed simp

declare touch_loop.simps [simp del]

definition host_touch ::
  "('m, 'map, 'h) ops \<Rightarrow> u64 \<Rightarrow> nat \<Rightarrow> access_kind \<Rightarrow> ('x, 'm, 'map, 'h) mach \<Rightarrow> (errno + unit) \<times> ('x, 'm, 'map, 'h) mach" where
  "host_touch ops addr len access s =
     (if len = 0 \<or> pg_is_empty (e_pager s) then (Inr (), s)
      else case checked_add addr (of_nat len) of
          None \<Rightarrow> (Inl EFAULT, s)
        | Some stop \<Rightarrow> touch_loop ops access (page_of addr) stop s)"

text \<open>A read fills a zeroed buffer of exactly the length asked for.\<close>

definition fill_buffer :: "nat \<Rightarrow> bytes \<Rightarrow> bytes" where
  "fill_buffer n bs = take n (bs @ replicate n 0)"

lemma length_fill_buffer [simp]: "length (fill_buffer n bs) = n"
  by (simp add: fill_buffer_def)

definition read_mem_raw :: "('m, 'map, 'h) ops \<Rightarrow> u64 \<Rightarrow> nat \<Rightarrow> ('x, 'm, 'map, 'h) mach \<Rightarrow> errno + bytes" where
  "read_mem_raw ops addr len s = (case op_read ops addr len (m_mem s) of None \<Rightarrow> Inl EFAULT | Some bs \<Rightarrow> Inr (fill_buffer len bs))"

definition read_mem ::
  "('m, 'map, 'h) ops \<Rightarrow> u64 \<Rightarrow> nat \<Rightarrow> ('x, 'm, 'map, 'h) mach \<Rightarrow> (errno + bytes) \<times> ('x, 'm, 'map, 'h) mach" where
  "read_mem ops addr len s =
     (case host_touch ops addr len AccRead s of
        (Inl e, s) \<Rightarrow> (Inl e, s)
      | (Inr _, s) \<Rightarrow> (read_mem_raw ops addr len s, s))"

definition write_mem_raw ::
  "('m, 'map, 'h) ops \<Rightarrow> u64 \<Rightarrow> bytes \<Rightarrow> ('x, 'm, 'map, 'h) mach \<Rightarrow> (errno + unit) \<times> ('x, 'm, 'map, 'h) mach" where
  "write_mem_raw ops addr bs s =
     (let (ok, mem) = op_write ops addr bs (m_mem s) in (if ok then Inr () else Inl EFAULT, s\<lparr>m_mem := mem\<rparr>))"

definition write_mem ::
  "('m, 'map, 'h) ops \<Rightarrow> u64 \<Rightarrow> bytes \<Rightarrow> ('x, 'm, 'map, 'h) mach \<Rightarrow> (errno + unit) \<times> ('x, 'm, 'map, 'h) mach" where
  "write_mem ops addr bs s =
     (case host_touch ops addr (length bs) AccWrite s of
        (Inl e, s) \<Rightarrow> (Inl e, s)
      | (Inr _, s) \<Rightarrow> write_mem_raw ops addr bs s)"

definition PATH_MAX :: nat where
  "PATH_MAX = 4096"

definition cstr_take :: "u64 \<Rightarrow> nat \<Rightarrow> nat" where
  "cstr_take cursor room = min (min 64 room) (unat (PAGE_SIZE - (cursor AND (PAGE_SIZE - 1))))"

lemma cstr_take_pos: "0 < room \<Longrightarrow> 0 < cstr_take cursor room"
proof -
  have "cursor AND (PAGE_SIZE - 1) \<le> PAGE_SIZE - 1" by (rule word_and_le1)
  then have "cursor AND (PAGE_SIZE - 1) < PAGE_SIZE" by (simp add: PAGE_SIZE_def word_le_nat_alt word_less_nat_alt)
  then have "PAGE_SIZE - (cursor AND (PAGE_SIZE - 1)) \<noteq> 0" by auto
  then show "0 < room \<Longrightarrow> 0 < cstr_take cursor room" by (simp add: cstr_take_def unat_gt_0)
qed

function cstr_loop ::
  "('m, 'map, 'h) ops \<Rightarrow> nat \<Rightarrow> u64 \<Rightarrow> bytes \<Rightarrow> ('x, 'm, 'map, 'h) mach \<Rightarrow> (errno + bytes) \<times> ('x, 'm, 'map, 'h) mach" where
  "cstr_loop ops maxlen cursor out s =
     (if length out < maxlen then
        let k = cstr_take cursor (maxlen - length out) in
        (case host_touch ops cursor k AccRead s of
           (Inl e, s) \<Rightarrow> (Inl e, s)
         | (Inr _, s) \<Rightarrow>
             (case op_read ops cursor k (m_mem s) of
                None \<Rightarrow> (Inl EFAULT, s)
              | Some bs \<Rightarrow>
                  let chunk = fill_buffer k bs in
                  (case position (\<lambda>b. b = 0) chunk of
                     Some nul \<Rightarrow> (Inr (out @ take nul chunk), s)
                   | None \<Rightarrow> cstr_loop ops maxlen (cursor + of_nat k) (out @ chunk) s)))
      else (Inl EINVAL, s))"
  by pat_completeness auto
termination
proof (relation "measure (\<lambda>(ops, maxlen, cursor, out, s). maxlen - length out)")
  fix ops :: "('m, 'map, 'h) ops" and maxlen and cursor :: u64 and out bs chunk :: bytes and s s' :: "('x, 'm, 'map, 'h) mach" and k
  assume "length out < maxlen" "k = cstr_take cursor (maxlen - length out)" "chunk = fill_buffer k bs"
  then show "((ops, maxlen, cursor + of_nat k, out @ chunk, s'), ops, maxlen, cursor, out, s)
      \<in> measure (\<lambda>(ops, maxlen, cursor, out, s). maxlen - length out)"
    using cstr_take_pos [of "maxlen - length out" cursor] by simp
qed simp

declare cstr_loop.simps [simp del]

definition read_cstr_limit ::
  "('m, 'map, 'h) ops \<Rightarrow> u64 \<Rightarrow> nat \<Rightarrow> ('x, 'm, 'map, 'h) mach \<Rightarrow> (errno + bytes) \<times> ('x, 'm, 'map, 'h) mach" where
  "read_cstr_limit ops addr maxlen s = cstr_loop ops maxlen addr [] s"

definition read_cstr :: "('m, 'map, 'h) ops \<Rightarrow> u64 \<Rightarrow> ('x, 'm, 'map, 'h) mach \<Rightarrow> (errno + bytes) \<times> ('x, 'm, 'map, 'h) mach" where
  "read_cstr ops addr s = read_cstr_limit ops addr PATH_MAX s"

section \<open>What a copy leaves alone\<close>

text \<open>A copy to or from guest memory changes memory, the pager, the page-in wait, the pending exception
  of the processor and the panic mark, and nothing else.\<close>

definition copy_only :: "('x, 'm, 'map, 'h) mach \<Rightarrow> ('x, 'm, 'map, 'h) mach \<Rightarrow> bool" where
  "copy_only s s' \<longleftrightarrow>
     s' = s\<lparr>m_mem := m_mem s', e_pager := e_pager s', e_page_in_wait := e_page_in_wait s', e_panicked := e_panicked s',
            m_cpu := (m_cpu s)\<lparr>c_pending_exception := c_pending_exception (m_cpu s')\<rparr>\<rparr>"

lemma copy_only_intro:
  "s' = s\<lparr>m_mem := mem, e_pager := pg, e_page_in_wait := w, e_panicked := b, m_cpu := (m_cpu s)\<lparr>c_pending_exception := pe\<rparr>\<rparr> \<Longrightarrow>
   copy_only s s'"
  by (simp add: copy_only_def)

lemma copy_only_elim:
  assumes "copy_only s s'"
  obtains mem pg w b pe where
    "s' = s\<lparr>m_mem := mem, e_pager := pg, e_page_in_wait := w, e_panicked := b, m_cpu := (m_cpu s)\<lparr>c_pending_exception := pe\<rparr>\<rparr>"
  using assms unfolding copy_only_def by blast

lemma copy_only_fields:
  assumes "copy_only s s'"
  shows "e_proc s' = e_proc s" "e_sched s' = e_sched s" "e_heap s' = e_heap s" "e_last_group s' = e_last_group s"
    "e_vfs s' = e_vfs s" "e_host s' = e_host s" "e_warp_nanos s' = e_warp_nanos s" "e_net s' = e_net s"
    "e_next_asid s' = e_next_asid s" "e_exit_code s' = e_exit_code s"
    "e_stdio_pty s' = e_stdio_pty s" "e_stdio_input s' = e_stdio_input s"
    "\<exists>pe. m_cpu s' = (m_cpu s)\<lparr>c_pending_exception := pe\<rparr>"
  by (rule copy_only_elim [OF assms]; auto)+

lemma copy_only_trans: "copy_only s t \<Longrightarrow> copy_only t u \<Longrightarrow> copy_only s u"
  by (elim copy_only_elim) (auto intro!: copy_only_intro)

lemma copy_only_refl [simp, intro]: "copy_only s s"
  and copy_only_mem: "copy_only s (s\<lparr>m_mem := mem\<rparr>)"
  and copy_only_pager: "copy_only s (s\<lparr>e_pager := pg\<rparr>)"
  and copy_only_panic: "copy_only s (s\<lparr>e_panicked := b\<rparr>)"
  and copy_only_wait: "copy_only s (s\<lparr>e_page_in_wait := w, m_cpu := (m_cpu s)\<lparr>c_pending_exception := pe\<rparr>\<rparr>)"
  by (simp_all add: copy_only_def)

lemma copy_only_install: "install_page ops page bs p access s = (r, s') \<Longrightarrow> copy_only s s'"
  using copy_only_mem [of s] copy_only_trans [OF copy_only_mem [of s] copy_only_pager]
  by (auto simp: install_page_def Let_def case_prod_beta split: if_splits)

lemma copy_only_cold: "touch_cold ops page access s = (r, s') \<Longrightarrow> copy_only s s'"
  using copy_only_panic [of s True] copy_only_pager [of s]
    copy_only_trans [OF copy_only_pager copy_only_install] copy_only_trans [OF copy_only_pager copy_only_wait]
  by (auto simp: touch_cold_def Let_def split: run.splits prod.splits fault_resolution.splits)

lemma copy_only_page: "touch_page ops page access s = (r, s') \<Longrightarrow> copy_only s s'"
  by (auto simp: touch_page_def split: option.splits if_splits dest: copy_only_cold)

lemma copy_only_loop: "touch_loop ops access page stop s = (r, s') \<Longrightarrow> copy_only s s'"
proof (induction ops access page stop s rule: touch_loop.induct)
  case (1 ops access page stop s)
  obtain q t where q: "touch_page ops page access s = (q, t)" by fastforce
  show ?case
    using 1(1) [OF _ q [symmetric]] 1(2) q unfolding touch_loop.simps [of ops access page]
    by (auto split: if_splits sum.splits dest: copy_only_page intro: copy_only_trans)
qed

lemma copy_only_touch: "host_touch ops addr len access s = (r, s') \<Longrightarrow> copy_only s s'"
  by (auto simp: host_touch_def split: if_splits option.splits dest: copy_only_loop)

lemma copy_only_write: "write_mem ops addr bs s = (r, s') \<Longrightarrow> copy_only s s'"
proof -
  obtain q t where q: "host_touch ops addr (length bs) AccWrite s = (q, t)" by fastforce
  then show "write_mem ops addr bs s = (r, s') \<Longrightarrow> copy_only s s'"
    using copy_only_touch [OF q] copy_only_trans [OF _ copy_only_mem]
    by (auto simp: write_mem_def write_mem_raw_def case_prod_beta split: sum.splits)
qed

lemma copy_only_read: "read_mem ops addr len s = (r, s') \<Longrightarrow> copy_only s s'"
  by (auto simp: read_mem_def split: prod.splits sum.splits dest!: copy_only_touch)

text \<open>Without lazy mappings a copy is the engine's own.\<close>

lemma host_touch_eager [simp]: "pg_is_empty (e_pager s) \<Longrightarrow> host_touch ops addr len access s = (Inr (), s)"
  by (simp add: host_touch_def)

lemma write_mem_eager: "pg_is_empty (e_pager s) \<Longrightarrow> write_mem ops addr bs s = write_mem_raw ops addr bs s"
  by (simp add: write_mem_def)

lemma read_mem_eager: "pg_is_empty (e_pager s) \<Longrightarrow> read_mem ops addr len s = (read_mem_raw ops addr len s, s)"
  by (simp add: read_mem_def)

end
