(* ===== verification/Signals.thy ===== *)
theory Signals
  imports Machine
begin

text \<open>
  Signals in \<^verbatim>\<open>crates/linux-compat/src/syscall.rs\<close>: dispositions, marking signals pending, what the
  lowest deliverable signal calls for, entering a handler and returning from it. A signal action is
  the 32 bytes the guest registered: handler, flags, restorer and mask.
\<close>

unbundle bit_operations_syntax

section \<open>Dispositions\<close>

definition SIGKILL :: u64 where "SIGKILL = 9"
definition SIGSTOP :: u64 where "SIGSTOP = 19"
definition NSIG :: u64 where "NSIG = 64"
definition SIGTTIN :: u64 where "SIGTTIN = 21"
definition SIGTTOU :: u64 where "SIGTTOU = 22"
definition SIG_DFL :: u64 where "SIG_DFL = 0"
definition SIG_IGN :: u64 where "SIG_IGN = 1"
definition SIGCHLD :: u64 where "SIGCHLD = 17"
definition SIGCONT :: u64 where "SIGCONT = 18"
definition SA_RESTART :: u64 where "SA_RESTART = 0x10000000"
definition SA_NODEFER :: u64 where "SA_NODEFER = 0x40000000"
definition SA_ONSTACK :: u64 where "SA_ONSTACK = 0x08000000"

lemmas signal_defs = SIGKILL_def SIGSTOP_def NSIG_def SIGTTIN_def SIGTTOU_def SIG_DFL_def SIG_IGN_def SIGCHLD_def SIGCONT_def

type_synonym sig_table = "u64 \<Rightarrow> bytes option"

definition sa_word :: "nat \<Rightarrow> bytes \<Rightarrow> u64" where
  "sa_word off a = u64_of_le (take 8 (drop off a))"

abbreviation sa_handler :: "bytes \<Rightarrow> u64" where "sa_handler \<equiv> sa_word 0"
abbreviation sa_flags :: "bytes \<Rightarrow> u64" where "sa_flags \<equiv> sa_word 8"
abbreviation sa_restorer :: "bytes \<Rightarrow> u64" where "sa_restorer \<equiv> sa_word 16"
abbreviation sa_mask :: "bytes \<Rightarrow> u64" where "sa_mask \<equiv> sa_word 24"

definition sig_bit :: "u64 \<Rightarrow> u64" where
  "sig_bit sig = push_bit (unat (sig - 1)) 1"

definition trailing_zeros :: "u64 \<Rightarrow> nat" where
  "trailing_zeros w = length (takeWhile (\<lambda>i. \<not> bit w i) [0..<64])"

definition lowest_signal :: "u64 \<Rightarrow> u64" where
  "lowest_signal w = of_nat (trailing_zeros w) + 1"

definition default_action_terminates :: "u64 \<Rightarrow> bool" where
  "default_action_terminates sig \<longleftrightarrow> sig \<notin> {17, 18, 19, 20, 21, 22, 23, 28}"

definition default_action_stops :: "u64 \<Rightarrow> bool" where
  "default_action_stops sig \<longleftrightarrow> sig \<in> {19, 20, 21, 22}"

definition acts_on_signal :: "sig_table \<Rightarrow> u64 \<Rightarrow> bool" where
  "acts_on_signal acts sig =
     (if sig \<in> {SIGKILL, SIGSTOP} then True
      else let by_default = default_action_terminates sig \<or> default_action_stops sig in
        (case acts sig of
           Some a \<Rightarrow> if sa_handler a = SIG_DFL then by_default else if sa_handler a = SIG_IGN then False else True
         | None \<Rightarrow> by_default))"

definition proc_acts :: "kheap \<Rightarrow> 'c process \<Rightarrow> sig_table" where
  "proc_acts h p = sigs_at (p_sigactions p) h"

section \<open>Marking signals pending\<close>

definition add_pending :: "u64 \<Rightarrow> 'c process \<Rightarrow> 'c process" where
  "add_pending bits p = p\<lparr>p_pending_signals := p_pending_signals p OR bits\<rparr>"

definition clear_pending :: "u64 \<Rightarrow> 'c process \<Rightarrow> 'c process" where
  "clear_pending bits p = p\<lparr>p_pending_signals := p_pending_signals p AND NOT bits\<rparr>"

definition map_parked ::
  "('c parked_task \<Rightarrow> 'c parked_task) \<Rightarrow> ('c, 'map) scheduler \<Rightarrow> ('c, 'map) scheduler" where
  "map_parked f sc = sc\<lparr>sc_parked := map f (sc_parked sc)\<rparr>"

definition deliver_signal_to_pgrp :: "u64 \<Rightarrow> u64 \<Rightarrow> ('x, 'm, 'map, 'h) mach \<Rightarrow> ('x, 'm, 'map, 'h) mach" where
  "deliver_signal_to_pgrp pgrp sig s =
     (if pgrp = 0 then s
      else let mark = (\<lambda>p. if p_pgid p = pgrp \<and> acts_on_signal (proc_acts (e_heap s) p) sig then add_pending (sig_bit sig) p else p)
           in s\<lparr>e_proc := mark (e_proc s), e_sched := map_parked (set_proc mark) (e_sched s)\<rparr>)"

text \<open>The scan both \<^verbatim>\<open>signal_process\<close> and \<^verbatim>\<open>notify_parent_sigchld\<close> make over the parked threads of
  a group: the best unblocked and the best blocked candidate so far, the leader preferred, and no
  further look once an unblocked leader is found.\<close>

primrec pick_thread ::
  "('c parked_task \<Rightarrow> bool) \<Rightarrow> u64 \<Rightarrow> u64 \<Rightarrow> nat \<Rightarrow> nat option \<Rightarrow> nat option \<Rightarrow> 'c parked_task list \<Rightarrow> nat option" where
  "pick_thread ok tgid bits i unblocked fallback [] = (case unblocked of Some u \<Rightarrow> Some u | None \<Rightarrow> fallback)"
| "pick_thread ok tgid bits i unblocked fallback (t # ts) =
     (if p_tgid (pk_proc t) \<noteq> tgid \<or> \<not> ok t then pick_thread ok tgid bits (Suc i) unblocked fallback ts
      else let blocked = (p_sigmask (pk_proc t) AND bits \<noteq> 0); leader = (p_pid (pk_proc t) = tgid) in
        if \<not> blocked \<and> leader then Some i
        else pick_thread ok tgid bits (Suc i)
               (if \<not> blocked \<and> unblocked = None then Some i else unblocked)
               (if blocked \<and> (leader \<or> fallback = None) then Some i else fallback) ts)"

definition mark_parked :: "nat option \<Rightarrow> u64 \<Rightarrow> ('c, 'map) scheduler \<Rightarrow> ('c, 'map) scheduler" where
  "mark_parked r bits sc =
     (case r of
        None \<Rightarrow> sc
      | Some i \<Rightarrow> sc\<lparr>sc_parked := (sc_parked sc)[i := set_proc (add_pending bits) (sc_parked sc ! i)]\<rparr>)"

definition signal_process :: "u64 \<Rightarrow> u64 \<Rightarrow> ('x, 'm, 'map, 'h) mach \<Rightarrow> bool \<times> ('x, 'm, 'map, 'h) mach" where
  "signal_process tgid sig s =
     (if sig = 0 \<or> sig > NSIG then (False, s)
      else let ok = (\<lambda>p. acts_on_signal (proc_acts (e_heap s) p) sig) in
        if p_tgid (e_proc s) = tgid
        then (True, if ok (e_proc s) then with_proc (add_pending (sig_bit sig)) s else s)
        else (group_has_parked (e_sched s) tgid,
              with_sched (mark_parked
                (pick_thread (\<lambda>t. ok (pk_proc t)) tgid (sig_bit sig) 0 None None (sc_parked (e_sched s))) (sig_bit sig)) s))"

definition has_chld_handler :: "sig_table \<Rightarrow> bool" where
  "has_chld_handler acts = (case acts SIGCHLD of None \<Rightarrow> False | Some a \<Rightarrow> sa_handler a > 1)"

definition notify_parent_sigchld :: "u64 \<Rightarrow> ('x, 'm, 'map, 'h) mach \<Rightarrow> ('x, 'm, 'map, 'h) mach" where
  "notify_parent_sigchld parent s =
     (let h = e_heap s; parked = sc_parked (e_sched s);
          handled = (case find (\<lambda>t. p_tgid (pk_proc t) = parent) parked of
              Some t \<Rightarrow> has_chld_handler (proc_acts h (pk_proc t))
            | None \<Rightarrow> p_tgid (e_proc s) = parent \<and> has_chld_handler (proc_acts h (e_proc s)))
      in if \<not> handled then s
         else with_sched (mark_parked (pick_thread (\<lambda>_. True) parent (sig_bit SIGCHLD) 0 None None parked) (sig_bit SIGCHLD)) s)"

section \<open>What a pending signal calls for\<close>

datatype signal_exit_action = SaNone | SaHandler | SaTerminate u64 | SaStop u64

lemma bit_word_exists: "w \<noteq> (0::u64) \<Longrightarrow> \<exists>i<64. bit w i"
  using bit_imp_le_length [of w] by (fastforce simp: bit_eq_iff)

lemma trailing_zeros_bit:
  assumes "w \<noteq> (0::u64)"
  shows "trailing_zeros w < 64" "bit w (trailing_zeros w)" "\<And>j. j < trailing_zeros w \<Longrightarrow> \<not> bit w j"
proof -
  obtain i where i: "i < 64" "bit w i" using bit_word_exists [OF assms] by blast
  let ?P = "\<lambda>i. \<not> bit w i"
  show less: "trailing_zeros w < 64"
    using i takeWhile_eq_all_conv [of ?P "[0..<64]"] length_takeWhile_le [of ?P "[0..<64]"]
    by (metis atLeastLessThan_iff bot_nat_0.extremum diff_zero le_neq_implies_less length_upt set_upt takeWhile_eq_take
        take_all_iff trailing_zeros_def)
  show "bit w (trailing_zeros w)"
    using nth_length_takeWhile [of ?P "[0..<64]"] less by (simp add: trailing_zeros_def)
  show "\<not> bit w j" if "j < trailing_zeros w" for j
    using nth_mem [of j "takeWhile ?P [0..<64]"] set_takeWhileD [of _ ?P "[0..<64]"] that takeWhile_nth [of j ?P "[0..<64]"] less
    by (auto simp: trailing_zeros_def)
qed

lemma bit_sig_bit: "bit (sig_bit sig) j \<longleftrightarrow> j = unat (sig - 1) \<and> j < 64"
  by (auto simp: sig_bit_def bit_exp_iff)

lemma lowest_signal_index: "w \<noteq> 0 \<Longrightarrow> unat (lowest_signal w - 1) = trailing_zeros w"
  using trailing_zeros_bit(1) [of w] by (simp add: lowest_signal_def unat_of_nat)

lemma bit_lowest: "w \<noteq> 0 \<Longrightarrow> bit (sig_bit (lowest_signal w)) j \<longleftrightarrow> j = trailing_zeros w"
  using trailing_zeros_bit(1) [of w] by (auto simp: bit_sig_bit lowest_signal_index)

lemma clear_lowest_less: "p AND NOT m \<noteq> (0::u64) \<Longrightarrow> p AND NOT (sig_bit (lowest_signal (p AND NOT m))) < p"
proof -
  assume d: "p AND NOT m \<noteq> 0"
  let ?k = "trailing_zeros (p AND NOT m)" and ?b = "sig_bit (lowest_signal (p AND NOT m))"
  have "bit p ?k" using trailing_zeros_bit(2) [OF d] by (simp add: bit_and_iff)
  moreover have "\<not> bit (p AND NOT ?b) ?k" using bit_lowest [OF d] trailing_zeros_bit(1) [OF d] by (simp add: bit_and_iff bit_not_iff)
  ultimately have "p AND NOT ?b \<noteq> p" by metis
  moreover have "p AND NOT ?b \<le> p" by (rule word_and_le2)
  ultimately show "p AND NOT ?b < p" by simp
qed

text \<open>The loop of \<^verbatim>\<open>pending_signal_action\<close> on the pending set; it ends because every turn that goes on
  removes a pending bit.\<close>

function signal_scan :: "sig_table \<Rightarrow> u64 \<Rightarrow> u64 \<Rightarrow> signal_exit_action \<times> u64" where
  "signal_scan acts blocked pending =
     (let d = pending AND NOT blocked in
      if d = 0 then (SaNone, pending)
      else let sig = lowest_signal d; cleared = pending AND NOT (sig_bit sig); disposition = map_option sa_handler (acts sig) in
        if disposition = Some SIG_IGN then signal_scan acts blocked cleared
        else if disposition = None \<or> disposition = Some SIG_DFL
        then (if default_action_terminates sig then (SaTerminate sig, cleared)
              else if default_action_stops sig then (SaStop sig, cleared)
              else signal_scan acts blocked cleared)
        else (SaHandler, pending))"
  by pat_completeness auto
termination
  by (relation "measure (\<lambda>(acts, blocked, pending). unat pending)") (auto simp: clear_lowest_less word_less_nat_alt [symmetric])

declare signal_scan.simps [simp del]

definition pending_signal_action :: "('x, 'm, 'map, 'h) mach \<Rightarrow> signal_exit_action \<times> ('x, 'm, 'map, 'h) mach" where
  "pending_signal_action s =
     (let (a, pending) = signal_scan (proc_acts (e_heap s) (e_proc s)) (p_sigmask (e_proc s)) (p_pending_signals (e_proc s))
      in (a, with_proc (\<lambda>p. p\<lparr>p_pending_signals := pending\<rparr>) s))"

definition signal_restarts_the_syscall :: "('x, 'm, 'map, 'h) mach \<Rightarrow> bool option" where
  "signal_restarts_the_syscall s =
     (let pending = deliverable (e_proc s) in
      if pending = 0 then None
      else case proc_acts (e_heap s) (e_proc s) (lowest_signal pending) of
          None \<Rightarrow> None
        | Some a \<Rightarrow>
            if sa_handler a = SIG_DFL \<or> sa_handler a = SIG_IGN then None else Some (sa_flags a AND SA_RESTART \<noteq> 0))"

section \<open>Entering a handler\<close>

text \<open>The loop at the head of \<^verbatim>\<open>deliver_signal\<close>: the signal to handle with its action, and what stays
  pending.\<close>

function next_handler :: "sig_table \<Rightarrow> u64 \<Rightarrow> u64 \<Rightarrow> (u64 \<times> bytes) option \<times> u64" where
  "next_handler acts blocked pending =
     (let d = pending AND NOT blocked in
      if d = 0 then (None, pending)
      else let sig = lowest_signal d; action = acts sig;
               handler = (case action of None \<Rightarrow> SIG_DFL | Some a \<Rightarrow> sa_handler a) in
        if handler = SIG_DFL \<and> (default_action_terminates sig \<or> default_action_stops sig) then (None, pending)
        else let pending = pending AND NOT (sig_bit sig) in
          if handler \<noteq> SIG_DFL \<and> handler \<noteq> SIG_IGN then (map_option (Pair sig) action, pending)
          else next_handler acts blocked pending)"
  by pat_completeness auto
termination
  by (relation "measure (\<lambda>(acts, blocked, pending). unat pending)") (auto simp: clear_lowest_less word_less_nat_alt [symmetric])

declare next_handler.simps [simp del]

definition enter_at :: "u64 \<Rightarrow> 'x cpu \<Rightarrow> 'x cpu" where
  "enter_at pc c = c\<lparr>c_pc := pc, c_exception := (ExternalAddr, pc), c_pending_exception := None, c_block_id := - 1, c_block_offset := 0\<rparr>"

definition frame_top :: "bool \<Rightarrow> 'c process \<Rightarrow> u64 \<Rightarrow> u64" where
  "frame_top on_alt p interrupted_sp =
     (let sp = (case p_altstack p of
            Some (base, len) \<Rightarrow> if on_alt \<and> p_altstack_depth p = 0 then saturating_add base len else interrupted_sp
          | None \<Rightarrow> interrupted_sp)
      in if \<not> on_alt \<or> p_altstack_depth p > 0 then saturating_sub sp 128 else sp)"

definition siginfo_bytes :: "u64 \<Rightarrow> bytes" where
  "siginfo_bytes sig = u32_to_le (ucast sig) @ replicate 124 0"

text \<open>The state saved for \<^verbatim>\<open>rt_sigreturn\<close>, and the mask the handler runs under.\<close>

definition save_context :: "u64 \<Rightarrow> bytes \<Rightarrow> ('x, 'm, 'map, 'h) mach \<Rightarrow> ('x, 'm, 'map, 'h) mach" where
  "save_context sig a s =
     with_proc (\<lambda>p. p\<lparr>p_signal_saved := p_signal_saved p @ [m_cpu s], p_signal_saved_mask := p_signal_saved_mask p @ [p_sigmask p],
       p_sigmask := (if sa_flags a AND SA_NODEFER = 0 then p_sigmask p OR sig_bit sig else p_sigmask p) OR sa_mask a\<rparr>) s"

text \<open>The frame: addresses of the two zeroed structures and of the return address, and whether the
  return address could be written.\<close>

definition push_frame ::
  "('m, 'map, 'h) ops \<Rightarrow> bool \<Rightarrow> u64 \<Rightarrow> bytes \<Rightarrow> ('x, 'm, 'map, 'h) mach \<Rightarrow> (u64 \<times> u64 \<times> u64) \<times> (errno + unit) \<times> ('x, 'm, 'map, 'h) mach" where
  "push_frame ops on_alt sig a s =
     (let siginfo_ptr = saturating_sub (frame_top on_alt (e_proc s) (c_rsp (m_cpu s))) 128;
          (_, s) = write_mem ops siginfo_ptr (siginfo_bytes sig) s;
          ucontext_ptr = saturating_sub siginfo_ptr 256;
          (_, s) = write_mem ops ucontext_ptr (replicate 256 0) s;
          sp = saturating_sub (ucontext_ptr AND NOT 15) 8
      in ((siginfo_ptr, ucontext_ptr, sp), write_mem ops sp (u64_to_le (sa_restorer a)) s))"

definition enter_handler ::
  "('m, 'map, 'h) ops \<Rightarrow> u64 \<Rightarrow> bytes \<Rightarrow> ('x, 'm, 'map, 'h) mach \<Rightarrow> bool \<times> ('x, 'm, 'map, 'h) mach" where
  "enter_handler ops sig a s =
     (let s = save_context sig a (trace_event (EvSignal (c_icount (m_cpu s)) (p_pid (e_proc s)) sig) s);
          on_alt = (sa_flags a AND SA_ONSTACK \<noteq> 0 \<and> p_altstack (e_proc s) \<noteq> None)
      in case push_frame ops on_alt sig a s of
          (_, Inl _, s) \<Rightarrow>
            (False, with_proc (\<lambda>p. p\<lparr>p_signal_saved := butlast (p_signal_saved p),
               p_sigmask := last (p_signal_saved_mask p), p_signal_saved_mask := butlast (p_signal_saved_mask p)\<rparr>) s)
        | ((siginfo_ptr, ucontext_ptr, sp), Inr _, s) \<Rightarrow>
            (True, with_cpu (\<lambda>c. enter_at (sa_handler a)
                      (c\<lparr>c_rsp := sp, c_rdi := sig, c_rsi := siginfo_ptr, c_rdx := ucontext_ptr\<rparr>))
                    (with_proc (\<lambda>p. p\<lparr>p_altstack_depth := p_altstack_depth p + (if on_alt then 1 else 0),
                       p_altstack_frames := p_altstack_frames p @ [on_alt]\<rparr>) s)))"

definition deliver_signal ::
  "('m, 'map, 'h) ops \<Rightarrow> ('x, 'm, 'map, 'h) mach \<Rightarrow> bool \<times> ('x, 'm, 'map, 'h) mach" where
  "deliver_signal ops s =
     (let (r, pending) = next_handler (proc_acts (e_heap s) (e_proc s)) (p_sigmask (e_proc s)) (p_pending_signals (e_proc s));
          s = with_proc (\<lambda>p. p\<lparr>p_pending_signals := pending\<rparr>) s
      in case r of None \<Rightarrow> (False, s) | Some (sig, a) \<Rightarrow> enter_handler ops sig a s)"

section \<open>Returning from a handler\<close>

definition restore_cpu :: "'x cpu \<Rightarrow> 'x cpu \<Rightarrow> 'x cpu" where
  "restore_cpu snapshot c = snapshot\<lparr>c_icount := c_icount c\<rparr>"

definition sys_rt_sigreturn ::
  "('m, 'map, 'h) ops \<Rightarrow> ('x, 'm, 'map, 'h) mach \<Rightarrow> outcome \<times> ('x, 'm, 'map, 'h) mach" where
  "sys_rt_sigreturn ops s =
     (let saved = p_signal_saved (e_proc s); masks = p_signal_saved_mask (e_proc s); frames = p_altstack_frames (e_proc s);
          s = with_proc (\<lambda>p. p\<lparr>p_signal_saved := butlast saved, p_signal_saved_mask := butlast masks\<rparr>) s
      in if saved = [] \<or> masks = [] then (ORet (Inr 0), s)
         else let s = with_proc (\<lambda>p. p\<lparr>p_altstack_frames := butlast frames,
                    p_altstack_depth := (if frames \<noteq> [] \<and> last frames then saturating_sub (p_altstack_depth p) 1 else p_altstack_depth p),
                    p_sigmask := last masks\<rparr>) s;
                  s = with_cpu (restore_cpu (last saved)) s
              in (Switched, if deliverable (e_proc s) \<noteq> 0 then snd (deliver_signal ops s) else s))"

end
