(* ===== verification/Sched.thy ===== *)
theory Sched
  imports Signals
begin

text \<open>
  Parking, scheduling and stalls in \<^verbatim>\<open>crates/linux-compat/src/syscall.rs\<close>: saving the running task,
  choosing and restoring the next one with its address space, what happens when nothing is runnable,
  job-control stops, and the rule for background access to a terminal. Diagnostics and the engine's
  per-thread copies of the running process number are left out.
\<close>

unbundle bit_operations_syntax

section \<open>Resume points\<close>

definition SYSCALL_INSN_LEN :: u64 where
  "SYSCALL_INSN_LEN = 2"

definition prepare_resume :: "bool \<Rightarrow> 'x cpu \<Rightarrow> 'x cpu" where
  "prepare_resume restart c =
     (let resume = (if restart then c_next_pc c - SYSCALL_INSN_LEN else c_next_pc c)
      in enter_at resume (c\<lparr>c_next_pc := resume\<rparr>))"

definition resume_after_syscall :: "u64 \<Rightarrow> 'x cpu \<Rightarrow> 'x cpu" where
  "resume_after_syscall rax c =
     c\<lparr>c_rax := rax, c_exception := (ExternalAddr, c_next_pc c), c_pc := c_next_pc c, c_block_id := - 1, c_block_offset := 0\<rparr>"

definition end_wait_with :: "u64 \<Rightarrow> 'x cpu \<Rightarrow> 'x cpu" where
  "end_wait_with v c =
     (let after = c_pc c + SYSCALL_INSN_LEN in enter_at after (c\<lparr>c_rax := v, c_next_pc := after\<rparr>))"

section \<open>Parking\<close>

definition process_drop :: "'c process \<Rightarrow> kheap \<Rightarrow> kheap" where
  "process_drop p h = table_drop (p_fds p) h"

text \<open>The running process is replaced by a fresh initial one, which the next switch drops.\<close>

definition park_current :: "park_state \<Rightarrow> ('x, 'm, 'map, 'h) mach \<Rightarrow> ('x, 'm, 'map, 'h) mach" where
  "park_current ps s =
     (let (placeholder, h) = initial (e_heap s);
          task = \<lparr>pk_proc = e_proc s, pk_cpu = m_cpu s, pk_state = ps\<rparr>
      in s\<lparr>e_heap := h, e_proc := placeholder, e_sched := (e_sched s)\<lparr>sc_parked := sc_parked (e_sched s) @ [task]\<rparr>\<rparr>)"

abbreviation ready_index :: "('m, 'map, 'h) ops \<Rightarrow> u64 \<Rightarrow> ('x, 'm, 'map, 'h) mach \<Rightarrow> nat option" where
  "ready_index ops now s \<equiv> find_ready (op_readable ops (e_host s)) (e_heap s) (e_sched s) now"

section \<open>Stalls\<close>

text \<open>Queued keystrokes go to the terminal when the guest has consumed what it was given: the
  machine after it, and whether anything was fed.\<close>

definition feed_terminal :: "('x, 'm, 'map, 'h) mach \<Rightarrow> bool \<times> ('x, 'm, 'map, 'h) mach" where
  "feed_terminal s =
     (case e_stdio_pty s of
        None \<Rightarrow> (False, s)
      | Some i \<Rightarrow>
          (case kh_ptys (e_heap s) i of
             None \<Rightarrow> (False, s)
           | Some pty \<Rightarrow>
               if e_stdio_input s = [] \<or> pt_m2s pty \<noteq> [] then (False, s)
               else let (sig, pty) = feed_input (e_stdio_input s) pty;
                        s = s\<lparr>e_stdio_input := [], e_heap := (e_heap s)\<lparr>kh_ptys := (kh_ptys (e_heap s))(i \<mapsto> pty)\<rparr>\<rparr>
                    in (True, case sig of None \<Rightarrow> s | Some g \<Rightarrow> deliver_signal_to_pgrp (pt_fg_pgrp pty) g s)))"

definition warp_to_deadline :: "('m, 'map, 'h) ops \<Rightarrow> u64 option \<Rightarrow> ('x, 'm, 'map, 'h) mach \<Rightarrow> nat option \<times> ('x, 'm, 'map, 'h) mach" where
  "warp_to_deadline ops deadline s =
     (case deadline of
        None \<Rightarrow> (None, s)
      | Some d \<Rightarrow>
          let now = now_nanos s;
              s = (if d > now then s\<lparr>e_warp_nanos := e_warp_nanos s + (d - now)\<rparr> else s)
          in (ready_index ops (now_nanos s) s, s))"

definition HOST_WAIT_CAP :: u64 where
  "HOST_WAIT_CAP = 30000000000"

definition host_timeout :: "u64 \<Rightarrow> u64 option \<Rightarrow> u64" where
  "host_timeout now deadline =
     (case deadline of Some d \<Rightarrow> if d > now then min (d - now) HOST_WAIT_CAP else HOST_WAIT_CAP | None \<Rightarrow> HOST_WAIT_CAP)"

definition resolve_network ::
  "('m, 'map, 'h) ops \<Rightarrow> u64 option \<Rightarrow> u64 list \<Rightarrow> nat \<Rightarrow> ('x, 'm, 'map, 'h) mach \<Rightarrow> nat option \<times> ('x, 'm, 'map, 'h) mach" where
  "resolve_network ops deadline handles broker s =
     (let now = now_nanos s in
      if op_host_driven ops broker
      then (if e_network_expired s then warp_to_deadline ops deadline (s\<lparr>e_network_expired := False\<rparr>)
            else (None, s\<lparr>e_network_wait := True\<rparr>))
      else let (woke, host) = op_wait_ready ops broker handles (host_timeout now deadline) (e_host s);
               s = s\<lparr>e_host := host\<rparr>
           in if woke
              then (case ready_index ops now s of Some i \<Rightarrow> (Some i, s) | None \<Rightarrow> warp_to_deadline ops deadline s)
              else if deadline = None then (None, s) else warp_to_deadline ops deadline s)"

definition resolve_idle :: "('m, 'map, 'h) ops \<Rightarrow> ('x, 'm, 'map, 'h) mach \<Rightarrow> nat option \<times> ('x, 'm, 'map, 'h) mach" where
  "resolve_idle ops s =
     (let deadline = earliest_deadline (e_heap s) (e_sched s); handles = net_watch_handles (e_heap s) (e_sched s) in
      case (handles, e_net s) of
        (_ # _, Some broker) \<Rightarrow> resolve_network ops deadline handles broker s
      | _ \<Rightarrow> warp_to_deadline ops deadline s)"

definition resolve_stall :: "('m, 'map, 'h) ops \<Rightarrow> ('x, 'm, 'map, 'h) mach \<Rightarrow> nat option \<times> ('x, 'm, 'map, 'h) mach" where
  "resolve_stall ops s =
     (let now = now_nanos s; (fed, s) = feed_terminal s in
      case (if fed then ready_index ops now s else None) of
        Some i \<Rightarrow> (Some i, s)
      | None \<Rightarrow> resolve_idle ops s)"

section \<open>Scheduling\<close>

definition timed_out :: "u64 \<Rightarrow> park_state \<Rightarrow> bool" where
  "timed_out now ps = (case ps of PsFutex addr False (Some deadline) \<Rightarrow> now \<ge> deadline | _ \<Rightarrow> False)"

text \<open>The address space changes hands only between thread groups; a map is kept while its group has
  a parked task. The result is whether the next group's map was there.\<close>

definition switch_map ::
  "('m, 'map, 'h) ops \<Rightarrow> u64 \<Rightarrow> ('x, 'm, 'map, 'h) mach \<Rightarrow> bool \<times> ('x, 'm, 'map, 'h) mach" where
  "switch_map ops next_group s =
     (let prev_group = e_last_group s in
      if prev_group = next_group then (True, s\<lparr>e_last_group := next_group\<rparr>)
      else let (m, mem) = op_take_map ops (m_mem s);
               maps = (if prev_group \<noteq> 0 \<and> group_has_parked (e_sched s) prev_group
                       then (sc_group_maps (e_sched s))(prev_group \<mapsto> m) else sc_group_maps (e_sched s));
               s = s\<lparr>m_mem := mem, e_sched := (e_sched s)\<lparr>sc_group_maps := maps(next_group := None)\<rparr>\<rparr>
           in case maps next_group of
               None \<Rightarrow> (False, s)
             | Some m \<Rightarrow> (True, s\<lparr>m_mem := op_restore_map ops m mem, e_last_group := next_group\<rparr>))"

definition install_task :: "'x cpu parked_task \<Rightarrow> ('x, 'm, 'map, 'h) mach \<Rightarrow> ('x, 'm, 'map, 'h) mach" where
  "install_task t s =
     s\<lparr>m_cpu := restore_cpu (pk_cpu t) (m_cpu s), e_proc := pk_proc t, e_heap := process_drop (e_proc s) (e_heap s)\<rparr>"

definition wake_up ::
  "('m, 'map, 'h) ops \<Rightarrow> bool \<Rightarrow> bool \<Rightarrow> bool \<Rightarrow> ('x, 'm, 'map, 'h) mach \<Rightarrow> ('x, 'm, 'map, 'h) mach" where
  "wake_up ops expired interruptible condition_ready s =
     (let s = (if expired then with_cpu (\<lambda>c. c\<lparr>c_rax := neg ETIMEDOUT\<rparr>) s else s) in
      if deliverable (e_proc s) \<noteq> 0
      then let s = (if interruptible \<and> \<not> expired \<and> \<not> condition_ready \<and> signal_restarts_the_syscall s = Some False
                    then with_cpu (end_wait_with (neg EINTR)) s else s)
           in snd (deliver_signal ops s)
      else s)"

definition run_task :: "('m, 'map, 'h) ops \<Rightarrow> u64 \<Rightarrow> nat \<Rightarrow> ('x, 'm, 'map, 'h) mach \<Rightarrow> bool \<times> ('x, 'm, 'map, 'h) mach" where
  "run_task ops now i s =
     (let t = sc_parked (e_sched s) ! i;
          s = with_sched (\<lambda>sc. sc\<lparr>sc_parked := remove_at i (sc_parked sc)\<rparr>) s;
          expired = timed_out now (pk_state t);
          interruptible = (\<not> vfork_wait (pk_state t));
          condition_ready = wait_is_satisfied (op_readable ops (e_host s)) (e_heap s) (e_sched s) now t
      in case switch_map ops (p_tgid (pk_proc t)) s of
          (False, s) \<Rightarrow> (False, with_heap (process_drop (pk_proc t)) s)
        | (True, s) \<Rightarrow> (True, wake_up ops expired interruptible condition_ready (install_task t s)))"

definition schedule_next :: "('m, 'map, 'h) ops \<Rightarrow> ('x, 'm, 'map, 'h) mach \<Rightarrow> bool \<times> ('x, 'm, 'map, 'h) mach" where
  "schedule_next ops s =
     (let now = now_nanos s in
      case ready_index ops now s of
        Some i \<Rightarrow> run_task ops now i s
      | None \<Rightarrow>
          (case resolve_stall ops s of
             (Some i, s) \<Rightarrow> run_task ops now i s
           | (None, s) \<Rightarrow> (False, s)))"

definition reads_terminal :: "nat \<Rightarrow> park_state \<Rightarrow> bool" where
  "reads_terminal stdio ps =
     (case ps of PsWaiting watches None \<Rightarrow> list_ex (\<lambda>w. w = WPtyReadable stdio False) watches | _ \<Rightarrow> False)"

definition blocked_on_terminal_input :: "('x, 'm, 'map, 'h) mach \<Rightarrow> bool" where
  "blocked_on_terminal_input s =
     (case e_stdio_pty s of
        None \<Rightarrow> False
      | Some stdio \<Rightarrow> e_stdio_input s = [] \<and> list_ex (\<lambda>t. reads_terminal stdio (pk_state t)) (sc_parked (e_sched s)))"

definition stall_outcome :: "('x, 'm, 'map, 'h) mach \<Rightarrow> outcome \<times> ('x, 'm, 'map, 'h) mach" where
  "stall_outcome s =
     (if e_network_wait s then (Exit Interrupted, s)
      else if blocked_on_terminal_input s then (Exit Interrupted, s\<lparr>e_terminal_input_wait := True\<rparr>)
      else (Exit Deadlock, record_exit (- 1) s))"

definition resume_parked :: "('m, 'map, 'h) ops \<Rightarrow> ('x, 'm, 'map, 'h) mach \<Rightarrow> bool \<times> ('x, 'm, 'map, 'h) mach" where
  "resume_parked ops s = schedule_next ops s"

datatype host_wait = HwTerminal | HwNetwork

definition pending_host_wait :: "('m, 'map, 'h) ops \<Rightarrow> ('x, 'm, 'map, 'h) mach \<Rightarrow> host_wait option" where
  "pending_host_wait ops s =
     (if blocked_on_terminal_input s then Some HwTerminal
      else if (case e_net s of None \<Rightarrow> False | Some b \<Rightarrow> op_host_driven ops b) \<and> net_watch_handles (e_heap s) (e_sched s) \<noteq> []
      then Some HwNetwork else None)"

definition switch_away :: "('m, 'map, 'h) ops \<Rightarrow> ('x, 'm, 'map, 'h) mach \<Rightarrow> outcome \<times> ('x, 'm, 'map, 'h) mach" where
  "switch_away ops s = (case schedule_next ops s of (True, s) \<Rightarrow> (Switched, s) | (False, s) \<Rightarrow> stall_outcome s)"

definition block_and_switch ::
  "('m, 'map, 'h) ops \<Rightarrow> park_state \<Rightarrow> bool \<Rightarrow> ('x, 'm, 'map, 'h) mach \<Rightarrow> outcome \<times> ('x, 'm, 'map, 'h) mach" where
  "block_and_switch ops ps restart s = switch_away ops (park_current ps (with_cpu (prepare_resume restart) s))"

section \<open>Job-control stops\<close>

definition stop_proc :: "u64 \<Rightarrow> u64 \<Rightarrow> 'c process \<Rightarrow> 'c process" where
  "stop_proc tgid sig p = p\<lparr>p_stopped := True, p_stop_report := (if p_pid p = tgid then Some sig else p_stop_report p)\<rparr>"

definition stop_thread_group ::
  "('m, 'map, 'h) ops \<Rightarrow> u64 \<Rightarrow> bool \<Rightarrow> ('x, 'm, 'map, 'h) mach \<Rightarrow> outcome \<times> ('x, 'm, 'map, 'h) mach" where
  "stop_thread_group ops sig restart s =
     (let tgid = p_tgid (e_proc s);
          s = s\<lparr>e_proc := stop_proc tgid sig (e_proc s),
                e_sched := map_parked (set_proc (\<lambda>p. if p_tgid p = tgid then stop_proc tgid sig p else p)) (e_sched s)\<rparr>
      in block_and_switch ops PsReady restart (notify_parent_sigchld (p_ppid (e_proc s)) s))"

definition refuses_stop :: "u64 \<Rightarrow> ('x, 'm, 'map, 'h) mach \<Rightarrow> bool" where
  "refuses_stop sig s \<longleftrightarrow>
     p_sigmask (e_proc s) AND sig_bit sig \<noteq> 0 \<or> map_option sa_handler (proc_acts (e_heap s) (e_proc s) sig) = Some SIG_IGN"

definition in_background :: "nat \<Rightarrow> ('x, 'm, 'map, 'h) mach \<Rightarrow> bool" where
  "in_background pty s =
     (case kh_ptys (e_heap s) pty of None \<Rightarrow> False | Some t \<Rightarrow> pt_fg_pgrp t \<noteq> 0 \<and> pt_fg_pgrp t \<noteq> p_pgid (e_proc s))"

definition stop_background ::
  "('m, 'map, 'h) ops \<Rightarrow> u64 \<Rightarrow> ('x, 'm, 'map, 'h) mach \<Rightarrow> outcome \<times> ('x, 'm, 'map, 'h) mach" where
  "stop_background ops sig s =
     stop_thread_group ops sig True (with_proc (clear_pending (sig_bit sig)) (deliver_signal_to_pgrp (p_pgid (e_proc s)) sig s))"

definition background_tty_access ::
  "('m, 'map, 'h) ops \<Rightarrow> nat \<Rightarrow> u64 \<Rightarrow> ('x, 'm, 'map, 'h) mach \<Rightarrow> (outcome \<times> ('x, 'm, 'map, 'h) mach) option" where
  "background_tty_access ops pty sig s =
     (if \<not> in_background pty s then None
      else if refuses_stop sig s then Some (ORet (Inl EIO), s)
      else Some (stop_background ops sig s))"

definition background_tty_ioctl ::
  "('m, 'map, 'h) ops \<Rightarrow> nat \<Rightarrow> ('x, 'm, 'map, 'h) mach \<Rightarrow> (outcome \<times> ('x, 'm, 'map, 'h) mach) option" where
  "background_tty_ioctl ops pty s =
     (if \<not> in_background pty s \<or> refuses_stop SIGTTOU s then None else Some (stop_background ops SIGTTOU s))"

end
