(* ===== verification/ProcCalls.thy ===== *)
theory ProcCalls
  imports Sched
begin

text \<open>
  The process calls of \<^verbatim>\<open>crates/linux-compat/src/syscall.rs\<close>: signal registration and masks, the
  alternate stack, task exit, \<^verbatim>\<open>clone\<close>, \<^verbatim>\<open>wait4\<close>, \<^verbatim>\<open>futex\<close>, sleeping, process groups and \<^verbatim>\<open>kill\<close>. A
  32-bit wait status is kept as its bit pattern; a process argument the source reads as \<^verbatim>\<open>i64\<close> is an
  integer.
\<close>

unbundle bit_operations_syntax

section \<open>Task exit\<close>

definition encode_exit_status :: "u64 \<Rightarrow> u32" where
  "encode_exit_status code = push_bit 8 (ucast code AND 0xff)"

definition release_vfork :: "('x, 'm, 'map, 'h) mach \<Rightarrow> ('x, 'm, 'map, 'h) mach" where
  "release_vfork s =
     (case p_vfork_done (e_proc s) of
        None \<Rightarrow> s
      | Some d \<Rightarrow> s\<lparr>e_proc := (e_proc s)\<lparr>p_vfork_done := None\<rparr>, e_heap := set_flag d (e_heap s)\<rparr>)"

definition clear_tid :: "('m, 'map, 'h) ops \<Rightarrow> ('x, 'm, 'map, 'h) mach \<Rightarrow> ('x, 'm, 'map, 'h) mach" where
  "clear_tid ops s =
     (let addr = p_clear_child_tid (e_proc s) in
      if addr = 0 then s
      else let (_, s) = write_mem ops addr (u32_to_le 0) s
           in with_sched (\<lambda>sc. snd (futex_wake addr (- 1) sc)) s)"

definition drop_group :: "u64 \<Rightarrow> ('x, 'm, 'map, 'h) mach \<Rightarrow> ('x, 'm, 'map, 'h) mach" where
  "drop_group tgid s =
     (let gone = filter (\<lambda>t. p_tgid (pk_proc t) = tgid) (sc_parked (e_sched s))
      in s\<lparr>e_sched := (e_sched s)\<lparr>sc_parked := filter (\<lambda>t. p_tgid (pk_proc t) \<noteq> tgid) (sc_parked (e_sched s))\<rparr>,
           e_heap := fold (\<lambda>t. process_drop (pk_proc t)) gone (e_heap s)\<rparr>)"

definition root_exit_code :: "u32 \<Rightarrow> u32" where
  "root_exit_code status =
     (if status AND 0x7f \<noteq> 0 then 128 + (status AND 0x7f) else signed_drop_bit 8 status)"

definition release_table :: "('x, 'm, 'map, 'h) mach \<Rightarrow> ('x, 'm, 'map, 'h) mach" where
  "release_table s =
     (let (t, h) = table_new (e_heap s)
      in s\<lparr>e_heap := table_drop (p_fds (e_proc s)) h, e_proc := (e_proc s)\<lparr>p_fds := t\<rparr>\<rparr>)"

definition task_exit ::
  "('m, 'map, 'h) ops \<Rightarrow> u32 \<Rightarrow> bool \<Rightarrow> ('x, 'm, 'map, 'h) mach \<Rightarrow> outcome \<times> ('x, 'm, 'map, 'h) mach" where
  "task_exit ops status exit_group s =
     (let s = clear_tid ops (release_vfork s);
          pid = p_pid (e_proc s); tgid = p_tgid (e_proc s); ppid = p_ppid (e_proc s);
          s = (if exit_group then drop_group tgid s else s);
          group_leader = (pid = tgid)
      in if tgid = ROOT_PID \<and> (exit_group \<or> group_leader) then (Exit Halt, record_exit (root_exit_code status) s)
         else let dies = (group_leader \<or> exit_group);
                  s = (if dies then with_sched (\<lambda>sc. sc\<lparr>sc_zombies := sc_zombies sc @ [\<lparr>z_pid = tgid, z_ppid = ppid, z_status = status\<rparr>]\<rparr>) s else s);
                  s = release_table s;
                  s = (if dies then notify_parent_sigchld ppid s else s)
              in switch_away ops s)"

section \<open>Signal registration\<close>

definition sys_rt_sigaction ::
  "('m, 'map, 'h) ops \<Rightarrow> u64 \<Rightarrow> u64 \<Rightarrow> u64 \<Rightarrow> ('x, 'm, 'map, 'h) mach \<Rightarrow> (errno + u64) \<times> ('x, 'm, 'map, 'h) mach" where
  "sys_rt_sigaction ops sig new old s =
     (if new \<noteq> 0 \<and> sig \<in> {9, 19} then (Inl EINVAL, s)
      else let previous = (case proc_acts (e_heap s) (e_proc s) sig of None \<Rightarrow> replicate 32 0 | Some a \<Rightarrow> a);
               (r, s) = (if old \<noteq> 0 then write_mem ops old previous s else (Inr (), s))
           in case r of
               Inl e \<Rightarrow> (Inl e, s)
             | Inr _ \<Rightarrow>
                 if new = 0 then (Inr 0, s)
                 else (case read_mem ops new 32 s of
                         (Inl e, s) \<Rightarrow> (Inl e, s)
                       | (Inr action, s) \<Rightarrow>
                           (Inr 0, with_heap (\<lambda>h. h\<lparr>kh_sigs := at_cell (\<lambda>m. m(sig \<mapsto> action)) (p_sigactions (e_proc s)) (kh_sigs h)\<rparr>) s)))"

definition new_sigmask :: "u64 \<Rightarrow> u64 \<Rightarrow> u64 \<Rightarrow> u64 option" where
  "new_sigmask how old m =
     (if how = 0 then Some (old OR m) else if how = 1 then Some (old AND NOT m) else if how = 2 then Some m else None)"

definition sys_rt_sigprocmask ::
  "('m, 'map, 'h) ops \<Rightarrow> u64 \<Rightarrow> u64 \<Rightarrow> u64 \<Rightarrow> ('x, 'm, 'map, 'h) mach \<Rightarrow> outcome \<times> ('x, 'm, 'map, 'h) mach" where
  "sys_rt_sigprocmask ops how new old s =
     (let (r, s) = (if old \<noteq> 0 then write_mem ops old (u64_to_le (p_sigmask (e_proc s))) s else (Inr (), s)) in
      case r of
        Inl e \<Rightarrow> (ORet (Inl e), s)
      | Inr _ \<Rightarrow>
          if new = 0 then (ORet (Inr 0), s)
          else (case read_mem ops new 8 s of
                  (Inl e, s) \<Rightarrow> (ORet (Inl e), s)
                | (Inr bs, s) \<Rightarrow>
                    (case new_sigmask how (p_sigmask (e_proc s)) (u64_of_le bs) of
                       None \<Rightarrow> (ORet (Inl EINVAL), s)
                     | Some m \<Rightarrow>
                         (case pending_signal_action (with_proc (\<lambda>p. p\<lparr>p_sigmask := m\<rparr>) s) of
                            (SaTerminate sig, s) \<Rightarrow> task_exit ops (ucast sig) True s
                          | (SaStop sig, s) \<Rightarrow> stop_thread_group ops sig False (with_cpu (resume_after_syscall 0) s)
                          | (SaHandler, s) \<Rightarrow> (Switched, snd (deliver_signal ops (with_cpu (resume_after_syscall 0) s)))
                          | (SaNone, s) \<Rightarrow> (ORet (Inr 0), s)))))"

definition STACK_T_LEN :: nat where "STACK_T_LEN = 24"
definition SS_ONSTACK :: u32 where "SS_ONSTACK = 1"
definition SS_DISABLE :: u32 where "SS_DISABLE = 2"
definition MINSIGSTKSZ :: u64 where "MINSIGSTKSZ = 2048"

definition stack_t_bytes :: "u64 \<Rightarrow> u32 \<Rightarrow> u64 \<Rightarrow> bytes" where
  "stack_t_bytes base flags len = u64_to_le base @ u32_to_le flags @ replicate 4 0 @ u64_to_le len"

definition set_altstack :: "bytes \<Rightarrow> ('x, 'm, 'map, 'h) mach \<Rightarrow> (errno + u64) \<times> ('x, 'm, 'map, 'h) mach" where
  "set_altstack bs s =
     (let base = u64_of_le (take 8 bs); flags = u32_of_le (take 4 (drop 8 bs)); len = u64_of_le (take 8 (drop 16 bs)) in
      if flags AND SS_DISABLE \<noteq> 0 then (Inr 0, with_proc (\<lambda>p. p\<lparr>p_altstack := None\<rparr>) s)
      else if flags AND NOT SS_ONSTACK \<noteq> 0 then (Inl EINVAL, s)
      else if len < MINSIGSTKSZ then (Inl ENOMEM, s)
      else if checked_add base len = None then (Inl EINVAL, s)
      else (Inr 0, with_proc (\<lambda>p. p\<lparr>p_altstack := Some (base, len)\<rparr>) s))"

definition sys_sigaltstack ::
  "('m, 'map, 'h) ops \<Rightarrow> u64 \<Rightarrow> u64 \<Rightarrow> ('x, 'm, 'map, 'h) mach \<Rightarrow> (errno + u64) \<times> ('x, 'm, 'map, 'h) mach" where
  "sys_sigaltstack ops new old s =
     (let on_stack = (p_altstack_depth (e_proc s) > 0);
          out = (case p_altstack (e_proc s) of
              Some (base, len) \<Rightarrow> stack_t_bytes base (if on_stack then SS_ONSTACK else 0) len
            | None \<Rightarrow> stack_t_bytes 0 SS_DISABLE 0);
          (r, s) = (if old \<noteq> 0 then write_mem ops old out s else (Inr (), s))
      in case r of
          Inl e \<Rightarrow> (Inl e, s)
        | Inr _ \<Rightarrow>
            if new = 0 then (Inr 0, s)
            else if on_stack then (Inl EPERM, s)
            else (case read_mem ops new STACK_T_LEN s of (Inl e, s) \<Rightarrow> (Inl e, s) | (Inr bs, s) \<Rightarrow> set_altstack bs s))"

section \<open>Cloning\<close>

definition CLONE_VM :: u64 where "CLONE_VM = 0x100"
definition CLONE_VFORK :: u64 where "CLONE_VFORK = 0x4000"
definition CLONE_SETTLS :: u64 where "CLONE_SETTLS = 0x80000"
definition CLONE_PARENT_SETTID :: u64 where "CLONE_PARENT_SETTID = 0x100000"
definition CLONE_CHILD_CLEARTID :: u64 where "CLONE_CHILD_CLEARTID = 0x200000"
definition CLONE_CHILD_SETTID :: u64 where "CLONE_CHILD_SETTID = 0x1000000"

record clone_spec =
  cl_flags :: u64
  cl_new_sp :: u64
  cl_parent_tid :: u64
  cl_child_tid :: u64
  cl_tls :: u64

definition clone_fork :: clone_spec where
  "clone_fork = \<lparr>cl_flags = 0, cl_new_sp = 0, cl_parent_tid = 0, cl_child_tid = 0, cl_tls = 0\<rparr>"

definition clone_vfork :: clone_spec where
  "clone_vfork = clone_fork\<lparr>cl_flags := CLONE_VFORK\<rparr>"

definition from_clone_args :: "u64 \<Rightarrow> u64 \<Rightarrow> u64 \<Rightarrow> u64 \<Rightarrow> u64 \<Rightarrow> clone_spec" where
  "from_clone_args a0 a1 a2 a3 a4 =
     \<lparr>cl_flags = a0, cl_new_sp = a1, cl_parent_tid = a2, cl_child_tid = a3, cl_tls = a4\<rparr>"

definition has_flag :: "clone_spec \<Rightarrow> u64 \<Rightarrow> bool" where
  "has_flag spec f \<longleftrightarrow> cl_flags spec AND f \<noteq> 0"

definition is_thread :: "clone_spec \<Rightarrow> bool" where
  "is_thread spec \<longleftrightarrow> has_flag spec CLONE_VM \<and> \<not> has_flag spec CLONE_VFORK"

definition clone_process ::
  "clone_spec \<Rightarrow> u64 \<Rightarrow> ('x, 'm, 'map, 'h) mach \<Rightarrow> 'x cpu process \<times> ('x, 'm, 'map, 'h) mach" where
  "clone_process spec pid s =
     (let (child, s) =
        (if is_thread spec then (let (p, h) = thread_sibling pid (e_proc s) (e_heap s) in (p, s\<lparr>e_heap := h\<rparr>))
         else (let (asid, s) = alloc_asid s; (p, h) = fork_child pid asid (e_proc s) (e_heap s)
               in (p, s\<lparr>e_heap := h, e_pager := fork_space (p_asid (e_proc s)) (p_asid p) (e_pager s)\<rparr>)))
      in (if has_flag spec CLONE_CHILD_CLEARTID then child\<lparr>p_clear_child_tid := cl_child_tid spec\<rparr> else child, s))"

definition clone_map ::
  "('m, 'map, 'h) ops \<Rightarrow> clone_spec \<Rightarrow> ('x, 'm, 'map, 'h) mach \<Rightarrow> 'map option \<times> ('x, 'm, 'map, 'h) mach" where
  "clone_map ops spec s =
     (if is_thread spec then (None, s)
      else let (m, mem) = op_snapshot_map ops (m_mem s) in (Some m, s\<lparr>m_mem := mem\<rparr>))"

definition child_cpu :: "clone_spec \<Rightarrow> 'x cpu \<Rightarrow> 'x cpu" where
  "child_cpu spec c =
     prepare_resume False (c\<lparr>c_rax := 0, c_rsp := (if cl_new_sp spec \<noteq> 0 then cl_new_sp spec else c_rsp c),
       c_fs_offset := (if has_flag spec CLONE_SETTLS then cl_tls spec else c_fs_offset c)\<rparr>)"

text \<open>The thread id goes to the shared memory of a thread, or into the child's own copy.\<close>

definition set_child_tid ::
  "('m, 'map, 'h) ops \<Rightarrow> clone_spec \<Rightarrow> u64 \<Rightarrow> 'map option \<Rightarrow> ('x, 'm, 'map, 'h) mach \<Rightarrow> 'map option \<times> ('x, 'm, 'map, 'h) mach" where
  "set_child_tid ops spec pid child_mem s =
     (if \<not> has_flag spec CLONE_CHILD_SETTID \<or> cl_child_tid spec = 0 then (child_mem, s)
      else let tid_bytes = u32_to_le (ucast pid) in
        (case child_mem of
           None \<Rightarrow> (None, snd (write_mem ops (cl_child_tid spec) tid_bytes s))
         | Some m \<Rightarrow>
             let (parent_map, mem) = op_take_map ops (m_mem s);
                 (_, s) = write_mem ops (cl_child_tid spec) tid_bytes (s\<lparr>m_mem := op_restore_map ops m mem\<rparr>);
                 (m, mem) = op_take_map ops (m_mem s)
             in (Some m, s\<lparr>m_mem := op_restore_map ops parent_map mem\<rparr>)))"

definition vfork_flag ::
  "clone_spec \<Rightarrow> 'x cpu process \<Rightarrow> ('x, 'm, 'map, 'h) mach \<Rightarrow> nat option \<times> 'x cpu process \<times> ('x, 'm, 'map, 'h) mach" where
  "vfork_flag spec child s =
     (if has_flag spec CLONE_VFORK
      then let (d, h) = flag_new False (e_heap s) in (Some d, child\<lparr>p_vfork_done := Some d\<rparr>, s\<lparr>e_heap := h\<rparr>)
      else (None, child, s))"

definition add_task ::
  "'x cpu process \<Rightarrow> 'x cpu \<Rightarrow> 'map option \<Rightarrow> ('x, 'm, 'map, 'h) mach \<Rightarrow> ('x, 'm, 'map, 'h) mach" where
  "add_task child c child_mem s =
     with_sched (\<lambda>sc. sc\<lparr>sc_group_maps := (case child_mem of None \<Rightarrow> sc_group_maps sc | Some m \<Rightarrow> (sc_group_maps sc)(p_pid child \<mapsto> m)),
       sc_parked := sc_parked sc @ [\<lparr>pk_proc = child, pk_cpu = c, pk_state = PsReady\<rparr>]\<rparr>) s"

definition spawn ::
  "('m, 'map, 'h) ops \<Rightarrow> clone_spec \<Rightarrow> u64 \<Rightarrow> ('x, 'm, 'map, 'h) mach \<Rightarrow> nat option \<times> ('x, 'm, 'map, 'h) mach" where
  "spawn ops spec pid s =
     (let (child, s) = clone_process spec pid s;
          (child_mem, s) = clone_map ops spec s;
          parent = m_cpu s;
          c = child_cpu spec parent;
          s = s\<lparr>m_cpu := c\<lparr>c_rax := c_rax parent, c_rsp := c_rsp parent, c_fs_offset := c_fs_offset parent\<rparr>\<rparr>;
          (child_mem, s) = set_child_tid ops spec pid child_mem s;
          (vfork_done, child, s) = vfork_flag spec child s
      in (vfork_done, add_task child c child_mem s))"

definition sys_clone_impl ::
  "('m, 'map, 'h) ops \<Rightarrow> clone_spec \<Rightarrow> ('x, 'm, 'map, 'h) mach \<Rightarrow> outcome \<times> ('x, 'm, 'map, 'h) mach" where
  "sys_clone_impl ops spec s =
     (let (pid, sc) = next_pid (e_sched s); s = s\<lparr>e_sched := sc\<rparr>;
          (r, s) = (if has_flag spec CLONE_PARENT_SETTID \<and> cl_parent_tid spec \<noteq> 0
                    then write_mem ops (cl_parent_tid spec) (u32_to_le (ucast pid)) s else (Inr (), s))
      in case r of
          Inl _ \<Rightarrow> (ORet (Inl EFAULT), s)
        | Inr _ \<Rightarrow>
            (case spawn ops spec pid s of
               (Some d, s) \<Rightarrow> block_and_switch ops (PsVforkDone d) False (with_cpu (\<lambda>c. c\<lparr>c_rax := pid\<rparr>) s)
             | (None, s) \<Rightarrow> (ORet (Inr pid), s)))"

section \<open>Waiting for children\<close>

definition WNOHANG :: u64 where "WNOHANG = 1"
definition WUNTRACED :: u64 where "WUNTRACED = 2"

definition i32_of :: "u64 \<Rightarrow> int" where
  "i32_of w = sint (ucast w :: u32)"

definition wait_filter :: "u64 \<Rightarrow> u64" where
  "wait_filter pid = (if i32_of pid > 0 then of_int (i32_of pid) else - 1)"

definition write_status ::
  "('m, 'map, 'h) ops \<Rightarrow> u64 \<Rightarrow> u32 \<Rightarrow> u64 \<Rightarrow> ('x, 'm, 'map, 'h) mach \<Rightarrow> outcome \<times> ('x, 'm, 'map, 'h) mach" where
  "write_status ops status_ptr status pid s =
     (if status_ptr = 0 then (ORet (Inr pid), s)
      else case write_mem ops status_ptr (u32_to_le status) s of
          (Inl e, s) \<Rightarrow> (ORet (Inl e), s)
        | (Inr _, s) \<Rightarrow> (ORet (Inr pid), s))"

definition sys_wait4 ::
  "('m, 'map, 'h) ops \<Rightarrow> u64 \<Rightarrow> u64 \<Rightarrow> u64 \<Rightarrow> ('x, 'm, 'map, 'h) mach \<Rightarrow> outcome \<times> ('x, 'm, 'map, 'h) mach" where
  "sys_wait4 ops pid status_ptr options s =
     (let pf = wait_filter pid; tgid = p_tgid (e_proc s); untraced = (options AND WUNTRACED \<noteq> 0) in
      case take_zombie tgid pf (e_sched s) of
        (Some z, sc) \<Rightarrow> write_status ops status_ptr (z_status z) (z_pid z) (s\<lparr>e_sched := sc\<rparr>)
      | (None, _) \<Rightarrow>
          (case (if untraced then take_stop_report tgid pf (e_sched s) else (None, e_sched s)) of
             (Some (child, sig), sc) \<Rightarrow>
               write_status ops status_ptr (push_bit 8 (ucast sig) OR 0x7f) child (s\<lparr>e_sched := sc\<rparr>)
           | (None, _) \<Rightarrow>
               if \<not> has_child (e_sched s) tgid pf then (ORet (Inl ECHILD), s)
               else if options AND WNOHANG \<noteq> 0 then (ORet (Inr 0), s)
               else block_and_switch ops (PsWaitChild pf untraced) True s))"

section \<open>Futexes and sleeping\<close>

definition NANOS_PER_SEC :: u64 where "NANOS_PER_SEC = 1000000000"

definition timespec_nanos :: "u64 \<Rightarrow> u64 \<Rightarrow> errno + u64" where
  "timespec_nanos sec nsec =
     (if sint sec < 0 \<or> sint nsec < 0 \<or> sint nsec \<ge> 1000000000 then Inl EINVAL
      else Inr (saturating_add (saturating_mul sec NANOS_PER_SEC) nsec))"

definition read_timespec_at ::
  "('m, 'map, 'h) ops \<Rightarrow> u64 \<Rightarrow> ('x, 'm, 'map, 'h) mach \<Rightarrow> (errno + u64) \<times> ('x, 'm, 'map, 'h) mach" where
  "read_timespec_at ops addr s =
     (case read_mem ops addr 16 s of
        (Inl e, s) \<Rightarrow> (Inl e, s)
      | (Inr bs, s) \<Rightarrow> (timespec_nanos (u64_of_le (take 8 bs)) (u64_of_le (drop 8 bs)), s))"

definition timeval_nanos :: "u64 \<Rightarrow> u64 \<Rightarrow> errno + u64" where
  "timeval_nanos sec usec =
     (if sint sec < 0 \<or> sint usec < 0 \<or> sint usec \<ge> 1000000 then Inl EINVAL
      else Inr (saturating_add (saturating_mul sec NANOS_PER_SEC) (saturating_mul usec 1000)))"

definition read_timeval_at ::
  "('m, 'map, 'h) ops \<Rightarrow> u64 \<Rightarrow> ('x, 'm, 'map, 'h) mach \<Rightarrow> (errno + u64) \<times> ('x, 'm, 'map, 'h) mach" where
  "read_timeval_at ops addr s =
     (case read_mem ops addr 16 s of
        (Inl e, s) \<Rightarrow> (Inl e, s)
      | (Inr bs, s) \<Rightarrow> (timeval_nanos (u64_of_le (take 8 bs)) (u64_of_le (drop 8 bs)), s))"

text \<open>A wait whose result is set in advance and that resumes after the call.\<close>

definition park_returning ::
  "('m, 'map, 'h) ops \<Rightarrow> park_state \<Rightarrow> ('x, 'm, 'map, 'h) mach \<Rightarrow> outcome \<times> ('x, 'm, 'map, 'h) mach" where
  "park_returning ops ps s =
     switch_away ops (park_current ps (with_cpu (\<lambda>c. prepare_resume False (c\<lparr>c_rax := 0\<rparr>)) s))"

definition park_timeout_returning_zero ::
  "('m, 'map, 'h) ops \<Rightarrow> watch list \<Rightarrow> u64 \<Rightarrow> ('x, 'm, 'map, 'h) mach \<Rightarrow> outcome \<times> ('x, 'm, 'map, 'h) mach" where
  "park_timeout_returning_zero ops watches deadline s = park_returning ops (PsWaiting watches (Some deadline)) s"

definition outcome_nanosleep ::
  "('m, 'map, 'h) ops \<Rightarrow> u64 \<Rightarrow> bool \<Rightarrow> ('x, 'm, 'map, 'h) mach \<Rightarrow> outcome \<times> ('x, 'm, 'map, 'h) mach" where
  "outcome_nanosleep ops req absolute s =
     (case (if req = 0 then (Inr 0, s) else read_timespec_at ops req s) of
        (Inl e, s) \<Rightarrow> (ORet (Inl e), s)
      | (Inr duration, s) \<Rightarrow>
          let now = now_nanos s; deadline = (if absolute then max duration now else now + duration)
          in park_returning ops (PsWaiting [] (Some deadline)) s)"

definition FUTEX_WAIT :: u64 where "FUTEX_WAIT = 0"
definition FUTEX_WAKE :: u64 where "FUTEX_WAKE = 1"
definition FUTEX_WAIT_BITSET :: u64 where "FUTEX_WAIT_BITSET = 9"
definition FUTEX_WAKE_BITSET :: u64 where "FUTEX_WAKE_BITSET = 10"
definition FUTEX_CMD_MASK :: u64 where "FUTEX_CMD_MASK = 0x7f"
definition FUTEX_CLOCK_REALTIME :: u64 where "FUTEX_CLOCK_REALTIME = 0x100"

definition futex_deadline :: "u64 \<Rightarrow> u64 \<Rightarrow> u64 \<Rightarrow> u64 \<Rightarrow> u64" where
  "futex_deadline op epoch_base_sec now duration =
     (if op AND FUTEX_CMD_MASK = FUTEX_WAIT_BITSET
      then max (if op AND FUTEX_CLOCK_REALTIME \<noteq> 0
                then saturating_sub duration (saturating_mul epoch_base_sec NANOS_PER_SEC) else duration) now
      else now + duration)"

definition futex_wait ::
  "('m, 'map, 'h) ops \<Rightarrow> u64 \<Rightarrow> u64 \<Rightarrow> u64 \<Rightarrow> u64 \<Rightarrow> ('x, 'm, 'map, 'h) mach \<Rightarrow> outcome \<times> ('x, 'm, 'map, 'h) mach" where
  "futex_wait ops addr op val timeout_ptr s =
     (case read_mem ops addr 4 s of
        (Inl e, s) \<Rightarrow> (ORet (Inl e), s)
      | (Inr bs, s) \<Rightarrow>
          if u32_of_le bs \<noteq> ucast val then (ORet (Inl EAGAIN), s)
          else if timeout_ptr = 0 then block_and_switch ops (PsFutex addr False None) True s
          else (case read_timespec_at ops timeout_ptr s of
                  (Inl e, s) \<Rightarrow> (ORet (Inl e), s)
                | (Inr duration, s) \<Rightarrow>
                    park_returning ops (PsFutex addr False (Some (futex_deadline op (e_epoch_base_sec s) (now_nanos s) duration))) s))"

definition sys_futex ::
  "('m, 'map, 'h) ops \<Rightarrow> u64 \<Rightarrow> u64 \<Rightarrow> u64 \<Rightarrow> u64 \<Rightarrow> ('x, 'm, 'map, 'h) mach \<Rightarrow> outcome \<times> ('x, 'm, 'map, 'h) mach" where
  "sys_futex ops addr op val timeout_ptr s =
     (let cmd = op AND FUTEX_CMD_MASK in
      if cmd \<in> {FUTEX_WAIT, FUTEX_WAIT_BITSET} then futex_wait ops addr op val timeout_ptr s
      else if cmd \<in> {FUTEX_WAKE, FUTEX_WAKE_BITSET}
      then (let (n, sc) = futex_wake addr val (e_sched s) in (ORet (Inr n), s\<lparr>e_sched := sc\<rparr>))
      else (ORet (Inl ENOSYS), s))"

definition sys_yield :: "('m, 'map, 'h) ops \<Rightarrow> ('x, 'm, 'map, 'h) mach \<Rightarrow> outcome \<times> ('x, 'm, 'map, 'h) mach" where
  "sys_yield ops s =
     (if ready_index ops (now_nanos s) s = None then (ORet (Inr 0), s)
      else block_and_switch ops PsReady False (with_cpu (\<lambda>c. c\<lparr>c_rax := 0\<rparr>) s))"

section \<open>Process groups\<close>

definition set_group_pgid :: "u64 \<Rightarrow> u64 \<Rightarrow> ('x, 'm, 'map, 'h) mach \<Rightarrow> bool \<times> ('x, 'm, 'map, 'h) mach" where
  "set_group_pgid tgid pgid s =
     (let f = (\<lambda>p. if p_tgid p = tgid then p\<lparr>p_pgid := pgid\<rparr> else p)
      in (p_tgid (e_proc s) = tgid \<or> group_has_parked (e_sched s) tgid,
          s\<lparr>e_proc := f (e_proc s), e_sched := map_parked (set_proc f) (e_sched s)\<rparr>))"

definition sys_getpgid :: "u64 \<Rightarrow> ('x, 'm, 'map, 'h) mach \<Rightarrow> errno + u64" where
  "sys_getpgid pid s =
     (if pid = 0 \<or> pid = p_tgid (e_proc s) then Inr (p_pgid (e_proc s))
      else case find (\<lambda>t. p_tgid (pk_proc t) = pid) (sc_parked (e_sched s)) of
          None \<Rightarrow> Inl ESRCH
        | Some t \<Rightarrow> Inr (p_pgid (pk_proc t)))"

definition sys_setpgid :: "u64 \<Rightarrow> u64 \<Rightarrow> ('x, 'm, 'map, 'h) mach \<Rightarrow> (errno + u64) \<times> ('x, 'm, 'map, 'h) mach" where
  "sys_setpgid pid pgid s =
     (let target = (if pid = 0 then p_tgid (e_proc s) else pid); grp = (if pgid = 0 then target else pgid);
          (found, s) = set_group_pgid target grp s
      in (if found then Inr 0 else Inl ESRCH, s))"

section \<open>Sending signals\<close>

definition kill_exists :: "int \<Rightarrow> ('x, 'm, 'map, 'h) mach \<Rightarrow> bool" where
  "kill_exists target s \<longleftrightarrow>
     target = sint (p_tgid (e_proc s)) \<or> list_ex (\<lambda>t. sint (p_tgid (pk_proc t)) = target) (sc_parked (e_sched s))"

definition kill_self ::
  "('m, 'map, 'h) ops \<Rightarrow> u64 \<Rightarrow> ('x, 'm, 'map, 'h) mach \<Rightarrow> outcome \<times> ('x, 'm, 'map, 'h) mach" where
  "kill_self ops sig s =
     (if p_sigmask (e_proc s) AND sig_bit sig \<noteq> 0 then (ORet (Inr 0), with_proc (add_pending (sig_bit sig)) s)
      else let disposition = map_option sa_handler (proc_acts (e_heap s) (e_proc s) sig) in
        if disposition = Some SIG_IGN then (ORet (Inr 0), s)
        else if disposition \<noteq> None \<and> disposition \<noteq> Some SIG_DFL
        then (Switched, snd (deliver_signal ops (with_proc (add_pending (sig_bit sig)) (with_cpu (resume_after_syscall 0) s))))
        else if default_action_terminates sig then task_exit ops (ucast sig) True s
        else if default_action_stops sig then stop_thread_group ops sig False (with_cpu (resume_after_syscall 0) s)
        else (ORet (Inr 0), s))"

definition STOP_BITS :: u64 where
  "STOP_BITS = sig_bit 19 OR sig_bit 20 OR sig_bit 21 OR sig_bit 22"

definition kill_matches :: "int \<Rightarrow> u64 \<Rightarrow> 'c process \<Rightarrow> bool" where
  "kill_matches target own_pgid p =
     (if target \<le> 0 then p_pgid p = (if target = 0 then own_pgid else of_int (- target)) else p_tgid p = of_int target)"

definition kill_job_control :: "int \<Rightarrow> u64 \<Rightarrow> ('x, 'm, 'map, 'h) mach \<Rightarrow> outcome \<times> ('x, 'm, 'map, 'h) mach" where
  "kill_job_control target sig s =
     (let hits = kill_matches target (p_pgid (e_proc s));
          running = (\<lambda>p. if sig = SIGCONT then clear_pending STOP_BITS p else add_pending (sig_bit sig) p);
          waiting = (\<lambda>p. if sig = SIGCONT then (clear_pending STOP_BITS p)\<lparr>p_stopped := False, p_stop_report := None\<rparr>
                         else add_pending (sig_bit sig) p);
          found = (hits (e_proc s) \<or> list_ex (\<lambda>t. hits (pk_proc t)) (sc_parked (e_sched s)))
      in (ORet (if found then Inr 0 else Inl ESRCH),
          s\<lparr>e_proc := (if hits (e_proc s) then running (e_proc s) else e_proc s),
            e_sched := map_parked (set_proc (\<lambda>p. if hits p then waiting p else p)) (e_sched s)\<rparr>))"

definition kill_victims :: "int \<Rightarrow> ('x, 'm, 'map, 'h) mach \<Rightarrow> errno + u64 list" where
  "kill_victims target s =
     (if target = - 1 then Inl ESRCH
      else if target \<le> 0
      then let pgid = (if target = 0 then p_pgid (e_proc s) else of_int (- target));
               tgids = remdups_adj (sort (map (\<lambda>t. p_tgid (pk_proc t))
                 (filter (\<lambda>t. p_pgid (pk_proc t) = pgid \<and> p_tgid (pk_proc t) \<noteq> p_tgid (e_proc s)) (sc_parked (e_sched s)))))
           in if tgids = [] \<and> p_pgid (e_proc s) \<noteq> pgid then Inl ESRCH else Inr tgids
      else Inr [of_int target])"

text \<open>One task of a group that \<^verbatim>\<open>SIGKILL\<close> removes: its parent is released and told, and its
  descriptors are dropped last.\<close>

definition kill_task :: "u64 \<Rightarrow> nat \<Rightarrow> ('x, 'm, 'map, 'h) mach \<Rightarrow> ('x, 'm, 'map, 'h) mach" where
  "kill_task sig index s =
     (let p = pk_proc (sc_parked (e_sched s) ! index);
          s = with_sched (\<lambda>sc. sc\<lparr>sc_parked := remove_at index (sc_parked sc)\<rparr>) s;
          s = (case p_vfork_done p of None \<Rightarrow> s | Some d \<Rightarrow> with_heap (set_flag d) s);
          s = (if p_pid p = p_tgid p
               then notify_parent_sigchld (p_ppid p)
                      (with_sched (\<lambda>sc. sc\<lparr>sc_zombies := sc_zombies sc @ [\<lparr>z_pid = p_tgid p, z_ppid = p_ppid p, z_status = ucast sig\<rparr>]\<rparr>) s)
               else s)
      in with_heap (process_drop p) s)"

text \<open>The loop over the queue looks at every task once: the first argument counts those ahead.\<close>

primrec kill_scan :: "nat \<Rightarrow> u64 \<Rightarrow> u64 \<Rightarrow> nat \<Rightarrow> bool \<Rightarrow> ('x, 'm, 'map, 'h) mach \<Rightarrow> bool \<times> ('x, 'm, 'map, 'h) mach" where
  "kill_scan 0 target sig index hit s = (hit, s)"
| "kill_scan (Suc n) target sig index hit s =
     (if p_tgid (pk_proc (sc_parked (e_sched s) ! index)) = target
      then kill_scan n target sig index True (kill_task sig index s)
      else kill_scan n target sig (Suc index) hit s)"

definition kill_group :: "u64 \<Rightarrow> u64 \<Rightarrow> ('x, 'm, 'map, 'h) mach \<Rightarrow> bool \<times> ('x, 'm, 'map, 'h) mach" where
  "kill_group sig target s =
     (let (hit, s) = kill_scan (length (sc_parked (e_sched s))) target sig 0 False s
      in (hit, if hit \<and> \<not> group_has_parked (e_sched s) target
               then with_sched (\<lambda>sc. sc\<lparr>sc_group_maps := (sc_group_maps sc)(target := None)\<rparr>) s else s))"

primrec kill_each :: "u64 \<Rightarrow> u64 list \<Rightarrow> bool \<Rightarrow> ('x, 'm, 'map, 'h) mach \<Rightarrow> bool \<times> ('x, 'm, 'map, 'h) mach" where
  "kill_each sig [] found s = (found, s)"
| "kill_each sig (target # ts) found s =
     (let (hit, s) = (if sig \<noteq> SIGKILL then signal_process target sig s else kill_group sig target s)
      in kill_each sig ts (found \<or> hit) s)"

definition sys_kill ::
  "('m, 'map, 'h) ops \<Rightarrow> u64 \<Rightarrow> u64 \<Rightarrow> ('x, 'm, 'map, 'h) mach \<Rightarrow> outcome \<times> ('x, 'm, 'map, 'h) mach" where
  "sys_kill ops target_word sig s =
     (let target = i32_of target_word in
      if sig > NSIG then (ORet (Inl EINVAL), s)
      else if sig = 0 then (ORet (if kill_exists target s then Inr 0 else Inl ESRCH), s)
      else if target = sint (p_tgid (e_proc s)) \<or> target = sint (p_pid (e_proc s)) then kill_self ops sig s
      else if sig = SIGCONT \<or> default_action_stops sig then kill_job_control target sig s
      else case kill_victims target s of
          Inl e \<Rightarrow> (ORet (Inl e), s)
        | Inr victims \<Rightarrow>
            (let (found, s) = kill_each sig victims False s in (ORet (if found then Inr 0 else Inl ESRCH), s)))"

end
