(* ===== verification/Inotify.thy ===== *)
theory Inotify
  imports ProcCalls
begin

text \<open>
  Change notification: the inotify calls of \<^verbatim>\<open>crates/linux-compat/src/syscall.rs\<close>, the queueing of an
  event for every watcher, and the records a reader gets, with what a reader may rely on. The
  registry keeps instances no descriptor refers to any more: nothing can read from them.
\<close>

unbundle bit_operations_syntax

section \<open>Instances and watches\<close>

definition sys_inotify_init :: "u64 \<Rightarrow> ('x, 'm, 'map, 'h) mach \<Rightarrow> (errno + u64) \<times> ('x, 'm, 'map, 'h) mach" where
  "sys_inotify_init flags s =
     (let (i, h) = inotify_new (e_heap s)
      in on_table (\<lambda>t. install_fd t (BInotify i) (O_RDONLY OR (flags AND O_NONBLOCK)) (flags AND O_CLOEXEC \<noteq> 0))
           (s\<lparr>e_heap := h, e_inotify := e_inotify s @ [i]\<rparr>))"

definition inotify_of :: "nat \<Rightarrow> u64 \<Rightarrow> kheap \<Rightarrow> errno + nat" where
  "inotify_of t fd h =
     (case ofd_at t fd h of
        Inl e \<Rightarrow> Inl e
      | Inr (_, d) \<Rightarrow> (case d_backing d of BInotify i \<Rightarrow> Inr i | _ \<Rightarrow> Inl EINVAL))"

definition set_inotify :: "nat \<Rightarrow> inotify_inner \<Rightarrow> kheap \<Rightarrow> kheap" where
  "set_inotify i inner h = h\<lparr>kh_inotifies := (kh_inotifies h)(i \<mapsto> inner)\<rparr>"

definition i32_as_u64 :: "u32 \<Rightarrow> u64" where
  "i32_as_u64 w = scast w"

definition add_watch :: "nat \<Rightarrow> bytes \<Rightarrow> u32 \<Rightarrow> inotify_inner \<Rightarrow> u32 \<times> inotify_inner" where
  "add_watch node path msk inner =
     (case position (\<lambda>w. iw_node w = node) (in_watches inner) of
        Some k \<Rightarrow>
          let w = in_watches inner ! k
          in (iw_descriptor w, inner\<lparr>in_watches := (in_watches inner)[k := w\<lparr>iw_mask := msk, iw_path := path\<rparr>]\<rparr>)
      | None \<Rightarrow>
          let d = in_next_descriptor inner
          in (d, inner\<lparr>in_next_descriptor := d + 1,
                in_watches := in_watches inner @ [\<lparr>iw_descriptor = d, iw_node = node, iw_path = path, iw_mask = msk\<rparr>]\<rparr>))"

definition sys_inotify_add_watch ::
  "('m, 'map, 'h) ops \<Rightarrow> u64 \<Rightarrow> u64 \<Rightarrow> u64 \<Rightarrow> ('x, 'm, 'map, 'h) mach \<Rightarrow> (errno + u64) \<times> ('x, 'm, 'map, 'h) mach" where
  "sys_inotify_add_watch ops fd path_ptr mask_arg s =
     (case read_cstr ops path_ptr s of
        (Inl e, s) \<Rightarrow> (Inl e, s)
      | (Inr path, s) \<Rightarrow>
          (case vfs_resolve (e_vfs s) ROOT path True of
             Inl (Err e) \<Rightarrow> (Inl e, s)
           | Inl Panicked \<Rightarrow> (Inl EFAULT, s\<lparr>e_panicked := True\<rparr>)
           | Inr r \<Rightarrow>
               (case res_node r of
                  None \<Rightarrow> (Inl ENOENT, s)
                | Some node \<Rightarrow>
                    let msk = ucast mask_arg AND IN_ALL_EVENTS in
                    if msk = 0 then (Inl EINVAL, s)
                    else (case inotify_of (p_fds (e_proc s)) fd (e_heap s) of
                            Inl e \<Rightarrow> (Inl e, s)
                          | Inr i \<Rightarrow>
                              (case kh_inotifies (e_heap s) i of
                                 None \<Rightarrow> (Inl EBADF, s)
                               | Some inner \<Rightarrow>
                                   let (d, inner) = add_watch node path msk inner
                                   in (Inr (i32_as_u64 d), with_heap (set_inotify i inner) s))))))"

definition rm_watch :: "u32 \<Rightarrow> inotify_inner \<Rightarrow> (errno + u64) \<times> inotify_inner" where
  "rm_watch d inner =
     (let kept = filter (\<lambda>w. iw_descriptor w \<noteq> d) (in_watches inner); inner' = inner\<lparr>in_watches := kept\<rparr> in
      if length kept = length (in_watches inner) then (Inl EINVAL, inner')
      else (Inr 0, inner'\<lparr>in_queue := filter (\<lambda>e. ie_descriptor e \<noteq> d) (in_queue inner)\<rparr>))"

definition sys_inotify_rm_watch :: "u64 \<Rightarrow> u64 \<Rightarrow> ('x, 'm, 'map, 'h) mach \<Rightarrow> (errno + u64) \<times> ('x, 'm, 'map, 'h) mach" where
  "sys_inotify_rm_watch fd descriptor s =
     (case inotify_of (p_fds (e_proc s)) fd (e_heap s) of
        Inl e \<Rightarrow> (Inl e, s)
      | Inr i \<Rightarrow>
          (case kh_inotifies (e_heap s) i of
             None \<Rightarrow> (Inl EBADF, s)
           | Some inner \<Rightarrow> let (r, inner) = rm_watch (ucast descriptor) inner in (r, with_heap (set_inotify i inner) s)))"

section \<open>Queueing\<close>

text \<open>The loop over the matching watches of one instance; a full queue ends it.\<close>

primrec queue_events :: "u32 \<Rightarrow> u32 \<Rightarrow> bytes \<Rightarrow> u32 list \<Rightarrow> inotify_inner \<Rightarrow> inotify_inner" where
  "queue_events msk cookie name [] inner = inner"
| "queue_events msk cookie name (d # ds) inner =
     (if length (in_queue inner) \<ge> INOTIFY_QUEUE_LIMIT then inner\<lparr>in_overflowed := True\<rparr>
      else queue_events msk cookie name ds
             (inner\<lparr>in_queue := in_queue inner @ [\<lparr>ie_descriptor = d, ie_mask = msk, ie_cookie = cookie, ie_name = name\<rparr>]\<rparr>))"

definition notify_one :: "nat \<Rightarrow> bytes \<Rightarrow> u32 \<Rightarrow> u32 \<Rightarrow> inotify_inner \<Rightarrow> inotify_inner" where
  "notify_one node name msk cookie inner =
     (let matched = map iw_descriptor (filter (\<lambda>w. iw_node w = node \<and> iw_mask w AND msk \<noteq> 0) (in_watches inner));
          inner = queue_events msk cookie name matched inner
      in inner\<lparr>in_activity := in_activity inner + 1\<rparr>)"

definition notify_inotify :: "nat \<Rightarrow> bytes \<Rightarrow> u32 \<Rightarrow> u32 \<Rightarrow> ('x, 'm, 'map, 'h) mach \<Rightarrow> ('x, 'm, 'map, 'h) mach" where
  "notify_inotify node name msk cookie s =
     with_heap (\<lambda>h. h\<lparr>kh_inotifies := fold (at_cell (notify_one node name msk cookie)) (e_inotify s) (kh_inotifies h)\<rparr>) s"

definition next_inotify_cookie :: "('x, 'm, 'map, 'h) mach \<Rightarrow> u32 \<times> ('x, 'm, 'map, 'h) mach" where
  "next_inotify_cookie s =
     (let c = max (e_inotify_cookie s + 1) 1 in (c, s\<lparr>e_inotify_cookie := c\<rparr>))"

section \<open>Reading\<close>

definition name_len :: "inotify_event \<Rightarrow> nat" where
  "name_len e = (if ie_name e = [] then 0 else (length (ie_name e) + 1 + 15) div 16 * 16)"

definition event_bytes :: "inotify_event \<Rightarrow> bytes" where
  "event_bytes e =
     u32_to_le (ie_descriptor e) @ u32_to_le (ie_mask e) @ u32_to_le (ie_cookie e) @ u32_to_le (of_nat (name_len e)) @
     ie_name e @ replicate (name_len e - length (ie_name e)) 0"

definition overflow_event :: inotify_event where
  "overflow_event = \<lparr>ie_descriptor = - 1, ie_mask = IN_Q_OVERFLOW, ie_cookie = 0, ie_name = []\<rparr>"

primrec take_records :: "nat \<Rightarrow> bytes \<Rightarrow> inotify_event list \<Rightarrow> (errno + bytes) \<times> inotify_event list" where
  "take_records buf_len out [] = (Inr out, [])"
| "take_records buf_len out (e # es) =
     (if out = [] \<and> 16 + name_len e > buf_len then (Inl EINVAL, e # es)
      else if length out + (16 + name_len e) > buf_len then (Inr out, e # es)
      else take_records buf_len (out @ event_bytes e) es)"

definition announced :: "inotify_inner \<Rightarrow> inotify_inner" where
  "announced inner =
     (if in_overflowed inner then inner\<lparr>in_overflowed := False, in_queue := overflow_event # in_queue inner\<rparr> else inner)"

definition read_inotify :: "nat \<Rightarrow> inotify_inner \<Rightarrow> (errno + bytes) \<times> inotify_inner" where
  "read_inotify buf_len inner =
     (let inner = announced inner in
      if in_queue inner = [] then (Inr [], inner)
      else case take_records buf_len [] (in_queue inner) of
          (Inl e, q) \<Rightarrow> (Inl e, inner\<lparr>in_queue := q\<rparr>)
        | (Inr out, q) \<Rightarrow> (Inr out, inner\<lparr>in_queue := q, in_activity := in_activity inner + 1\<rparr>))"

section \<open>What a watcher may rely on\<close>

lemma length_event_bytes: "length (event_bytes e) = 16 + name_len e"
proof -
  have "length (ie_name e) \<le> name_len e" by (simp add: name_len_def) linarith
  then show ?thesis by (simp add: event_bytes_def)
qed

lemma take_records_exact:
  assumes "take_records n out es = (Inr res, rest)" "length out \<le> n"
  shows "\<exists>k \<le> length es. res = out @ concat (map event_bytes (take k es)) \<and> rest = drop k es \<and> length res \<le> n \<and>
     (out = [] \<and> es \<noteq> [] \<longrightarrow> 0 < k) \<and> (k < length es \<longrightarrow> n < length res + length (event_bytes (es ! k)))"
  using assms
proof (induction es arbitrary: out)
  case (Cons e es)
  show ?case
  proof (cases "length out + (16 + name_len e) > n")
    case True
    then show ?thesis
      using Cons.prems by (intro exI [of _ 0]) (auto simp: length_event_bytes split: if_splits)
  next
    case False
    then have "take_records n (out @ event_bytes e) es = (Inr res, rest)" "length (out @ event_bytes e) \<le> n"
      using Cons.prems(1) by (simp_all add: length_event_bytes)
    from Cons.IH [OF this] show ?thesis by (auto simp: length_event_bytes intro: exI [of _ "Suc _"])
  qed
qed simp

lemma queue_events_exact:
  "\<exists>k \<le> length ds. in_queue (queue_events msk cookie name ds inner) =
       in_queue inner @ map (\<lambda>d. \<lparr>ie_descriptor = d, ie_mask = msk, ie_cookie = cookie, ie_name = name\<rparr>) (take k ds) \<and>
     (k < length ds \<longrightarrow> in_overflowed (queue_events msk cookie name ds inner)) \<and>
     (in_overflowed inner \<longrightarrow> in_overflowed (queue_events msk cookie name ds inner))"
proof (induction ds arbitrary: inner)
  case (Cons d ds)
  show ?case
  proof (cases "length (in_queue inner) \<ge> INOTIFY_QUEUE_LIMIT")
    case True
    then show ?thesis by (intro exI [of _ 0]) simp
  next
    case False
    then show ?thesis
      using Cons.IH [of "inner\<lparr>in_queue := in_queue inner @ [\<lparr>ie_descriptor = d, ie_mask = msk, ie_cookie = cookie, ie_name = name\<rparr>]\<rparr>"]
      by (auto intro: exI [of _ "Suc _"])
  qed
qed simp

definition matching_watches :: "nat \<Rightarrow> u32 \<Rightarrow> inotify_inner \<Rightarrow> u32 list" where
  "matching_watches node msk inner = map iw_descriptor (filter (\<lambda>w. iw_node w = node \<and> iw_mask w AND msk \<noteq> 0) (in_watches inner))"

text \<open>
  C24: no event is lost in silence and none is delivered twice. Notifying an instance appends, in
  order, one event for each matching watch, or as many as fit and then marks the overflow; the mark
  stays until it is announced. A successful read returns whole records of exactly the first events
  of the announced queue, as many as the buffer holds and at least one if there is any, and leaves
  exactly the others.
\<close>

theorem inotify_exact:
  "(\<exists>k \<le> length (matching_watches node msk inner).
      in_queue (notify_one node name msk cookie inner) = in_queue inner @
        map (\<lambda>d. \<lparr>ie_descriptor = d, ie_mask = msk, ie_cookie = cookie, ie_name = name\<rparr>) (take k (matching_watches node msk inner)) \<and>
      (k < length (matching_watches node msk inner) \<or> in_overflowed inner \<longrightarrow> in_overflowed (notify_one node name msk cookie inner))) \<and>
   (read_inotify n inner = (Inr out, inner') \<longrightarrow>
      (\<exists>k \<le> length (in_queue (announced inner)).
        out = concat (map event_bytes (take k (in_queue (announced inner)))) \<and> in_queue inner' = drop k (in_queue (announced inner)) \<and>
        length out \<le> n \<and> (in_queue (announced inner) \<noteq> [] \<longrightarrow> 0 < k) \<and> \<not> in_overflowed inner' \<and>
        (k < length (in_queue (announced inner)) \<longrightarrow> n < length out + length (event_bytes (in_queue (announced inner) ! k)))))"
  (is "?notify \<and> (?r \<longrightarrow> ?read)")
proof (intro conjI impI)
  show ?notify
    using queue_events_exact [of "matching_watches node msk inner" msk cookie name inner]
    by (auto simp: notify_one_def matching_watches_def Let_def)
next
  assume r: ?r
  have ov: "\<not> in_overflowed (announced inner)" by (simp add: announced_def)
  show ?read
    using r ov take_records_exact [of n "[]" "in_queue (announced inner)"]
    by (fastforce simp: read_inotify_def Let_def split: if_splits prod.splits sum.splits)
qed

text \<open>Two events wait behind an overflow; the buffer holds the announcement and one of them.\<close>

definition demo_inotify :: inotify_inner where
  "demo_inotify = \<lparr>in_watches = [\<lparr>iw_descriptor = 1, iw_node = 7, iw_path = str ''/tmp'', iw_mask = 0x100\<rparr>], in_next_descriptor = 2,
     in_queue = [\<lparr>ie_descriptor = 1, ie_mask = 0x100, ie_cookie = 0, ie_name = str ''a''\<rparr>,
                 \<lparr>ie_descriptor = 1, ie_mask = 0x200, ie_cookie = 0, ie_name = []\<rparr>],
     in_overflowed = True, in_activity = 0\<rparr>"

theorem inotify_exact_witness:
  "fst (read_inotify 48 demo_inotify) = Inr (event_bytes overflow_event @ event_bytes (hd (in_queue demo_inotify))) \<and>
   (\<exists>k. fst (read_inotify 48 demo_inotify) = Inr (concat (map event_bytes (take k (in_queue (announced demo_inotify))))) \<and>
        in_queue (snd (read_inotify 48 demo_inotify)) = drop k (in_queue (announced demo_inotify)) \<and> 0 < k)"
proof
  show now: "fst (read_inotify 48 demo_inotify) = Inr (event_bytes overflow_event @ event_bytes (hd (in_queue demo_inotify)))"
    by (simp add: read_inotify_def announced_def demo_inotify_def name_len_def overflow_event_def length_event_bytes str_def)
  obtain out inner' where "read_inotify 48 demo_inotify = (Inr out, inner')" using now by (metis prod.collapse)
  then show "\<exists>k. fst (read_inotify 48 demo_inotify) = Inr (concat (map event_bytes (take k (in_queue (announced demo_inotify))))) \<and>
        in_queue (snd (read_inotify 48 demo_inotify)) = drop k (in_queue (announced demo_inotify)) \<and> 0 < k"
    using inotify_exact [of 0 0 demo_inotify "[]" 0 48 out inner'] by (auto simp: announced_def demo_inotify_def)
qed

end
