(* ===== verification/SignalProps.thy ===== *)
theory SignalProps
  imports Signals
begin

text \<open>
  What signal delivery promises: the scan of the pending set takes the lowest signal that does
  something and discards exactly the ignored ones below it; a handler that returns finds the
  interrupted state, mask and alternate stack as they were.
\<close>

unbundle bit_operations_syntax

section \<open>The scan of the pending set\<close>

definition discarded :: "sig_table \<Rightarrow> u64 \<Rightarrow> bool" where
  "discarded acts sig \<longleftrightarrow>
     (case acts sig of
        None \<Rightarrow> \<not> default_action_terminates sig \<and> \<not> default_action_stops sig
      | Some a \<Rightarrow> sa_handler a = SIG_IGN \<or>
          sa_handler a = SIG_DFL \<and> \<not> default_action_terminates sig \<and> \<not> default_action_stops sig)"

definition handled :: "sig_table \<Rightarrow> u64 \<Rightarrow> bool" where
  "handled acts sig \<longleftrightarrow> (case acts sig of None \<Rightarrow> False | Some a \<Rightarrow> sa_handler a \<noteq> SIG_IGN \<and> sa_handler a \<noteq> SIG_DFL)"

definition takes_effect :: "sig_table \<Rightarrow> u64 \<Rightarrow> u64 \<Rightarrow> nat \<Rightarrow> bool" where
  "takes_effect acts blocked pending i \<longleftrightarrow> bit pending i \<and> \<not> bit blocked i \<and> \<not> discarded acts (of_nat i + 1)"

definition scan_spec :: "sig_table \<Rightarrow> u64 \<Rightarrow> u64 \<Rightarrow> signal_exit_action \<times> u64" where
  "scan_spec acts blocked pending =
     (case find (takes_effect acts blocked pending) [0..<64] of
        None \<Rightarrow> (SaNone, pending AND blocked)
      | Some i \<Rightarrow>
          let sig = of_nat i + 1; kept = pending AND (blocked OR NOT (mask i)) in
          if handled acts sig then (SaHandler, kept)
          else (if default_action_terminates sig then SaTerminate sig else SaStop sig, kept AND NOT (sig_bit sig)))"

lemma find_upt_Some: "find P [0..<n] = Some i \<longleftrightarrow> i < n \<and> P i \<and> (\<forall>j<i. \<not> P j)"
  by (auto simp: find_Some_iff)

lemma find_cong_all: "(\<And>x. x \<in> set xs \<Longrightarrow> P x = Q x) \<Longrightarrow> find P xs = find Q xs"
  by (induction xs) auto

lemma scan_spec_none: "pending AND NOT blocked = 0 \<Longrightarrow> scan_spec acts blocked pending = (SaNone, pending)"
proof -
  assume none: "pending AND NOT blocked = 0"
  have sub: "bit pending i \<Longrightarrow> bit blocked i" for i
    using arg_cong [OF none, of "\<lambda>w. bit w i"] bit_imp_le_length [of pending i] by (auto simp: bit_and_iff bit_not_iff)
  then have "find (takes_effect acts blocked pending) [0..<64] = None" by (auto simp: find_None_iff takes_effect_def)
  moreover have "pending AND blocked = pending" by (rule bit_word_eqI) (use sub in \<open>auto simp: bit_and_iff\<close>)
  ultimately show "scan_spec acts blocked pending = (SaNone, pending)" by (simp add: scan_spec_def)
qed

lemma lowest_cleared:
  assumes "pending AND NOT blocked \<noteq> 0"
  defines "k \<equiv> trailing_zeros (pending AND NOT blocked)"
  defines "cleared \<equiv> pending AND NOT (sig_bit (lowest_signal (pending AND NOT blocked)))"
  shows "bit pending k" "\<not> bit blocked k" "k < 64" "bit cleared j \<longleftrightarrow> bit pending j \<and> j \<noteq> k"
    "j < k \<Longrightarrow> \<not> bit pending j \<or> bit blocked j"
proof -
  note z = trailing_zeros_bit [OF assms(1), folded k_def]
  show "bit pending k" "\<not> bit blocked k" "k < 64"
    using z(1,2) by (auto simp: bit_and_iff bit_not_iff)
  show "bit cleared j \<longleftrightarrow> bit pending j \<and> j \<noteq> k"
    using bit_lowest [OF assms(1), of j] bit_imp_le_length [of pending j]
    by (auto simp: cleared_def k_def bit_and_iff bit_not_iff)
  show "j < k \<Longrightarrow> \<not> bit pending j \<or> bit blocked j"
    using z(1) z(3) [of j] by (auto simp: bit_and_iff bit_not_iff)
qed

lemma scan_spec_discard:
  assumes d: "pending AND NOT blocked \<noteq> 0" and ign: "discarded acts (lowest_signal (pending AND NOT blocked))"
  shows "scan_spec acts blocked (pending AND NOT (sig_bit (lowest_signal (pending AND NOT blocked)))) = scan_spec acts blocked pending"
    (is "scan_spec acts blocked ?cleared = _")
proof -
  let ?k = "trailing_zeros (pending AND NOT blocked)"
  note k = lowest_cleared [OF d]
  have skip: "\<not> takes_effect acts blocked pending ?k" using ign by (simp add: takes_effect_def lowest_signal_def)
  have same: "find (takes_effect acts blocked ?cleared) [0..<64] = find (takes_effect acts blocked pending) [0..<64]"
    by (rule find_cong_all) (use skip in \<open>auto simp: takes_effect_def k(4)\<close>)
  have none: "?cleared AND blocked = pending AND blocked"
    by (rule bit_word_eqI) (use k(2) in \<open>auto simp: bit_and_iff [of ?cleared] bit_and_iff [of pending blocked] k(4)\<close>)
  have kept: "?cleared AND (blocked OR NOT (mask i)) = pending AND (blocked OR NOT (mask i))"
    if "find (takes_effect acts blocked pending) [0..<64] = Some i" for i
  proof -
    have "takes_effect acts blocked pending i" using that by (simp add: find_upt_Some)
    then have "?k < i" using k(5) [of i] skip by (metis linorder_neqE_nat takes_effect_def)
    then show ?thesis
      by (intro bit_word_eqI) (use k(2) in \<open>auto simp: bit_and_iff [of ?cleared] bit_and_iff [of pending "blocked OR NOT (mask i)"] bit_or_iff bit_not_iff bit_mask_iff k(4)\<close>)
  qed
  show ?thesis unfolding scan_spec_def same none by (auto simp: kept split: option.splits)
qed

lemma scan_spec_first:
  assumes d: "pending AND NOT blocked \<noteq> 0" and eff: "\<not> discarded acts (lowest_signal (pending AND NOT blocked))"
  shows "scan_spec acts blocked pending =
    (let sig = lowest_signal (pending AND NOT blocked) in
     if handled acts sig then (SaHandler, pending)
     else (if default_action_terminates sig then SaTerminate sig else SaStop sig, pending AND NOT (sig_bit sig)))"
proof -
  let ?k = "trailing_zeros (pending AND NOT blocked)"
  note k = lowest_cleared [OF d]
  have "find (takes_effect acts blocked pending) [0..<64] = Some ?k"
    using k(1-3) k(5) eff by (auto simp: find_upt_Some takes_effect_def lowest_signal_def)
  moreover have "pending AND (blocked OR NOT (mask ?k)) = pending"
    by (rule bit_word_eqI) (use k(5) in \<open>auto simp: bit_and_iff bit_or_iff bit_not_iff bit_mask_iff\<close>)
  ultimately show ?thesis by (simp add: scan_spec_def lowest_signal_def Let_def)
qed

text \<open>
  C7: at a kernel boundary the signals are taken in number order. The scan returns what the lowest
  pending unblocked signal that does anything calls for (its handler, its death or its stop),
  discards exactly the ignored ones below it, consumes a fatal or stopping one, leaves a handled one
  pending, and touches no other bit of the pending set.
\<close>

theorem signal_scan_exact: "signal_scan acts blocked pending = scan_spec acts blocked pending"
proof (induction acts blocked pending rule: signal_scan.induct)
  case (1 acts blocked pending)
  let ?sig = "lowest_signal (pending AND NOT blocked)"
  show ?case
  proof (cases "pending AND NOT blocked = 0")
    case True
    then show ?thesis by (subst signal_scan.simps) (simp add: scan_spec_none)
  next
    case d: False
    show ?thesis
    proof (cases "discarded acts ?sig")
      case True
      then show ?thesis
        using 1(1) [OF refl d refl refl refl] 1(2) [OF refl d refl refl refl] scan_spec_discard [OF d True] d
        by (subst signal_scan.simps) (auto simp: Let_def discarded_def signal_defs split: option.splits)
    next
      case False
      then show ?thesis
        using d by (subst signal_scan.simps)
          (auto simp: Let_def scan_spec_first [OF d False] discarded_def handled_def signal_defs split: option.splits)
    qed
  qed
qed

section \<open>Handler entry and return\<close>

definition entered :: "'x cpu \<Rightarrow> bool \<Rightarrow> u64 \<Rightarrow> u64 \<Rightarrow> 'x cpu process \<Rightarrow> 'x cpu process" where
  "entered c on_alt new_mask pending p =
     p\<lparr>p_pending_signals := pending, p_signal_saved := p_signal_saved p @ [c], p_signal_saved_mask := p_signal_saved_mask p @ [p_sigmask p],
       p_sigmask := new_mask, p_altstack_depth := p_altstack_depth p + (if on_alt then 1 else 0),
       p_altstack_frames := p_altstack_frames p @ [on_alt]\<rparr>"

definition handler_mask :: "u64 \<Rightarrow> bytes \<Rightarrow> u64 \<Rightarrow> u64" where
  "handler_mask sig a old = (if sa_flags a AND SA_NODEFER = 0 then old OR sig_bit sig else old) OR sa_mask a"

lemma push_frame_copy:
  assumes "push_frame ops on_alt sig a s = (addrs, r, s')"
  shows "copy_only s s'"
proof -
  obtain r1 s1 r2 s2 where w: "write_mem ops (saturating_sub (frame_top on_alt (e_proc s) (c_rsp (m_cpu s))) 128) (siginfo_bytes sig) s = (r1, s1)"
    "write_mem ops (saturating_sub (saturating_sub (frame_top on_alt (e_proc s) (c_rsp (m_cpu s))) 128) 256) (replicate 256 0) s1 = (r2, s2)"
    by fastforce
  then have "write_mem ops (saturating_sub (saturating_sub (saturating_sub (frame_top on_alt (e_proc s) (c_rsp (m_cpu s))) 128) 256 AND NOT 15) 8)
      (u64_to_le (sa_restorer a)) s2 = (r, s')"
    using assms by (simp add: push_frame_def Let_def)
  then show ?thesis using w copy_only_write copy_only_trans by blast
qed

lemma enter_handler_entered:
  assumes "enter_handler ops sig a s = (True, t)"
  shows "\<exists>on_alt. e_proc t = entered (m_cpu s) on_alt (handler_mask sig a (p_sigmask (e_proc s))) (p_pending_signals (e_proc s)) (e_proc s) \<and>
      c_pc (m_cpu t) = sa_handler a \<and> c_rdi (m_cpu t) = sig \<and> e_sched t = e_sched s \<and> e_heap t = e_heap s"
proof -
  let ?s = "save_context sig a (trace_event (EvSignal (c_icount (m_cpu s)) (p_pid (e_proc s)) sig) s)"
  let ?alt = "sa_flags a AND SA_ONSTACK \<noteq> 0 \<and> p_altstack (e_proc ?s) \<noteq> None"
  obtain addrs r s' where f: "push_frame ops ?alt sig a ?s = (addrs, r, s')" by (cases "push_frame ops ?alt sig a ?s") auto
  obtain si uc sp where addrs: "addrs = (si, uc, sp)" by (cases addrs)
  have keep: "e_proc s' = e_proc ?s" "e_sched s' = e_sched ?s" "e_heap s' = e_heap ?s"
    using copy_only_fields [OF push_frame_copy [OF f]] by blast+
  from assms f have "r = Inr ()" by (cases r) (auto simp: enter_handler_def Let_def addrs)
  with assms f have "t = with_cpu (\<lambda>c. enter_at (sa_handler a) (c\<lparr>c_rsp := sp, c_rdi := sig, c_rsi := si, c_rdx := uc\<rparr>))
      (with_proc (\<lambda>p. p\<lparr>p_altstack_depth := p_altstack_depth p + (if ?alt then 1 else 0), p_altstack_frames := p_altstack_frames p @ [?alt]\<rparr>) s')"
    by (simp add: enter_handler_def Let_def addrs)
  then show ?thesis
    using keep by (auto simp: entered_def handler_mask_def save_context_def trace_event_def enter_at_def intro!: exI [of _ ?alt])
qed

lemma deliver_signal_entered:
  assumes "deliver_signal ops s = (True, t)"
  shows "\<exists>sig a on_alt pending.
      next_handler (proc_acts (e_heap s) (e_proc s)) (p_sigmask (e_proc s)) (p_pending_signals (e_proc s)) = (Some (sig, a), pending) \<and>
      e_proc t = entered (m_cpu s) on_alt (handler_mask sig a (p_sigmask (e_proc s))) pending (e_proc s) \<and>
      c_pc (m_cpu t) = sa_handler a \<and> c_rdi (m_cpu t) = sig \<and> e_sched t = e_sched s \<and> e_heap t = e_heap s"
proof -
  obtain r pending where r: "next_handler (proc_acts (e_heap s) (e_proc s)) (p_sigmask (e_proc s)) (p_pending_signals (e_proc s)) = (r, pending)"
    by fastforce
  from assms r obtain sig a where sig: "r = Some (sig, a)" by (cases r) (auto simp: deliver_signal_def)
  with assms r have "enter_handler ops sig a (with_proc (\<lambda>p. p\<lparr>p_pending_signals := pending\<rparr>) s) = (True, t)"
    by (simp add: deliver_signal_def)
  from enter_handler_entered [OF this] r sig show ?thesis by (auto simp: entered_def)
qed

text \<open>
  C8: a handler that returns resumes exactly what it interrupted. After a delivery, whatever the
  handler did to registers and memory and whatever became pending meanwhile (unless it is
  deliverable again), \<^verbatim>\<open>rt_sigreturn\<close> restores every register but the instruction counter, the mask,
  the alternate-stack depth and the stacks of saved states. The bound excludes 2^32 nested handlers.
\<close>

theorem signal_return_restores:
  assumes entry: "deliver_signal ops s = (True, t)"
    and ran: "e_proc u = (e_proc t)\<lparr>p_pending_signals := q\<rparr>"
    and quiet: "q AND NOT (p_sigmask (e_proc s)) = 0"
    and depth: "p_altstack_depth (e_proc s) \<noteq> - 1"
  shows "sys_rt_sigreturn ops u =
           (Switched, u\<lparr>m_cpu := (m_cpu s)\<lparr>c_icount := c_icount (m_cpu u)\<rparr>, e_proc := (e_proc s)\<lparr>p_pending_signals := q\<rparr>\<rparr>)"
proof -
  obtain on_alt new_mask pending where t: "e_proc t = entered (m_cpu s) on_alt new_mask pending (e_proc s)"
    using deliver_signal_entered [OF entry] by blast
  have "saturating_sub (p_altstack_depth (e_proc s) + 1) 1 = p_altstack_depth (e_proc s)"
  proof -
    have "p_altstack_depth (e_proc s) + 1 \<noteq> 0" using depth by (metis add.commute add_eq_0_iff)
    then have "1 \<le> p_altstack_depth (e_proc s) + 1" by (simp add: word_le_nat_alt Suc_le_eq unat_gt_0)
    then show ?thesis by (simp add: saturating_sub_def)
  qed
  then show ?thesis
    using quiet unfolding sys_rt_sigreturn_def Let_def ran t
    by (simp add: entered_def restore_cpu_def deliverable_def)
qed

end
