(* ===== verification/SchedProps.thy ===== *)
theory SchedProps
  imports ProcCalls SignalProps
begin

text \<open>
  The address spaces of the thread groups through every process call: each group with a parked task
  has its own map, in the MMU or in the scheduler's table, so a switch always finds the map of the
  group it switches to and gives every other group its own back later.
\<close>

unbundle bit_operations_syntax

section \<open>The groups of a machine\<close>

type_synonym 'map groups = "u64 list \<times> (u64 \<Rightarrow> 'map option) \<times> u64"

definition groups :: "('x, 'm, 'map, 'h) mach \<Rightarrow> 'map groups" where
  "groups s = (map (\<lambda>t. p_tgid (pk_proc t)) (sc_parked (e_sched s)), sc_group_maps (e_sched s), e_last_group s)"

definition groups_ok :: "'map groups \<Rightarrow> bool" where
  "groups_ok g \<longleftrightarrow>
     (let (gs, maps, cur) = g in cur \<noteq> 0 \<and> (\<forall>x \<in> set gs. x \<noteq> 0 \<and> (x \<noteq> cur \<longrightarrow> maps x \<noteq> None)))"

definition spaces_ok :: "('x, 'm, 'map, 'h) mach \<Rightarrow> bool" where
  "spaces_ok s \<longleftrightarrow> groups_ok (groups s)"

definition running_ok :: "('x, 'm, 'map, 'h) mach \<Rightarrow> bool" where
  "running_ok s \<longleftrightarrow> spaces_ok s \<and> p_tgid (e_proc s) = e_last_group s"

definition same_groups :: "('x, 'm, 'map, 'h) mach \<Rightarrow> ('x, 'm, 'map, 'h) mach \<Rightarrow> bool" where
  "same_groups s s' \<longleftrightarrow> groups s' = groups s \<and> p_tgid (e_proc s') = p_tgid (e_proc s)"

named_theorems groups_kept

lemma same_groups_refl [simp, intro]: "same_groups s s"
  by (simp add: same_groups_def)

lemma same_groups_trans: "same_groups s t \<Longrightarrow> same_groups t u \<Longrightarrow> same_groups s u"
  by (simp add: same_groups_def)

lemma same_groups_running: "same_groups s s' \<Longrightarrow> running_ok s \<Longrightarrow> running_ok s'"
  by (simp add: same_groups_def running_ok_def spaces_ok_def groups_def)

lemma same_groups_spaces: "same_groups s s' \<Longrightarrow> spaces_ok s \<Longrightarrow> spaces_ok s'"
  by (simp add: same_groups_def spaces_ok_def)

lemma same_groups_fields:
  "e_sched s' = e_sched s \<Longrightarrow> e_last_group s' = e_last_group s \<Longrightarrow> p_tgid (e_proc s') = p_tgid (e_proc s) \<Longrightarrow> same_groups s s'"
  by (simp add: same_groups_def groups_def)

lemma same_groups_copy: "copy_only s s' \<Longrightarrow> same_groups s s'"
  by (rule same_groups_fields) (simp_all add: copy_only_fields)

lemma same_groups_write: "same_groups s (snd (write_mem ops a bs s))"
  by (rule same_groups_copy, rule copy_only_write, rule surjective_pairing)

lemma same_groups_mapped:
  "(\<And>p. p_tgid (f p) = p_tgid p) \<Longrightarrow> p_tgid (g (e_proc s)) = p_tgid (e_proc s) \<Longrightarrow>
   same_groups s (s\<lparr>e_proc := g (e_proc s), e_sched := map_parked (set_proc f) (e_sched s)\<rparr>)"
  by (simp add: same_groups_def groups_def map_parked_def set_proc_def comp_def)

lemma tgid_pending [simp]: "p_tgid (add_pending b p) = p_tgid p" "p_tgid (clear_pending b p) = p_tgid p"
  by (simp_all add: add_pending_def clear_pending_def)

lemma tgid_if [simp]: "p_tgid (if b then p else q) = (if b then p_tgid p else p_tgid q)"
  by simp

lemma same_groups_pgrp: "same_groups s (deliver_signal_to_pgrp pgrp sig s)"
  by (simp add: deliver_signal_to_pgrp_def same_groups_mapped)

lemma map_update_set_proc:
  "map (\<lambda>t. p_tgid (pk_proc t)) (ts[i := set_proc (add_pending b) (ts ! i)]) = map (\<lambda>t. p_tgid (pk_proc t)) ts"
  by (cases "i < length ts") (simp_all add: map_update set_proc_def list_update_same_conv list_update_beyond)

lemma same_groups_mark: "same_groups s (s\<lparr>e_sched := mark_parked r b (e_sched s)\<rparr>)"
  by (simp add: same_groups_def groups_def mark_parked_def map_update_set_proc split: option.splits)

lemma same_groups_notify: "same_groups s (notify_parent_sigchld parent s)"
  unfolding notify_parent_sigchld_def Let_def by (auto simp: same_groups_mark)

lemma same_groups_signal: "same_groups s (snd (signal_process tgid sig s))"
  unfolding signal_process_def Let_def by (auto simp: same_groups_mark intro!: same_groups_fields)

lemma same_groups_enter: "same_groups u (snd (enter_handler ops sig a u))"
proof -
  let ?v = "save_context sig a (trace_event (EvSignal (c_icount (m_cpu u)) (p_pid (e_proc u)) sig) u)"
  let ?alt = "sa_flags a AND SA_ONSTACK \<noteq> 0 \<and> p_altstack (e_proc ?v) \<noteq> None"
  obtain si uc sp q w where f: "push_frame ops ?alt sig a ?v = ((si, uc, sp), q, w)" by (metis prod_cases3 surj_pair)
  have "same_groups u ?v" by (rule same_groups_fields) (simp_all add: save_context_def trace_event_def)
  moreover have "same_groups ?v w" by (rule same_groups_copy) (rule push_frame_copy [OF f])
  ultimately have "same_groups u w" by (rule same_groups_trans)
  then show ?thesis
    unfolding enter_handler_def Let_def f by (cases q) (auto simp: same_groups_def groups_def)
qed

lemma same_groups_deliver: "same_groups s (snd (deliver_signal ops s))"
proof -
  obtain r pending where r: "next_handler (proc_acts (e_heap s) (e_proc s)) (p_sigmask (e_proc s)) (p_pending_signals (e_proc s)) = (r, pending)"
    by fastforce
  have "same_groups s (with_proc (\<lambda>p. p\<lparr>p_pending_signals := pending\<rparr>) s)" by (rule same_groups_fields) simp_all
  then show ?thesis
    using same_groups_trans [OF _ same_groups_enter] by (auto simp: deliver_signal_def r Let_def split: option.splits)
qed

section \<open>Scheduling\<close>

lemma ready_index_less: "find_ready net h sc now = Some i \<Longrightarrow> i < length (sc_parked sc)"
  unfolding find_ready_def by (drule position_less) simp

lemma same_groups_warp:
  assumes "warp_to_deadline ops d s = (r, s')"
  shows "same_groups s s' \<and> (\<forall>i. r = Some i \<longrightarrow> i < length (sc_parked (e_sched s')))"
  using assms
  by (auto simp: warp_to_deadline_def Let_def same_groups_def groups_def split: option.splits if_splits dest: ready_index_less)

lemma same_groups_network:
  assumes "resolve_network ops d hs b s = (r, s')"
  shows "same_groups s s' \<and> (\<forall>i. r = Some i \<longrightarrow> i < length (sc_parked (e_sched s')))"
proof -
  have expired: "same_groups s (s\<lparr>e_network_expired := x\<rparr>)" and host: "same_groups s (s\<lparr>e_host := h\<rparr>)"
    and wait: "same_groups s (s\<lparr>e_network_wait := x\<rparr>)" for x h
    by (simp_all add: same_groups_def groups_def)
  show ?thesis
    using assms unfolding resolve_network_def Let_def case_prod_beta
    by (auto simp: host wait split: if_splits option.splits
        dest!: same_groups_warp intro: same_groups_trans [OF expired] same_groups_trans [OF host])
       (auto dest: ready_index_less)
qed

lemma same_groups_idle:
  assumes "resolve_idle ops s = (r, s')"
  shows "same_groups s s' \<and> (\<forall>i. r = Some i \<longrightarrow> i < length (sc_parked (e_sched s')))"
  using assms unfolding resolve_idle_def Let_def
  by (auto split: list.splits option.splits dest: same_groups_warp same_groups_network)

lemma same_groups_feed: "same_groups s (snd (feed_terminal s))"
proof -
  have "same_groups s (s\<lparr>e_stdio_input := x, e_heap := h\<rparr>)" for x h
    by (simp add: same_groups_def groups_def)
  then show ?thesis
    by (auto simp: feed_terminal_def Let_def case_prod_beta split: option.splits intro: same_groups_trans [OF _ same_groups_pgrp])
qed

lemma same_groups_stall:
  assumes "resolve_stall ops s = (r, s')"
  shows "same_groups s s' \<and> (\<forall>i. r = Some i \<longrightarrow> i < length (sc_parked (e_sched s')))"
proof -
  obtain fed t where t: "feed_terminal s = (fed, t)" by fastforce
  have "same_groups s t" using same_groups_feed [of s] t by simp
  then show ?thesis
    using assms unfolding resolve_stall_def t Let_def
    by (auto split: option.splits if_splits dest: ready_index_less same_groups_idle intro: same_groups_trans)
qed

text \<open>The maps of the groups as the rest of the machine sees them, and the one law of the engine the
  development relies on: taking the map just restored gives that map.\<close>

definition space :: "('m, 'map, 'h) ops \<Rightarrow> ('x, 'm, 'map, 'h) mach \<Rightarrow> u64 \<Rightarrow> 'map option" where
  "space ops s g = (if g = e_last_group s then Some (fst (op_take_map ops (m_mem s))) else sc_group_maps (e_sched s) g)"

definition map_law :: "('m, 'map, 'h) ops \<Rightarrow> bool" where
  "map_law ops \<longleftrightarrow> (\<forall>m mem. fst (op_take_map ops (op_restore_map ops m mem)) = m)"

lemma set_remove_at: "set (remove_at i xs) \<subseteq> set xs"
  by (auto simp: remove_at_def dest: in_set_takeD in_set_dropD)

lemma group_has_parked_iff: "group_has_parked sc g \<longleftrightarrow> g \<in> set (map (\<lambda>t. p_tgid (pk_proc t)) (sc_parked sc))"
  by (auto simp: group_has_parked_def list_ex_iff)

definition without_task :: "nat \<Rightarrow> ('x, 'm, 'map, 'h) mach \<Rightarrow> ('x, 'm, 'map, 'h) mach" where
  "without_task i s = with_sched (\<lambda>sc. sc\<lparr>sc_parked := remove_at i (sc_parked sc)\<rparr>) s"

lemma switch_map_found:
  assumes ok: "spaces_ok s" and i: "i < length (sc_parked (e_sched s))" and g: "g = p_tgid (pk_proc (sc_parked (e_sched s) ! i))"
  shows "\<exists>s'. switch_map ops g (without_task i s) = (True, s') \<and> spaces_ok s' \<and> e_last_group s' = g \<and>
     sc_parked (e_sched s') = remove_at i (sc_parked (e_sched s)) \<and> e_proc s' = e_proc s \<and> e_heap s' = e_heap s \<and> e_host s' = e_host s"
proof -
  let ?gs = "map (\<lambda>t. p_tgid (pk_proc t)) (sc_parked (e_sched s))"
  have mem: "g \<in> set ?gs" using i g by auto
  have rest: "x \<in> set (map (\<lambda>t. p_tgid (pk_proc t)) (remove_at i (sc_parked (e_sched s)))) \<Longrightarrow> x \<in> set ?gs" for x
    using set_remove_at [of i "sc_parked (e_sched s)"] by auto
  have maps: "x \<in> set ?gs \<Longrightarrow> x \<noteq> 0 \<and> (x \<noteq> e_last_group s \<longrightarrow> sc_group_maps (e_sched s) x \<noteq> None)" and cur: "e_last_group s \<noteq> 0" for x
    using ok by (auto simp: spaces_ok_def groups_ok_def groups_def)
  show ?thesis
  proof (cases "e_last_group s = g")
    case True
    then show ?thesis
      using maps rest cur by (auto simp: switch_map_def without_task_def spaces_ok_def groups_ok_def groups_def)
  next
    case False
    with mem maps obtain m where m: "sc_group_maps (e_sched s) g = Some m" by fastforce
    obtain pm mm where take: "op_take_map ops (m_mem s) = (pm, mm)" by fastforce
    show ?thesis
      using False m maps rest cur take mem
      by (auto simp: switch_map_def without_task_def Let_def spaces_ok_def groups_ok_def groups_def group_has_parked_iff)
         (metis imageI)
  qed
qed

lemma same_groups_wake: "same_groups s (wake_up ops a b c s)"
proof -
  have cpu: "same_groups u (with_cpu f u)" for u :: "('a, 'b, 'c, 'd) mach" and f by (simp add: same_groups_def groups_def)
  then show ?thesis
    unfolding wake_up_def Let_def
    by (auto intro: same_groups_trans [OF _ same_groups_deliver] same_groups_trans [OF cpu cpu] same_groups_trans [OF same_groups_trans [OF cpu cpu] same_groups_deliver])
qed

lemma run_task_ok:
  assumes "spaces_ok s" "i < length (sc_parked (e_sched s))"
  shows "\<exists>s'. run_task ops now i s = (True, s') \<and> running_ok s' \<and> p_tgid (e_proc s') = p_tgid (pk_proc (sc_parked (e_sched s) ! i))"
proof -
  let ?t = "sc_parked (e_sched s) ! i"
  obtain u where u: "switch_map ops (p_tgid (pk_proc ?t)) (without_task i s) = (True, u)" "spaces_ok u" "e_last_group u = p_tgid (pk_proc ?t)"
    using switch_map_found [OF assms refl] by blast
  have inst: "running_ok (install_task ?t u)" "p_tgid (e_proc (install_task ?t u)) = p_tgid (pk_proc ?t)"
    using u(2,3) by (simp_all add: running_ok_def spaces_ok_def groups_def install_task_def)
  have "running_ok (wake_up ops a b c (install_task ?t u)) \<and> p_tgid (e_proc (wake_up ops a b c (install_task ?t u))) = p_tgid (pk_proc ?t)" for a b c
    using same_groups_running [OF same_groups_wake inst(1)] same_groups_wake [of "install_task ?t u" ops a b c] inst(2)
    by (simp add: same_groups_def)
  with u(1) show ?thesis by (simp add: run_task_def without_task_def Let_def)
qed

definition out_ok :: "outcome \<times> ('x, 'm, 'map, 'h) mach \<Rightarrow> bool" where
  "out_ok r \<longleftrightarrow> (case fst r of Exit _ \<Rightarrow> spaces_ok (snd r) | _ \<Rightarrow> running_ok (snd r))"

lemma schedule_next_ok:
  assumes "spaces_ok s" "schedule_next ops s = (b, s')"
  shows "if b then running_ok s' else spaces_ok s'"
proof -
  obtain r t where t: "resolve_stall ops s = (r, t)" by fastforce
  have stall: "same_groups s t" "\<And>i. r = Some i \<Longrightarrow> i < length (sc_parked (e_sched t))" using same_groups_stall [OF t] by auto
  have spaces: "spaces_ok t" using same_groups_spaces [OF stall(1) assms(1)] .
  show ?thesis
    using assms(2) run_task_ok [OF assms(1), where ops = ops and now = "now_nanos s"]
      run_task_ok [OF spaces stall(2), where ops = ops and now = "now_nanos s"] spaces
    unfolding schedule_next_def Let_def t by (fastforce split: option.splits dest: ready_index_less)
qed

lemma switch_away_ok: "spaces_ok s \<Longrightarrow> out_ok (switch_away ops s)"
  using schedule_next_ok [of s ops]
  by (auto simp: switch_away_def stall_outcome_def out_ok_def record_exit_def spaces_ok_def groups_def split: prod.splits bool.splits if_splits)

lemma park_ok: "running_ok s \<Longrightarrow> spaces_ok (park_current ps s)"
  by (auto simp: running_ok_def spaces_ok_def groups_ok_def groups_def park_current_def Let_def case_prod_beta)

lemma block_ok: "running_ok s \<Longrightarrow> out_ok (block_and_switch ops ps restart s)"
  unfolding block_and_switch_def
  by (intro switch_away_ok park_ok) (simp add: running_ok_def spaces_ok_def groups_def)

lemma park_returning_ok: "running_ok s \<Longrightarrow> out_ok (park_returning ops ps s)"
  unfolding park_returning_def
  by (intro switch_away_ok park_ok) (simp add: running_ok_def spaces_ok_def groups_def)

text \<open>With the engine's law every group with a parked task has after the switch the map it had
  before it.\<close>

lemma switch_map_keeps:
  assumes law: "map_law ops" and ok: "spaces_ok s" and i: "i < length (sc_parked (e_sched s))"
    and g: "g = p_tgid (pk_proc (sc_parked (e_sched s) ! i))"
    and sw: "switch_map ops g (without_task i s) = (True, s')"
    and x: "x = g \<or> x \<in> set (map (\<lambda>t. p_tgid (pk_proc t)) (remove_at i (sc_parked (e_sched s))))"
  shows "space ops s' x = space ops s x \<and> space ops s x \<noteq> None"
proof -
  have maps: "y \<in> set (map (\<lambda>t. p_tgid (pk_proc t)) (sc_parked (e_sched s))) \<Longrightarrow> y \<noteq> e_last_group s \<Longrightarrow> sc_group_maps (e_sched s) y \<noteq> None" for y
    using ok by (auto simp: spaces_ok_def groups_ok_def groups_def)
  have "x \<in> set (map (\<lambda>t. p_tgid (pk_proc t)) (sc_parked (e_sched s)))"
    using x g i set_remove_at [of i "sc_parked (e_sched s)"] by auto
  then have some: "space ops s x \<noteq> None" using maps by (auto simp: space_def)
  have cur: "e_last_group s \<noteq> 0" using ok by (simp add: spaces_ok_def groups_ok_def groups_def)
  obtain pm mm where take: "op_take_map ops (m_mem s) = (pm, mm)" by fastforce
  have "space ops s' x = space ops s x"
    using sw law x cur take
    by (auto simp: switch_map_def without_task_def space_def map_law_def Let_def group_has_parked_iff image_iff split: if_splits option.splits)
  with some show ?thesis by blast
qed

end
