(* ===== verification/Files.thy ===== *)
theory Files
  imports Inotify
begin

text \<open>
  The calls of \<^verbatim>\<open>crates/linux-compat/src/syscall.rs\<close> that name files: opening, seeking, listing, the stat
  family and the changes to directories, with the helpers of \<^verbatim>\<open>crates/linux-compat/src/lib.rs\<close> they use
  (secrets behind handles, the release of unlinked files, the generator of pseudo-random bytes) and
  the synthesised files of \<^verbatim>\<open>/proc\<close>.

  A handler is a sequence of steps that stops at the first error; \<open>and_then\<close> is the \<^verbatim>\<open>?\<close> of the source.
  A panic of the file system is recorded in \<open>e_panicked\<close>.
\<close>

unbundle bit_operations_syntax

section \<open>Steps of a call\<close>

definition and_then :: "('s \<Rightarrow> ('e + 'a) \<times> 's) \<Rightarrow> ('a \<Rightarrow> 's \<Rightarrow> ('e + 'b) \<times> 's) \<Rightarrow> 's \<Rightarrow> ('e + 'b) \<times> 's" where
  "and_then f g s = (case f s of (Inl e, s) \<Rightarrow> (Inl e, s) | (Inr x, s) \<Rightarrow> g x s)"

definition give :: "'e + 'a \<Rightarrow> 's \<Rightarrow> ('e + 'a) \<times> 's" where
  "give r s = (r, s)"

definition on_vfs ::
  "(vfs \<Rightarrow> (fault + 'a) \<times> vfs) \<Rightarrow> ('x, 'm, 'map, 'h) mach \<Rightarrow> (errno + 'a) \<times> ('x, 'm, 'map, 'h) mach" where
  "on_vfs f s =
     (case f (e_vfs s) of
        (Inr x, v) \<Rightarrow> (Inr x, s\<lparr>e_vfs := v\<rparr>)
      | (Inl (Err e), v) \<Rightarrow> (Inl e, s\<lparr>e_vfs := v\<rparr>)
      | (Inl Panicked, v) \<Rightarrow> (Inl EFAULT, s\<lparr>e_vfs := v, e_panicked := True\<rparr>))"

definition in_vfs ::
  "(vfs \<Rightarrow> fault + 'a) \<Rightarrow> ('x, 'm, 'map, 'h) mach \<Rightarrow> (errno + 'a) \<times> ('x, 'm, 'map, 'h) mach" where
  "in_vfs f = on_vfs (\<lambda>v. (f v, v))"

text \<open>\<^verbatim>\<open>Vfs::node\<close> and \<^verbatim>\<open>Vfs::node_mut\<close>: an index out of range is a panic.\<close>

definition vfs_node :: "nat \<Rightarrow> vfs \<Rightarrow> fault + node" where
  "vfs_node i v = (case node_at v i of None \<Rightarrow> Inl Panicked | Some n \<Rightarrow> Inr n)"

definition vfs_node_mut :: "nat \<Rightarrow> (node \<Rightarrow> node) \<Rightarrow> vfs \<Rightarrow> (fault + unit) \<times> vfs" where
  "vfs_node_mut i f v = (case node_at v i of None \<Rightarrow> (Inl Panicked, v) | Some n \<Rightarrow> (Inr (), set_node i (f n) v))"

definition ok_or :: "'e \<Rightarrow> 'a option \<Rightarrow> 'e + 'a" where
  "ok_or e x = (case x of None \<Rightarrow> Inl e | Some y \<Rightarrow> Inr y)"

section \<open>Helpers of the machine\<close>

definition is_host_secret_node :: "('x, 'm, 'map, 'h) mach \<Rightarrow> nat \<Rightarrow> bool" where
  "is_host_secret_node s node \<longleftrightarrow> map_of (e_secret_nodes s) node \<noteq> None"

definition host_secret_for_node :: "('x, 'm, 'map, 'h) mach \<Rightarrow> nat \<Rightarrow> bytes option" where
  "host_secret_for_node s node =
     (case map_of (e_secret_nodes s) node of
        None \<Rightarrow> None
      | Some handle \<Rightarrow>
          (case map_of (e_secret_handles s) handle of
             None \<Rightarrow> None
           | Some secret \<Rightarrow> if e_agent_principal s = Some (hs_principal secret) then Some (hs_value secret) else None))"

definition backing_node :: "backing \<Rightarrow> nat option" where
  "backing_node b = (case b of BFile node \<Rightarrow> Some node | BDir node _ \<Rightarrow> Some node | _ \<Rightarrow> None)"

definition table_nodes :: "kheap \<Rightarrow> nat \<Rightarrow> nat set" where
  "table_nodes h t =
     set (List.map_filter (\<lambda>(_, e). case kh_ofds h (fe_desc e) of None \<Rightarrow> None | Some (_, d) \<Rightarrow> backing_node (d_backing d))
            (fds_iter (table_at t h)))"

definition open_nodes :: "('x, 'm, 'map, 'h) mach \<Rightarrow> nat set" where
  "open_nodes s =
     table_nodes (e_heap s) (p_fds (e_proc s)) \<union>
     (\<Union>t \<in> set (sc_parked (e_sched s)). table_nodes (e_heap s) (p_fds (pk_proc t)))"

definition drop_secret :: "nat \<Rightarrow> ('x, 'm, 'map, 'h) mach \<Rightarrow> ('x, 'm, 'map, 'h) mach" where
  "drop_secret node s =
     (case map_of (e_secret_nodes s) node of
        None \<Rightarrow> s
      | Some handle \<Rightarrow>
          s\<lparr>e_secret_nodes := bt_remove node (e_secret_nodes s), e_secret_handles := bt_remove handle (e_secret_handles s)\<rparr>)"

definition reclaim_unlinked :: "('x, 'm, 'map, 'h) mach \<Rightarrow> ('x, 'm, 'map, 'h) mach" where
  "reclaim_unlinked s =
     (if \<not> has_unlinked (e_vfs s) then s
      else let referenced = open_nodes s; keys = map fst (e_secret_nodes s) in
        if \<exists>k \<in> set keys. node_at (e_vfs s) k = None then s\<lparr>e_panicked := True\<rparr>
        else let gone = filter (\<lambda>k. nnlink (vnodes (e_vfs s) ! k) = 0 \<and> k \<notin> referenced) keys
             in fold drop_secret gone (s\<lparr>e_vfs := snd (release_unreferenced referenced (e_vfs s))\<rparr>))"

text \<open>xorshift64*.\<close>

definition next_random :: "('x, 'm, 'map, 'h) mach \<Rightarrow> u64 \<times> ('x, 'm, 'map, 'h) mach" where
  "next_random s =
     (let x = e_rng_state s;
          x = x XOR drop_bit 12 x;
          x = x XOR push_bit 25 x;
          x = x XOR drop_bit 27 x
      in (x * 0x2545f4914f6cdd1d, s\<lparr>e_rng_state := x\<rparr>))"

fun random_bytes :: "nat \<Rightarrow> ('x, 'm, 'map, 'h) mach \<Rightarrow> bytes \<times> ('x, 'm, 'map, 'h) mach" where
  "random_bytes len s =
     (if len = 0 then ([], s)
      else let (w, s) = next_random s; (rest, s) = random_bytes (len - 8) s in (take len (u64_to_le w) @ rest, s))"

declare random_bytes.simps [simp del]

definition i64_saturating_add :: "u64 \<Rightarrow> u64 \<Rightarrow> u64" where
  "i64_saturating_add a b =
     (let t = sint a + sint b
      in if t > 2 ^ 63 - 1 then 0x7fffffffffffffff else if t < - (2 ^ 63) then 0x8000000000000000 else a + b)"

definition now_real :: "('x, 'm, 'map, 'h) mach \<Rightarrow> u64 \<times> u64" where
  "now_real s = (let nanos = now_nanos s in (i64_saturating_add (e_epoch_base_sec s) (nanos div 1000000000), nanos mod 1000000000))"

definition now_monotonic :: "('x, 'm, 'map, 'h) mach \<Rightarrow> u64 \<times> u64" where
  "now_monotonic s = (let nanos = now_nanos s in (nanos div 1000000000, nanos mod 1000000000))"

definition check_against_manifest :: "bytes \<Rightarrow> hash \<Rightarrow> nat \<Rightarrow> ('x, 'm, 'map, 'h) mach \<Rightarrow> bool" where
  "check_against_manifest path digest len s =
     (case e_manifest s of None \<Rightarrow> True | Some m \<Rightarrow> (case mf_check m path digest len of Inl _ \<Rightarrow> False | Inr _ \<Rightarrow> True))"

definition add_file :: "bytes \<Rightarrow> rvec \<Rightarrow> u32 \<Rightarrow> ('x, 'm, 'map, 'h) mach \<Rightarrow> bool \<times> ('x, 'm, 'map, 'h) mach" where
  "add_file path data mode s =
     (if e_manifest s \<noteq> None \<and> \<not> check_against_manifest path (sha256 (vdata data)) (length (vdata data)) s then (False, s)
      else case on_vfs (add_node path (File data) mode) s of
          (Inl _, s) \<Rightarrow> (False, reclaim_unlinked s)
        | (Inr _, s) \<Rightarrow> (True, reclaim_unlinked s))"

section \<open>Synthesised files\<close>

definition pad_text :: "nat \<Rightarrow> u8 \<Rightarrow> bytes \<Rightarrow> bytes" where
  "pad_text width filler digits = replicate (width - length digits) filler @ digits"

definition add_run :: "u64 \<times> u64 \<times> u8 \<Rightarrow> (u64 \<times> u64 \<times> u8) list \<Rightarrow> (u64 \<times> u64 \<times> u8) list" where
  "add_run r runs =
     (case r of (start, stop, p) \<Rightarrow>
        if runs = [] then [r]
        else case last runs of (a, b, q) \<Rightarrow>
          if b + 1 = start \<and> q = p then butlast runs @ [(a, stop, q)] else runs @ [r])"

definition perm_letter :: "u8 \<Rightarrow> u8 \<Rightarrow> u8 \<Rightarrow> u8" where
  "perm_letter p b c = (if p AND b \<noteq> 0 then c else 45)"

definition maps_line :: "bytes \<Rightarrow> u64 \<times> u64 \<times> u8 \<Rightarrow> bytes" where
  "maps_line exe r =
     (case r of (start, stop, p) \<Rightarrow>
        pad_text 12 48 (nat_text 16 (unat start)) @ str ''-'' @ pad_text 12 48 (nat_text 16 (unat (saturating_add stop 1))) @
        str '' '' @ [perm_letter p PERM_READ 114, perm_letter p PERM_WRITE 119, perm_letter p PERM_EXEC 120] @
        str ''p 00000000 00:00 0 '' @ (if start < 0x100000000 then exe else []) @ [10])"

definition procfs_maps :: "('m, 'map, 'h) ops \<Rightarrow> ('x, 'm, 'map, 'h) mach \<Rightarrow> bytes" where
  "procfs_maps ops s =
     (let runs = fold add_run (map (\<lambda>(start, stop). (start, stop, op_get_perm ops start (m_mem s))) (op_mapping ops (m_mem s))) []
      in concat (map (maps_line (from_utf8_lossy (p_exe_path (e_proc s)))) runs))"

definition procfs_statm :: "('m, 'map, 'h) ops \<Rightarrow> ('x, 'm, 'map, 'h) mach \<Rightarrow> bytes" where
  "procfs_statm ops s =
     (let pages = nat_text 10 (op_total_pages ops (m_mem s))
      in pages @ str '' '' @ pages @ str '' 0 0 0 '' @ pages @ str '' 0'' @ [10])"

definition procfs_meminfo :: "('m, 'map, 'h) ops \<Rightarrow> ('x, 'm, 'map, 'h) mach \<Rightarrow> bytes" where
  "procfs_meminfo ops s =
     (let total = 4 * of_nat (op_capacity ops (m_mem s)) :: u64;
          free = saturating_sub total (4 * of_nat (op_total_pages ops (m_mem s)));
          kb = (\<lambda>n. pad_text 8 32 (nat_text 10 (unat (n :: u64))) @ str '' kB'' @ [10])
      in str ''MemTotal:       '' @ kb total @ str ''MemFree:        '' @ kb free @ str ''MemAvailable:   '' @ kb free)"

definition strip_prefix :: "bytes \<Rightarrow> bytes \<Rightarrow> bytes option" where
  "strip_prefix pre path = (if take (length pre) path = pre then Some (drop (length pre) path) else None)"

definition procfs_name :: "u64 \<Rightarrow> bytes \<Rightarrow> bytes option" where
  "procfs_name pid path =
     (case strip_prefix (str ''/proc/self/'') path of
        Some rest \<Rightarrow> Some rest
      | None \<Rightarrow>
          (case strip_prefix (str ''/proc/'' @ nat_text 10 (unat pid) @ str ''/'') path of
             Some rest \<Rightarrow> Some rest
           | None \<Rightarrow> if path = str ''/proc/meminfo'' then Some (str ''meminfo'') else None))"

definition procfs_content :: "('m, 'map, 'h) ops \<Rightarrow> bytes \<Rightarrow> ('x, 'm, 'map, 'h) mach \<Rightarrow> bytes option" where
  "procfs_content ops name s =
     (if name = str ''maps'' then Some (procfs_maps ops s)
      else if name = str ''statm'' then Some (procfs_statm ops s)
      else if name = str ''cmdline'' then Some (concat (map (\<lambda>a. a @ [0]) (p_argv (e_proc s))))
      else if name = str ''meminfo'' then Some (procfs_meminfo ops s)
      else None)"

definition refresh_procfs :: "('m, 'map, 'h) ops \<Rightarrow> bytes \<Rightarrow> ('x, 'm, 'map, 'h) mach \<Rightarrow> ('x, 'm, 'map, 'h) mach" where
  "refresh_procfs ops path s =
     (case procfs_name (p_pid (e_proc s)) path of
        None \<Rightarrow> s
      | Some name \<Rightarrow>
          (case procfs_content ops name s of
             None \<Rightarrow> s
           | Some content \<Rightarrow>
               let full = (if strip_prefix (str ''/proc/meminfo'') path \<noteq> None then str ''/proc/meminfo'' else path) in
               (case take_file_contents full (e_vfs s) of
                  Panic \<Rightarrow> s\<lparr>e_panicked := True\<rparr>
                | Ret (Some _, v) \<Rightarrow>
                    (case put_file_contents full (vec_of content) v of
                       Panic \<Rightarrow> s\<lparr>e_vfs := v, e_panicked := True\<rparr>
                     | Ret v \<Rightarrow> s\<lparr>e_vfs := v\<rparr>)
                | Ret (None, v) \<Rightarrow> snd (add_file full (vec_of content) 0x124 (s\<lparr>e_vfs := v\<rparr>)))))"

section \<open>Paths\<close>

definition fd_description :: "u64 \<Rightarrow> ('x, 'm, 'map, 'h) mach \<Rightarrow> errno + nat \<times> description" where
  "fd_description fd s = ofd_at (p_fds (e_proc s)) fd (e_heap s)"

definition dir_of :: "u64 \<Rightarrow> ('x, 'm, 'map, 'h) mach \<Rightarrow> errno + nat" where
  "dir_of dirfd s =
     (if (ucast dirfd :: u32) = ucast AT_FDCWD then Inr (p_cwd (e_proc s))
      else case fd_description dirfd s of
          Inl e \<Rightarrow> Inl e
        | Inr (_, d) \<Rightarrow> (case d_backing d of BDir node _ \<Rightarrow> Inr node | _ \<Rightarrow> Inl ENOTDIR))"

text \<open>The three steps most handlers start with: the path from guest memory, the directory it starts
  from, and its resolution.\<close>

definition resolve_arg ::
  "('m, 'map, 'h) ops \<Rightarrow> u64 \<Rightarrow> u64 \<Rightarrow> bool \<Rightarrow> ('x, 'm, 'map, 'h) mach \<Rightarrow> (errno + resolved) \<times> ('x, 'm, 'map, 'h) mach" where
  "resolve_arg ops dirfd ptr follow =
     and_then (read_cstr ops ptr) (\<lambda>path.
     and_then (\<lambda>s. (dir_of dirfd s, s)) (\<lambda>base.
     in_vfs (\<lambda>v. vfs_resolve v base path follow)))"

definition resolve_node ::
  "('m, 'map, 'h) ops \<Rightarrow> u64 \<Rightarrow> u64 \<Rightarrow> bool \<Rightarrow> ('x, 'm, 'map, 'h) mach \<Rightarrow> (errno + nat) \<times> ('x, 'm, 'map, 'h) mach" where
  "resolve_node ops dirfd ptr follow =
     and_then (resolve_arg ops dirfd ptr follow) (\<lambda>r. give (ok_or ENOENT (res_node r)))"

section \<open>Opening\<close>

definition open_flags :: "u64 \<Rightarrow> u64" where
  "open_flags flags = flags AND (O_ACCMODE OR O_APPEND OR O_NONBLOCK)"

definition install_open ::
  "backing \<Rightarrow> u64 \<Rightarrow> ('x, 'm, 'map, 'h) mach \<Rightarrow> (errno + u64) \<times> ('x, 'm, 'map, 'h) mach" where
  "install_open b flags = on_table (\<lambda>t. install_fd t b (open_flags flags) (flags AND O_CLOEXEC \<noteq> 0))"

definition resolved_kind :: "resolved \<Rightarrow> vfs \<Rightarrow> fault + node_kind option" where
  "resolved_kind r v =
     (case res_node r of
        None \<Rightarrow> Inr None
      | Some i \<Rightarrow> (case node_at v i of None \<Rightarrow> Inl Panicked | Some n \<Rightarrow> Inr (Some (nkind n))))"

text \<open>The controlling terminal, opened through \<^verbatim>\<open>/dev/tty\<close>.\<close>

definition slave_opened :: "u64 \<Rightarrow> bool \<Rightarrow> pty \<Rightarrow> pty" where
  "slave_opened pgid claim p =
     p\<lparr>pt_slaves := pt_slaves p + 1, pt_slave_ever_opened := True, pt_activity := pt_activity p + 1,
       pt_fg_pgrp := (if claim \<and> pt_fg_pgrp p = 0 then pgid else pt_fg_pgrp p)\<rparr>"

definition open_slave ::
  "nat \<Rightarrow> bool \<Rightarrow> u64 \<Rightarrow> ('x, 'm, 'map, 'h) mach \<Rightarrow> (errno + u64) \<times> ('x, 'm, 'map, 'h) mach" where
  "open_slave p claim flags s =
     install_open (BPtySlave p) flags
       (with_heap (\<lambda>h. h\<lparr>kh_ptys := at_cell (slave_opened (p_pgid (e_proc s)) claim) p (kh_ptys h)\<rparr>) s)"

text \<open>A name under \<^verbatim>\<open>/dev/pts\<close> that is a decimal number: the terminal it names, if there is one.\<close>

definition pts_name :: "resolved \<Rightarrow> vfs \<Rightarrow> fault + u64 option" where
  "pts_name r v =
     (case vfs_resolve v ROOT (str ''/dev/pts'') True of
        Inl Panicked \<Rightarrow> Inl Panicked
      | Inl (Err _) \<Rightarrow> Inr None
      | Inr pts \<Rightarrow>
          Inr (if res_node pts = Some (res_parent r)
               then map_option of_nat (parse_unsigned 10 (2 ^ 64 - 1) (if utf8_valid (res_name r) then res_name r else []))
               else None))"

definition create_mode :: "u64 \<Rightarrow> ('x, 'm, 'map, 'h) mach \<Rightarrow> u32" where
  "create_mode mode s = ucast mode AND 0x1ff AND NOT (p_umask (e_proc s))"

definition open_node ::
  "resolved \<Rightarrow> u64 \<Rightarrow> u64 \<Rightarrow> ('x, 'm, 'map, 'h) mach \<Rightarrow> (errno + nat) \<times> ('x, 'm, 'map, 'h) mach" where
  "open_node r flags mode s =
     (case res_node r of
        Some node \<Rightarrow> if flags AND O_CREAT \<noteq> 0 \<and> flags AND O_EXCL \<noteq> 0 then (Inl EEXIST, s) else (Inr node, s)
      | None \<Rightarrow>
          if flags AND O_CREAT = 0 then (Inl ENOENT, s)
          else and_then
            (on_vfs (vfs_create (res_parent r) (res_name r) (File vec_new) (create_mode mode s)))
            (\<lambda>created s. (Inr created, notify_inotify (res_parent r) (res_name r) IN_CREATE 0 s)) s)"

definition pty_open_master :: "('x, 'm, 'map, 'h) mach \<Rightarrow> nat \<times> ('x, 'm, 'map, 'h) mach" where
  "pty_open_master s =
     (let i = kh_next (e_heap s); n = e_next_pty_id s
      in (i, s\<lparr>e_heap := (e_heap s)\<lparr>kh_next := Suc i, kh_ptys := (kh_ptys (e_heap s))(i \<mapsto> pty_new n)\<rparr>,
               e_next_pty_id := n + 1, e_ptys := bt_insert n i (e_ptys s)\<rparr>))"

definition open_backing ::
  "nat \<Rightarrow> u64 \<Rightarrow> ('x, 'm, 'map, 'h) mach \<Rightarrow> (errno + backing) \<times> ('x, 'm, 'map, 'h) mach" where
  "open_backing node flags =
     and_then (in_vfs (vfs_node node)) (\<lambda>n s.
       case nkind n of
         Dir _ \<Rightarrow> if flags AND O_ACCMODE \<noteq> O_RDONLY then (Inl EISDIR, s) else (Inr (BDir node 0), s)
       | CharDev DevPtmx \<Rightarrow> let (i, s) = pty_open_master s in (Inr (BPtyMaster i), s)
       | CharDev d \<Rightarrow> (Inr (BDev d), s)
       | Symlink _ \<Rightarrow> (Inl ELOOP, s)
       | _ \<Rightarrow>
           if flags AND O_DIRECTORY \<noteq> 0 then (Inl ENOTDIR, s)
           else if is_host_secret_node s node \<and>
                   (host_secret_for_node s node = None \<or> flags AND O_ACCMODE \<noteq> O_RDONLY) then (Inl EACCES, s)
           else if flags AND O_TRUNC \<noteq> 0 \<and> flags AND O_ACCMODE \<noteq> O_RDONLY
           then and_then (on_vfs (vfs_node_mut node (\<lambda>n. n\<lparr>nkind := File vec_new\<rparr>))) (\<lambda>_. give (Inr (BFile node))) s
           else (Inr (BFile node), s))"

definition note_opened :: "nat option \<Rightarrow> node_kind option \<Rightarrow> nat set option \<Rightarrow> nat set option" where
  "note_opened node kind opened =
     (case (node, kind) of
        (Some i, Some (File _)) \<Rightarrow> map_option (insert i) opened
      | (Some i, Some (ChunkedFile _)) \<Rightarrow> map_option (insert i) opened
      | _ \<Rightarrow> opened)"

definition open_plain ::
  "resolved \<Rightarrow> u64 \<Rightarrow> u64 \<Rightarrow> ('x, 'm, 'map, 'h) mach \<Rightarrow> (errno + u64) \<times> ('x, 'm, 'map, 'h) mach" where
  "open_plain r flags mode =
     and_then (open_node r flags mode) (\<lambda>node.
     and_then (open_backing node flags) (\<lambda>b. install_open b flags))"

definition open_resolved ::
  "resolved \<Rightarrow> u64 \<Rightarrow> u64 \<Rightarrow> node_kind option \<Rightarrow> ('x, 'm, 'map, 'h) mach \<Rightarrow> (errno + u64) \<times> ('x, 'm, 'map, 'h) mach" where
  "open_resolved r flags mode kind s =
     (let s = s\<lparr>e_opened_files := note_opened (res_node r) kind (e_opened_files s)\<rparr> in
      case (if kind = Some (CharDev DevTty) then e_stdio_pty s else None) of
        Some p \<Rightarrow> open_slave p False flags s
      | None \<Rightarrow>
          if res_node r = None
          then and_then (in_vfs (pts_name r)) (\<lambda>pts s.
                 case pts of
                   None \<Rightarrow> open_plain r flags mode s
                 | Some n \<Rightarrow> (case map_of (e_ptys s) n of None \<Rightarrow> (Inl ENOENT, s) | Some p \<Rightarrow> open_slave p True flags s)) s
          else open_plain r flags mode s)"

definition sys_openat ::
  "('m, 'map, 'h) ops \<Rightarrow> u64 \<Rightarrow> u64 \<Rightarrow> u64 \<Rightarrow> u64 \<Rightarrow> ('x, 'm, 'map, 'h) mach \<Rightarrow> (errno + u64) \<times> ('x, 'm, 'map, 'h) mach" where
  "sys_openat ops dirfd path_ptr flags mode =
     and_then (read_cstr ops path_ptr) (\<lambda>path.
     and_then (\<lambda>s. let s = refresh_procfs ops path s in (dir_of dirfd s, s)) (\<lambda>base.
     and_then (in_vfs (\<lambda>v. vfs_resolve v base path (flags AND O_NOFOLLOW = 0))) (\<lambda>r.
     and_then (in_vfs (resolved_kind r)) (open_resolved r flags mode))))"

section \<open>Seeking and listing\<close>

definition set_description :: "nat \<Rightarrow> description \<Rightarrow> ('x, 'm, 'map, 'h) mach \<Rightarrow> ('x, 'm, 'map, 'h) mach" where
  "set_description i d s = with_heap (set_ofd i d) s"

definition seek_target :: "u64 \<Rightarrow> u64 \<Rightarrow> u64 \<Rightarrow> u64 \<Rightarrow> errno + u64" where
  "seek_target current len offset whence =
     (if whence \<noteq> SEEK_SET \<and> whence \<noteq> SEEK_CUR \<and> whence \<noteq> SEEK_END then Inl EINVAL
      else let base = (if whence = SEEK_SET then 0 else if whence = SEEK_CUR then sint current else sint len);
               target = base + sint offset
           in if target < - (2 ^ 63) \<or> 2 ^ 63 \<le> target \<or> target < 0 then Inl EINVAL else Inr (of_int target))"

definition seek_to ::
  "nat \<Rightarrow> description \<Rightarrow> u64 \<Rightarrow> u64 \<Rightarrow> u64 \<Rightarrow> ('x, 'm, 'map, 'h) mach \<Rightarrow> (errno + u64) \<times> ('x, 'm, 'map, 'h) mach" where
  "seek_to i d offset whence len s =
     (case seek_target (d_offset d) len offset whence of
        Inl e \<Rightarrow> (Inl e, s)
      | Inr target \<Rightarrow> (Inr target, set_description i (d\<lparr>d_offset := target\<rparr>) s))"

definition sys_lseek :: "u64 \<Rightarrow> u64 \<Rightarrow> u64 \<Rightarrow> ('x, 'm, 'map, 'h) mach \<Rightarrow> (errno + u64) \<times> ('x, 'm, 'map, 'h) mach" where
  "sys_lseek fd offset whence =
     and_then (\<lambda>s. (fd_description fd s, s)) (\<lambda>(i, d) s.
       case d_backing d of
         BFile node \<Rightarrow>
           if is_host_secret_node s node
           then and_then (give (ok_or EACCES (host_secret_for_node s node))) (\<lambda>value. seek_to i d offset whence (of_nat (length value))) s
           else and_then (in_vfs (vfs_node node)) (\<lambda>n. seek_to i d offset whence (node_size n)) s
       | BDir node cookie \<Rightarrow>
           if whence = SEEK_SET then (Inr offset, set_description i (d\<lparr>d_backing := BDir node offset\<rparr>) s) else (Inl EINVAL, s)
       | BDev _ \<Rightarrow> seek_to i d offset whence 0 s
       | _ \<Rightarrow> (Inl ESPIPE, s))"

text \<open>The loop of \<^verbatim>\<open>getdents64\<close> over the entries from a position on.\<close>

primrec dirents :: "vfs \<Rightarrow> nat \<Rightarrow> (bytes \<times> nat) list \<Rightarrow> nat \<Rightarrow> bytes \<Rightarrow> fault + bytes \<times> nat" where
  "dirents v room [] pos out = Inr (out, pos)"
| "dirents v room (e # es) pos out =
     (case node_at v (snd e) of
        None \<Rightarrow> Inl Panicked
      | Some n \<Rightarrow>
          (case encode_dirent64 (of_nat (snd e) + 1) (of_nat pos + 1) (d_type n) (fst e) (room - length out) of
             Some rec \<Rightarrow> dirents v room es (pos + 1) (out @ rec)
           | None \<Rightarrow> if out = [] then Inl (Err EINVAL) else Inr (out, pos)))"

definition list_from :: "nat \<Rightarrow> nat \<Rightarrow> nat \<Rightarrow> vfs \<Rightarrow> fault + bytes \<times> nat" where
  "list_from node cookie room v =
     (case vfs_list v node of Inl e \<Rightarrow> Inl e | Inr entries \<Rightarrow> dirents v room (drop cookie entries) cookie [])"

definition sys_getdents64 ::
  "('m, 'map, 'h) ops \<Rightarrow> u64 \<Rightarrow> u64 \<Rightarrow> u64 \<Rightarrow> ('x, 'm, 'map, 'h) mach \<Rightarrow> (errno + u64) \<times> ('x, 'm, 'map, 'h) mach" where
  "sys_getdents64 ops fd dirp count_arg =
     and_then (\<lambda>s. (fd_description fd s, s)) (\<lambda>(i, d) s.
       case d_backing d of
         BDir node cookie \<Rightarrow>
           and_then (in_vfs (list_from node (unat cookie) (unat count_arg))) (\<lambda>(out, pos) s.
           and_then (write_mem ops dirp out) (\<lambda>_. give (Inr (of_nat (length out))))
             (set_description i (d\<lparr>d_backing := BDir node (of_nat pos)\<rparr>) s)) s
       | _ \<Rightarrow> (Inl ENOTDIR, s))"

section \<open>The stat family\<close>

definition stat_zero :: stat where
  "stat_zero = \<lparr>st_dev = 0, st_ino = 0, st_nlink = 0, st_mode = 0, st_uid = 0, st_gid = 0, st_rdev = 0, st_size = 0,
     st_blksize = 0, st_blocks = 0, st_atime_sec = 0, st_atime_nsec = 0, st_mtime_sec = 0, st_mtime_nsec = 0,
     st_ctime_sec = 0, st_ctime_nsec = 0\<rparr>"

definition i64_div :: "u64 \<Rightarrow> int \<Rightarrow> u64" where
  "i64_div a b = of_int (if sint a < 0 then - ((- sint a) div b) else sint a div b)"

definition stat_of_node :: "nat \<Rightarrow> ('x, 'm, 'map, 'h) mach \<Rightarrow> (errno + stat) \<times> ('x, 'm, 'map, 'h) mach" where
  "stat_of_node node =
     and_then (in_vfs (vfs_node node)) (\<lambda>n s.
       let len = (case host_secret_for_node s node of None \<Rightarrow> node_size n | Some value \<Rightarrow> of_nat (length value))
       in (Inr (stat_zero\<lparr>st_dev := 1, st_ino := of_nat node + 1, st_nlink := nnlink n,
                  st_mode := file_type_bits n OR (nmode n AND 0xfff), st_size := len, st_blksize := 4096,
                  st_blocks := i64_div (len + 511) 512, st_atime_sec := nmtime n, st_mtime_sec := nmtime n,
                  st_ctime_sec := nmtime n\<rparr>), s))"

definition stat_anonymous :: "u64 \<Rightarrow> u32 \<Rightarrow> u64 \<Rightarrow> u64 \<Rightarrow> stat" where
  "stat_anonymous ino mode rdev blksize =
     stat_zero\<lparr>st_dev := 1, st_ino := ino, st_nlink := 1, st_mode := mode, st_rdev := rdev, st_blksize := blksize\<rparr>"

definition stat_of_fd :: "u64 \<Rightarrow> ('x, 'm, 'map, 'h) mach \<Rightarrow> (errno + stat) \<times> ('x, 'm, 'map, 'h) mach" where
  "stat_of_fd fd =
     and_then (\<lambda>s. (fd_description fd s, s)) (\<lambda>(_, d) s.
       let tty = stat_anonymous (- 1) (S_IFCHR OR 0x190) (push_bit 8 136) 1024;
           dev = stat_anonymous (- 2) (S_IFCHR OR 0x1b6) 0 4096;
           fifo = stat_anonymous (- 3) (S_IFIFO OR 0x180) 0 4096;
           anon = stat_anonymous (- 4) 0x180 0 4096
       in case d_backing d of
            BFile node \<Rightarrow> stat_of_node node s
          | BDir node _ \<Rightarrow> stat_of_node node s
          | BStd _ \<Rightarrow> (Inr tty, s)
          | BPtyMaster _ \<Rightarrow> (Inr tty, s)
          | BPtySlave _ \<Rightarrow> (Inr tty, s)
          | BDev v \<Rightarrow> (Inr (if v = DevTty then tty else dev), s)
          | BPipe _ _ \<Rightarrow> (Inr fifo, s)
          | BSocketPair _ _ \<Rightarrow> (Inr fifo, s)
          | BNet _ \<Rightarrow> (Inr fifo, s)
          | BEventFd _ \<Rightarrow> (Inr anon, s)
          | BTimerFd _ \<Rightarrow> (Inr anon, s)
          | BEpoll _ \<Rightarrow> (Inr anon, s)
          | BInotify _ \<Rightarrow> (Inr anon, s))"

definition put_result ::
  "('m, 'map, 'h) ops \<Rightarrow> u64 \<Rightarrow> bytes \<Rightarrow> ('x, 'm, 'map, 'h) mach \<Rightarrow> (errno + u64) \<times> ('x, 'm, 'map, 'h) mach" where
  "put_result ops buf bs = and_then (write_mem ops buf bs) (\<lambda>_. give (Inr 0))"

definition sys_fstat ::
  "('m, 'map, 'h) ops \<Rightarrow> u64 \<Rightarrow> u64 \<Rightarrow> ('x, 'm, 'map, 'h) mach \<Rightarrow> (errno + u64) \<times> ('x, 'm, 'map, 'h) mach" where
  "sys_fstat ops fd buf = and_then (stat_of_fd fd) (\<lambda>st. put_result ops buf (stat_encode st))"

definition sys_statpath ::
  "('m, 'map, 'h) ops \<Rightarrow> u64 \<Rightarrow> u64 \<Rightarrow> u64 \<Rightarrow> bool \<Rightarrow> ('x, 'm, 'map, 'h) mach \<Rightarrow> (errno + u64) \<times> ('x, 'm, 'map, 'h) mach" where
  "sys_statpath ops dirfd path_ptr buf follow =
     and_then (resolve_node ops dirfd path_ptr follow) (\<lambda>node.
     and_then (stat_of_node node) (\<lambda>st. put_result ops buf (stat_encode st)))"

definition sys_newfstatat ::
  "('m, 'map, 'h) ops \<Rightarrow> u64 \<Rightarrow> u64 \<Rightarrow> u64 \<Rightarrow> u64 \<Rightarrow> ('x, 'm, 'map, 'h) mach \<Rightarrow> (errno + u64) \<times> ('x, 'm, 'map, 'h) mach" where
  "sys_newfstatat ops dirfd path_ptr buf flags =
     and_then (read_cstr ops path_ptr) (\<lambda>path.
       if path = [] \<and> flags AND AT_EMPTY_PATH \<noteq> 0 then sys_fstat ops dirfd buf
       else sys_statpath ops dirfd path_ptr buf (flags AND AT_SYMLINK_NOFOLLOW = 0))"

definition statx_encode :: "stat \<Rightarrow> bytes" where
  "statx_encode st =
     (let out = replicate 256 0;
          out = put_at 0 (u32_to_le 0x7ff) out;
          out = put_at 4 (u32_to_le (ucast (st_blksize st))) out;
          out = put_at 16 (u32_to_le (ucast (st_nlink st))) out;
          out = put_at 20 (u32_to_le (st_uid st)) out;
          out = put_at 24 (u32_to_le (st_gid st)) out;
          out = put_at 28 (u16_to_le (ucast (st_mode st))) out;
          out = put_at 32 (u64_to_le (st_ino st)) out;
          out = put_at 40 (u64_to_le (st_size st)) out;
          out = put_at 48 (u64_to_le (st_blocks st)) out;
          out = put_at 72 (u32_to_le (ucast (st_atime_nsec st))) (put_at 64 (u64_to_le (st_atime_sec st)) out);
          out = put_at 104 (u32_to_le (ucast (st_ctime_nsec st))) (put_at 96 (u64_to_le (st_ctime_sec st)) out);
          out = put_at 120 (u32_to_le (ucast (st_mtime_nsec st))) (put_at 112 (u64_to_le (st_mtime_sec st)) out)
      in put_at 136 (u32_to_le 1) out)"

definition sys_statx ::
  "('m, 'map, 'h) ops \<Rightarrow> u64 \<Rightarrow> u64 \<Rightarrow> u64 \<Rightarrow> u64 \<Rightarrow> ('x, 'm, 'map, 'h) mach \<Rightarrow> (errno + u64) \<times> ('x, 'm, 'map, 'h) mach" where
  "sys_statx ops dirfd path_ptr flags buf =
     and_then (read_cstr ops path_ptr) (\<lambda>path.
     and_then
       (if path = [] \<and> flags AND AT_EMPTY_PATH \<noteq> 0 then stat_of_fd dirfd
        else and_then (\<lambda>s. (dir_of dirfd s, s)) (\<lambda>base.
             and_then (in_vfs (\<lambda>v. vfs_resolve v base path (flags AND AT_SYMLINK_NOFOLLOW = 0))) (\<lambda>r.
             and_then (give (ok_or ENOENT (res_node r))) stat_of_node)))
       (\<lambda>st. put_result ops buf (statx_encode st)))"

definition sys_faccessat ::
  "('m, 'map, 'h) ops \<Rightarrow> u64 \<Rightarrow> u64 \<Rightarrow> ('x, 'm, 'map, 'h) mach \<Rightarrow> (errno + u64) \<times> ('x, 'm, 'map, 'h) mach" where
  "sys_faccessat ops dirfd path_ptr = and_then (resolve_node ops dirfd path_ptr True) (\<lambda>_. give (Inr 0))"

definition link_target :: "nat \<Rightarrow> vfs \<Rightarrow> fault + bytes" where
  "link_target i v =
     (case node_at v i of
        None \<Rightarrow> Inl Panicked
      | Some n \<Rightarrow> (case nkind n of Symlink target \<Rightarrow> Inr (vdata target) | _ \<Rightarrow> Inl (Err EINVAL)))"

definition sys_readlinkat ::
  "('m, 'map, 'h) ops \<Rightarrow> u64 \<Rightarrow> u64 \<Rightarrow> u64 \<Rightarrow> u64 \<Rightarrow> ('x, 'm, 'map, 'h) mach \<Rightarrow> (errno + u64) \<times> ('x, 'm, 'map, 'h) mach" where
  "sys_readlinkat ops dirfd path_ptr buf room =
     and_then (read_cstr ops path_ptr) (\<lambda>path.
     and_then
       (if path = str ''/proc/self/exe'' then (\<lambda>s. (Inr (p_exe_path (e_proc s)), s))
        else and_then (\<lambda>s. (dir_of dirfd s, s)) (\<lambda>base.
             and_then (in_vfs (\<lambda>v. vfs_resolve v base path False)) (\<lambda>r.
             and_then (give (ok_or ENOENT (res_node r))) (\<lambda>node. in_vfs (link_target node)))))
       (\<lambda>target. let n = min (length target) (unat room)
         in and_then (write_mem ops buf (take n target)) (\<lambda>_. give (Inr (of_nat n)))))"

section \<open>Changes to directories\<close>

definition sys_mkdirat ::
  "('m, 'map, 'h) ops \<Rightarrow> u64 \<Rightarrow> u64 \<Rightarrow> u64 \<Rightarrow> ('x, 'm, 'map, 'h) mach \<Rightarrow> (errno + u64) \<times> ('x, 'm, 'map, 'h) mach" where
  "sys_mkdirat ops dirfd path_ptr mode =
     and_then (resolve_arg ops dirfd path_ptr True) (\<lambda>r s.
       if res_node r \<noteq> None then (Inl EEXIST, s)
       else and_then (on_vfs (vfs_create (res_parent r) (res_name r) (Dir []) (create_mode mode s))) (\<lambda>_. give (Inr 0)) s)"

definition was_directory :: "nat option \<Rightarrow> vfs \<Rightarrow> fault + bool" where
  "was_directory node v = (case node of None \<Rightarrow> Inr False | Some i \<Rightarrow> run_fault (vfs_is_dir v i))"

definition dir_bit :: "bool \<Rightarrow> u32" where
  "dir_bit was_dir = (if was_dir then IN_ISDIR else 0)"

definition notify_self :: "nat option \<Rightarrow> u32 \<Rightarrow> ('x, 'm, 'map, 'h) mach \<Rightarrow> ('x, 'm, 'map, 'h) mach" where
  "notify_self node msk s = (case node of None \<Rightarrow> s | Some i \<Rightarrow> notify_inotify i [] msk 0 s)"

definition sys_unlinkat ::
  "('m, 'map, 'h) ops \<Rightarrow> u64 \<Rightarrow> u64 \<Rightarrow> u64 \<Rightarrow> ('x, 'm, 'map, 'h) mach \<Rightarrow> (errno + u64) \<times> ('x, 'm, 'map, 'h) mach" where
  "sys_unlinkat ops dirfd path_ptr flags =
     and_then (resolve_arg ops dirfd path_ptr False) (\<lambda>r.
     and_then (in_vfs (was_directory (res_node r))) (\<lambda>was_dir.
     and_then (on_vfs (vfs_unlink (res_parent r) (res_name r) (flags AND AT_REMOVEDIR \<noteq> 0))) (\<lambda>_ s.
       (Inr 0, reclaim_unlinked
          (notify_self (res_node r) IN_DELETE_SELF
             (notify_inotify (res_parent r) (res_name r) (IN_DELETE OR dir_bit was_dir) 0 s))))))"

definition renamed ::
  "resolved \<Rightarrow> resolved \<Rightarrow> bool \<Rightarrow> ('x, 'm, 'map, 'h) mach \<Rightarrow> ('x, 'm, 'map, 'h) mach" where
  "renamed old new was_dir s =
     (let (cookie, s) = next_inotify_cookie (reclaim_unlinked s);
          s = notify_inotify (res_parent old) (res_name old) (IN_MOVED_FROM OR dir_bit was_dir) cookie s;
          s = notify_inotify (res_parent new) (res_name new) (IN_MOVED_TO OR dir_bit was_dir) cookie s
      in notify_self (res_node old) IN_MOVE_SELF s)"

definition sys_renameat ::
  "('m, 'map, 'h) ops \<Rightarrow> u64 \<Rightarrow> u64 \<Rightarrow> u64 \<Rightarrow> u64 \<Rightarrow> ('x, 'm, 'map, 'h) mach \<Rightarrow> (errno + u64) \<times> ('x, 'm, 'map, 'h) mach" where
  "sys_renameat ops old_dirfd old_ptr new_dirfd new_ptr =
     and_then (read_cstr ops old_ptr) (\<lambda>old_path.
     and_then (read_cstr ops new_ptr) (\<lambda>new_path.
     and_then (\<lambda>s. (dir_of old_dirfd s, s)) (\<lambda>old_base.
     and_then (\<lambda>s. (dir_of new_dirfd s, s)) (\<lambda>new_base.
     and_then (in_vfs (\<lambda>v. vfs_resolve v old_base old_path False)) (\<lambda>old.
     and_then (in_vfs (\<lambda>v. vfs_resolve v new_base new_path False)) (\<lambda>new.
     and_then (in_vfs (was_directory (res_node old))) (\<lambda>was_dir.
     and_then (on_vfs (vfs_rename (res_parent old) (res_name old) (res_parent new) (res_name new)))
       (\<lambda>_ s. (Inr 0, renamed old new was_dir s)))))))))"

definition sys_linkat ::
  "('m, 'map, 'h) ops \<Rightarrow> u64 \<Rightarrow> u64 \<Rightarrow> u64 \<Rightarrow> u64 \<Rightarrow> ('x, 'm, 'map, 'h) mach \<Rightarrow> (errno + u64) \<times> ('x, 'm, 'map, 'h) mach" where
  "sys_linkat ops old_dirfd old_ptr new_dirfd new_ptr =
     and_then (read_cstr ops old_ptr) (\<lambda>old_path.
     and_then (read_cstr ops new_ptr) (\<lambda>new_path.
     and_then (\<lambda>s. (dir_of old_dirfd s, s)) (\<lambda>old_base.
     and_then (\<lambda>s. (dir_of new_dirfd s, s)) (\<lambda>new_base.
     and_then (in_vfs (\<lambda>v. vfs_resolve v old_base old_path True)) (\<lambda>old.
     and_then (give (ok_or ENOENT (res_node old))) (\<lambda>node.
     and_then (in_vfs (\<lambda>v. run_fault (vfs_is_dir v node))) (\<lambda>is_directory.
     and_then (give (if is_directory then Inl EPERM else Inr ())) (\<lambda>_.
     and_then (in_vfs (\<lambda>v. vfs_resolve v new_base new_path False)) (\<lambda>new.
     and_then (give (if res_node new \<noteq> None then Inl EEXIST else Inr ())) (\<lambda>_.
     and_then (on_vfs (vfs_link (res_parent new) (res_name new) node)) (\<lambda>_. give (Inr 0))))))))))))"

definition sys_symlinkat ::
  "('m, 'map, 'h) ops \<Rightarrow> u64 \<Rightarrow> u64 \<Rightarrow> u64 \<Rightarrow> ('x, 'm, 'map, 'h) mach \<Rightarrow> (errno + u64) \<times> ('x, 'm, 'map, 'h) mach" where
  "sys_symlinkat ops target_ptr dirfd path_ptr =
     and_then (read_cstr ops target_ptr) (\<lambda>target.
     and_then (resolve_arg ops dirfd path_ptr False) (\<lambda>r s.
       if res_node r \<noteq> None then (Inl EEXIST, s)
       else and_then (on_vfs (vfs_create (res_parent r) (res_name r) (Symlink (vec_of target)) 0x1ff)) (\<lambda>_. give (Inr 0)) s))"

definition sys_chdir ::
  "('m, 'map, 'h) ops \<Rightarrow> u64 \<Rightarrow> ('x, 'm, 'map, 'h) mach \<Rightarrow> (errno + u64) \<times> ('x, 'm, 'map, 'h) mach" where
  "sys_chdir ops path_ptr =
     and_then (read_cstr ops path_ptr) (\<lambda>path s.
     and_then (in_vfs (\<lambda>v. vfs_resolve v (p_cwd (e_proc s)) path True)) (\<lambda>r.
     and_then (give (ok_or ENOENT (res_node r))) (\<lambda>node.
     and_then (in_vfs (\<lambda>v. run_fault (vfs_is_dir v node))) (\<lambda>is_directory s.
       if is_directory then (Inr 0, with_proc (\<lambda>p. p\<lparr>p_cwd := node\<rparr>) s) else (Inl ENOTDIR, s)))) s)"

definition sys_fchdir :: "u64 \<Rightarrow> ('x, 'm, 'map, 'h) mach \<Rightarrow> (errno + u64) \<times> ('x, 'm, 'map, 'h) mach" where
  "sys_fchdir fd =
     and_then (\<lambda>s. (fd_description fd s, s)) (\<lambda>(_, d) s.
       case d_backing d of BDir node _ \<Rightarrow> (Inr 0, with_proc (\<lambda>p. p\<lparr>p_cwd := node\<rparr>) s) | _ \<Rightarrow> (Inl ENOTDIR, s))"

text \<open>\<open>None\<close>: the climb to the root does not end.\<close>

definition sys_getcwd ::
  "('m, 'map, 'h) ops \<Rightarrow> u64 \<Rightarrow> u64 \<Rightarrow> ('x, 'm, 'map, 'h) mach \<Rightarrow> ((errno + u64) \<times> ('x, 'm, 'map, 'h) mach) option" where
  "sys_getcwd ops buf room s =
     (case abs_path_of (e_vfs s) (p_cwd (e_proc s)) of
        None \<Rightarrow> None
      | Some Panic \<Rightarrow> Some (Inl EFAULT, s\<lparr>e_panicked := True\<rparr>)
      | Some (Ret path) \<Rightarrow>
          Some (let path = path @ [0] in
                if unat room < length path then (Inl ERANGE, s)
                else and_then (write_mem ops buf path) (\<lambda>_. give (Inr (of_nat (length path)))) s))"

definition set_mode :: "nat \<Rightarrow> u64 \<Rightarrow> ('x, 'm, 'map, 'h) mach \<Rightarrow> (errno + u64) \<times> ('x, 'm, 'map, 'h) mach" where
  "set_mode node mode =
     and_then (on_vfs (vfs_node_mut node (\<lambda>n. n\<lparr>nmode := ucast mode AND 0xfff\<rparr>))) (\<lambda>_. give (Inr 0))"

definition sys_chmodat ::
  "('m, 'map, 'h) ops \<Rightarrow> u64 \<Rightarrow> u64 \<Rightarrow> u64 \<Rightarrow> ('x, 'm, 'map, 'h) mach \<Rightarrow> (errno + u64) \<times> ('x, 'm, 'map, 'h) mach" where
  "sys_chmodat ops dirfd path_ptr mode =
     and_then (resolve_node ops dirfd path_ptr True) (\<lambda>node. set_mode node mode)"

definition sys_fchmod :: "u64 \<Rightarrow> u64 \<Rightarrow> ('x, 'm, 'map, 'h) mach \<Rightarrow> (errno + u64) \<times> ('x, 'm, 'map, 'h) mach" where
  "sys_fchmod fd mode =
     and_then (\<lambda>s. (fd_description fd s, s)) (\<lambda>(_, d) s.
       case backing_node (d_backing d) of None \<Rightarrow> (Inr 0, s) | Some node \<Rightarrow> set_mode node mode s)"

definition UTIME_NOW :: u64 where "UTIME_NOW = 0x3fffffff"
definition UTIME_OMIT :: u64 where "UTIME_OMIT = 0x3ffffffe"

definition set_mtime :: "nat \<Rightarrow> u64 \<Rightarrow> ('x, 'm, 'map, 'h) mach \<Rightarrow> (errno + u64) \<times> ('x, 'm, 'map, 'h) mach" where
  "set_mtime node mtime = and_then (on_vfs (vfs_node_mut node (\<lambda>n. n\<lparr>nmtime := mtime\<rparr>))) (\<lambda>_. give (Inr 0))"

definition set_times ::
  "('m, 'map, 'h) ops \<Rightarrow> nat \<Rightarrow> u64 \<Rightarrow> ('x, 'm, 'map, 'h) mach \<Rightarrow> (errno + u64) \<times> ('x, 'm, 'map, 'h) mach" where
  "set_times ops node times_ptr s =
     (if times_ptr = 0 then set_mtime node (fst (now_real s)) s
      else and_then (read_mem ops (times_ptr + 16) 16) (\<lambda>bs s'.
             let sec = u64_of_le (take 8 bs); nsec = u64_of_le (drop 8 bs) in
             if nsec = UTIME_OMIT then (Inr 0, s')
             else set_mtime node (if nsec = UTIME_NOW then fst (now_real s) else sec) s') s)"

definition sys_utimensat ::
  "('m, 'map, 'h) ops \<Rightarrow> u64 \<Rightarrow> u64 \<Rightarrow> u64 \<Rightarrow> u64 \<Rightarrow> ('x, 'm, 'map, 'h) mach \<Rightarrow> (errno + u64) \<times> ('x, 'm, 'map, 'h) mach" where
  "sys_utimensat ops dirfd path_ptr times_ptr flags =
     (if path_ptr = 0
      then and_then (\<lambda>s. (fd_description dirfd s, s)) (\<lambda>(_, d) s.
             case backing_node (d_backing d) of None \<Rightarrow> (Inr 0, s) | Some node \<Rightarrow> set_times ops node times_ptr s)
      else and_then (resolve_node ops dirfd path_ptr (flags AND AT_SYMLINK_NOFOLLOW = 0)) (\<lambda>node. set_times ops node times_ptr))"

end
