(* ===== verification/ReadWrite.thy ===== *)
theory ReadWrite
  imports Files
begin

text \<open>
  Reading and writing through a descriptor: \<^verbatim>\<open>outcome_read\<close>, \<^verbatim>\<open>outcome_write\<close> and what they call in
  \<^verbatim>\<open>crates/linux-compat/src/syscall.rs\<close>, for files, pipes, event counters, timers, sockets and terminals,
  with positioned and vectored input and output and the suspension of a call for a chunk of a file that
  has not been delivered.

  \<^verbatim>\<open>read_backing\<close> and \<^verbatim>\<open>write_backing\<close> work on a description the caller holds; they return the description
  they leave, and the caller stores it. A cell that is missing from the heap, which no descriptor can
  name, reads as a bad descriptor.
\<close>

unbundle bit_operations_syntax

section \<open>Steps of a call that may block\<close>

definition or_return ::
  "('s \<Rightarrow> (errno + 'a) \<times> 's) \<Rightarrow> ('a \<Rightarrow> 's \<Rightarrow> outcome \<times> 's) \<Rightarrow> 's \<Rightarrow> outcome \<times> 's" where
  "or_return f k s = (case f s of (Inl e, s) \<Rightarrow> (ORet (Inl e), s) | (Inr x, s) \<Rightarrow> k x s)"

definition of_result :: "(errno + u64) \<times> 's \<Rightarrow> outcome \<times> 's" where
  "of_result r = (ORet (fst r), snd r)"

text \<open>The step every reader ends with: the bytes go to the guest and their number is the result.\<close>

definition deliver_bytes ::
  "('m, 'map, 'h) ops \<Rightarrow> u64 \<Rightarrow> bytes \<Rightarrow> u64 \<Rightarrow> ('x, 'm, 'map, 'h) mach \<Rightarrow> outcome \<times> ('x, 'm, 'map, 'h) mach" where
  "deliver_bytes ops buf bs n s = or_return (write_mem ops buf bs) (\<lambda>_ s. (ORet (Inr n), s)) s"

definition MAX_COUNT :: u64 where "MAX_COUNT = 0x400000"

definition guest_size :: "u64 \<Rightarrow> errno + nat" where
  "guest_size value = (if unat value \<le> usize_max then Inr (unat value) else Inl EFBIG)"

definition offset_into :: "u64 \<Rightarrow> nat \<Rightarrow> nat" where
  "offset_into offset len = (if len \<le> unat offset then len else unat offset)"

definition slice_at :: "u64 \<Rightarrow> nat \<Rightarrow> bytes \<Rightarrow> bytes" where
  "slice_at offset n bs =
     (let start = offset_into offset (length bs); stop = min (usize_sat_add start n) (length bs)
      in take (stop - start) (drop start bs))"

section \<open>Files\<close>

datatype read_error = RbErrno errno | RbMissing hash

definition read_file_at ::
  "nat \<Rightarrow> description \<Rightarrow> nat \<Rightarrow> ('x, 'm, 'map, 'h) mach \<Rightarrow> (read_error + bytes) \<times> ('x, 'm, 'map, 'h) mach" where
  "read_file_at node d buf_len s =
     (if is_host_secret_node s node
      then (case host_secret_for_node s node of
              None \<Rightarrow> (Inl (RbErrno EACCES), s)
            | Some secret \<Rightarrow> (Inr (slice_at (d_offset d) buf_len secret), s))
      else (case read_node_range (e_vfs s) node (d_offset d) buf_len of
              Inl (Err e) \<Rightarrow> (Inl (RbErrno e), s)
            | Inl Panicked \<Rightarrow> (Inl (RbErrno EFAULT), s\<lparr>e_panicked := True\<rparr>)
            | Inr (Ready bs) \<Rightarrow> (Inr bs, s)
            | Inr (Missing h) \<Rightarrow> (Inl (RbMissing h), s)
            | Inr (Invalid _ _ _) \<Rightarrow> (Inl (RbErrno EIO), s)))"

definition read_device :: "dev \<Rightarrow> nat \<Rightarrow> ('x, 'm, 'map, 'h) mach \<Rightarrow> bytes \<times> ('x, 'm, 'map, 'h) mach" where
  "read_device v buf_len s =
     (case v of DevZero \<Rightarrow> (replicate buf_len 0, s) | DevRandom \<Rightarrow> random_bytes buf_len s | _ \<Rightarrow> ([], s))"

definition read_backing ::
  "description \<Rightarrow> nat \<Rightarrow> ('x, 'm, 'map, 'h) mach \<Rightarrow> (read_error + bytes) \<times> description \<times> ('x, 'm, 'map, 'h) mach" where
  "read_backing d buf_len s =
     (case d_backing d of
        BStd stream \<Rightarrow> (if stream = StdIn then Inr [] else Inl (RbErrno EBADF), d, s)
      | BInotify i \<Rightarrow>
          (case kh_inotifies (e_heap s) i of
             None \<Rightarrow> (Inl (RbErrno EBADF), d, s)
           | Some inner \<Rightarrow>
               (case read_inotify buf_len inner of
                  (Inl e, inner) \<Rightarrow> (Inl (RbErrno e), d, with_heap (set_inotify i inner) s)
                | (Inr bs, inner) \<Rightarrow> (Inr bs, d, with_heap (set_inotify i inner) s)))
      | BFile node \<Rightarrow>
          (case read_file_at node d buf_len s of
             (Inl e, s) \<Rightarrow> (Inl e, d, s)
           | (Inr bs, s) \<Rightarrow> (Inr bs, d\<lparr>d_offset := d_offset d + of_nat (length bs)\<rparr>, s))
      | BDir _ _ \<Rightarrow> (Inl (RbErrno EISDIR), d, s)
      | BDev v \<Rightarrow> (let (bs, s) = read_device v buf_len s in (Inr bs, d, s))
      | _ \<Rightarrow> (Inl (RbErrno EINVAL), d, s))"

definition request_file_chunk :: "hash \<Rightarrow> ('x, 'm, 'map, 'h) mach \<Rightarrow> bool \<times> ('x, 'm, 'map, 'h) mach" where
  "request_file_chunk h s =
     (case e_file_chunk_wait s of
        Some (_, pending) \<Rightarrow> (pending = h, s)
      | None \<Rightarrow>
          let ticket = max (e_next_file_ticket s + 1) 1
          in (True, s\<lparr>e_next_file_ticket := ticket, e_file_chunk_wait := Some (ticket OR push_bit 63 1, h), e_page_in_wait := True\<rparr>))"

definition wait_for_file_chunk :: "hash \<Rightarrow> ('x, 'm, 'map, 'h) mach \<Rightarrow> outcome \<times> ('x, 'm, 'map, 'h) mach" where
  "wait_for_file_chunk h s =
     (case request_file_chunk h s of
        (False, s) \<Rightarrow> (ORet (Inl EIO), s)
      | (True, s) \<Rightarrow> (Exit Interrupted, with_cpu (\<lambda>c. c\<lparr>c_pending_exception := Some (c_exception c)\<rparr>) s))"

text \<open>\<open>None\<close>: the contents are at hand.\<close>

definition wait_to_materialize ::
  "nat \<Rightarrow> ('x, 'm, 'map, 'h) mach \<Rightarrow> (outcome \<times> ('x, 'm, 'map, 'h) mach) option" where
  "wait_to_materialize node s =
     (case first_missing_file_chunk (e_vfs s) node of
        Inr (Some h) \<Rightarrow> Some (wait_for_file_chunk h s)
      | Inr None \<Rightarrow> None
      | Inl (Err e) \<Rightarrow> Some (ORet (Inl e), s)
      | Inl Panicked \<Rightarrow> Some (ORet (Inl EFAULT), s\<lparr>e_panicked := True\<rparr>))"

definition ensure_guest_range ::
  "('m, 'map, 'h) ops \<Rightarrow> u64 \<Rightarrow> nat \<Rightarrow> access_kind \<Rightarrow> ('x, 'm, 'map, 'h) mach \<Rightarrow> outcome option \<times> ('x, 'm, 'map, 'h) mach" where
  "ensure_guest_range ops addr len access s =
     (case host_touch ops addr len access s of
        (Inr _, s) \<Rightarrow> (None, s)
      | (Inl e, s) \<Rightarrow> (Some (if e = PAGE_IN_RESTART then Exit Interrupted else ORet (Inl e)), s))"

text \<open>Bytes placed in a file's contents, which grow with zeros when they reach past the end.\<close>

definition write_into :: "(nat \<Rightarrow> bool) \<Rightarrow> nat \<Rightarrow> bytes \<Rightarrow> rvec \<Rightarrow> rvec option" where
  "write_into grants start bs data =
     (let stop = start + length bs; len = length (vdata data) in
      if len < stop
      then map_option (\<lambda>data. data\<lparr>vdata := put_at start bs (vdata data @ replicate (stop - len) 0)\<rparr>)
             (vec_try_reserve grants data (stop - len))
      else Some (data\<lparr>vdata := put_at start bs (vdata data)\<rparr>))"

definition write_node :: "(nat \<Rightarrow> bool) \<Rightarrow> nat \<Rightarrow> nat \<Rightarrow> bytes \<Rightarrow> vfs \<Rightarrow> (fault + unit) \<times> vfs" where
  "write_node grants node start bs v =
     (case materialize_file node v of
        (Inl e, v) \<Rightarrow> (Inl e, v)
      | (Inr data, v) \<Rightarrow>
          (case (if start + length bs > length (vdata data) then vfs_reserve v (start + length bs - length (vdata data)) else Inr ()) of
             Inl e \<Rightarrow> (Inl e, v)
           | Inr _ \<Rightarrow>
               (case write_into grants start bs data of
                  None \<Rightarrow> (Inl (Err ENOSPC), v)
                | Some data \<Rightarrow> (Inr (), set_kind node (File data) v))))"

definition file_length :: "nat \<Rightarrow> vfs \<Rightarrow> (fault + nat) \<times> vfs" where
  "file_length node v =
     (case materialize_file node v of (Inl e, v) \<Rightarrow> (Inl e, v) | (Inr data, v) \<Rightarrow> (Inr (length (vdata data)), v))"

definition write_file_at ::
  "('m, 'map, 'h) ops \<Rightarrow> nat \<Rightarrow> description \<Rightarrow> bytes \<Rightarrow> ('x, 'm, 'map, 'h) mach \<Rightarrow> (errno + u64) \<times> description \<times> ('x, 'm, 'map, 'h) mach" where
  "write_file_at ops node d bs s =
     (if is_host_secret_node s node then (Inl EPERM, d, s)
      else case on_vfs (file_length node) s of
          (Inl e, s) \<Rightarrow> (Inl e, d, s)
        | (Inr len, s) \<Rightarrow>
            let d = (if d_flags d AND O_APPEND \<noteq> 0 then d\<lparr>d_offset := of_nat len\<rparr> else d) in
            (case guest_size (d_offset d) of
               Inl e \<Rightarrow> (Inl e, d, s)
             | Inr start \<Rightarrow>
                 if start + length bs > usize_max then (Inl EFBIG, d, s)
                 else case on_vfs (write_node (op_grants ops) node start bs) s of
                     (Inl e, s) \<Rightarrow> (Inl e, d, s)
                   | (Inr _, s) \<Rightarrow>
                       (Inr (of_nat (length bs)), d\<lparr>d_offset := of_nat (start + length bs)\<rparr>, notify_inotify node [] IN_MODIFY 0 s)))"

definition write_backing ::
  "('m, 'map, 'h) ops \<Rightarrow> description \<Rightarrow> bytes \<Rightarrow> ('x, 'm, 'map, 'h) mach \<Rightarrow> (errno + u64) \<times> description \<times> ('x, 'm, 'map, 'h) mach" where
  "write_backing ops d bs s =
     (if \<not> writable d then (Inl EBADF, d, s)
      else case d_backing d of
          BStd stream \<Rightarrow>
            if stream = StdIn then (Inl EBADF, d, s) else (Inr (of_nat (length bs)), d, s\<lparr>e_output := e_output s @ bs\<rparr>)
        | BInotify _ \<Rightarrow> (Inl EBADF, d, s)
        | BDev v \<Rightarrow> (Inr (of_nat (length bs)), d, if v = DevTty then s\<lparr>e_output := e_output s @ bs\<rparr> else s)
        | BFile node \<Rightarrow> write_file_at ops node d bs s
        | BDir _ _ \<Rightarrow> (Inl EISDIR, d, s)
        | _ \<Rightarrow> (Inl EINVAL, d, s))"

definition sys_read ::
  "('m, 'map, 'h) ops \<Rightarrow> u64 \<Rightarrow> u64 \<Rightarrow> u64 \<Rightarrow> ('x, 'm, 'map, 'h) mach \<Rightarrow> outcome \<times> ('x, 'm, 'map, 'h) mach" where
  "sys_read ops fd buf count_arg =
     or_return (\<lambda>s. (fd_description fd s, s)) (\<lambda>(i, d) s.
       if \<not> readable d then (ORet (Inl EBADF), s)
       else case read_backing d (unat (min count_arg MAX_COUNT)) s of
           (Inr chunk, d, s) \<Rightarrow> deliver_bytes ops buf chunk (of_nat (length chunk)) (set_description i d s)
         | (Inl (RbErrno e), d, s) \<Rightarrow> (ORet (Inl e), set_description i d s)
         | (Inl (RbMissing h), d, s) \<Rightarrow> wait_for_file_chunk h (set_description i d s))"

text \<open>A file read at a position: the description keeps its offset.\<close>

definition sys_pread ::
  "('m, 'map, 'h) ops \<Rightarrow> u64 \<Rightarrow> u64 \<Rightarrow> u64 \<Rightarrow> u64 \<Rightarrow> ('x, 'm, 'map, 'h) mach \<Rightarrow> outcome \<times> ('x, 'm, 'map, 'h) mach" where
  "sys_pread ops fd buf count_arg pos s =
     (case ensure_guest_range ops buf (unat (min count_arg MAX_COUNT)) AccWrite s of
        (Some r, s) \<Rightarrow> (r, s)
      | (None, s) \<Rightarrow>
          or_return (\<lambda>s. (fd_description fd s, s)) (\<lambda>(i, d) s.
            case d_backing d of
              BFile node \<Rightarrow>
                (case read_backing (d\<lparr>d_offset := pos\<rparr>) (unat (min count_arg MAX_COUNT)) s of
                   (Inr chunk, _, s) \<Rightarrow> deliver_bytes ops buf chunk (of_nat (length chunk)) s
                 | (Inl (RbErrno e), _, s) \<Rightarrow> (ORet (Inl e), s)
                 | (Inl (RbMissing h), _, s) \<Rightarrow> wait_for_file_chunk h s)
            | _ \<Rightarrow> (ORet (Inl ESPIPE), s)) s)"

definition write_with ::
  "('m, 'map, 'h) ops \<Rightarrow> nat \<Rightarrow> description \<Rightarrow> (description \<Rightarrow> description) \<Rightarrow> u64 \<Rightarrow> nat \<Rightarrow> ('x, 'm, 'map, 'h) mach \<Rightarrow> outcome \<times> ('x, 'm, 'map, 'h) mach" where
  "write_with ops i d keep buf n =
     or_return (read_mem ops buf n) (\<lambda>bs s.
       case write_backing ops d bs s of (r, d, s) \<Rightarrow> (ORet r, set_description i (keep d) s))"

definition sys_pwrite ::
  "('m, 'map, 'h) ops \<Rightarrow> u64 \<Rightarrow> u64 \<Rightarrow> u64 \<Rightarrow> u64 \<Rightarrow> ('x, 'm, 'map, 'h) mach \<Rightarrow> outcome \<times> ('x, 'm, 'map, 'h) mach" where
  "sys_pwrite ops fd buf count_arg pos =
     or_return (\<lambda>s. (fd_description fd s, s)) (\<lambda>(i, d) s.
       case d_backing d of
         BFile node \<Rightarrow>
           (case wait_to_materialize node s of
              Some r \<Rightarrow> r
            | None \<Rightarrow>
                (case ensure_guest_range ops buf (unat (min count_arg MAX_COUNT)) AccRead s of
                   (Some r, s) \<Rightarrow> (r, s)
                 | (None, s) \<Rightarrow>
                     write_with ops i (d\<lparr>d_offset := pos\<rparr>) (\<lambda>d'. d'\<lparr>d_offset := d_offset d\<rparr>) buf (unat (min count_arg MAX_COUNT)) s))
       | _ \<Rightarrow> (ORet (Inl ESPIPE), s))"

definition sys_write ::
  "('m, 'map, 'h) ops \<Rightarrow> u64 \<Rightarrow> u64 \<Rightarrow> u64 \<Rightarrow> ('x, 'm, 'map, 'h) mach \<Rightarrow> outcome \<times> ('x, 'm, 'map, 'h) mach" where
  "sys_write ops fd buf count_arg s =
     (let n = unat (min count_arg MAX_COUNT) in
      case ensure_guest_range ops buf n AccRead s of
        (Some r, s) \<Rightarrow> (r, s)
      | (None, s) \<Rightarrow>
          or_return (\<lambda>s. (fd_description fd s, s)) (\<lambda>(i, d) s.
            case (case d_backing d of BFile node \<Rightarrow> wait_to_materialize node s | _ \<Rightarrow> None) of
              Some r \<Rightarrow> r
            | None \<Rightarrow> write_with ops i d (\<lambda>d. d) buf n s) s)"

definition truncate_node :: "(nat \<Rightarrow> bool) \<Rightarrow> nat \<Rightarrow> nat \<Rightarrow> vfs \<Rightarrow> (fault + unit) \<times> vfs" where
  "truncate_node grants node len v =
     (case materialize_file node v of
        (Inl e, v) \<Rightarrow> (Inl e, v)
      | (Inr data, v) \<Rightarrow>
          let old = length (vdata data) in
          if len > old
          then (case vfs_reserve v (len - old) of
                  Inl e \<Rightarrow> (Inl e, v)
                | Inr _ \<Rightarrow>
                    (case vec_try_reserve grants data (len - old) of
                       None \<Rightarrow> (Inl (Err ENOSPC), v)
                     | Some data \<Rightarrow> (Inr (), set_kind node (File (vec_extend data (replicate (len - old) 0))) v)))
          else (Inr (), set_kind node (File (data\<lparr>vdata := take len (vdata data)\<rparr>)) v))"

definition MAX_LEN :: u64 where "MAX_LEN = 0x40000000"

definition sys_ftruncate ::
  "('m, 'map, 'h) ops \<Rightarrow> u64 \<Rightarrow> u64 \<Rightarrow> ('x, 'm, 'map, 'h) mach \<Rightarrow> outcome \<times> ('x, 'm, 'map, 'h) mach" where
  "sys_ftruncate ops fd len s =
     (if len > MAX_LEN then (ORet (Inl EFBIG), s)
      else or_return (\<lambda>s. (fd_description fd s, s)) (\<lambda>(i, d) s.
        if d_flags d AND O_ACCMODE = O_RDONLY then (ORet (Inl EINVAL), s)
        else case d_backing d of
            BFile node \<Rightarrow>
              if is_host_secret_node s node then (ORet (Inl EPERM), s)
              else (case wait_to_materialize node s of
                      Some r \<Rightarrow> r
                    | None \<Rightarrow>
                        of_result (and_then (on_vfs (file_length node)) (\<lambda>_.
                                   and_then (give (guest_size len)) (\<lambda>n.
                                   and_then (on_vfs (truncate_node (op_grants ops) node n)) (\<lambda>_. give (Inr 0)))) s))
          | _ \<Rightarrow> (ORet (Inl EINVAL), s)) s)"

section \<open>Reading from what can block\<close>

datatype io_kind = KPlain | KPipe nat | KEvent nat | KTimer nat | KNet nat | KPty nat bool

definition read_kind :: "backing \<Rightarrow> errno + io_kind" where
  "read_kind b =
     (case b of
        BPipe p write_end \<Rightarrow> if write_end then Inl EBADF else Inr (KPipe p)
      | BSocketPair rx _ \<Rightarrow> Inr (KPipe rx)
      | BEventFd i \<Rightarrow> Inr (KEvent i)
      | BTimerFd i \<Rightarrow> Inr (KTimer i)
      | BNet i \<Rightarrow> Inr (KNet i)
      | BPtyMaster i \<Rightarrow> Inr (KPty i True)
      | BPtySlave i \<Rightarrow> Inr (KPty i False)
      | BEpoll _ \<Rightarrow> Inl EINVAL
      | _ \<Rightarrow> Inr KPlain)"

definition would_block ::
  "('m, 'map, 'h) ops \<Rightarrow> bool \<Rightarrow> watch \<Rightarrow> ('x, 'm, 'map, 'h) mach \<Rightarrow> outcome \<times> ('x, 'm, 'map, 'h) mach" where
  "would_block ops nonblock w s =
     (if nonblock then (ORet (Inl EAGAIN), s) else block_and_switch ops (PsWaiting [w] None) True s)"

text \<open>What a reader takes from a queue of bytes.\<close>

definition take_len :: "u64 \<Rightarrow> nat \<Rightarrow> nat" where
  "take_len count_arg available = min (min (unat count_arg) available) (unat MAX_COUNT)"

definition read_pipe ::
  "('m, 'map, 'h) ops \<Rightarrow> bool \<Rightarrow> nat \<Rightarrow> u64 \<Rightarrow> u64 \<Rightarrow> ('x, 'm, 'map, 'h) mach \<Rightarrow> outcome \<times> ('x, 'm, 'map, 'h) mach" where
  "read_pipe ops nonblock p buf count_arg s =
     (case kh_pipes (e_heap s) p of
        None \<Rightarrow> (ORet (Inl EBADF), s)
      | Some inner \<Rightarrow>
          if pi_data inner = []
          then (if pi_writers inner = 0 then (ORet (Inr 0), s) else would_block ops nonblock (WPipeReadable p) s)
          else let n = take_len count_arg (length (pi_data inner)); chunk = take n (pi_data inner);
                   inner = inner\<lparr>pi_data := drop n (pi_data inner), pi_activity := pi_activity inner + 1\<rparr>
               in deliver_bytes ops buf chunk (of_nat (length chunk)) (with_heap (\<lambda>h. h\<lparr>kh_pipes := (kh_pipes h)(p \<mapsto> inner)\<rparr>) s))"

definition take_event :: "eventfd_inner \<Rightarrow> u64 \<times> eventfd_inner" where
  "take_event ev =
     (let ev' = ev\<lparr>ev_activity := ev_activity ev + 1\<rparr>
      in if ev_semaphore ev then (1, ev'\<lparr>ev_count := ev_count ev - 1\<rparr>) else (ev_count ev, ev'\<lparr>ev_count := 0\<rparr>))"

definition read_event ::
  "('m, 'map, 'h) ops \<Rightarrow> bool \<Rightarrow> nat \<Rightarrow> u64 \<Rightarrow> u64 \<Rightarrow> ('x, 'm, 'map, 'h) mach \<Rightarrow> outcome \<times> ('x, 'm, 'map, 'h) mach" where
  "read_event ops nonblock i buf count_arg s =
     (if count_arg < 8 then (ORet (Inl EINVAL), s)
      else case kh_events (e_heap s) i of
          None \<Rightarrow> (ORet (Inl EBADF), s)
        | Some ev \<Rightarrow>
            if ev_count ev = 0 then would_block ops nonblock (WEvent i) s
            else let (v, ev) = take_event ev
                 in deliver_bytes ops buf (u64_to_le v) 8 (with_heap (\<lambda>h. h\<lparr>kh_events := (kh_events h)(i \<mapsto> ev)\<rparr>) s))"

text \<open>The expirations a timer owes at a time, and the timer after they are read; \<open>None\<close> when it owes none.\<close>

definition timer_fire :: "u64 \<Rightarrow> timerfd_inner \<Rightarrow> (u64 \<times> timerfd_inner) option" where
  "timer_fire time tf =
     (case tf_next_expiry tf of
        None \<Rightarrow> None
      | Some expiry \<Rightarrow>
          if time < expiry then None
          else if tf_interval tf = 0 then Some (1, tf\<lparr>tf_next_expiry := None\<rparr>)
          else let n = saturating_add ((time - expiry) div tf_interval tf) 1
               in Some (n, tf\<lparr>tf_next_expiry := Some (saturating_add expiry (saturating_mul n (tf_interval tf)))\<rparr>))"

definition read_timer ::
  "('m, 'map, 'h) ops \<Rightarrow> bool \<Rightarrow> nat \<Rightarrow> u64 \<Rightarrow> u64 \<Rightarrow> ('x, 'm, 'map, 'h) mach \<Rightarrow> outcome \<times> ('x, 'm, 'map, 'h) mach" where
  "read_timer ops nonblock i buf count_arg s =
     (if count_arg < 8 then (ORet (Inl EINVAL), s)
      else case kh_timers (e_heap s) i of
          None \<Rightarrow> (ORet (Inl EBADF), s)
        | Some tf \<Rightarrow>
            (case timer_fire (now_nanos s) tf of
               None \<Rightarrow> would_block ops nonblock (WTimer i) s
             | Some (n, tf) \<Rightarrow>
                 deliver_bytes ops buf (u64_to_le n) 8 (with_heap (\<lambda>h. h\<lparr>kh_timers := (kh_timers h)(i \<mapsto> tf)\<rparr>) s)))"

definition net_receive ::
  "('m, 'map, 'h) ops \<Rightarrow> net_socket \<Rightarrow> u64 \<Rightarrow> nat \<Rightarrow> 'h \<Rightarrow> (errno + recv_outcome) \<times> 'h" where
  "net_receive ops socket handle n host =
     (case ns_kind socket of
        TcpSocket \<Rightarrow> op_tcp_recv ops (ns_broker socket) handle n host
      | UdpSocket \<Rightarrow>
          (case op_udp_recv_from ops (ns_broker socket) handle n host of
             (Inl e, host) \<Rightarrow> (Inl e, host)
           | (Inr None, host) \<Rightarrow> (Inr RcvWouldBlock, host)
           | (Inr (Some (bs, _)), host) \<Rightarrow> (Inr (RcvData bs), host)))"

definition socket_active :: "net_socket \<Rightarrow> net_socket" where
  "socket_active socket = socket\<lparr>ns_activity := ns_activity socket + 1\<rparr>"

definition touch_socket :: "nat \<Rightarrow> ('x, 'm, 'map, 'h) mach \<Rightarrow> ('x, 'm, 'map, 'h) mach" where
  "touch_socket i s = with_heap (\<lambda>h. h\<lparr>kh_nets := at_cell socket_active i (kh_nets h)\<rparr>) s"

definition read_net ::
  "('m, 'map, 'h) ops \<Rightarrow> bool \<Rightarrow> nat \<Rightarrow> u64 \<Rightarrow> u64 \<Rightarrow> ('x, 'm, 'map, 'h) mach \<Rightarrow> outcome \<times> ('x, 'm, 'map, 'h) mach" where
  "read_net ops nonblock i buf count_arg s =
     (case kh_nets (e_heap s) i of
        None \<Rightarrow> (ORet (Inl EBADF), s)
      | Some socket \<Rightarrow>
          (case ns_handle socket of
             None \<Rightarrow> (ORet (Inl ENOTCONN), s)
           | Some handle \<Rightarrow>
               (case net_receive ops socket handle (unat count_arg) (e_host s) of
                  (Inl e, host) \<Rightarrow> (ORet (Inl e), s\<lparr>e_host := host\<rparr>)
                | (Inr RcvClosed, host) \<Rightarrow> (ORet (Inr 0), s\<lparr>e_host := host\<rparr>)
                | (Inr RcvWouldBlock, host) \<Rightarrow> would_block ops nonblock (WNetReadable i) (s\<lparr>e_host := host\<rparr>)
                | (Inr (RcvData bs), host) \<Rightarrow>
                    deliver_bytes ops buf bs (of_nat (length bs)) (touch_socket i (s\<lparr>e_host := host\<rparr>)))))"

definition pty_queue :: "bool \<Rightarrow> pty \<Rightarrow> bytes" where
  "pty_queue master p = (if master then pt_s2m p else pt_m2s p)"

definition pty_eof :: "bool \<Rightarrow> pty \<Rightarrow> bool" where
  "pty_eof master p = (if master then pt_slave_ever_opened p \<and> pt_slaves p = 0 else pt_masters p = 0)"

definition pty_drain :: "bool \<Rightarrow> nat \<Rightarrow> pty \<Rightarrow> pty" where
  "pty_drain master n p =
     (let p = p\<lparr>pt_activity := pt_activity p + 1\<rparr>
      in if master then p\<lparr>pt_s2m := drop n (pt_s2m p)\<rparr> else p\<lparr>pt_m2s := drop n (pt_m2s p)\<rparr>)"

definition read_pty_queue ::
  "('m, 'map, 'h) ops \<Rightarrow> bool \<Rightarrow> nat \<Rightarrow> bool \<Rightarrow> u64 \<Rightarrow> u64 \<Rightarrow> ('x, 'm, 'map, 'h) mach \<Rightarrow> outcome \<times> ('x, 'm, 'map, 'h) mach" where
  "read_pty_queue ops nonblock i master buf count_arg s =
     (case kh_ptys (e_heap s) i of
        None \<Rightarrow> (ORet (Inl EBADF), s)
      | Some p \<Rightarrow>
          if pty_queue master p = []
          then (if pty_eof master p then (ORet (Inr 0), s) else would_block ops nonblock (WPtyReadable i master) s)
          else let n = take_len count_arg (length (pty_queue master p)); chunk = take n (pty_queue master p)
               in deliver_bytes ops buf chunk (of_nat (length chunk))
                    (with_heap (\<lambda>h. h\<lparr>kh_ptys := (kh_ptys h)(i \<mapsto> pty_drain master n p)\<rparr>) s))"

definition read_pty ::
  "('m, 'map, 'h) ops \<Rightarrow> bool \<Rightarrow> nat \<Rightarrow> bool \<Rightarrow> u64 \<Rightarrow> u64 \<Rightarrow> ('x, 'm, 'map, 'h) mach \<Rightarrow> outcome \<times> ('x, 'm, 'map, 'h) mach" where
  "read_pty ops nonblock i master buf count_arg s =
     (case (if master then None else background_tty_access ops i SIGTTIN s) of
        Some r \<Rightarrow> r
      | None \<Rightarrow> read_pty_queue ops nonblock i master buf count_arg s)"

definition nonblocking :: "description \<Rightarrow> bool" where
  "nonblocking d \<longleftrightarrow> d_flags d AND O_NONBLOCK \<noteq> 0"

definition read_as ::
  "('m, 'map, 'h) ops \<Rightarrow> io_kind \<Rightarrow> bool \<Rightarrow> u64 \<Rightarrow> u64 \<Rightarrow> u64 \<Rightarrow> ('x, 'm, 'map, 'h) mach \<Rightarrow> outcome \<times> ('x, 'm, 'map, 'h) mach" where
  "read_as ops kind nonblock fd buf count_arg s =
     (case kind of
        KPlain \<Rightarrow> sys_read ops fd buf count_arg s
      | KPipe p \<Rightarrow> read_pipe ops nonblock p buf count_arg s
      | KEvent i \<Rightarrow> read_event ops nonblock i buf count_arg s
      | KTimer i \<Rightarrow> read_timer ops nonblock i buf count_arg s
      | KNet i \<Rightarrow> read_net ops nonblock i buf count_arg s
      | KPty i master \<Rightarrow> read_pty ops nonblock i master buf count_arg s)"

definition outcome_read ::
  "('m, 'map, 'h) ops \<Rightarrow> u64 \<Rightarrow> u64 \<Rightarrow> u64 \<Rightarrow> ('x, 'm, 'map, 'h) mach \<Rightarrow> outcome \<times> ('x, 'm, 'map, 'h) mach" where
  "outcome_read ops fd buf count_arg =
     or_return (\<lambda>s. (fd_description fd s, s)) (\<lambda>(_, d) s.
       if \<not> readable d then (ORet (Inl EBADF), s)
       else case read_kind (d_backing d) of
           Inl e \<Rightarrow> (ORet (Inl e), s)
         | Inr kind \<Rightarrow>
             (case ensure_guest_range ops buf (unat (min count_arg MAX_COUNT)) AccWrite s of
                (Some r, s) \<Rightarrow> (r, s)
              | (None, s) \<Rightarrow> read_as ops kind (nonblocking d) fd buf count_arg s))"

section \<open>Writing to what can block\<close>

definition write_kind :: "backing \<Rightarrow> errno + io_kind" where
  "write_kind b =
     (case b of
        BPipe p write_end \<Rightarrow> if write_end then Inr (KPipe p) else Inl EBADF
      | BSocketPair _ tx \<Rightarrow> Inr (KPipe tx)
      | BEventFd i \<Rightarrow> Inr (KEvent i)
      | BTimerFd _ \<Rightarrow> Inl EINVAL
      | BEpoll _ \<Rightarrow> Inl EINVAL
      | BNet i \<Rightarrow> Inr (KNet i)
      | BPtyMaster i \<Rightarrow> Inr (KPty i True)
      | BPtySlave i \<Rightarrow> Inr (KPty i False)
      | _ \<Rightarrow> Inr KPlain)"

definition pipe_push :: "bytes \<Rightarrow> pipe_inner \<Rightarrow> pipe_inner" where
  "pipe_push bs p = p\<lparr>pi_data := pi_data p @ bs, pi_activity := pi_activity p + 1\<rparr>"

definition write_pipe ::
  "('m, 'map, 'h) ops \<Rightarrow> bool \<Rightarrow> nat \<Rightarrow> u64 \<Rightarrow> u64 \<Rightarrow> ('x, 'm, 'map, 'h) mach \<Rightarrow> outcome \<times> ('x, 'm, 'map, 'h) mach" where
  "write_pipe ops nonblock p buf count_arg s =
     (case kh_pipes (e_heap s) p of
        None \<Rightarrow> (ORet (Inl EBADF), s)
      | Some inner \<Rightarrow>
          if pi_readers inner = 0 then (ORet (Inl EPIPE), s)
          else let room = PIPE_CAPACITY - length (pi_data inner) in
            if room = 0 then would_block ops nonblock (WPipeWritable p) s
            else let n = take_len count_arg room in
              or_return (read_mem ops buf n) (\<lambda>bs s.
                (ORet (Inr (of_nat n)), with_heap (\<lambda>h. h\<lparr>kh_pipes := at_cell (pipe_push bs) p (kh_pipes h)\<rparr>) s)) s)"

definition event_add :: "u64 \<Rightarrow> eventfd_inner \<Rightarrow> eventfd_inner" where
  "event_add v ev = ev\<lparr>ev_count := saturating_add (ev_count ev) v, ev_activity := ev_activity ev + 1\<rparr>"

definition write_event ::
  "('m, 'map, 'h) ops \<Rightarrow> nat \<Rightarrow> u64 \<Rightarrow> u64 \<Rightarrow> ('x, 'm, 'map, 'h) mach \<Rightarrow> outcome \<times> ('x, 'm, 'map, 'h) mach" where
  "write_event ops i buf count_arg s =
     (if count_arg < 8 then (ORet (Inl EINVAL), s)
      else or_return (read_mem ops buf 8) (\<lambda>bs s.
        (ORet (Inr 8), with_heap (\<lambda>h. h\<lparr>kh_events := at_cell (event_add (u64_of_le bs)) i (kh_events h)\<rparr>) s)) s)"

definition net_send ::
  "('m, 'map, 'h) ops \<Rightarrow> net_socket \<Rightarrow> u64 \<Rightarrow> bytes \<Rightarrow> 'h \<Rightarrow> (errno + nat) \<times> 'h" where
  "net_send ops socket handle bs host =
     (case ns_kind socket of
        TcpSocket \<Rightarrow> op_tcp_send ops (ns_broker socket) handle bs host
      | UdpSocket \<Rightarrow>
          (case ns_peer socket of
             None \<Rightarrow> (Inl EDESTADDRREQ, host)
           | Some peer \<Rightarrow> op_udp_send_to ops (ns_broker socket) handle peer bs host))"

definition write_net ::
  "('m, 'map, 'h) ops \<Rightarrow> nat \<Rightarrow> u64 \<Rightarrow> u64 \<Rightarrow> ('x, 'm, 'map, 'h) mach \<Rightarrow> outcome \<times> ('x, 'm, 'map, 'h) mach" where
  "write_net ops i buf count_arg =
     or_return (read_mem ops buf (unat (min count_arg MAX_COUNT))) (\<lambda>bs s.
       case kh_nets (e_heap s) i of
         None \<Rightarrow> (ORet (Inl EBADF), s)
       | Some socket \<Rightarrow>
           (case ns_handle socket of
              None \<Rightarrow> (ORet (Inl ENOTCONN), s)
            | Some handle \<Rightarrow>
                (case net_send ops socket handle bs (e_host s) of
                   (Inl e, host) \<Rightarrow> (ORet (Inl e), s\<lparr>e_host := host\<rparr>)
                 | (Inr n, host) \<Rightarrow> (ORet (Inr (of_nat n)), touch_socket i (s\<lparr>e_host := host\<rparr>)))))"

definition pty_output :: "bytes \<Rightarrow> pty \<Rightarrow> pty" where
  "pty_output bs p =
     p\<lparr>pt_s2m := pt_s2m p @ (if onlcr p then concat (map (\<lambda>b. if b = 10 then [13, 10] else [b]) bs) else bs),
       pt_activity := pt_activity p + 1\<rparr>"

definition write_pty_bytes ::
  "nat \<Rightarrow> bool \<Rightarrow> bytes \<Rightarrow> ('x, 'm, 'map, 'h) mach \<Rightarrow> outcome \<times> ('x, 'm, 'map, 'h) mach" where
  "write_pty_bytes i master bs s =
     (case kh_ptys (e_heap s) i of
        None \<Rightarrow> (ORet (Inl EBADF), s)
      | Some p \<Rightarrow>
          if master
          then let (signal, p') = feed_input bs p; s = with_heap (\<lambda>h. h\<lparr>kh_ptys := (kh_ptys h)(i \<mapsto> p')\<rparr>) s
               in (ORet (Inr (of_nat (length bs))),
                   case signal of None \<Rightarrow> s | Some sig \<Rightarrow> deliver_signal_to_pgrp (pt_fg_pgrp p') sig s)
          else (ORet (Inr (of_nat (length bs))), with_heap (\<lambda>h. h\<lparr>kh_ptys := (kh_ptys h)(i \<mapsto> pty_output bs p)\<rparr>) s))"

definition asks_tostop :: "nat \<Rightarrow> ('x, 'm, 'map, 'h) mach \<Rightarrow> bool" where
  "asks_tostop i s = (case kh_ptys (e_heap s) i of None \<Rightarrow> False | Some p \<Rightarrow> tostop p)"

definition write_pty ::
  "('m, 'map, 'h) ops \<Rightarrow> nat \<Rightarrow> bool \<Rightarrow> u64 \<Rightarrow> u64 \<Rightarrow> ('x, 'm, 'map, 'h) mach \<Rightarrow> outcome \<times> ('x, 'm, 'map, 'h) mach" where
  "write_pty ops i master buf count_arg =
     or_return (read_mem ops buf (unat (min count_arg MAX_COUNT))) (\<lambda>bs s.
       case (if \<not> master \<and> asks_tostop i s then background_tty_access ops i SIGTTOU s else None) of
         Some r \<Rightarrow> r
       | None \<Rightarrow> write_pty_bytes i master bs s)"

definition write_as ::
  "('m, 'map, 'h) ops \<Rightarrow> io_kind \<Rightarrow> bool \<Rightarrow> u64 \<Rightarrow> u64 \<Rightarrow> u64 \<Rightarrow> ('x, 'm, 'map, 'h) mach \<Rightarrow> outcome \<times> ('x, 'm, 'map, 'h) mach" where
  "write_as ops kind nonblock fd buf count_arg s =
     (case kind of
        KPipe p \<Rightarrow> write_pipe ops nonblock p buf count_arg s
      | KEvent i \<Rightarrow> write_event ops i buf count_arg s
      | KNet i \<Rightarrow> write_net ops i buf count_arg s
      | KPty i master \<Rightarrow> write_pty ops i master buf count_arg s
      | _ \<Rightarrow> sys_write ops fd buf count_arg s)"

definition outcome_write ::
  "('m, 'map, 'h) ops \<Rightarrow> u64 \<Rightarrow> u64 \<Rightarrow> u64 \<Rightarrow> ('x, 'm, 'map, 'h) mach \<Rightarrow> outcome \<times> ('x, 'm, 'map, 'h) mach" where
  "outcome_write ops fd buf count_arg =
     or_return (\<lambda>s. (fd_description fd s, s)) (\<lambda>(_, d) s.
       if \<not> writable d then (ORet (Inl EBADF), s)
       else case write_kind (d_backing d) of
           Inl e \<Rightarrow> (ORet (Inl e), s)
         | Inr kind \<Rightarrow> write_as ops kind (nonblocking d) fd buf count_arg s)"

section \<open>Vectored calls\<close>

definition iov_entries :: "bytes \<Rightarrow> (u64 \<times> u64) list" where
  "iov_entries raw =
     map (\<lambda>k. (u64_of_le (take 8 (drop (16 * k) raw)), u64_of_le (take 8 (drop (16 * k + 8) raw)))) [0 ..< length raw div 16]"

definition iter_iov ::
  "('m, 'map, 'h) ops \<Rightarrow> u64 \<Rightarrow> u64 \<Rightarrow> ('x, 'm, 'map, 'h) mach \<Rightarrow> (errno + (u64 \<times> u64) list) \<times> ('x, 'm, 'map, 'h) mach" where
  "iter_iov ops iov iovcnt =
     and_then (read_mem ops iov (unat (min iovcnt 1024 * 16))) (\<lambda>raw. give (Inr (iov_entries raw)))"

definition outcome_vectored ::
  "('m, 'map, 'h) ops \<Rightarrow> u64 \<Rightarrow> u64 \<Rightarrow> u64 \<Rightarrow> bool \<Rightarrow> ('x, 'm, 'map, 'h) mach \<Rightarrow> outcome \<times> ('x, 'm, 'map, 'h) mach" where
  "outcome_vectored ops fd iov iovcnt write =
     or_return (iter_iov ops iov iovcnt) (\<lambda>entries s.
       case find (\<lambda>(_, len). len \<noteq> 0) entries of
         None \<Rightarrow> (ORet (Inr 0), s)
       | Some (base, len) \<Rightarrow> if write then outcome_write ops fd base len s else outcome_read ops fd base len s)"

end
