(* ===== verification/Events.thy ===== *)
theory Events
  imports ReadWrite
begin

text \<open>
  Waiting for several descriptors at once: the timer calls, \<^verbatim>\<open>poll\<close>, \<^verbatim>\<open>select\<close> and epoll of
  \<^verbatim>\<open>crates/linux-compat/src/syscall.rs\<close>, with the readiness of a description and the watches that end a
  wait.
\<close>

unbundle bit_operations_syntax

section \<open>Timers\<close>

definition timer_of :: "u64 \<Rightarrow> ('x, 'm, 'map, 'h) mach \<Rightarrow> errno + nat \<times> timerfd_inner" where
  "timer_of fd s =
     (case fd_description fd s of
        Inl e \<Rightarrow> Inl e
      | Inr (_, d) \<Rightarrow>
          (case d_backing d of
             BTimerFd i \<Rightarrow> (case kh_timers (e_heap s) i of None \<Rightarrow> Inl EBADF | Some tf \<Rightarrow> Inr (i, tf))
           | _ \<Rightarrow> Inl EINVAL))"

definition itimerspec_bytes :: "u64 \<Rightarrow> timerfd_inner \<Rightarrow> bytes" where
  "itimerspec_bytes time tf =
     (let remaining = (case tf_next_expiry tf of None \<Rightarrow> 0 | Some e \<Rightarrow> saturating_sub e time)
      in u64_to_le (tf_interval tf div 1000000000) @ u64_to_le (tf_interval tf mod 1000000000) @
         u64_to_le (remaining div 1000000000) @ u64_to_le (remaining mod 1000000000))"

definition TFD_TIMER_ABSTIME :: u64 where "TFD_TIMER_ABSTIME = 1"

definition timer_set :: "u64 \<Rightarrow> u64 \<Rightarrow> u64 \<Rightarrow> u64 \<Rightarrow> timerfd_inner \<Rightarrow> timerfd_inner" where
  "timer_set time flags interval value tf =
     tf\<lparr>tf_next_expiry := (if value = 0 then None
                          else Some (if flags AND TFD_TIMER_ABSTIME \<noteq> 0 then value else time + value)),
        tf_interval := interval\<rparr>"

definition sys_timerfd_settime ::
  "('m, 'map, 'h) ops \<Rightarrow> u64 \<Rightarrow> u64 \<Rightarrow> u64 \<Rightarrow> u64 \<Rightarrow> ('x, 'm, 'map, 'h) mach \<Rightarrow> (errno + u64) \<times> ('x, 'm, 'map, 'h) mach" where
  "sys_timerfd_settime ops fd flags new_value old_value =
     and_then (\<lambda>s. (timer_of fd s, s)) (\<lambda>(i, tf) s.
       let time = now_nanos s in
       and_then (if old_value \<noteq> 0 then write_mem ops old_value (itimerspec_bytes time tf) else give (Inr ())) (\<lambda>_.
       and_then (read_timespec_at ops new_value) (\<lambda>interval.
       and_then (read_timespec_at ops (new_value + 16)) (\<lambda>value s.
         (Inr 0, with_heap (\<lambda>h. h\<lparr>kh_timers := at_cell (timer_set time flags interval value) i (kh_timers h)\<rparr>) s)))) s)"

definition sys_timerfd_gettime ::
  "('m, 'map, 'h) ops \<Rightarrow> u64 \<Rightarrow> u64 \<Rightarrow> ('x, 'm, 'map, 'h) mach \<Rightarrow> (errno + u64) \<times> ('x, 'm, 'map, 'h) mach" where
  "sys_timerfd_gettime ops fd out_ptr =
     and_then (\<lambda>s. (timer_of fd s, s)) (\<lambda>(_, tf) s. put_result ops out_ptr (itimerspec_bytes (now_nanos s) tf) s)"

section \<open>Readiness of a description\<close>

definition read_watch_of :: "backing \<Rightarrow> watch option" where
  "read_watch_of b =
     (case b of
        BPipe p write_end \<Rightarrow> if write_end then None else Some (WPipeReadable p)
      | BSocketPair rx _ \<Rightarrow> Some (WPipeReadable rx)
      | BEventFd i \<Rightarrow> Some (WEvent i)
      | BTimerFd i \<Rightarrow> Some (WTimer i)
      | BNet i \<Rightarrow> Some (WNetReadable i)
      | BPtyMaster i \<Rightarrow> Some (WPtyReadable i True)
      | BPtySlave i \<Rightarrow> Some (WPtyReadable i False)
      | BInotify i \<Rightarrow> Some (WInotifyReadable i)
      | _ \<Rightarrow> None)"

definition desc_read_ready :: "net_readable \<Rightarrow> kheap \<Rightarrow> u64 \<Rightarrow> backing \<Rightarrow> bool" where
  "desc_read_ready nr h time b = (case read_watch_of b of None \<Rightarrow> True | Some w \<Rightarrow> watch_ready nr h time w)"

definition write_pipe_of :: "backing \<Rightarrow> nat option" where
  "write_pipe_of b =
     (case b of BPipe p write_end \<Rightarrow> if write_end then Some p else None | BSocketPair _ tx \<Rightarrow> Some tx | _ \<Rightarrow> None)"

definition desc_write_ready :: "kheap \<Rightarrow> backing \<Rightarrow> bool" where
  "desc_write_ready h b =
     (case write_pipe_of b of
        None \<Rightarrow> True
      | Some p \<Rightarrow>
          (case kh_pipes h p of
             None \<Rightarrow> True
           | Some inner \<Rightarrow> length (pi_data inner) < PIPE_CAPACITY \<or> pi_readers inner = 0))"

definition hung_up :: "kheap \<Rightarrow> backing \<Rightarrow> bool" where
  "hung_up h b =
     (case b of
        BPipe p False \<Rightarrow> (case kh_pipes h p of None \<Rightarrow> False | Some inner \<Rightarrow> pi_writers inner = 0)
      | _ \<Rightarrow> False)"

definition cell_activity :: "('a \<Rightarrow> u64) \<Rightarrow> 'a option \<Rightarrow> u64" where
  "cell_activity f c = (case c of None \<Rightarrow> 0 | Some x \<Rightarrow> f x)"

definition backing_activity :: "kheap \<Rightarrow> backing \<Rightarrow> u64" where
  "backing_activity h b =
     (case b of
        BPipe p _ \<Rightarrow> cell_activity pi_activity (kh_pipes h p)
      | BSocketPair rx tx \<Rightarrow> cell_activity pi_activity (kh_pipes h rx) + cell_activity pi_activity (kh_pipes h tx)
      | BEventFd i \<Rightarrow> cell_activity ev_activity (kh_events h i)
      | BInotify i \<Rightarrow> cell_activity in_activity (kh_inotifies h i)
      | BNet i \<Rightarrow> cell_activity ns_activity (kh_nets h i)
      | BPtyMaster i \<Rightarrow> cell_activity pt_activity (kh_ptys h i)
      | BPtySlave i \<Rightarrow> cell_activity pt_activity (kh_ptys h i)
      | _ \<Rightarrow> 0)"

definition activity_watch_of :: "kheap \<Rightarrow> backing \<Rightarrow> watch option" where
  "activity_watch_of h b =
     (case b of
        BPipe p _ \<Rightarrow> Some (WPipeActivity p (cell_activity pi_activity (kh_pipes h p)))
      | BSocketPair rx _ \<Rightarrow> Some (WPipeActivity rx (cell_activity pi_activity (kh_pipes h rx)))
      | BEventFd i \<Rightarrow> Some (WEventActivity i (cell_activity ev_activity (kh_events h i)))
      | BPtyMaster i \<Rightarrow> Some (WPtyActivity i (cell_activity pt_activity (kh_ptys h i)))
      | BPtySlave i \<Rightarrow> Some (WPtyActivity i (cell_activity pt_activity (kh_ptys h i)))
      | _ \<Rightarrow> None)"

text \<open>What the running process asks of its host when it looks at a socket.\<close>

definition net_ready :: "('m, 'map, 'h) ops \<Rightarrow> ('x, 'm, 'map, 'h) mach \<Rightarrow> net_readable" where
  "net_ready ops s = op_readable ops (e_host s)"

section \<open>poll\<close>

definition POLLIN :: u16 where "POLLIN = 1"
definition POLLOUT :: u16 where "POLLOUT = 4"
definition POLLHUP :: u16 where "POLLHUP = 16"
definition POLLNVAL :: u16 where "POLLNVAL = 32"

definition poll_bits :: "net_readable \<Rightarrow> kheap \<Rightarrow> u64 \<Rightarrow> u16 \<Rightarrow> description \<Rightarrow> u16" where
  "poll_bits nr h time events d =
     (if events AND POLLIN \<noteq> 0 \<and> readable d \<and> desc_read_ready nr h time (d_backing d) then POLLIN else 0) OR
     (if events AND POLLOUT \<noteq> 0 \<and> writable d \<and> desc_write_ready h (d_backing d) then POLLOUT else 0) OR
     (if hung_up h (d_backing d) then POLLHUP else 0)"

definition record_fd :: "bytes \<Rightarrow> u64" where
  "record_fd rec = ucast (u32_of_le (take 4 rec))"

definition record_events :: "bytes \<Rightarrow> u16" where
  "record_events rec = u16_of_le (take 2 (drop 4 rec))"

definition poll_revents :: "('m, 'map, 'h) ops \<Rightarrow> ('x, 'm, 'map, 'h) mach \<Rightarrow> u64 \<Rightarrow> bytes \<Rightarrow> u16" where
  "poll_revents ops s time rec =
     (case fd_description (record_fd rec) s of
        Inl _ \<Rightarrow> POLLNVAL
      | Inr (_, d) \<Rightarrow> poll_bits (net_ready ops s) (e_heap s) time (record_events rec) d)"

definition chunks_of :: "nat \<Rightarrow> bytes \<Rightarrow> bytes list" where
  "chunks_of n bs = map (\<lambda>k. take n (drop (n * k) bs)) [0 ..< length bs div n]"

definition sys_poll ::
  "('m, 'map, 'h) ops \<Rightarrow> u64 \<Rightarrow> u64 \<Rightarrow> ('x, 'm, 'map, 'h) mach \<Rightarrow> (errno + u64) \<times> ('x, 'm, 'map, 'h) mach" where
  "sys_poll ops fds_ptr nfds s =
     (let time = now_nanos s in
      and_then (read_mem ops fds_ptr (unat (min nfds 1024) * 8)) (\<lambda>raw s.
        let records = map (\<lambda>rec. (rec, poll_revents ops s time rec)) (chunks_of 8 raw)
        in and_then (write_mem ops fds_ptr (concat (map (\<lambda>(rec, bits). take 6 rec @ u16_to_le bits) records)))
             (\<lambda>_. give (Inr (of_nat (length (filter (\<lambda>(_, bits). bits \<noteq> 0) records))))) s) s)"

definition poll_watches :: "('x, 'm, 'map, 'h) mach \<Rightarrow> bytes \<Rightarrow> watch list" where
  "poll_watches s rec =
     (case fd_description (record_fd rec) s of
        Inl _ \<Rightarrow> []
      | Inr (_, d) \<Rightarrow>
          (if record_events rec AND POLLIN \<noteq> 0 then opt_to_list (read_watch_of (d_backing d)) else []) @
          (if record_events rec AND POLLOUT \<noteq> 0 then map WPipeWritable (opt_to_list (write_pipe_of (d_backing d))) else []))"

definition millis_timeout :: "u64 \<Rightarrow> u64 option" where
  "millis_timeout arg = (let ms = (ucast arg :: u32) in if sint ms < 0 then None else Some (ucast ms * 1000000))"

definition poll_timeout ::
  "('m, 'map, 'h) ops \<Rightarrow> u64 \<Rightarrow> bool \<Rightarrow> ('x, 'm, 'map, 'h) mach \<Rightarrow> (errno + u64 option) \<times> ('x, 'm, 'map, 'h) mach" where
  "poll_timeout ops arg is_ppoll =
     (if is_ppoll
      then (if arg = 0 then give (Inr None) else and_then (read_timespec_at ops arg) (\<lambda>nanos. give (Inr (Some nanos))))
      else give (Inr (millis_timeout arg)))"

text \<open>The end of every wait: with a timeout the caller resumes after the call with zero, without one
  the call runs again.\<close>

definition wait_on ::
  "('m, 'map, 'h) ops \<Rightarrow> watch list \<Rightarrow> u64 \<Rightarrow> u64 option \<Rightarrow> ('x, 'm, 'map, 'h) mach \<Rightarrow> outcome \<times> ('x, 'm, 'map, 'h) mach" where
  "wait_on ops watches time timeout s =
     (case timeout of
        Some t \<Rightarrow> park_timeout_returning_zero ops watches (time + t) s
      | None \<Rightarrow> block_and_switch ops (PsWaiting watches None) True s)"

definition outcome_poll ::
  "('m, 'map, 'h) ops \<Rightarrow> u64 \<Rightarrow> u64 \<Rightarrow> u64 \<Rightarrow> bool \<Rightarrow> ('x, 'm, 'map, 'h) mach \<Rightarrow> outcome \<times> ('x, 'm, 'map, 'h) mach" where
  "outcome_poll ops fds_ptr nfds timeout_arg is_ppoll =
     or_return (sys_poll ops fds_ptr nfds) (\<lambda>ready s.
       let time = now_nanos s in
       or_return (poll_timeout ops timeout_arg is_ppoll) (\<lambda>timeout s.
         if ready > 0 \<or> timeout = Some 0 then (ORet (Inr ready), s)
         else or_return (read_mem ops fds_ptr (unat (min nfds 1024) * 8)) (\<lambda>raw s.
           wait_on ops (concat (map (poll_watches s) (chunks_of 8 raw))) time timeout s) s) s)"

section \<open>select\<close>

definition read_set ::
  "('m, 'map, 'h) ops \<Rightarrow> nat \<Rightarrow> u64 \<Rightarrow> ('x, 'm, 'map, 'h) mach \<Rightarrow> (errno + u64 list) \<times> ('x, 'm, 'map, 'h) mach" where
  "read_set ops words ptr =
     (if ptr = 0 \<or> words = 0 then give (Inr (replicate words 0))
      else and_then (read_mem ops ptr (words * 8)) (\<lambda>bs. give (Inr (map u64_of_le (chunks_of 8 bs)))))"

definition wants :: "u64 list \<Rightarrow> nat \<Rightarrow> bool" where
  "wants words fd = (fd div 64 < length words \<and> bit (words ! (fd div 64)) (fd mod 64))"

definition mark :: "nat \<Rightarrow> u64 list \<Rightarrow> u64 list" where
  "mark fd words = words[fd div 64 := words ! (fd div 64) OR push_bit (fd mod 64) 1]"

record select_scan =
  ss_read :: "u64 list"
  ss_write :: "u64 list"
  ss_count :: u64
  ss_watches :: "watch list"

definition select_one ::
  "('m, 'map, 'h) ops \<Rightarrow> ('x, 'm, 'map, 'h) mach \<Rightarrow> u64 \<Rightarrow> bool \<Rightarrow> bool \<Rightarrow> nat \<Rightarrow> description \<Rightarrow> select_scan \<Rightarrow> select_scan" where
  "select_one ops s time want_read want_write fd d acc =
     (let b = d_backing d;
          acc = (if want_read
                 then (if readable d \<and> desc_read_ready (net_ready ops s) (e_heap s) time b
                       then acc\<lparr>ss_read := mark fd (ss_read acc), ss_count := ss_count acc + 1\<rparr>
                       else acc\<lparr>ss_watches := ss_watches acc @ opt_to_list (read_watch_of b)\<rparr>)
                 else acc)
      in if want_write \<and> writable d \<and> desc_write_ready (e_heap s) b
         then acc\<lparr>ss_write := mark fd (ss_write acc), ss_count := ss_count acc + 1\<rparr> else acc)"

text \<open>\<open>None\<close>: a descriptor of the sets is not open.\<close>

primrec select_scan_fds ::
  "('m, 'map, 'h) ops \<Rightarrow> ('x, 'm, 'map, 'h) mach \<Rightarrow> u64 \<Rightarrow> u64 list \<Rightarrow> u64 list \<Rightarrow> nat list \<Rightarrow> select_scan \<Rightarrow> select_scan option" where
  "select_scan_fds ops s time rset wset [] acc = Some acc"
| "select_scan_fds ops s time rset wset (fd # fds) acc =
     (if \<not> wants rset fd \<and> \<not> wants wset fd then select_scan_fds ops s time rset wset fds acc
      else case fd_description (of_nat fd) s of
          Inl _ \<Rightarrow> None
        | Inr (_, d) \<Rightarrow>
            select_scan_fds ops s time rset wset fds (select_one ops s time (wants rset fd) (wants wset fd) fd d acc))"

definition write_set ::
  "('m, 'map, 'h) ops \<Rightarrow> u64 \<Rightarrow> u64 list \<Rightarrow> ('x, 'm, 'map, 'h) mach \<Rightarrow> (errno + unit) \<times> ('x, 'm, 'map, 'h) mach" where
  "write_set ops ptr words = (if ptr = 0 then give (Inr ()) else write_mem ops ptr (concat (map u64_to_le words)))"

definition select_reply ::
  "('m, 'map, 'h) ops \<Rightarrow> u64 \<Rightarrow> u64 \<Rightarrow> u64 \<Rightarrow> nat \<Rightarrow> select_scan \<Rightarrow> ('x, 'm, 'map, 'h) mach \<Rightarrow> outcome \<times> ('x, 'm, 'map, 'h) mach" where
  "select_reply ops readfds writefds exceptfds words acc =
     or_return (write_set ops readfds (ss_read acc)) (\<lambda>_.
     or_return (write_set ops writefds (ss_write acc)) (\<lambda>_.
     or_return (if exceptfds \<noteq> 0 then write_mem ops exceptfds (replicate (words * 8) 0) else give (Inr ())) (\<lambda>_ s.
       (ORet (Inr (ss_count acc)), s))))"

definition select_timeout ::
  "('m, 'map, 'h) ops \<Rightarrow> u64 \<Rightarrow> bool \<Rightarrow> ('x, 'm, 'map, 'h) mach \<Rightarrow> (errno + u64 option) \<times> ('x, 'm, 'map, 'h) mach" where
  "select_timeout ops ptr timespec =
     (if ptr = 0 then give (Inr None)
      else and_then (if timespec then read_timespec_at ops ptr else read_timeval_at ops ptr) (\<lambda>nanos. give (Inr (Some nanos))))"

text \<open>Both sets are read before either failure is looked at.\<close>

definition read_sets ::
  "('m, 'map, 'h) ops \<Rightarrow> nat \<Rightarrow> u64 \<Rightarrow> u64 \<Rightarrow> ('x, 'm, 'map, 'h) mach \<Rightarrow> (errno + u64 list \<times> u64 list) \<times> ('x, 'm, 'map, 'h) mach" where
  "read_sets ops words readfds writefds s =
     (case read_set ops words readfds s of
        (r, s) \<Rightarrow>
          (case read_set ops words writefds s of
             (w, s) \<Rightarrow> (case (r, w) of (Inr r, Inr w) \<Rightarrow> Inr (r, w) | _ \<Rightarrow> Inl EFAULT, s)))"

definition sys_select ::
  "('m, 'map, 'h) ops \<Rightarrow> u64 \<Rightarrow> u64 \<Rightarrow> u64 \<Rightarrow> u64 \<Rightarrow> u64 \<Rightarrow> bool \<Rightarrow> ('x, 'm, 'map, 'h) mach \<Rightarrow> outcome \<times> ('x, 'm, 'map, 'h) mach" where
  "sys_select ops nfds_arg readfds writefds exceptfds timeout_ptr timespec s =
     (let nfds = unat (min nfds_arg 1024); words = (nfds + 63) div 64; time = now_nanos s in
      or_return (read_sets ops words readfds writefds) (\<lambda>(rset, wset) s.
        case select_scan_fds ops s time rset wset [0 ..< nfds]
               \<lparr>ss_read = replicate words 0, ss_write = replicate words 0, ss_count = 0, ss_watches = []\<rparr> of
          None \<Rightarrow> (ORet (Inl EBADF), s)
        | Some acc \<Rightarrow>
            or_return (select_timeout ops timeout_ptr timespec) (\<lambda>timeout s.
              if ss_count acc = 0 \<and> timeout \<noteq> Some 0 then wait_on ops (ss_watches acc) time timeout s
              else select_reply ops readfds writefds exceptfds words acc s) s) s)"

section \<open>epoll\<close>

definition EPOLL_CTL_ADD :: u64 where "EPOLL_CTL_ADD = 1"
definition EPOLL_CTL_DEL :: u64 where "EPOLL_CTL_DEL = 2"
definition EPOLL_CTL_MOD :: u64 where "EPOLL_CTL_MOD = 3"
definition EPOLLIN :: u32 where "EPOLLIN = 1"
definition EPOLLOUT :: u32 where "EPOLLOUT = 4"
definition EPOLLHUP :: u32 where "EPOLLHUP = 16"
definition EPOLLET :: u32 where "EPOLLET = 0x80000000"

definition epoll_of :: "u64 \<Rightarrow> ('x, 'm, 'map, 'h) mach \<Rightarrow> errno + nat \<times> epoll_inner" where
  "epoll_of fd s =
     (case fd_description fd s of
        Inl e \<Rightarrow> Inl e
      | Inr (_, d) \<Rightarrow>
          (case d_backing d of
             BEpoll i \<Rightarrow> (case kh_epolls (e_heap s) i of None \<Rightarrow> Inl EBADF | Some ep \<Rightarrow> Inr (i, ep))
           | _ \<Rightarrow> Inl EINVAL))"

definition set_epoll :: "nat \<Rightarrow> epoll_inner \<Rightarrow> ('x, 'm, 'map, 'h) mach \<Rightarrow> ('x, 'm, 'map, 'h) mach" where
  "set_epoll i ep s = with_heap (\<lambda>h. h\<lparr>kh_epolls := (kh_epolls h)(i \<mapsto> ep)\<rparr>) s"

definition epoll_arm :: "u64 \<Rightarrow> u32 \<Rightarrow> u64 \<Rightarrow> epoll_inner \<Rightarrow> epoll_inner" where
  "epoll_arm fd events data ep =
     ep\<lparr>ep_interests := bt_insert fd (events, data) (ep_interests ep), ep_edge_fired := bt_remove fd (ep_edge_fired ep)\<rparr>"

definition epoll_add ::
  "('m, 'map, 'h) ops \<Rightarrow> u64 \<Rightarrow> u64 \<Rightarrow> u64 \<Rightarrow> nat \<Rightarrow> epoll_inner \<Rightarrow> ('x, 'm, 'map, 'h) mach \<Rightarrow> (errno + u64) \<times> ('x, 'm, 'map, 'h) mach" where
  "epoll_add ops op fd event_ptr i ep =
     and_then (\<lambda>s. (fds_get (table_at (p_fds (e_proc s)) (e_heap s)) fd, s)) (\<lambda>_.
     and_then (read_mem ops event_ptr 12) (\<lambda>bs s.
       if op = EPOLL_CTL_ADD \<and> map_of (ep_interests ep) fd \<noteq> None then (Inl EEXIST, s)
       else (Inr 0, set_epoll i (epoll_arm fd (u32_of_le (take 4 bs)) (u64_of_le (drop 4 bs)) ep) s)))"

definition sys_epoll_ctl ::
  "('m, 'map, 'h) ops \<Rightarrow> u64 \<Rightarrow> u64 \<Rightarrow> u64 \<Rightarrow> u64 \<Rightarrow> ('x, 'm, 'map, 'h) mach \<Rightarrow> (errno + u64) \<times> ('x, 'm, 'map, 'h) mach" where
  "sys_epoll_ctl ops epfd op fd event_ptr =
     and_then (\<lambda>s. (epoll_of epfd s, s)) (\<lambda>(i, ep) s.
       if op = EPOLL_CTL_ADD \<or> op = EPOLL_CTL_MOD then epoll_add ops op fd event_ptr i ep s
       else if op = EPOLL_CTL_DEL
       then (case map_of (ep_interests ep) fd of
               None \<Rightarrow> (Inl ENOENT, s)
             | Some _ \<Rightarrow>
                 (Inr 0, set_epoll i (ep\<lparr>ep_interests := bt_remove fd (ep_interests ep),
                                        ep_edge_fired := bt_remove fd (ep_edge_fired ep)\<rparr>) s))
       else (Inl EINVAL, s))"

text \<open>The conditions of one descriptor that hold now.\<close>

definition epoll_conditions :: "net_readable \<Rightarrow> kheap \<Rightarrow> u64 \<Rightarrow> u32 \<Rightarrow> description \<Rightarrow> u32" where
  "epoll_conditions nr h time events d =
     (if events AND EPOLLIN \<noteq> 0 \<and> readable d \<and> desc_read_ready nr h time (d_backing d) then EPOLLIN else 0) OR
     (if hung_up h (d_backing d) then EPOLLHUP else 0) OR
     (if events AND EPOLLOUT \<noteq> 0 \<and> writable d \<and> desc_write_ready h (d_backing d) then EPOLLOUT else 0)"

definition epoll_read_watch :: "net_readable \<Rightarrow> kheap \<Rightarrow> u64 \<Rightarrow> u32 \<Rightarrow> description \<Rightarrow> watch list" where
  "epoll_read_watch nr h time events d =
     (if events AND EPOLLIN \<noteq> 0 \<and> \<not> (readable d \<and> desc_read_ready nr h time (d_backing d))
      then opt_to_list (read_watch_of (d_backing d)) else [])"

record epoll_scan =
  es_ready :: "(u32 \<times> u64) list"
  es_watches :: "watch list"
  es_fired :: "(u64 \<times> u32 \<times> u64) list"

text \<open>An edge-triggered interest: what it reports against what it reported before, what is remembered,
  and the watch for new activity when nothing is reported.\<close>

definition epoll_edge ::
  "nat \<Rightarrow> kheap \<Rightarrow> (u64, u32 \<times> u64) btree \<Rightarrow> u64 \<Rightarrow> u64 \<Rightarrow> u32 \<Rightarrow> description \<Rightarrow> epoll_scan \<Rightarrow> epoll_scan" where
  "epoll_edge max_events h edges fd data fired d acc =
     (let act = backing_activity h (d_backing d);
          (prev_mask, prev_act) = (case map_of edges fd of None \<Rightarrow> (0, act) | Some p \<Rightarrow> p);
          prev = (if act = prev_act then prev_mask else 0);
          report = fired AND NOT prev;
          acc = (if fired \<noteq> prev_mask \<or> act \<noteq> prev_act then acc\<lparr>es_fired := es_fired acc @ [(fd, fired, act)]\<rparr> else acc)
      in if report \<noteq> 0 \<and> length (es_ready acc) < max_events then acc\<lparr>es_ready := es_ready acc @ [(report, data)]\<rparr>
         else if fired \<noteq> 0 then acc\<lparr>es_watches := es_watches acc @ opt_to_list (activity_watch_of h (d_backing d))\<rparr>
         else acc)"

definition epoll_one ::
  "('m, 'map, 'h) ops \<Rightarrow> ('x, 'm, 'map, 'h) mach \<Rightarrow> u64 \<Rightarrow> nat \<Rightarrow> (u64, u32 \<times> u64) btree \<Rightarrow> u64 \<times> u32 \<times> u64 \<Rightarrow> epoll_scan \<Rightarrow> epoll_scan" where
  "epoll_one ops s time max_events edges i acc =
     (case i of (fd, events, data) \<Rightarrow>
        case fd_description fd s of
          Inl _ \<Rightarrow> acc
        | Inr (_, d) \<Rightarrow>
            let fired = epoll_conditions (net_ready ops s) (e_heap s) time events d;
                acc = acc\<lparr>es_watches := es_watches acc @ epoll_read_watch (net_ready ops s) (e_heap s) time events d\<rparr>
            in if events AND EPOLLET \<noteq> 0 then epoll_edge max_events (e_heap s) edges fd data fired d acc
               else if fired \<noteq> 0 \<and> length (es_ready acc) < max_events then acc\<lparr>es_ready := es_ready acc @ [(fired, data)]\<rparr>
               else acc)"

definition epoll_scan_all ::
  "('m, 'map, 'h) ops \<Rightarrow> ('x, 'm, 'map, 'h) mach \<Rightarrow> u64 \<Rightarrow> nat \<Rightarrow> epoll_inner \<Rightarrow> epoll_scan" where
  "epoll_scan_all ops s time max_events ep =
     fold (epoll_one ops s time max_events (ep_edge_fired ep)) (ep_interests ep) \<lparr>es_ready = [], es_watches = [], es_fired = []\<rparr>"

definition remember_edge :: "u64 \<times> u32 \<times> u64 \<Rightarrow> (u64, u32 \<times> u64) btree \<Rightarrow> (u64, u32 \<times> u64) btree" where
  "remember_edge f edges = (case f of (fd, msk, act) \<Rightarrow> if msk = 0 then bt_remove fd edges else bt_insert fd (msk, act) edges)"

definition epoll_remember :: "(u64 \<times> u32 \<times> u64) list \<Rightarrow> epoll_inner \<Rightarrow> epoll_inner" where
  "epoll_remember fired ep = ep\<lparr>ep_edge_fired := fold remember_edge fired (ep_edge_fired ep)\<rparr>"

definition epoll_bytes :: "(u32 \<times> u64) list \<Rightarrow> bytes" where
  "epoll_bytes ready = concat (map (\<lambda>(events, data). u32_to_le events @ u64_to_le data) ready)"

definition sys_epoll_wait ::
  "('m, 'map, 'h) ops \<Rightarrow> u64 \<Rightarrow> u64 \<Rightarrow> u64 \<Rightarrow> u64 \<Rightarrow> ('x, 'm, 'map, 'h) mach \<Rightarrow> outcome \<times> ('x, 'm, 'map, 'h) mach" where
  "sys_epoll_wait ops epfd events_ptr max_events_arg timeout_ms =
     or_return (\<lambda>s. (epoll_of epfd s, s)) (\<lambda>(i, ep) s.
       let time = now_nanos s;
           scan = epoll_scan_all ops s time (min (max (unat max_events_arg) 1) 256) ep;
           s = (if es_fired scan = [] then s else set_epoll i (epoll_remember (es_fired scan) ep) s)
       in if es_ready scan \<noteq> []
          then deliver_bytes ops events_ptr (epoll_bytes (es_ready scan)) (of_nat (length (es_ready scan))) s
          else if (ucast timeout_ms :: u32) = 0 then (ORet (Inr 0), s)
          else wait_on ops (es_watches scan) time (millis_timeout timeout_ms) s)"

section \<open>sendfile\<close>

definition sendfile_read :: "nat \<Rightarrow> u64 \<Rightarrow> nat \<Rightarrow> ('x, 'm, 'map, 'h) mach \<Rightarrow> (read_error + bytes) \<times> ('x, 'm, 'map, 'h) mach" where
  "sendfile_read node offset n s = read_file_at node \<lparr>d_backing = BFile node, d_offset = offset, d_flags = 0\<rparr> n s"

definition sendfile_done ::
  "('m, 'map, 'h) ops \<Rightarrow> u64 \<Rightarrow> u64 \<Rightarrow> nat \<Rightarrow> u64 \<Rightarrow> ('x, 'm, 'map, 'h) mach \<Rightarrow> outcome \<times> ('x, 'm, 'map, 'h) mach" where
  "sendfile_done ops offset_ptr offset i written s =
     (if offset_ptr \<noteq> 0 then deliver_bytes ops offset_ptr (u64_to_le (offset + written)) written s
      else (ORet (Inr written),
            with_heap (\<lambda>h. h\<lparr>kh_ofds := at_cell (\<lambda>(n, d). (n, d\<lparr>d_offset := offset + written\<rparr>)) i (kh_ofds h)\<rparr>) s))"

definition sendfile_write ::
  "('m, 'map, 'h) ops \<Rightarrow> u64 \<Rightarrow> bytes \<Rightarrow> (u64 \<Rightarrow> ('x, 'm, 'map, 'h) mach \<Rightarrow> outcome \<times> ('x, 'm, 'map, 'h) mach) \<Rightarrow> ('x, 'm, 'map, 'h) mach \<Rightarrow> outcome \<times> ('x, 'm, 'map, 'h) mach" where
  "sendfile_write ops out_fd chunk k =
     or_return (\<lambda>s. (fd_description out_fd s, s)) (\<lambda>(j, d) s.
       if \<not> writable d then (ORet (Inl EBADF), s)
       else case d_backing d of
           BPipe p True \<Rightarrow>
             (case kh_pipes (e_heap s) p of
                None \<Rightarrow> (ORet (Inl EBADF), s)
              | Some inner \<Rightarrow>
                  if pi_readers inner = 0 then (ORet (Inl EPIPE), s)
                  else let room = PIPE_CAPACITY - length (pi_data inner) in
                    if room = 0 then block_and_switch ops (PsWaiting [WPipeWritable p] None) True s
                    else let n = min (length chunk) room
                         in k (of_nat n) (with_heap (\<lambda>h. h\<lparr>kh_pipes := (kh_pipes h)(p \<mapsto>
                                inner\<lparr>pi_data := pi_data inner @ take n chunk\<rparr>)\<rparr>) s))
         | _ \<Rightarrow>
             (case write_backing ops d chunk s of
                (Inl e, d, s) \<Rightarrow> (ORet (Inl e), set_description j d s)
              | (Inr n, d, s) \<Rightarrow> k (min n (of_nat (length chunk))) (set_description j d s)))"

definition sys_sendfile ::
  "('m, 'map, 'h) ops \<Rightarrow> u64 \<Rightarrow> u64 \<Rightarrow> u64 \<Rightarrow> u64 \<Rightarrow> ('x, 'm, 'map, 'h) mach \<Rightarrow> outcome \<times> ('x, 'm, 'map, 'h) mach" where
  "sys_sendfile ops out_fd in_fd offset_ptr count_arg =
     or_return (\<lambda>s. (fd_description in_fd s, s)) (\<lambda>(i, d) s.
       case d_backing d of
         BFile node \<Rightarrow>
           or_return (if offset_ptr \<noteq> 0 then and_then (read_mem ops offset_ptr 8) (\<lambda>bs. give (Inr (u64_of_le bs)))
                      else give (Inr (d_offset d))) (\<lambda>offset s.
             case sendfile_read node offset (unat (min count_arg 0x40000)) s of
               (Inl (RbErrno e), s) \<Rightarrow> (ORet (Inl e), s)
             | (Inl (RbMissing h), s) \<Rightarrow> wait_for_file_chunk h s
             | (Inr chunk, s) \<Rightarrow>
                 if chunk = [] then (ORet (Inr 0), s)
                 else sendfile_write ops out_fd chunk (sendfile_done ops offset_ptr offset i) s) s
       | _ \<Rightarrow> (ORet (Inl EINVAL), s))"

end
