(* ===== verification/Memory.thy ===== *)
theory Memory
  imports Events
begin

text \<open>
  The calls of \<^verbatim>\<open>crates/linux-compat/src/syscall.rs\<close> on the address space: \<^verbatim>\<open>mmap\<close>, \<^verbatim>\<open>munmap\<close>,
  \<^verbatim>\<open>mprotect\<close>, \<^verbatim>\<open>mremap\<close>, \<^verbatim>\<open>msync\<close> and \<^verbatim>\<open>brk\<close>. The memory of the engine is reached through
  \<open>op_map_memory\<close>, \<open>op_unmap\<close>, \<open>op_find_free\<close> and \<open>op_update_perm\<close>; the pager and the list of
  shared file mappings are the model's own.
\<close>

unbundle bit_operations_syntax

section \<open>Pages and permissions\<close>

definition align_up :: "u64 \<Rightarrow> u64 \<Rightarrow> u64" where
  "align_up value align =
     (let msk = NOT (align - 1) in case checked_add value (align - 1) of None \<Rightarrow> msk | Some v \<Rightarrow> v AND msk)"

definition prot_to_perm :: "u64 \<Rightarrow> u8" where
  "prot_to_perm prot =
     PERM_INIT OR
     (if prot AND PROT_READ \<noteq> 0 then PERM_READ else 0) OR
     (if prot AND PROT_WRITE \<noteq> 0 then PERM_WRITE else 0) OR
     (if prot AND PROT_EXEC \<noteq> 0 then PERM_EXEC else 0)"

abbreviation PERM_DATA :: u8 where
  "PERM_DATA \<equiv> PERM_READ OR PERM_WRITE OR PERM_INIT"

text \<open>One operation of the engine on its memory; the verdict is passed on.\<close>

definition on_mem ::
  "('m \<Rightarrow> bool \<times> 'm) \<Rightarrow> ('x, 'm, 'map, 'h) mach \<Rightarrow> bool \<times> ('x, 'm, 'map, 'h) mach" where
  "on_mem f s = (let (ok, mem) = f (m_mem s) in (ok, s\<lparr>m_mem := mem\<rparr>))"

definition on_pager :: "(u64 \<Rightarrow> pager \<Rightarrow> pager) \<Rightarrow> ('x, 'm, 'map, 'h) mach \<Rightarrow> ('x, 'm, 'map, 'h) mach" where
  "on_pager f s = s\<lparr>e_pager := f (p_asid (e_proc s)) (e_pager s)\<rparr>"

definition set_word :: "nat \<Rightarrow> u64 \<Rightarrow> ('x, 'm, 'map, 'h) mach \<Rightarrow> ('x, 'm, 'map, 'h) mach" where
  "set_word i w s = with_heap (\<lambda>h. h\<lparr>kh_words := (kh_words h)(i \<mapsto> w)\<rparr>) s"

section \<open>Shared file mappings\<close>

definition overlaps :: "u64 \<Rightarrow> u64 \<Rightarrow> u64 \<Rightarrow> shared_map \<Rightarrow> bool" where
  "overlaps asid addr stop m \<longleftrightarrow> sm_asid m = asid \<and> sm_addr m < stop \<and> saturating_add (sm_addr m) (sm_len m) > addr"

definition write_back :: "u64 \<Rightarrow> bytes \<Rightarrow> node_kind \<Rightarrow> node_kind" where
  "write_back offset bs k =
     (case k of
        File data \<Rightarrow>
          let start = min (unat offset) (length (vdata data)); n = min (length bs) (length (vdata data) - start)
          in File (data\<lparr>vdata := put_at start (take n bs) (vdata data)\<rparr>)
      | _ \<Rightarrow> k)"

definition sync_one :: "('m, 'map, 'h) ops \<Rightarrow> shared_map \<Rightarrow> ('x, 'm, 'map, 'h) mach \<Rightarrow> ('x, 'm, 'map, 'h) mach" where
  "sync_one ops m s =
     (case read_mem_raw ops (sm_addr m) (unat (sm_len m)) s of
        Inl _ \<Rightarrow> s
      | Inr bs \<Rightarrow> snd (on_vfs (vfs_node_mut (sm_node m) (\<lambda>n. n\<lparr>nkind := write_back (sm_offset m) bs (nkind n)\<rparr>)) s))"

definition sync_shared_range :: "('m, 'map, 'h) ops \<Rightarrow> u64 \<Rightarrow> u64 \<Rightarrow> ('x, 'm, 'map, 'h) mach \<Rightarrow> ('x, 'm, 'map, 'h) mach" where
  "sync_shared_range ops addr len s =
     fold (sync_one ops) (filter (overlaps (p_asid (e_proc s)) addr (saturating_add addr len)) (e_shared_maps s)) s"

definition sys_msync :: "('m, 'map, 'h) ops \<Rightarrow> u64 \<Rightarrow> u64 \<Rightarrow> ('x, 'm, 'map, 'h) mach \<Rightarrow> (errno + u64) \<times> ('x, 'm, 'map, 'h) mach" where
  "sys_msync ops addr len s = (Inr 0, sync_shared_range ops addr (align_up len PAGE_SIZE) s)"

definition forget_shared :: "u64 \<Rightarrow> u64 \<Rightarrow> ('x, 'm, 'map, 'h) mach \<Rightarrow> ('x, 'm, 'map, 'h) mach" where
  "forget_shared addr stop s =
     s\<lparr>e_shared_maps := filter (\<lambda>m. sm_asid m \<noteq> p_asid (e_proc s) \<or> sm_addr m \<ge> stop \<or>
                                   saturating_add (sm_addr m) (sm_len m) \<le> addr) (e_shared_maps s)\<rparr>"

definition sys_munmap :: "('m, 'map, 'h) ops \<Rightarrow> u64 \<Rightarrow> u64 \<Rightarrow> ('x, 'm, 'map, 'h) mach \<Rightarrow> (errno + u64) \<times> ('x, 'm, 'map, 'h) mach" where
  "sys_munmap ops addr len s =
     (let s = sync_shared_range ops addr (align_up len PAGE_SIZE) s;
          s = forget_shared addr (saturating_add addr (align_up len PAGE_SIZE)) s;
          (ok, s) = on_mem (op_unmap ops addr len) s
      in if ok then (Inr 0, on_pager (\<lambda>asid. pg_unmap asid addr (align_up len PAGE_SIZE)) s) else (Inl EINVAL, s))"

section \<open>mmap\<close>

text \<open>Where the mapping goes: a fixed address replaces what is there, a free hint is honoured, and
  otherwise a hole is looked for.\<close>

definition mmap_target ::
  "('m, 'map, 'h) ops \<Rightarrow> u64 \<Rightarrow> u64 \<Rightarrow> u64 \<Rightarrow> ('x, 'm, 'map, 'h) mach \<Rightarrow> (errno + u64) \<times> ('x, 'm, 'map, 'h) mach" where
  "mmap_target ops addr len flags s =
     (if flags AND MAP_FIXED \<noteq> 0 \<and> addr \<noteq> 0
      then let target = addr AND NOT (PAGE_SIZE - 1)
           in (Inr target, on_pager (\<lambda>asid. pg_unmap asid target len) (snd (on_mem (op_unmap ops target len) s)))
      else if addr \<noteq> 0 \<and> addr AND (PAGE_SIZE - 1) = 0 \<and> op_find_free ops addr len PAGE_SIZE (m_mem s) = Some addr
      then (Inr addr, s)
      else (case op_find_free ops (word_at (p_mmap_next (e_proc s)) (e_heap s)) len 0x10000 (m_mem s) of
              None \<Rightarrow> (Inl ENOMEM, s)
            | Some target \<Rightarrow> (Inr target, set_word (p_mmap_next (e_proc s)) (target + len + PAGE_SIZE) s)))"

text \<open>What fills it: the shared node and the bytes of a file at hand, or a file in chunks. The end of
  the slice wraps round at the width of the machine, and a slice that ends before it starts is a panic.\<close>

datatype map_source = MapNone | MapBytes "nat option" bytes | MapLazy chunked_file u64

definition file_slice :: "u64 \<Rightarrow> u64 \<Rightarrow> bytes \<Rightarrow> fault + bytes" where
  "file_slice offset len data =
     (let start = offset_into offset (length data) in
      case guest_size len of
        Inl e \<Rightarrow> Inl (Err e)
      | Inr n \<Rightarrow>
          let stop = min ((start + n) mod (usize_max + 1)) (length data)
          in if stop < start then Inl Panicked else Inr (take (stop - start) (drop start data)))"

definition node_source :: "u64 \<Rightarrow> u64 \<Rightarrow> u64 \<Rightarrow> nat \<Rightarrow> node_kind \<Rightarrow> fault + map_source" where
  "node_source len flags offset i k =
     (case k of
        File data \<Rightarrow>
          (case file_slice offset len (vdata data) of
             Inl e \<Rightarrow> Inl e
           | Inr bs \<Rightarrow> Inr (MapBytes (if flags AND MAP_SHARED \<noteq> 0 then Some i else None) bs))
      | ChunkedFile f \<Rightarrow>
          if flags AND MAP_SHARED \<noteq> 0 then Inl (Err ENODEV)
          else Inr (MapLazy f (min (saturating_sub (cf_size f) offset) len))
      | _ \<Rightarrow> Inl (Err (if flags AND MAP_SHARED \<noteq> 0 then ENODEV else EBADF)))"

definition mmap_source ::
  "u64 \<Rightarrow> u64 \<Rightarrow> u64 \<Rightarrow> u64 \<Rightarrow> ('x, 'm, 'map, 'h) mach \<Rightarrow> (errno + map_source) \<times> ('x, 'm, 'map, 'h) mach" where
  "mmap_source len flags fd offset =
     (if flags AND MAP_ANONYMOUS \<noteq> 0 then give (Inr MapNone)
      else and_then (\<lambda>s. (fd_description fd s, s)) (\<lambda>(_, d) s.
        case d_backing d of
          BFile i \<Rightarrow>
            if is_host_secret_node s i then (Inl ENODEV, s)
            else and_then (in_vfs (vfs_node i)) (\<lambda>n. in_vfs (\<lambda>_. node_source len flags offset i (nkind n))) s
        | _ \<Rightarrow> (Inl EBADF, s)))"

definition is_lazy :: "map_source \<Rightarrow> bool" where
  "is_lazy src = (case src of MapLazy _ _ \<Rightarrow> True | _ \<Rightarrow> False)"

definition place_pages ::
  "('m, 'map, 'h) ops \<Rightarrow> u64 \<Rightarrow> u64 \<Rightarrow> u8 \<Rightarrow> ('x, 'm, 'map, 'h) mach \<Rightarrow> (errno + unit) \<times> ('x, 'm, 'map, 'h) mach" where
  "place_pages ops target len p s =
     (let (ok, s) = on_mem (op_map_memory ops target len p) s in (if ok then Inr () else Inl ENOMEM, s))"

definition place_bytes ::
  "('m, 'map, 'h) ops \<Rightarrow> u64 \<Rightarrow> map_source \<Rightarrow> ('x, 'm, 'map, 'h) mach \<Rightarrow> (errno + unit) \<times> ('x, 'm, 'map, 'h) mach" where
  "place_bytes ops target src =
     (case src of MapBytes _ bs \<Rightarrow> write_mem ops target bs | _ \<Rightarrow> give (Inr ()))"

definition note_shared :: "u64 \<Rightarrow> u64 \<Rightarrow> u64 \<Rightarrow> map_source \<Rightarrow> ('x, 'm, 'map, 'h) mach \<Rightarrow> ('x, 'm, 'map, 'h) mach" where
  "note_shared target len offset src s =
     (case src of
        MapBytes (Some i) _ \<Rightarrow>
          s\<lparr>e_shared_maps := e_shared_maps s @
             [\<lparr>sm_asid = p_asid (e_proc s), sm_addr = target, sm_len = len, sm_node = i, sm_offset = offset\<rparr>]\<rparr>
      | _ \<Rightarrow> s)"

definition mmap_finish ::
  "('m, 'map, 'h) ops \<Rightarrow> u64 \<Rightarrow> u64 \<Rightarrow> u64 \<Rightarrow> u8 \<Rightarrow> map_source \<Rightarrow> ('x, 'm, 'map, 'h) mach \<Rightarrow> (errno + u64) \<times> ('x, 'm, 'map, 'h) mach" where
  "mmap_finish ops target len offset final_perm src s =
     (case src of
        MapLazy f file_len \<Rightarrow>
          if file_len > 0
          then (case fm_new target (target + len) target offset file_len final_perm 0 f of
                  Inl _ \<Rightarrow> (Inl EINVAL, s)
                | Inr m \<Rightarrow> (Inr target, on_pager (\<lambda>asid. pg_map asid m) s))
          else let (ok, s) = on_mem (op_update_perm ops target len final_perm) s in (if ok then Inr target else Inl ENOMEM, s)
      | _ \<Rightarrow> let (ok, s) = on_mem (op_update_perm ops target len final_perm) s in (if ok then Inr target else Inl ENOMEM, s))"

definition sys_mmap ::
  "('m, 'map, 'h) ops \<Rightarrow> u64 \<Rightarrow> u64 \<Rightarrow> u64 \<Rightarrow> u64 \<Rightarrow> u64 \<Rightarrow> u64 \<Rightarrow> ('x, 'm, 'map, 'h) mach \<Rightarrow> (errno + u64) \<times> ('x, 'm, 'map, 'h) mach" where
  "sys_mmap ops addr len prot flags fd offset s =
     (if len = 0 \<or> (flags AND MAP_ANONYMOUS = 0 \<and> offset AND (PAGE_SIZE - 1) \<noteq> 0) then (Inl EINVAL, s)
      else let len = align_up len PAGE_SIZE in
        and_then (mmap_target ops addr len flags) (\<lambda>target.
        and_then (mmap_source len flags fd offset) (\<lambda>src.
        and_then (place_pages ops target len (if is_lazy src then PERM_INIT else PERM_DATA)) (\<lambda>_.
        and_then (place_bytes ops target src) (\<lambda>_ s.
          mmap_finish ops target len offset (prot_to_perm prot) src (note_shared target len offset src s))))) s)"

section \<open>mprotect, mremap and brk\<close>

definition lock_page :: "('m, 'map, 'h) ops \<Rightarrow> u64 \<Rightarrow> u8 \<Rightarrow> ('x, 'm, 'map, 'h) mach \<Rightarrow> ('x, 'm, 'map, 'h) mach" where
  "lock_page ops page p s = snd (on_mem (op_update_perm ops page PAGE_SIZE p) s)"

definition sys_mprotect ::
  "('m, 'map, 'h) ops \<Rightarrow> u64 \<Rightarrow> u64 \<Rightarrow> u64 \<Rightarrow> ('x, 'm, 'map, 'h) mach \<Rightarrow> (errno + u64) \<times> ('x, 'm, 'map, 'h) mach" where
  "sys_mprotect ops addr len_arg prot s =
     (let len = align_up len_arg PAGE_SIZE; (ok, s) = on_mem (op_update_perm ops addr len (prot_to_perm prot)) s in
      if \<not> ok then (Inl ENOMEM, s)
      else let s = on_pager (\<lambda>asid. pg_protect asid addr len (prot_to_perm prot)) s
           in (Inr 0, fold (\<lambda>page. lock_page ops page PERM_INIT) (nonresident_pages (e_pager s) (p_asid (e_proc s)) addr len) s))"

definition MREMAP_MAYMOVE :: u64 where "MREMAP_MAYMOVE = 1"
definition MREMAP_FIXED :: u64 where "MREMAP_FIXED = 2"

text \<open>The pages of a region of whole pages; a region whose end wraps round has none.\<close>

definition region_pages :: "u64 \<Rightarrow> u64 \<Rightarrow> u64 list" where
  "region_pages target len =
     (if target < target + len then map (\<lambda>k. target + of_nat k * PAGE_SIZE) [0..<unat (len div PAGE_SIZE)] else [])"

definition restore_page_perm :: "('m, 'map, 'h) ops \<Rightarrow> u64 \<Rightarrow> ('x, 'm, 'map, 'h) mach \<Rightarrow> ('x, 'm, 'map, 'h) mach" where
  "restore_page_perm ops page s =
     (case page_state (e_pager s) (p_asid (e_proc s)) page of
        None \<Rightarrow> s
      | Some (is_resident, final_perm) \<Rightarrow> lock_page ops page (if is_resident then final_perm else PERM_INIT) s)"

definition mremap_shrink ::
  "('m, 'map, 'h) ops \<Rightarrow> u64 \<Rightarrow> u64 \<Rightarrow> u64 \<Rightarrow> ('x, 'm, 'map, 'h) mach \<Rightarrow> ('x, 'm, 'map, 'h) mach" where
  "mremap_shrink ops old_addr old_size new_size s =
     (if new_size < old_size
      then on_pager (\<lambda>asid. pg_unmap asid (old_addr + new_size) (old_size - new_size))
             (snd (on_mem (op_unmap ops (old_addr + new_size) (old_size - new_size)) s))
      else s)"

definition mremap_copy ::
  "('m, 'map, 'h) ops \<Rightarrow> u64 \<Rightarrow> u64 \<Rightarrow> u64 \<Rightarrow> ('x, 'm, 'map, 'h) mach \<Rightarrow> (errno + unit) \<times> ('x, 'm, 'map, 'h) mach" where
  "mremap_copy ops old_addr old_size target =
     and_then (give (case guest_size old_size of Inl _ \<Rightarrow> Inl ENOMEM | Inr n \<Rightarrow> Inr n)) (\<lambda>n.
     and_then (\<lambda>s. (read_mem_raw ops old_addr n s, s)) (\<lambda>buf. write_mem ops target buf))"

definition mremap_moved ::
  "('m, 'map, 'h) ops \<Rightarrow> u64 \<Rightarrow> u64 \<Rightarrow> u64 \<Rightarrow> u64 \<Rightarrow> ('x, 'm, 'map, 'h) mach \<Rightarrow> ('x, 'm, 'map, 'h) mach" where
  "mremap_moved ops old_addr old_size target new_size s =
     (let s = on_pager (\<lambda>asid. pg_remap asid old_addr old_size target new_size) (snd (on_mem (op_unmap ops old_addr old_size) s));
          s = fold (restore_page_perm ops) (region_pages target new_size) s
      in set_word (p_mmap_next (e_proc s)) (target + new_size + PAGE_SIZE) s)"

definition mremap_grow ::
  "('m, 'map, 'h) ops \<Rightarrow> u64 \<Rightarrow> u64 \<Rightarrow> u64 \<Rightarrow> ('x, 'm, 'map, 'h) mach \<Rightarrow> (errno + u64) \<times> ('x, 'm, 'map, 'h) mach" where
  "mremap_grow ops old_addr old_size new_size =
     and_then (\<lambda>s. (ok_or ENOMEM (op_find_free ops (word_at (p_mmap_next (e_proc s)) (e_heap s)) new_size PAGE_SIZE (m_mem s)), s)) (\<lambda>target.
     and_then (place_pages ops target new_size PERM_DATA) (\<lambda>_.
     and_then (mremap_copy ops old_addr old_size target) (\<lambda>_ s.
       (Inr target, mremap_moved ops old_addr old_size target new_size s))))"

definition sys_mremap ::
  "('m, 'map, 'h) ops \<Rightarrow> u64 \<Rightarrow> u64 \<Rightarrow> u64 \<Rightarrow> u64 \<Rightarrow> ('x, 'm, 'map, 'h) mach \<Rightarrow> (errno + u64) \<times> ('x, 'm, 'map, 'h) mach" where
  "sys_mremap ops old_addr old_arg new_arg flags s =
     (if old_addr AND (PAGE_SIZE - 1) \<noteq> 0 \<or> new_arg = 0 \<or> old_arg = 0 \<or> flags AND MREMAP_FIXED \<noteq> 0 then (Inl EINVAL, s)
      else let old_size = align_up old_arg PAGE_SIZE; new_size = align_up new_arg PAGE_SIZE in
        if new_size \<le> old_size then (Inr old_addr, mremap_shrink ops old_addr old_size new_size s)
        else if flags AND MREMAP_MAYMOVE = 0 then (Inl ENOMEM, s)
        else mremap_grow ops old_addr old_size new_size s)"

definition brk_grow :: "('m, 'map, 'h) ops \<Rightarrow> u64 \<Rightarrow> u64 \<Rightarrow> ('x, 'm, 'map, 'h) mach \<Rightarrow> bool \<times> ('x, 'm, 'map, 'h) mach" where
  "brk_grow ops cur_end new_end s =
     (if new_end > cur_end then on_mem (op_map_memory ops cur_end (new_end - cur_end) PERM_DATA) s else (True, s))"

definition sys_brk :: "('m, 'map, 'h) ops \<Rightarrow> u64 \<Rightarrow> ('x, 'm, 'map, 'h) mach \<Rightarrow> (errno + u64) \<times> ('x, 'm, 'map, 'h) mach" where
  "sys_brk ops addr s =
     (let cell = p_brk_end (e_proc s); cur = word_at cell (e_heap s) in
      if addr = 0 \<or> addr \<le> cur then (Inr cur, s)
      else let (ok, s) = brk_grow ops (align_up cur PAGE_SIZE) (align_up addr PAGE_SIZE) s
           in if ok then (Inr addr, set_word cell addr s) else (Inr cur, s))"

end
