(* ===== verification/Sockets.thy ===== *)
theory Sockets
  imports Memory
begin

text \<open>
  The socket calls of \<^verbatim>\<open>crates/linux-compat/src/syscall.rs\<close>. The broker that carries the traffic is the
  host's: its operations are fields of \<open>ops\<close>, its state is \<open>e_host\<close>.
\<close>

unbundle bit_operations_syntax

section \<open>Addresses\<close>

definition AF_INET :: u64 where "AF_INET = 2"
definition SOCK_NONBLOCK :: u64 where "SOCK_NONBLOCK = 0x800"
definition SHUT_WR :: u64 where "SHUT_WR = 1"
definition SHUT_RDWR :: u64 where "SHUT_RDWR = 2"

definition decode_sockaddr :: "bytes \<Rightarrow> errno + sockaddr_v4" where
  "decode_sockaddr bs =
     (if ucast (u16_of_le (take 2 bs)) \<noteq> AF_INET then Inl EAFNOSUPPORT
      else Inr (u32_of_be (take 4 (drop 4 bs)), u16_of_be (take 2 (drop 2 bs))))"

definition parse_sockaddr_in ::
  "('m, 'map, 'h) ops \<Rightarrow> u64 \<Rightarrow> u64 \<Rightarrow> ('x, 'm, 'map, 'h) mach \<Rightarrow> (errno + sockaddr_v4) \<times> ('x, 'm, 'map, 'h) mach" where
  "parse_sockaddr_in ops addr len =
     (if len < 8 then give (Inl EINVAL) else and_then (read_mem ops addr 8) (\<lambda>bs. give (decode_sockaddr bs)))"

definition encode_sockaddr :: "sockaddr_v4 \<Rightarrow> bytes" where
  "encode_sockaddr a = u16_to_le (ucast AF_INET) @ u16_to_be (snd a) @ u32_to_be (fst a) @ replicate 8 0"

definition sockaddr_room ::
  "('m, 'map, 'h) ops \<Rightarrow> u64 \<Rightarrow> ('x, 'm, 'map, 'h) mach \<Rightarrow> (errno + nat) \<times> ('x, 'm, 'map, 'h) mach" where
  "sockaddr_room ops len_ptr =
     (if len_ptr \<noteq> 0 then and_then (read_mem ops len_ptr 4) (\<lambda>bs. give (Inr (unat (u32_of_le bs)))) else give (Inr 16))"

definition write_sockaddr_in ::
  "('m, 'map, 'h) ops \<Rightarrow> u64 \<Rightarrow> u64 \<Rightarrow> sockaddr_v4 \<Rightarrow> ('x, 'm, 'map, 'h) mach \<Rightarrow> (errno + unit) \<times> ('x, 'm, 'map, 'h) mach" where
  "write_sockaddr_in ops addr_ptr len_ptr a =
     (if addr_ptr = 0 then give (Inr ())
      else and_then (sockaddr_room ops len_ptr) (\<lambda>room.
           and_then (write_mem ops addr_ptr (take (min 16 room) (encode_sockaddr a))) (\<lambda>_.
             if len_ptr \<noteq> 0 then write_mem ops len_ptr (u32_to_le 16) else give (Inr ()))))"

section \<open>Sockets\<close>

definition net_of :: "u64 \<Rightarrow> ('x, 'm, 'map, 'h) mach \<Rightarrow> errno + nat \<times> net_socket" where
  "net_of fd s =
     (case fd_description fd s of
        Inl e \<Rightarrow> Inl e
      | Inr (_, d) \<Rightarrow>
          (case d_backing d of
             BNet i \<Rightarrow> (case kh_nets (e_heap s) i of None \<Rightarrow> Inl EBADF | Some socket \<Rightarrow> Inr (i, socket))
           | _ \<Rightarrow> Inl ENOTSOCK))"

definition with_net ::
  "u64 \<Rightarrow> (nat \<times> net_socket \<Rightarrow> ('x, 'm, 'map, 'h) mach \<Rightarrow> (errno + 'a) \<times> ('x, 'm, 'map, 'h) mach) \<Rightarrow>
   ('x, 'm, 'map, 'h) mach \<Rightarrow> (errno + 'a) \<times> ('x, 'm, 'map, 'h) mach" where
  "with_net fd = and_then (\<lambda>s. (net_of fd s, s))"

definition set_net :: "nat \<Rightarrow> net_socket \<Rightarrow> ('x, 'm, 'map, 'h) mach \<Rightarrow> ('x, 'm, 'map, 'h) mach" where
  "set_net i socket s = with_heap (\<lambda>h. h\<lparr>kh_nets := (kh_nets h)(i \<mapsto> socket)\<rparr>) s"

definition on_host :: "('h \<Rightarrow> (errno + 'a) \<times> 'h) \<Rightarrow> ('x, 'm, 'map, 'h) mach \<Rightarrow> (errno + 'a) \<times> ('x, 'm, 'map, 'h) mach" where
  "on_host f s = (let (r, host) = f (e_host s) in (r, s\<lparr>e_host := host\<rparr>))"

definition net_new :: "net_socket \<Rightarrow> kheap \<Rightarrow> nat \<times> kheap" where
  "net_new socket h = (kh_next h, h\<lparr>kh_next := Suc (kh_next h), kh_nets := (kh_nets h)(kh_next h \<mapsto> socket)\<rparr>)"

definition socket_kind_of :: "u64 \<Rightarrow> errno + socket_kind" where
  "socket_kind_of sock_type =
     (let ty = sock_type AND SOCK_TYPE_MASK
      in if ty = SOCK_STREAM then Inr TcpSocket else if ty = SOCK_DGRAM then Inr UdpSocket else Inl EPROTONOSUPPORT)"

definition socket_fd :: "nat \<Rightarrow> socket_kind \<Rightarrow> u64 \<Rightarrow> nat \<Rightarrow> kheap \<Rightarrow> (errno + u64) \<times> kheap" where
  "socket_fd broker kind sock_type t h =
     (let (i, h) = net_new \<lparr>ns_broker = broker, ns_kind = kind, ns_handle = None, ns_peer = None, ns_activity = 0\<rparr> h
      in install_fd t (BNet i) (O_RDWR OR (if sock_type AND SOCK_NONBLOCK \<noteq> 0 then O_NONBLOCK else 0))
           (sock_type AND SOCK_CLOEXEC \<noteq> 0) h)"

definition sys_socket :: "u64 \<Rightarrow> u64 \<Rightarrow> ('x, 'm, 'map, 'h) mach \<Rightarrow> (errno + u64) \<times> ('x, 'm, 'map, 'h) mach" where
  "sys_socket domain sock_type s =
     (case e_net s of
        None \<Rightarrow> (Inl EAFNOSUPPORT, s)
      | Some broker \<Rightarrow>
          if domain \<noteq> AF_INET then (Inl EAFNOSUPPORT, s)
          else case socket_kind_of sock_type of
              Inl e \<Rightarrow> (Inl e, s)
            | Inr kind \<Rightarrow> on_table (socket_fd broker kind sock_type) s)"

text \<open>The handle of a datagram socket, opened at first use.\<close>

definition udp_handle ::
  "('m, 'map, 'h) ops \<Rightarrow> net_socket \<Rightarrow> ('x, 'm, 'map, 'h) mach \<Rightarrow> (errno + u64) \<times> ('x, 'm, 'map, 'h) mach" where
  "udp_handle ops socket =
     (case ns_handle socket of Some handle \<Rightarrow> give (Inr handle) | None \<Rightarrow> on_host (op_udp_open ops (ns_broker socket)))"

definition connect_handle ::
  "('m, 'map, 'h) ops \<Rightarrow> sockaddr_v4 \<Rightarrow> net_socket \<Rightarrow> ('x, 'm, 'map, 'h) mach \<Rightarrow> (errno + u64) \<times> ('x, 'm, 'map, 'h) mach" where
  "connect_handle ops target socket =
     (case ns_kind socket of
        TcpSocket \<Rightarrow> on_host (op_tcp_connect ops (ns_broker socket) target)
      | UdpSocket \<Rightarrow> udp_handle ops socket)"

definition sys_connect ::
  "('m, 'map, 'h) ops \<Rightarrow> u64 \<Rightarrow> u64 \<Rightarrow> u64 \<Rightarrow> ('x, 'm, 'map, 'h) mach \<Rightarrow> (errno + u64) \<times> ('x, 'm, 'map, 'h) mach" where
  "sys_connect ops fd addr len =
     with_net fd (\<lambda>(i, socket).
     and_then (parse_sockaddr_in ops addr len) (\<lambda>target.
     and_then (connect_handle ops target socket) (\<lambda>handle s.
       (Inr 0, set_net i (socket\<lparr>ns_handle := Some handle, ns_peer := Some target\<rparr>) s))))"

definition udp_send ::
  "('m, 'map, 'h) ops \<Rightarrow> nat \<Rightarrow> net_socket \<Rightarrow> sockaddr_v4 \<Rightarrow> bytes \<Rightarrow> ('x, 'm, 'map, 'h) mach \<Rightarrow> (errno + u64) \<times> ('x, 'm, 'map, 'h) mach" where
  "udp_send ops i socket target bs =
     and_then (udp_handle ops socket) (\<lambda>handle s.
       let s = set_net i (socket\<lparr>ns_handle := Some handle\<rparr>) s in
       and_then (on_host (op_udp_send_to ops (ns_broker socket) handle target bs)) (\<lambda>n s.
         (Inr (of_nat n), touch_socket i s)) s)"

definition sys_sendto ::
  "('m, 'map, 'h) ops \<Rightarrow> u64 \<Rightarrow> u64 \<Rightarrow> u64 \<Rightarrow> u64 \<Rightarrow> u64 \<Rightarrow> ('x, 'm, 'map, 'h) mach \<Rightarrow> outcome \<times> ('x, 'm, 'map, 'h) mach" where
  "sys_sendto ops fd buf len addr addrlen s =
     (if addr = 0 then outcome_write ops fd buf len s
      else of_result (with_net fd (\<lambda>(i, socket).
        and_then (parse_sockaddr_in ops addr addrlen) (\<lambda>target.
        and_then (read_mem ops buf (min (unat len) 0x10000)) (\<lambda>bs s.
          if ns_kind socket \<noteq> UdpSocket then (Inl EOPNOTSUPP, s) else udp_send ops i socket target bs s))) s))"

text \<open>The datagram is taken from the broker before it is copied to the guest.\<close>

definition udp_deliver ::
  "('m, 'map, 'h) ops \<Rightarrow> u64 \<Rightarrow> u64 \<Rightarrow> u64 \<Rightarrow> bytes \<Rightarrow> sockaddr_v4 \<Rightarrow> ('x, 'm, 'map, 'h) mach \<Rightarrow> (errno + u64) \<times> ('x, 'm, 'map, 'h) mach" where
  "udp_deliver ops buf addr addrlen bs from =
     and_then (write_mem ops buf bs) (\<lambda>_.
     and_then (write_sockaddr_in ops addr addrlen from) (\<lambda>_. give (Inr (of_nat (length bs)))))"

definition udp_receive ::
  "('m, 'map, 'h) ops \<Rightarrow> u64 \<Rightarrow> u64 \<Rightarrow> u64 \<Rightarrow> u64 \<Rightarrow> u64 \<Rightarrow> nat \<Rightarrow> net_socket \<Rightarrow> ('x, 'm, 'map, 'h) mach \<Rightarrow> outcome \<times> ('x, 'm, 'map, 'h) mach" where
  "udp_receive ops fd buf len addr addrlen i socket s =
     (case ns_handle socket of
        None \<Rightarrow> (ORet (Inl ENOTCONN), s)
      | Some handle \<Rightarrow>
          or_return (on_host (op_udp_recv_from ops (ns_broker socket) handle (unat len))) (\<lambda>received s.
            case received of
              Some (bs, from) \<Rightarrow> of_result (udp_deliver ops buf addr addrlen bs from (touch_socket i s))
            | None \<Rightarrow>
                let nonblock = (case fd_description fd s of Inl _ \<Rightarrow> False | Inr (_, d) \<Rightarrow> d_flags d AND O_NONBLOCK \<noteq> 0)
                in would_block ops nonblock (WNetReadable i) s) s)"

definition sys_recvfrom ::
  "('m, 'map, 'h) ops \<Rightarrow> u64 \<Rightarrow> u64 \<Rightarrow> u64 \<Rightarrow> u64 \<Rightarrow> u64 \<Rightarrow> ('x, 'm, 'map, 'h) mach \<Rightarrow> outcome \<times> ('x, 'm, 'map, 'h) mach" where
  "sys_recvfrom ops fd buf len addr addrlen s =
     (case net_of fd s of
        Inl _ \<Rightarrow> outcome_read ops fd buf len s
      | Inr (i, socket) \<Rightarrow>
          if ns_kind socket \<noteq> UdpSocket then outcome_read ops fd buf len s
          else udp_receive ops fd buf len addr addrlen i socket s)"

definition sys_shutdown ::
  "('m, 'map, 'h) ops \<Rightarrow> u64 \<Rightarrow> u64 \<Rightarrow> ('x, 'm, 'map, 'h) mach \<Rightarrow> (errno + u64) \<times> ('x, 'm, 'map, 'h) mach" where
  "sys_shutdown ops fd how =
     with_net fd (\<lambda>(_, socket).
       case (ns_kind socket, ns_handle socket) of
         (TcpSocket, Some handle) \<Rightarrow>
           if how = SHUT_WR \<or> how = SHUT_RDWR
           then and_then (on_host (op_tcp_shutdown_write ops (ns_broker socket) handle)) (\<lambda>_. give (Inr 0))
           else give (Inr 0)
       | _ \<Rightarrow> give (Inr 0))"

definition sys_getpeername ::
  "('m, 'map, 'h) ops \<Rightarrow> u64 \<Rightarrow> u64 \<Rightarrow> u64 \<Rightarrow> ('x, 'm, 'map, 'h) mach \<Rightarrow> (errno + u64) \<times> ('x, 'm, 'map, 'h) mach" where
  "sys_getpeername ops fd addr len =
     with_net fd (\<lambda>(_, socket).
     and_then (give (ok_or ENOTCONN (ns_peer socket))) (\<lambda>peer.
     and_then (write_sockaddr_in ops addr len peer) (\<lambda>_. give (Inr 0))))"

definition local_of ::
  "('m, 'map, 'h) ops \<Rightarrow> net_socket \<Rightarrow> ('x, 'm, 'map, 'h) mach \<Rightarrow> (errno + sockaddr_v4) \<times> ('x, 'm, 'map, 'h) mach" where
  "local_of ops socket =
     (case ns_handle socket of
        None \<Rightarrow> give (Inr (0, 0))
      | Some handle \<Rightarrow>
          on_host (\<lambda>host. let (r, host) = op_local_addr ops (ns_broker socket) handle host
                          in (Inr (case r of None \<Rightarrow> (0, 0) | Some a \<Rightarrow> a), host)))"

definition sys_getsockname ::
  "('m, 'map, 'h) ops \<Rightarrow> u64 \<Rightarrow> u64 \<Rightarrow> u64 \<Rightarrow> ('x, 'm, 'map, 'h) mach \<Rightarrow> (errno + u64) \<times> ('x, 'm, 'map, 'h) mach" where
  "sys_getsockname ops fd addr len =
     with_net fd (\<lambda>(_, socket).
     and_then (local_of ops socket) (\<lambda>local.
     and_then (write_sockaddr_in ops addr len local) (\<lambda>_. give (Inr 0))))"

definition sys_bind ::
  "('m, 'map, 'h) ops \<Rightarrow> u64 \<Rightarrow> u64 \<Rightarrow> ('x, 'm, 'map, 'h) mach \<Rightarrow> (errno + u64) \<times> ('x, 'm, 'map, 'h) mach" where
  "sys_bind ops addr len =
     and_then (parse_sockaddr_in ops addr len) (\<lambda>target. give (if snd target = 0 then Inr 0 else Inl EOPNOTSUPP))"

definition sys_getsockopt ::
  "('m, 'map, 'h) ops \<Rightarrow> u64 \<Rightarrow> u64 \<Rightarrow> u64 \<Rightarrow> ('x, 'm, 'map, 'h) mach \<Rightarrow> (errno + u64) \<times> ('x, 'm, 'map, 'h) mach" where
  "sys_getsockopt ops fd optval optlen =
     with_net fd (\<lambda>_.
       if optval = 0 then give (Inr 0)
       else and_then (write_mem ops optval (replicate 4 0)) (\<lambda>_.
              if optlen \<noteq> 0 then put_result ops optlen (u32_to_le 4) else give (Inr 0)))"

section \<open>Messages\<close>

definition read_msghdr ::
  "('m, 'map, 'h) ops \<Rightarrow> u64 \<Rightarrow> ('x, 'm, 'map, 'h) mach \<Rightarrow> (errno + u64 \<times> u64 \<times> u64 \<times> u64) \<times> ('x, 'm, 'map, 'h) mach" where
  "read_msghdr ops msg =
     and_then (read_mem ops msg 56) (\<lambda>bs.
       let field = (\<lambda>i. u64_of_le (take 8 (drop i bs)))
       in give (Inr (field 0, field 8 AND 0xffffffff, field 16, field 24)))"

definition sys_sendmsg ::
  "('m, 'map, 'h) ops \<Rightarrow> u64 \<Rightarrow> u64 \<Rightarrow> ('x, 'm, 'map, 'h) mach \<Rightarrow> outcome \<times> ('x, 'm, 'map, 'h) mach" where
  "sys_sendmsg ops fd msg =
     or_return (read_msghdr ops msg) (\<lambda>(name, name_len, iov, iovcnt).
     or_return (iter_iov ops iov iovcnt) (\<lambda>entries s.
       case find (\<lambda>(_, len). len \<noteq> 0) entries of
         None \<Rightarrow> (ORet (Inr 0), s)
       | Some (base, len) \<Rightarrow>
           if name \<noteq> 0 then sys_sendto ops fd base len name name_len s else outcome_write ops fd base len s))"

definition note_name_len ::
  "('m, 'map, 'h) ops \<Rightarrow> u64 \<Rightarrow> u64 \<Rightarrow> outcome \<times> ('x, 'm, 'map, 'h) mach \<Rightarrow> outcome \<times> ('x, 'm, 'map, 'h) mach" where
  "note_name_len ops msg cap_name r =
     (case r of
        (ORet (Inr n), s) \<Rightarrow> if cap_name \<noteq> 0 then deliver_bytes ops (msg + 8) (u32_to_le 16) n s else r
      | _ \<Rightarrow> r)"

definition sys_recvmsg ::
  "('m, 'map, 'h) ops \<Rightarrow> u64 \<Rightarrow> u64 \<Rightarrow> ('x, 'm, 'map, 'h) mach \<Rightarrow> outcome \<times> ('x, 'm, 'map, 'h) mach" where
  "sys_recvmsg ops fd msg =
     or_return (read_msghdr ops msg) (\<lambda>(name, name_len, iov, iovcnt).
     or_return (write_mem ops (msg + 40) (u64_to_le 0)) (\<lambda>_.
     or_return (iter_iov ops iov iovcnt) (\<lambda>entries s.
       case find (\<lambda>(_, len). len \<noteq> 0) entries of
         None \<Rightarrow> (ORet (Inr 0), s)
       | Some (base, len) \<Rightarrow>
           let cap_name = (if name \<noteq> 0 \<and> name_len \<ge> 16 then name else 0)
           in note_name_len ops msg cap_name (sys_recvfrom ops fd base len cap_name 0 s))))"

end
