(* ===== verification/Misc.thy ===== *)
theory Misc
  imports Sockets
begin

text \<open>
  The remaining calls of \<^verbatim>\<open>crates/linux-compat/src/syscall.rs\<close>: control of terminals and descriptors
  (\<^verbatim>\<open>ioctl\<close>), clocks, identity and resources, and the release of unlinked files by \<^verbatim>\<open>close\<close>.
\<close>

unbundle bit_operations_syntax

section \<open>ioctl\<close>

definition INIT_PID :: u64 where "INIT_PID = 1000"

definition flush_pty :: "bool \<Rightarrow> bool \<Rightarrow> bool \<Rightarrow> pty \<Rightarrow> pty" where
  "flush_pty is_master input output p =
     (let clear_m2s = (if is_master then output else input); clear_s2m = (if is_master then input else output) in
      p\<lparr>pt_m2s := (if clear_m2s then [] else pt_m2s p), pt_s2m := (if clear_s2m then [] else pt_s2m p),
        pt_activity := pt_activity p + 1\<rparr>)"

definition set_pty :: "nat \<Rightarrow> (pty \<Rightarrow> pty) \<Rightarrow> ('x, 'm, 'map, 'h) mach \<Rightarrow> ('x, 'm, 'map, 'h) mach" where
  "set_pty i f s = with_heap (\<lambda>h. h\<lparr>kh_ptys := at_cell f i (kh_ptys h)\<rparr>) s"

definition change_pty :: "nat \<Rightarrow> (pty \<Rightarrow> pty) \<Rightarrow> ('x, 'm, 'map, 'h) mach \<Rightarrow> (errno + u64) \<times> ('x, 'm, 'map, 'h) mach" where
  "change_pty i f s = (Inr 0, set_pty i f s)"

definition winsize_bytes :: "u16 list \<Rightarrow> bytes" where
  "winsize_bytes ws = concat (map u16_to_le ws)"

definition resized :: "bytes \<Rightarrow> pty \<Rightarrow> pty" where
  "resized bs p =
     p\<lparr>pt_winsize := map (\<lambda>k. u16_of_le (take 2 (drop (2 * k) bs))) [0..<length (pt_winsize p)], pt_activity := pt_activity p + 1\<rparr>"

definition set_nonblocking :: "bool \<Rightarrow> description \<Rightarrow> description" where
  "set_nonblocking on d = d\<lparr>d_flags := (if on then d_flags d OR O_NONBLOCK else d_flags d AND NOT O_NONBLOCK)\<rparr>"

definition unread_bytes :: "kheap \<Rightarrow> backing \<Rightarrow> u32" where
  "unread_bytes h b =
     (let queued = (\<lambda>p. case kh_pipes h p of None \<Rightarrow> 0 | Some inner \<Rightarrow> of_nat (length (pi_data inner))) in
      case b of BPipe p False \<Rightarrow> queued p | BSocketPair rx _ \<Rightarrow> queued rx | _ \<Rightarrow> 0)"

text \<open>The requests any descriptor takes; \<open>None\<close> for the others.\<close>

definition fd_ioctl ::
  "('m, 'map, 'h) ops \<Rightarrow> u64 \<Rightarrow> u64 \<Rightarrow> u64 \<Rightarrow> (('x, 'm, 'map, 'h) mach \<Rightarrow> (errno + u64) \<times> ('x, 'm, 'map, 'h) mach) option" where
  "fd_ioctl ops fd request arg =
     (if request = FIONBIO
      then Some (and_then (read_mem ops arg 4) (\<lambda>bs.
             and_then (\<lambda>s. (fd_description fd s, s)) (\<lambda>(i, d) s.
               (Inr 0, set_description i (set_nonblocking (u32_of_le bs \<noteq> 0) d) s))))
      else if request = FIOCLEX then Some (and_then (on_table (\<lambda>t. set_cloexec t fd True)) (\<lambda>_. give (Inr 0)))
      else if request = FIONCLEX then Some (and_then (on_table (\<lambda>t. set_cloexec t fd False)) (\<lambda>_. give (Inr 0)))
      else if request = FIONREAD
      then Some (and_then (\<lambda>s. (fd_description fd s, s)) (\<lambda>(_, d) s.
             put_result ops arg (u32_to_le (unread_bytes (e_heap s) (d_backing d))) s))
      else None)"

definition flush_request :: "u64 \<Rightarrow> (bool \<times> bool) option" where
  "flush_request arg = (if arg = 0 then Some (True, False) else if arg = 1 then Some (False, True) else if arg = 2 then Some (True, True) else None)"

definition set_termios :: "bool \<Rightarrow> bool \<Rightarrow> bytes \<Rightarrow> pty \<Rightarrow> pty" where
  "set_termios is_master flush bs p =
     (let p = p\<lparr>pt_termios := bs\<rparr> in if flush then flush_pty is_master True False p else p)"

definition pty_set_ioctl ::
  "('m, 'map, 'h) ops \<Rightarrow> nat \<Rightarrow> bool \<Rightarrow> u64 \<Rightarrow> u64 \<Rightarrow> ('x, 'm, 'map, 'h) mach \<Rightarrow> (errno + u64) \<times> ('x, 'm, 'map, 'h) mach" where
  "pty_set_ioctl ops i is_master request arg =
     (if request \<in> {TCSETS, TCSETSW, TCSETSF}
      then and_then (read_mem ops arg 36) (\<lambda>bs. change_pty i (set_termios is_master (request = TCSETSF) bs))
      else if request = TCFLSH
      then (case flush_request arg of
              None \<Rightarrow> give (Inl EINVAL)
            | Some (input, output) \<Rightarrow> change_pty i (flush_pty is_master input output))
      else if request = TIOCSWINSZ
      then and_then (read_mem ops arg 8) (\<lambda>bs s.
             let s = set_pty i (resized bs) s
             in (Inr 0, deliver_signal_to_pgrp (case kh_ptys (e_heap s) i of None \<Rightarrow> 0 | Some p \<Rightarrow> pt_fg_pgrp p) 28 s))
      else if request = TIOCSCTTY then (\<lambda>s. change_pty i (\<lambda>p. p\<lparr>pt_fg_pgrp := p_pgid (e_proc s)\<rparr>) s)
      else if request = TIOCSPGRP
      then and_then (read_mem ops arg 4) (\<lambda>bs. change_pty i (\<lambda>p. p\<lparr>pt_fg_pgrp := ucast (u32_of_le bs)\<rparr>))
      else if request \<in> {TIOCSPTLCK, TIOCNOTTY} then give (Inr 0)
      else give (Inl ENOTTY))"

definition pty_ioctl ::
  "('m, 'map, 'h) ops \<Rightarrow> nat \<Rightarrow> bool \<Rightarrow> u64 \<Rightarrow> u64 \<Rightarrow> ('x, 'm, 'map, 'h) mach \<Rightarrow> (errno + u64) \<times> ('x, 'm, 'map, 'h) mach" where
  "pty_ioctl ops i is_master request arg s =
     (case kh_ptys (e_heap s) i of
        None \<Rightarrow> (Inl EBADF, s)
      | Some p \<Rightarrow>
          if request = TIOCGPTN then put_result ops arg (u32_to_le (ucast (pt_id p))) s
          else if request = TCGETS then put_result ops arg (pt_termios p) s
          else if request = TIOCGWINSZ then put_result ops arg (winsize_bytes (pt_winsize p)) s
          else if request = TIOCGPGRP then put_result ops arg (u32_to_le (ucast (pt_fg_pgrp p))) s
          else pty_set_ioctl ops i is_master request arg s)"

definition cooked_termios :: bytes where
  "cooked_termios = u32_to_le 0x0500 @ u32_to_le 0x0005 @ u32_to_le 0x00bf @ u32_to_le 0x8a3b @ replicate 20 0"

definition tty_ioctl ::
  "('m, 'map, 'h) ops \<Rightarrow> u64 \<Rightarrow> u64 \<Rightarrow> ('x, 'm, 'map, 'h) mach \<Rightarrow> (errno + u64) \<times> ('x, 'm, 'map, 'h) mach" where
  "tty_ioctl ops request arg =
     (if request = TIOCGWINSZ then put_result ops arg (winsize_bytes [24, 80, 0, 0])
      else if request = TCGETS then put_result ops arg cooked_termios
      else if request \<in> {TCSETS, TCSETSW, TCSETSF, TCFLSH, TIOCSWINSZ, TIOCSPGRP, TIOCSCTTY, TIOCNOTTY} then give (Inr 0)
      else if request = TIOCGPGRP then put_result ops arg (u32_to_le (ucast INIT_PID))
      else give (Inl ENOTTY))"

definition sys_ioctl ::
  "('m, 'map, 'h) ops \<Rightarrow> u64 \<Rightarrow> u64 \<Rightarrow> u64 \<Rightarrow> ('x, 'm, 'map, 'h) mach \<Rightarrow> (errno + u64) \<times> ('x, 'm, 'map, 'h) mach" where
  "sys_ioctl ops fd request arg =
     (case fd_ioctl ops fd request arg of
        Some f \<Rightarrow> f
      | None \<Rightarrow>
          and_then (\<lambda>s. (fd_description fd s, s)) (\<lambda>(_, d).
            case d_backing d of
              BPtyMaster i \<Rightarrow> pty_ioctl ops i True request arg
            | BPtySlave i \<Rightarrow> pty_ioctl ops i False request arg
            | b \<Rightarrow> if b \<in> {BStd StdOut, BStd StdErr, BDev DevTty} then tty_ioctl ops request arg else give (Inl ENOTTY)))"

definition pty_of :: "u64 \<Rightarrow> ('x, 'm, 'map, 'h) mach \<Rightarrow> nat option" where
  "pty_of fd s =
     (case fd_description fd s of
        Inl _ \<Rightarrow> None
      | Inr (_, d) \<Rightarrow> (case d_backing d of BPtyMaster i \<Rightarrow> Some i | BPtySlave i \<Rightarrow> Some i | _ \<Rightarrow> None))"

definition outcome_ioctl ::
  "('m, 'map, 'h) ops \<Rightarrow> u64 \<Rightarrow> u64 \<Rightarrow> u64 \<Rightarrow> ('x, 'm, 'map, 'h) mach \<Rightarrow> outcome \<times> ('x, 'm, 'map, 'h) mach" where
  "outcome_ioctl ops fd request arg s =
     (case (if request \<in> {TCSETS, TCSETSW, TCSETSF, TIOCSPGRP} then pty_of fd s else None) of
        None \<Rightarrow> of_result (sys_ioctl ops fd request arg s)
      | Some i \<Rightarrow>
          (case background_tty_ioctl ops i s of
             Some r \<Rightarrow> r
           | None \<Rightarrow> of_result (sys_ioctl ops fd request arg s)))"

section \<open>Time, identity and resources\<close>

definition encode_timespec :: "u64 \<times> u64 \<Rightarrow> bytes" where
  "encode_timespec t = u64_to_le (fst t) @ u64_to_le (snd t)"

definition sys_clock_gettime ::
  "('m, 'map, 'h) ops \<Rightarrow> u64 \<Rightarrow> u64 \<Rightarrow> ('x, 'm, 'map, 'h) mach \<Rightarrow> (errno + u64) \<times> ('x, 'm, 'map, 'h) mach" where
  "sys_clock_gettime ops clock_id ts s =
     put_result ops ts (encode_timespec (if clock_id \<in> {1, 4, 7} then now_monotonic s else now_real s)) s"

definition sys_clock_getres ::
  "('m, 'map, 'h) ops \<Rightarrow> u64 \<Rightarrow> ('x, 'm, 'map, 'h) mach \<Rightarrow> (errno + u64) \<times> ('x, 'm, 'map, 'h) mach" where
  "sys_clock_getres ops res = (if res \<noteq> 0 then put_result ops res (encode_timespec (0, 1)) else give (Inr 0))"

definition sys_gettimeofday ::
  "('m, 'map, 'h) ops \<Rightarrow> u64 \<Rightarrow> ('x, 'm, 'map, 'h) mach \<Rightarrow> (errno + u64) \<times> ('x, 'm, 'map, 'h) mach" where
  "sys_gettimeofday ops tv s =
     (if tv \<noteq> 0 then let (sec, nsec) = now_real s in put_result ops tv (encode_timespec (sec, nsec div 1000)) s else (Inr 0, s))"

definition sys_time :: "('m, 'map, 'h) ops \<Rightarrow> u64 \<Rightarrow> ('x, 'm, 'map, 'h) mach \<Rightarrow> (errno + u64) \<times> ('x, 'm, 'map, 'h) mach" where
  "sys_time ops ptr s =
     (let sec = fst (now_real s) in
      if ptr \<noteq> 0 then and_then (write_mem ops ptr (u64_to_le sec)) (\<lambda>_. give (Inr sec)) s else (Inr sec, s))"

definition utsname_field :: "string \<Rightarrow> bytes" where
  "utsname_field t = (let bs = map of_char t in bs @ replicate (65 - length bs) 0)"

definition sys_uname :: "('m, 'map, 'h) ops \<Rightarrow> u64 \<Rightarrow> ('x, 'm, 'map, 'h) mach \<Rightarrow> (errno + u64) \<times> ('x, 'm, 'map, 'h) mach" where
  "sys_uname ops buf =
     put_result ops buf (concat (map utsname_field
       [''Linux'', ''webtos'', ''6.6.0-webtos'', ''#1 webTOS'', ''x86_64'', []]))"

definition sys_getrandom ::
  "('m, 'map, 'h) ops \<Rightarrow> u64 \<Rightarrow> u64 \<Rightarrow> ('x, 'm, 'map, 'h) mach \<Rightarrow> (errno + u64) \<times> ('x, 'm, 'map, 'h) mach" where
  "sys_getrandom ops buf len s =
     (let n = unat (min len 0x1000); (bs, s) = random_bytes n s
      in and_then (write_mem ops buf bs) (\<lambda>_. give (Inr (of_nat n))) s)"

definition sys_prlimit64 ::
  "('m, 'map, 'h) ops \<Rightarrow> u64 \<Rightarrow> ('x, 'm, 'map, 'h) mach \<Rightarrow> (errno + u64) \<times> ('x, 'm, 'map, 'h) mach" where
  "sys_prlimit64 ops old = (if old \<noteq> 0 then put_result ops old (replicate 16 0xff) else give (Inr 0))"

definition sysinfo_bytes :: "('m, 'map, 'h) ops \<Rightarrow> ('x, 'm, 'map, 'h) mach \<Rightarrow> bytes" where
  "sysinfo_bytes ops s =
     (let used_pages = of_nat (op_total_pages ops (m_mem s)); cap_pages = of_nat (op_capacity ops (m_mem s)) in
      put_at 104 (u32_to_le (ucast PAGE_SIZE))
        (put_at 72 (u64_to_le 1)
          (put_at 48 (u64_to_le (saturating_sub cap_pages used_pages))
            (put_at 40 (u64_to_le cap_pages)
              (put_at 0 (u64_to_le (now_nanos s div 1000000000)) (replicate 112 0))))))"

definition sys_sysinfo :: "('m, 'map, 'h) ops \<Rightarrow> u64 \<Rightarrow> ('x, 'm, 'map, 'h) mach \<Rightarrow> (errno + u64) \<times> ('x, 'm, 'map, 'h) mach" where
  "sys_sysinfo ops ptr s = (if ptr = 0 then (Inl EFAULT, s) else put_result ops ptr (sysinfo_bytes ops s) s)"

definition sys_getrusage ::
  "('m, 'map, 'h) ops \<Rightarrow> u64 \<Rightarrow> u64 \<Rightarrow> ('x, 'm, 'map, 'h) mach \<Rightarrow> (errno + u64) \<times> ('x, 'm, 'map, 'h) mach" where
  "sys_getrusage ops who ptr s =
     (if sint who \<notin> {0, -1, 1} then (Inl EINVAL, s)
      else if ptr = 0 then (Inl EFAULT, s)
      else let nanos = now_nanos s
           in put_result ops ptr (u64_to_le (nanos div 1000000000) @ u64_to_le (nanos mod 1000000000 div 1000) @ replicate 128 0) s)"

definition sys_prctl ::
  "('m, 'map, 'h) ops \<Rightarrow> u64 \<Rightarrow> u64 \<Rightarrow> ('x, 'm, 'map, 'h) mach \<Rightarrow> (errno + u64) \<times> ('x, 'm, 'map, 'h) mach" where
  "sys_prctl ops option arg =
     (if option = 15 \<or> option = 1 then give (Inr 0)
      else if option = 2 then put_result ops arg (u32_to_le 0)
      else give (Inl EINVAL))"

definition sys_sched_getaffinity ::
  "('m, 'map, 'h) ops \<Rightarrow> u64 \<Rightarrow> u64 \<Rightarrow> ('x, 'm, 'map, 'h) mach \<Rightarrow> (errno + u64) \<times> ('x, 'm, 'map, 'h) mach" where
  "sys_sched_getaffinity ops len ptr =
     (let n = min (unat len) 128 in
      if n < 8 then give (Inl EINVAL)
      else and_then (write_mem ops ptr (1 # replicate (n - 1) 0)) (\<lambda>_. give (Inr 8)))"

definition sys_close :: "u64 \<Rightarrow> ('x, 'm, 'map, 'h) mach \<Rightarrow> (errno + u64) \<times> ('x, 'm, 'map, 'h) mach" where
  "sys_close fd = and_then (on_table (\<lambda>t. table_close t fd)) (\<lambda>_ s. (Inr 0, reclaim_unlinked s))"

end
