(* ===== verification/Dispatch.thy ===== *)
theory Dispatch
  imports Misc
begin

text \<open>
  The entry of a system call, \<^verbatim>\<open>handle\<close>, \<^verbatim>\<open>dispatch\<close> and \<^verbatim>\<open>dispatch_simple\<close> of
  \<^verbatim>\<open>crates/linux-compat/src/syscall.rs\<close>, call by call. The tables have
  no value at the number of \<^verbatim>\<open>execve\<close>, whose loader is not modelled, and at a \<^verbatim>\<open>getcwd\<close> whose climb
  does not end. Environment-variable traces and the diagnostic ring of recent calls are left out.
\<close>

unbundle bit_operations_syntax

section \<open>Call numbers\<close>

definition SYS_READ :: u64 where "SYS_READ = 0"
definition SYS_WRITE :: u64 where "SYS_WRITE = 1"
definition SYS_OPEN :: u64 where "SYS_OPEN = 2"
definition SYS_CLOSE :: u64 where "SYS_CLOSE = 3"
definition SYS_STAT :: u64 where "SYS_STAT = 4"
definition SYS_FSTAT :: u64 where "SYS_FSTAT = 5"
definition SYS_LSTAT :: u64 where "SYS_LSTAT = 6"
definition SYS_POLL :: u64 where "SYS_POLL = 7"
definition SYS_LSEEK :: u64 where "SYS_LSEEK = 8"
definition SYS_MMAP :: u64 where "SYS_MMAP = 9"
definition SYS_MPROTECT :: u64 where "SYS_MPROTECT = 10"
definition SYS_MUNMAP :: u64 where "SYS_MUNMAP = 11"
definition SYS_BRK :: u64 where "SYS_BRK = 12"
definition SYS_RT_SIGACTION :: u64 where "SYS_RT_SIGACTION = 13"
definition SYS_RT_SIGPROCMASK :: u64 where "SYS_RT_SIGPROCMASK = 14"
definition SYS_RT_SIGRETURN :: u64 where "SYS_RT_SIGRETURN = 15"
definition SYS_IOCTL :: u64 where "SYS_IOCTL = 16"
definition SYS_PREAD64 :: u64 where "SYS_PREAD64 = 17"
definition SYS_PWRITE64 :: u64 where "SYS_PWRITE64 = 18"
definition SYS_READV :: u64 where "SYS_READV = 19"
definition SYS_WRITEV :: u64 where "SYS_WRITEV = 20"
definition SYS_ACCESS :: u64 where "SYS_ACCESS = 21"
definition SYS_PIPE :: u64 where "SYS_PIPE = 22"
definition SYS_SELECT :: u64 where "SYS_SELECT = 23"
definition SYS_SCHED_YIELD :: u64 where "SYS_SCHED_YIELD = 24"
definition SYS_MREMAP :: u64 where "SYS_MREMAP = 25"
definition SYS_MSYNC :: u64 where "SYS_MSYNC = 26"
definition SYS_MADVISE :: u64 where "SYS_MADVISE = 28"
definition SYS_DUP :: u64 where "SYS_DUP = 32"
definition SYS_DUP2 :: u64 where "SYS_DUP2 = 33"
definition SYS_NANOSLEEP :: u64 where "SYS_NANOSLEEP = 35"
definition SYS_GETPID :: u64 where "SYS_GETPID = 39"
definition SYS_SENDFILE :: u64 where "SYS_SENDFILE = 40"
definition SYS_SOCKET :: u64 where "SYS_SOCKET = 41"
definition SYS_CONNECT :: u64 where "SYS_CONNECT = 42"
definition SYS_ACCEPT :: u64 where "SYS_ACCEPT = 43"
definition SYS_SENDTO :: u64 where "SYS_SENDTO = 44"
definition SYS_RECVFROM :: u64 where "SYS_RECVFROM = 45"
definition SYS_SENDMSG :: u64 where "SYS_SENDMSG = 46"
definition SYS_RECVMSG :: u64 where "SYS_RECVMSG = 47"
definition SYS_SHUTDOWN :: u64 where "SYS_SHUTDOWN = 48"
definition SYS_BIND :: u64 where "SYS_BIND = 49"
definition SYS_LISTEN :: u64 where "SYS_LISTEN = 50"
definition SYS_GETSOCKNAME :: u64 where "SYS_GETSOCKNAME = 51"
definition SYS_GETPEERNAME :: u64 where "SYS_GETPEERNAME = 52"
definition SYS_SOCKETPAIR :: u64 where "SYS_SOCKETPAIR = 53"
definition SYS_SETSOCKOPT :: u64 where "SYS_SETSOCKOPT = 54"
definition SYS_GETSOCKOPT :: u64 where "SYS_GETSOCKOPT = 55"
definition SYS_CLONE :: u64 where "SYS_CLONE = 56"
definition SYS_FORK :: u64 where "SYS_FORK = 57"
definition SYS_VFORK :: u64 where "SYS_VFORK = 58"
definition SYS_EXECVE :: u64 where "SYS_EXECVE = 59"
definition SYS_EXIT :: u64 where "SYS_EXIT = 60"
definition SYS_WAIT4 :: u64 where "SYS_WAIT4 = 61"
definition SYS_KILL :: u64 where "SYS_KILL = 62"
definition SYS_UNAME :: u64 where "SYS_UNAME = 63"
definition SYS_FCNTL :: u64 where "SYS_FCNTL = 72"
definition SYS_FLOCK :: u64 where "SYS_FLOCK = 73"
definition SYS_FSYNC :: u64 where "SYS_FSYNC = 74"
definition SYS_FTRUNCATE :: u64 where "SYS_FTRUNCATE = 77"
definition SYS_GETDENTS :: u64 where "SYS_GETDENTS = 78"
definition SYS_GETCWD :: u64 where "SYS_GETCWD = 79"
definition SYS_CHDIR :: u64 where "SYS_CHDIR = 80"
definition SYS_FCHDIR :: u64 where "SYS_FCHDIR = 81"
definition SYS_RENAME :: u64 where "SYS_RENAME = 82"
definition SYS_MKDIR :: u64 where "SYS_MKDIR = 83"
definition SYS_RMDIR :: u64 where "SYS_RMDIR = 84"
definition SYS_CREAT :: u64 where "SYS_CREAT = 85"
definition SYS_LINK :: u64 where "SYS_LINK = 86"
definition SYS_UNLINK :: u64 where "SYS_UNLINK = 87"
definition SYS_SYMLINK :: u64 where "SYS_SYMLINK = 88"
definition SYS_READLINK :: u64 where "SYS_READLINK = 89"
definition SYS_CHMOD :: u64 where "SYS_CHMOD = 90"
definition SYS_FCHMOD :: u64 where "SYS_FCHMOD = 91"
definition SYS_CHOWN :: u64 where "SYS_CHOWN = 92"
definition SYS_FCHOWN :: u64 where "SYS_FCHOWN = 93"
definition SYS_LCHOWN :: u64 where "SYS_LCHOWN = 94"
definition SYS_UMASK :: u64 where "SYS_UMASK = 95"
definition SYS_GETTIMEOFDAY :: u64 where "SYS_GETTIMEOFDAY = 96"
definition SYS_GETRUSAGE :: u64 where "SYS_GETRUSAGE = 98"
definition SYS_SYSINFO :: u64 where "SYS_SYSINFO = 99"
definition SYS_GETUID :: u64 where "SYS_GETUID = 102"
definition SYS_GETGID :: u64 where "SYS_GETGID = 104"
definition SYS_GETEUID :: u64 where "SYS_GETEUID = 107"
definition SYS_GETEGID :: u64 where "SYS_GETEGID = 108"
definition SYS_SETPGID :: u64 where "SYS_SETPGID = 109"
definition SYS_GETPPID :: u64 where "SYS_GETPPID = 110"
definition SYS_GETPGRP :: u64 where "SYS_GETPGRP = 111"
definition SYS_SETSID :: u64 where "SYS_SETSID = 112"
definition SYS_GETGROUPS :: u64 where "SYS_GETGROUPS = 115"
definition SYS_GETPGID :: u64 where "SYS_GETPGID = 121"
definition SYS_SIGALTSTACK :: u64 where "SYS_SIGALTSTACK = 131"
definition SYS_PRCTL :: u64 where "SYS_PRCTL = 157"
definition SYS_ARCH_PRCTL :: u64 where "SYS_ARCH_PRCTL = 158"
definition SYS_SETRLIMIT :: u64 where "SYS_SETRLIMIT = 160"
definition SYS_SYNC :: u64 where "SYS_SYNC = 162"
definition SYS_GETTID :: u64 where "SYS_GETTID = 186"
definition SYS_TKILL :: u64 where "SYS_TKILL = 200"
definition SYS_TIME :: u64 where "SYS_TIME = 201"
definition SYS_FUTEX :: u64 where "SYS_FUTEX = 202"
definition SYS_SCHED_GETAFFINITY :: u64 where "SYS_SCHED_GETAFFINITY = 204"
definition SYS_EPOLL_CREATE :: u64 where "SYS_EPOLL_CREATE = 213"
definition SYS_GETDENTS64 :: u64 where "SYS_GETDENTS64 = 217"
definition SYS_SET_TID_ADDRESS :: u64 where "SYS_SET_TID_ADDRESS = 218"
definition SYS_CLOCK_GETTIME :: u64 where "SYS_CLOCK_GETTIME = 228"
definition SYS_CLOCK_GETRES :: u64 where "SYS_CLOCK_GETRES = 229"
definition SYS_CLOCK_NANOSLEEP :: u64 where "SYS_CLOCK_NANOSLEEP = 230"
definition SYS_EXIT_GROUP :: u64 where "SYS_EXIT_GROUP = 231"
definition SYS_EPOLL_WAIT :: u64 where "SYS_EPOLL_WAIT = 232"
definition SYS_EPOLL_CTL :: u64 where "SYS_EPOLL_CTL = 233"
definition SYS_TGKILL :: u64 where "SYS_TGKILL = 234"
definition SYS_INOTIFY_INIT :: u64 where "SYS_INOTIFY_INIT = 253"
definition SYS_INOTIFY_ADD_WATCH :: u64 where "SYS_INOTIFY_ADD_WATCH = 254"
definition SYS_INOTIFY_RM_WATCH :: u64 where "SYS_INOTIFY_RM_WATCH = 255"
definition SYS_OPENAT :: u64 where "SYS_OPENAT = 257"
definition SYS_MKDIRAT :: u64 where "SYS_MKDIRAT = 258"
definition SYS_FCHOWNAT :: u64 where "SYS_FCHOWNAT = 260"
definition SYS_NEWFSTATAT :: u64 where "SYS_NEWFSTATAT = 262"
definition SYS_UNLINKAT :: u64 where "SYS_UNLINKAT = 263"
definition SYS_RENAMEAT :: u64 where "SYS_RENAMEAT = 264"
definition SYS_LINKAT :: u64 where "SYS_LINKAT = 265"
definition SYS_SYMLINKAT :: u64 where "SYS_SYMLINKAT = 266"
definition SYS_READLINKAT :: u64 where "SYS_READLINKAT = 267"
definition SYS_FCHMODAT :: u64 where "SYS_FCHMODAT = 268"
definition SYS_FACCESSAT :: u64 where "SYS_FACCESSAT = 269"
definition SYS_PSELECT6 :: u64 where "SYS_PSELECT6 = 270"
definition SYS_PPOLL :: u64 where "SYS_PPOLL = 271"
definition SYS_SET_ROBUST_LIST :: u64 where "SYS_SET_ROBUST_LIST = 273"
definition SYS_UTIMENSAT :: u64 where "SYS_UTIMENSAT = 280"
definition SYS_EPOLL_PWAIT :: u64 where "SYS_EPOLL_PWAIT = 281"
definition SYS_TIMERFD_CREATE :: u64 where "SYS_TIMERFD_CREATE = 283"
definition SYS_EVENTFD :: u64 where "SYS_EVENTFD = 284"
definition SYS_TIMERFD_SETTIME :: u64 where "SYS_TIMERFD_SETTIME = 286"
definition SYS_TIMERFD_GETTIME :: u64 where "SYS_TIMERFD_GETTIME = 287"
definition SYS_ACCEPT4 :: u64 where "SYS_ACCEPT4 = 288"
definition SYS_EVENTFD2 :: u64 where "SYS_EVENTFD2 = 290"
definition SYS_EPOLL_CREATE1 :: u64 where "SYS_EPOLL_CREATE1 = 291"
definition SYS_DUP3 :: u64 where "SYS_DUP3 = 292"
definition SYS_PIPE2 :: u64 where "SYS_PIPE2 = 293"
definition SYS_INOTIFY_INIT1 :: u64 where "SYS_INOTIFY_INIT1 = 294"
definition SYS_PRLIMIT64 :: u64 where "SYS_PRLIMIT64 = 302"
definition SYS_GETRANDOM :: u64 where "SYS_GETRANDOM = 318"
definition SYS_STATX :: u64 where "SYS_STATX = 332"
definition SYS_RSEQ :: u64 where "SYS_RSEQ = 334"
definition SYS_CLOSE_RANGE :: u64 where "SYS_CLOSE_RANGE = 436"
definition SYS_FACCESSAT2 :: u64 where "SYS_FACCESSAT2 = 439"

lemmas sys_defs = SYS_READ_def SYS_WRITE_def SYS_OPEN_def SYS_CLOSE_def SYS_STAT_def SYS_FSTAT_def SYS_LSTAT_def SYS_POLL_def
  SYS_LSEEK_def SYS_MMAP_def SYS_MPROTECT_def SYS_MUNMAP_def SYS_BRK_def SYS_RT_SIGACTION_def SYS_RT_SIGPROCMASK_def
  SYS_RT_SIGRETURN_def SYS_IOCTL_def SYS_PREAD64_def SYS_PWRITE64_def SYS_READV_def SYS_WRITEV_def SYS_ACCESS_def
  SYS_PIPE_def SYS_SELECT_def SYS_SCHED_YIELD_def SYS_MREMAP_def SYS_MSYNC_def SYS_MADVISE_def SYS_DUP_def SYS_DUP2_def
  SYS_NANOSLEEP_def SYS_GETPID_def SYS_SENDFILE_def SYS_SOCKET_def SYS_CONNECT_def SYS_ACCEPT_def SYS_SENDTO_def
  SYS_RECVFROM_def SYS_SENDMSG_def SYS_RECVMSG_def SYS_SHUTDOWN_def SYS_BIND_def SYS_LISTEN_def SYS_GETSOCKNAME_def
  SYS_GETPEERNAME_def SYS_SOCKETPAIR_def SYS_SETSOCKOPT_def SYS_GETSOCKOPT_def SYS_CLONE_def SYS_FORK_def SYS_VFORK_def
  SYS_EXECVE_def SYS_EXIT_def SYS_WAIT4_def SYS_KILL_def SYS_UNAME_def SYS_FCNTL_def SYS_FLOCK_def SYS_FSYNC_def
  SYS_FTRUNCATE_def SYS_GETDENTS_def SYS_GETCWD_def SYS_CHDIR_def SYS_FCHDIR_def SYS_RENAME_def SYS_MKDIR_def SYS_RMDIR_def
  SYS_CREAT_def SYS_LINK_def SYS_UNLINK_def SYS_SYMLINK_def SYS_READLINK_def SYS_CHMOD_def SYS_FCHMOD_def SYS_CHOWN_def
  SYS_FCHOWN_def SYS_LCHOWN_def SYS_UMASK_def SYS_GETTIMEOFDAY_def SYS_GETRUSAGE_def SYS_SYSINFO_def SYS_GETUID_def
  SYS_GETGID_def SYS_GETEUID_def SYS_GETEGID_def SYS_SETPGID_def SYS_GETPPID_def SYS_GETPGRP_def SYS_SETSID_def
  SYS_GETGROUPS_def SYS_GETPGID_def SYS_SIGALTSTACK_def SYS_PRCTL_def SYS_ARCH_PRCTL_def SYS_SETRLIMIT_def SYS_SYNC_def
  SYS_GETTID_def SYS_TKILL_def SYS_TIME_def SYS_FUTEX_def SYS_SCHED_GETAFFINITY_def SYS_EPOLL_CREATE_def SYS_GETDENTS64_def
  SYS_SET_TID_ADDRESS_def SYS_CLOCK_GETTIME_def SYS_CLOCK_GETRES_def SYS_CLOCK_NANOSLEEP_def SYS_EXIT_GROUP_def
  SYS_EPOLL_WAIT_def SYS_EPOLL_CTL_def SYS_TGKILL_def SYS_INOTIFY_INIT_def SYS_INOTIFY_ADD_WATCH_def SYS_INOTIFY_RM_WATCH_def
  SYS_OPENAT_def SYS_MKDIRAT_def SYS_FCHOWNAT_def SYS_NEWFSTATAT_def SYS_UNLINKAT_def SYS_RENAMEAT_def SYS_LINKAT_def
  SYS_SYMLINKAT_def SYS_READLINKAT_def SYS_FCHMODAT_def SYS_FACCESSAT_def SYS_PSELECT6_def SYS_PPOLL_def
  SYS_SET_ROBUST_LIST_def SYS_UTIMENSAT_def SYS_EPOLL_PWAIT_def SYS_TIMERFD_CREATE_def SYS_EVENTFD_def
  SYS_TIMERFD_SETTIME_def SYS_TIMERFD_GETTIME_def SYS_ACCEPT4_def SYS_EVENTFD2_def SYS_EPOLL_CREATE1_def SYS_DUP3_def
  SYS_PIPE2_def SYS_INOTIFY_INIT1_def SYS_PRLIMIT64_def SYS_GETRANDOM_def SYS_STATX_def SYS_RSEQ_def SYS_CLOSE_RANGE_def
  SYS_FACCESSAT2_def

definition TIMER_ABSTIME :: u64 where "TIMER_ABSTIME = 1"

section \<open>Descriptor calls on the machine\<close>

definition fd_pair_bytes :: "u64 \<Rightarrow> u64 \<Rightarrow> bytes" where
  "fd_pair_bytes a b = u32_to_le (ucast a) @ u32_to_le (ucast b)"

definition sys_pipe ::
  "('m, 'map, 'h) ops \<Rightarrow> u64 \<Rightarrow> u64 \<Rightarrow> ('x, 'm, 'map, 'h) mach \<Rightarrow> (errno + u64) \<times> ('x, 'm, 'map, 'h) mach" where
  "sys_pipe ops fds_ptr flags s =
     (let (r, h) = pipe_fds (p_fds (e_proc s)) flags (e_heap s); s = s\<lparr>e_heap := h\<rparr> in
      case r of
        Inl e \<Rightarrow> (Inl e, s)
      | Inr (read_fd, write_fd) \<Rightarrow>
          (case write_mem ops fds_ptr (fd_pair_bytes read_fd write_fd) s of
             (Inl e, s) \<Rightarrow>
               (Inl e, with_heap (\<lambda>h. snd (table_close (p_fds (e_proc s)) write_fd (snd (table_close (p_fds (e_proc s)) read_fd h)))) s)
           | (Inr _, s) \<Rightarrow> (Inr 0, s)))"

definition sys_socketpair ::
  "('m, 'map, 'h) ops \<Rightarrow> u64 \<Rightarrow> u64 \<Rightarrow> u64 \<Rightarrow> ('x, 'm, 'map, 'h) mach \<Rightarrow> (errno + u64) \<times> ('x, 'm, 'map, 'h) mach" where
  "sys_socketpair ops domain sock_type sv s =
     (let (r, h) = socketpair_fds (p_fds (e_proc s)) domain sock_type (e_heap s); s = s\<lparr>e_heap := h\<rparr> in
      case r of
        Inl e \<Rightarrow> (Inl e, s)
      | Inr (fd_a, fd_b) \<Rightarrow>
          (case write_mem ops sv (fd_pair_bytes fd_a fd_b) s of (Inl e, s) \<Rightarrow> (Inl e, s) | (Inr _, s) \<Rightarrow> (Inr 0, s)))"

definition sys_fcntl ::
  "('m, 'map, 'h) ops \<Rightarrow> u64 \<Rightarrow> u64 \<Rightarrow> u64 \<Rightarrow> ('x, 'm, 'map, 'h) mach \<Rightarrow> (errno + u64) \<times> ('x, 'm, 'map, 'h) mach" where
  "sys_fcntl ops fd cmd arg s =
     (case fcntl_heap (p_fds (e_proc s)) fd cmd arg (e_heap s) of
        (FcDone r, h) \<Rightarrow> (r, s\<lparr>e_heap := h\<rparr>)
      | (FcGetlk, h) \<Rightarrow>
          (case write_mem ops arg (u16_to_le F_UNLCK) (s\<lparr>e_heap := h\<rparr>) of
             (Inl e, s) \<Rightarrow> (Inl e, s)
           | (Inr _, s) \<Rightarrow>
               (case write_mem ops (arg + 24) (u32_to_le 0) s of (Inl e, s) \<Rightarrow> (Inl e, s) | (Inr _, s) \<Rightarrow> (Inr 0, s))))"

definition sys_arch_prctl ::
  "('m, 'map, 'h) ops \<Rightarrow> u64 \<Rightarrow> u64 \<Rightarrow> ('x, 'm, 'map, 'h) mach \<Rightarrow> (errno + u64) \<times> ('x, 'm, 'map, 'h) mach" where
  "sys_arch_prctl ops op arg s =
     (if op = ARCH_SET_FS then (Inr 0, with_cpu (\<lambda>c. c\<lparr>c_fs_offset := arg\<rparr>) s)
      else if op = ARCH_GET_FS
      then (case write_mem ops arg (u64_to_le (c_fs_offset (m_cpu s))) s of (Inl e, s) \<Rightarrow> (Inl e, s) | (Inr _, s) \<Rightarrow> (Inr 0, s))
      else (Inl EINVAL, s))"

section \<open>The tables of calls\<close>

record args =
  a0 :: u64
  a1 :: u64
  a2 :: u64
  a3 :: u64
  a4 :: u64
  a5 :: u64

text \<open>The arms of \<^verbatim>\<open>dispatch_simple\<close>, in its order and in its groups: files, descriptors, sockets and event
  descriptors, memory, and the rest. \<open>None\<close> passes a number on to the next group.\<close>

definition file_call ::
  "('m, 'map, 'h) ops \<Rightarrow> u64 \<Rightarrow> args \<Rightarrow> ('x, 'm, 'map, 'h) mach \<Rightarrow> ((errno + u64) \<times> ('x, 'm, 'map, 'h) mach) option" where
  "file_call ops nr a s =
     (if nr = SYS_OPEN then Some (sys_openat ops AT_FDCWD (a0 a) (a1 a) (a2 a) s)
      else if nr = SYS_CREAT then Some (sys_openat ops AT_FDCWD (a0 a) (O_WRONLY OR O_CREAT OR O_TRUNC) (a1 a) s)
      else if nr = SYS_OPENAT then Some (sys_openat ops (a0 a) (a1 a) (a2 a) (a3 a) s)
      else if nr = SYS_CLOSE then Some (sys_close (a0 a) s)
      else if nr = SYS_LSEEK then Some (sys_lseek (a0 a) (a1 a) (a2 a) s)
      else if nr = SYS_GETDENTS64 then Some (sys_getdents64 ops (a0 a) (a1 a) (a2 a) s)
      else if nr = SYS_GETDENTS then Some (Inl ENOSYS, s)
      else if nr = SYS_STAT then Some (sys_statpath ops AT_FDCWD (a0 a) (a1 a) True s)
      else if nr = SYS_LSTAT then Some (sys_statpath ops AT_FDCWD (a0 a) (a1 a) False s)
      else if nr = SYS_FSTAT then Some (sys_fstat ops (a0 a) (a1 a) s)
      else if nr = SYS_NEWFSTATAT then Some (sys_newfstatat ops (a0 a) (a1 a) (a2 a) (a3 a) s)
      else if nr = SYS_STATX then Some (sys_statx ops (a0 a) (a1 a) (a2 a) (a4 a) s)
      else if nr = SYS_ACCESS then Some (sys_faccessat ops AT_FDCWD (a0 a) s)
      else if nr = SYS_FACCESSAT \<or> nr = SYS_FACCESSAT2 then Some (sys_faccessat ops (a0 a) (a1 a) s)
      else if nr = SYS_READLINK then Some (sys_readlinkat ops AT_FDCWD (a0 a) (a1 a) (a2 a) s)
      else if nr = SYS_READLINKAT then Some (sys_readlinkat ops (a0 a) (a1 a) (a2 a) (a3 a) s)
      else if nr = SYS_MKDIR then Some (sys_mkdirat ops AT_FDCWD (a0 a) (a1 a) s)
      else if nr = SYS_MKDIRAT then Some (sys_mkdirat ops (a0 a) (a1 a) (a2 a) s)
      else if nr = SYS_RMDIR then Some (sys_unlinkat ops AT_FDCWD (a0 a) AT_REMOVEDIR s)
      else if nr = SYS_UNLINK then Some (sys_unlinkat ops AT_FDCWD (a0 a) 0 s)
      else if nr = SYS_UNLINKAT then Some (sys_unlinkat ops (a0 a) (a1 a) (a2 a) s)
      else if nr = SYS_RENAME then Some (sys_renameat ops AT_FDCWD (a0 a) AT_FDCWD (a1 a) s)
      else if nr = SYS_RENAMEAT then Some (sys_renameat ops (a0 a) (a1 a) (a2 a) (a3 a) s)
      else if nr = SYS_LINK then Some (sys_linkat ops AT_FDCWD (a0 a) AT_FDCWD (a1 a) s)
      else if nr = SYS_LINKAT then Some (sys_linkat ops (a0 a) (a1 a) (a2 a) (a3 a) s)
      else if nr = SYS_SYMLINK then Some (sys_symlinkat ops (a0 a) AT_FDCWD (a1 a) s)
      else if nr = SYS_SYMLINKAT then Some (sys_symlinkat ops (a0 a) (a1 a) (a2 a) s)
      else if nr = SYS_CHDIR then Some (sys_chdir ops (a0 a) s)
      else if nr = SYS_FCHDIR then Some (sys_fchdir (a0 a) s)
      else if nr = SYS_GETCWD then sys_getcwd ops (a0 a) (a1 a) s
      else if nr = SYS_CHMOD then Some (sys_chmodat ops AT_FDCWD (a0 a) (a1 a) s)
      else if nr = SYS_FCHMODAT then Some (sys_chmodat ops (a0 a) (a1 a) (a2 a) s)
      else if nr = SYS_FCHMOD then Some (sys_fchmod (a0 a) (a1 a) s)
      else if nr = SYS_CHOWN \<or> nr = SYS_LCHOWN \<or> nr = SYS_FCHOWNAT then Some (Inr 0, s)
      else if nr = SYS_FCHOWN
      then Some (case fds_get (table_at (p_fds (e_proc s)) (e_heap s)) (a0 a) of Inl e \<Rightarrow> (Inl e, s) | Inr _ \<Rightarrow> (Inr 0, s))
      else if nr = SYS_UTIMENSAT then Some (sys_utimensat ops (a0 a) (a1 a) (a2 a) (a3 a) s)
      else None)"

definition fd_call ::
  "('m, 'map, 'h) ops \<Rightarrow> u64 \<Rightarrow> args \<Rightarrow> ('x, 'm, 'map, 'h) mach \<Rightarrow> ((errno + u64) \<times> ('x, 'm, 'map, 'h) mach) option" where
  "fd_call ops nr a s =
     (if nr = SYS_UMASK then Some (Inr (ucast (p_umask (e_proc s))), with_proc (\<lambda>p. p\<lparr>p_umask := ucast (a0 a) AND 511\<rparr>) s)
      else if nr = SYS_DUP then Some (on_table (\<lambda>t. sys_dup t (a0 a) 0 False) s)
      else if nr = SYS_DUP2 then Some (on_table (\<lambda>t. sys_dup2 t (a0 a) (a1 a) False) s)
      else if nr = SYS_DUP3
      then Some (if a0 a = a1 a then (Inl EINVAL, s) else on_table (\<lambda>t. sys_dup2 t (a0 a) (a1 a) (a2 a AND O_CLOEXEC \<noteq> 0)) s)
      else if nr = SYS_FCNTL then Some (sys_fcntl ops (a0 a) (a1 a) (a2 a) s)
      else if nr = SYS_FSYNC \<or> nr = SYS_SYNC \<or> nr = SYS_FLOCK then Some (Inr 0, s)
      else if nr = SYS_SOCKET then Some (sys_socket (a0 a) (a1 a) s)
      else if nr = SYS_CONNECT then Some (sys_connect ops (a0 a) (a1 a) (a2 a) s)
      else if nr = SYS_SHUTDOWN then Some (sys_shutdown ops (a0 a) (a1 a) s)
      else if nr = SYS_GETPEERNAME then Some (sys_getpeername ops (a0 a) (a1 a) (a2 a) s)
      else if nr = SYS_GETSOCKNAME then Some (sys_getsockname ops (a0 a) (a1 a) (a2 a) s)
      else if nr = SYS_SETSOCKOPT then Some (with_net (a0 a) (\<lambda>_. give (Inr 0)) s)
      else if nr = SYS_GETSOCKOPT then Some (sys_getsockopt ops (a0 a) (a3 a) (a4 a) s)
      else if nr = SYS_SOCKETPAIR then Some (sys_socketpair ops (a0 a) (a1 a) (a3 a) s)
      else if nr = SYS_BIND then Some (sys_bind ops (a1 a) (a2 a) s)
      else if nr = SYS_LISTEN \<or> nr = SYS_ACCEPT \<or> nr = SYS_ACCEPT4 then Some (Inl EOPNOTSUPP, s)
      else if nr = SYS_EVENTFD then Some (on_table (\<lambda>t. sys_eventfd t (a0 a) 0) s)
      else if nr = SYS_EVENTFD2 then Some (on_table (\<lambda>t. sys_eventfd t (a0 a) (a1 a)) s)
      else if nr = SYS_INOTIFY_INIT then Some (sys_inotify_init 0 s)
      else if nr = SYS_INOTIFY_INIT1 then Some (sys_inotify_init (a0 a) s)
      else if nr = SYS_INOTIFY_ADD_WATCH then Some (sys_inotify_add_watch ops (a0 a) (a1 a) (a2 a) s)
      else if nr = SYS_INOTIFY_RM_WATCH then Some (sys_inotify_rm_watch (a0 a) (a1 a) s)
      else if nr = SYS_TIMERFD_CREATE then Some (on_table (\<lambda>t. sys_timerfd_create t (a1 a)) s)
      else if nr = SYS_TIMERFD_SETTIME then Some (sys_timerfd_settime ops (a0 a) (a1 a) (a2 a) (a3 a) s)
      else if nr = SYS_TIMERFD_GETTIME then Some (sys_timerfd_gettime ops (a0 a) (a1 a) s)
      else if nr = SYS_EPOLL_CREATE \<or> nr = SYS_EPOLL_CREATE1 then Some (on_table (\<lambda>t. sys_epoll_create t (a1 a)) s)
      else if nr = SYS_EPOLL_CTL then Some (sys_epoll_ctl ops (a0 a) (a1 a) (a2 a) (a3 a) s)
      else None)"

definition memory_call ::
  "('m, 'map, 'h) ops \<Rightarrow> u64 \<Rightarrow> args \<Rightarrow> ('x, 'm, 'map, 'h) mach \<Rightarrow> ((errno + u64) \<times> ('x, 'm, 'map, 'h) mach) option" where
  "memory_call ops nr a s =
     (if nr = SYS_MMAP then Some (sys_mmap ops (a0 a) (a1 a) (a2 a) (a3 a) (a4 a) (a5 a) s)
      else if nr = SYS_MSYNC then Some (sys_msync ops (a0 a) (a1 a) s)
      else if nr = SYS_MUNMAP then Some (sys_munmap ops (a0 a) (a1 a) s)
      else if nr = SYS_MPROTECT then Some (sys_mprotect ops (a0 a) (a1 a) (a2 a) s)
      else if nr = SYS_MREMAP then Some (sys_mremap ops (a0 a) (a1 a) (a2 a) (a3 a) s)
      else if nr = SYS_MADVISE then Some (Inr 0, s)
      else if nr = SYS_BRK then Some (sys_brk ops (a0 a) s)
      else None)"

definition process_call ::
  "('m, 'map, 'h) ops \<Rightarrow> u64 \<Rightarrow> args \<Rightarrow> ('x, 'm, 'map, 'h) mach \<Rightarrow> (errno + u64) \<times> ('x, 'm, 'map, 'h) mach" where
  "process_call ops nr a s =
     (let p = e_proc s in
      if nr = SYS_RT_SIGACTION then sys_rt_sigaction ops (a0 a) (a1 a) (a2 a) s
      else if nr = SYS_SIGALTSTACK then sys_sigaltstack ops (a0 a) (a1 a) s
      else if nr = SYS_ARCH_PRCTL then sys_arch_prctl ops (a0 a) (a1 a) s
      else if nr = SYS_UNAME then sys_uname ops (a0 a) s
      else if nr = SYS_GETRANDOM then sys_getrandom ops (a0 a) (a1 a) s
      else if nr = SYS_CLOCK_GETTIME then sys_clock_gettime ops (a0 a) (a1 a) s
      else if nr = SYS_CLOCK_GETRES then sys_clock_getres ops (a1 a) s
      else if nr = SYS_GETTIMEOFDAY then sys_gettimeofday ops (a0 a) s
      else if nr = SYS_TIME then sys_time ops (a0 a) s
      else if nr = SYS_GETPID then (Inr (p_tgid p), s)
      else if nr = SYS_GETPGRP then (Inr (p_pgid p), s)
      else if nr = SYS_GETPGID then (sys_getpgid (a0 a) s, s)
      else if nr = SYS_SETPGID then sys_setpgid (a0 a) (a1 a) s
      else if nr = SYS_GETTID then (Inr (p_pid p), s)
      else if nr = SYS_GETPPID then (Inr (p_ppid p), s)
      else if nr = SYS_GETUID \<or> nr = SYS_GETGID \<or> nr = SYS_GETEUID \<or> nr = SYS_GETEGID \<or> nr = SYS_GETGROUPS then (Inr 0, s)
      else if nr = SYS_SETSID then (Inr (p_tgid p), snd (set_group_pgid (p_tgid p) (p_tgid p) s))
      else if nr = SYS_SET_TID_ADDRESS then (Inr (p_pid p), with_proc (\<lambda>p. p\<lparr>p_clear_child_tid := a0 a\<rparr>) s)
      else if nr = SYS_PRLIMIT64 then sys_prlimit64 ops (a3 a) s
      else if nr = SYS_SETRLIMIT then (Inr 0, s)
      else if nr = SYS_PRCTL then sys_prctl ops (a0 a) (a1 a) s
      else if nr = SYS_SCHED_GETAFFINITY then sys_sched_getaffinity ops (a1 a) (a2 a) s
      else if nr = SYS_SET_ROBUST_LIST \<or> nr = SYS_RSEQ then (Inl ENOSYS, s)
      else if nr = SYS_SYSINFO then sys_sysinfo ops (a0 a) s
      else if nr = SYS_GETRUSAGE then sys_getrusage ops (a0 a) (a1 a) s
      else if nr = SYS_CLOSE_RANGE then on_table (\<lambda>t. sys_close_range t (a0 a) (a1 a) (a2 a)) s
      else (Inl ENOSYS, s))"

definition dispatch_simple ::
  "('m, 'map, 'h) ops \<Rightarrow> u64 \<Rightarrow> args \<Rightarrow> ('x, 'm, 'map, 'h) mach \<Rightarrow> ((errno + u64) \<times> ('x, 'm, 'map, 'h) mach) option" where
  "dispatch_simple ops nr a s =
     (if nr = SYS_GETCWD then file_call ops nr a s
      else case file_call ops nr a s of
          Some r \<Rightarrow> Some r
        | None \<Rightarrow>
            (case fd_call ops nr a s of
               Some r \<Rightarrow> Some r
             | None \<Rightarrow> (case memory_call ops nr a s of Some r \<Rightarrow> Some r | None \<Rightarrow> Some (process_call ops nr a s))))"

text \<open>The calls that move bytes or wait.\<close>

definition io_call ::
  "('m, 'map, 'h) ops \<Rightarrow> u64 \<Rightarrow> args \<Rightarrow> ('x, 'm, 'map, 'h) mach \<Rightarrow> (outcome \<times> ('x, 'm, 'map, 'h) mach) option" where
  "io_call ops nr a s =
     (if nr = SYS_READ then Some (outcome_read ops (a0 a) (a1 a) (a2 a) s)
      else if nr = SYS_PREAD64 then Some (sys_pread ops (a0 a) (a1 a) (a2 a) (a3 a) s)
      else if nr = SYS_WRITE then Some (outcome_write ops (a0 a) (a1 a) (a2 a) s)
      else if nr = SYS_PWRITE64 then Some (sys_pwrite ops (a0 a) (a1 a) (a2 a) (a3 a) s)
      else if nr = SYS_FTRUNCATE then Some (sys_ftruncate ops (a0 a) (a1 a) s)
      else if nr = SYS_READV then Some (outcome_vectored ops (a0 a) (a1 a) (a2 a) False s)
      else if nr = SYS_WRITEV then Some (outcome_vectored ops (a0 a) (a1 a) (a2 a) True s)
      else if nr = SYS_IOCTL then Some (outcome_ioctl ops (a0 a) (a1 a) (a2 a) s)
      else if nr = SYS_POLL then Some (outcome_poll ops (a0 a) (a1 a) (a2 a) False s)
      else if nr = SYS_PPOLL then Some (outcome_poll ops (a0 a) (a1 a) (a2 a) True s)
      else if nr = SYS_SENDTO then Some (sys_sendto ops (a0 a) (a1 a) (a2 a) (a4 a) (a5 a) s)
      else if nr = SYS_RECVFROM then Some (sys_recvfrom ops (a0 a) (a1 a) (a2 a) (a4 a) (a5 a) s)
      else if nr = SYS_SENDMSG then Some (sys_sendmsg ops (a0 a) (a1 a) s)
      else if nr = SYS_RECVMSG then Some (sys_recvmsg ops (a0 a) (a1 a) s)
      else if nr = SYS_EPOLL_WAIT \<or> nr = SYS_EPOLL_PWAIT then Some (sys_epoll_wait ops (a0 a) (a1 a) (a2 a) (a3 a) s)
      else if nr = SYS_SELECT then Some (sys_select ops (a0 a) (a1 a) (a2 a) (a3 a) (a4 a) False s)
      else if nr = SYS_PSELECT6 then Some (sys_select ops (a0 a) (a1 a) (a2 a) (a3 a) (a4 a) True s)
      else if nr = SYS_SENDFILE then Some (sys_sendfile ops (a0 a) (a1 a) (a2 a) (a3 a) s)
      else None)"

definition dispatch ::
  "('m, 'map, 'h) ops \<Rightarrow> u64 \<Rightarrow> args \<Rightarrow> ('x, 'm, 'map, 'h) mach \<Rightarrow> (outcome \<times> ('x, 'm, 'map, 'h) mach) option" where
  "dispatch ops nr a s =
     (if nr = SYS_EXIT then Some (task_exit ops (encode_exit_status (a0 a)) False s)
      else if nr = SYS_EXIT_GROUP then Some (task_exit ops (encode_exit_status (a0 a)) True s)
      else if nr = SYS_FORK then Some (sys_clone_impl ops clone_fork s)
      else if nr = SYS_VFORK then Some (sys_clone_impl ops clone_vfork s)
      else if nr = SYS_CLONE then Some (sys_clone_impl ops (from_clone_args (a0 a) (a1 a) (a2 a) (a3 a) (a4 a)) s)
      else if nr = SYS_WAIT4 then Some (sys_wait4 ops (a0 a) (a1 a) (a2 a) s)
      else if nr = SYS_PIPE then Some (of_result (sys_pipe ops (a0 a) 0 s))
      else if nr = SYS_PIPE2 then Some (of_result (sys_pipe ops (a0 a) (a1 a) s))
      else if nr = SYS_FUTEX then Some (sys_futex ops (a0 a) (a1 a) (a2 a) (a3 a) s)
      else if nr = SYS_RT_SIGRETURN then Some (sys_rt_sigreturn ops s)
      else if nr = SYS_RT_SIGPROCMASK then Some (sys_rt_sigprocmask ops (a0 a) (a1 a) (a2 a) s)
      else if nr = SYS_SCHED_YIELD then Some (sys_yield ops s)
      else if nr = SYS_KILL then Some (sys_kill ops (a0 a) (a1 a) s)
      else if nr = SYS_TGKILL then Some (sys_kill ops (a1 a) (a2 a) s)
      else if nr = SYS_TKILL then Some (sys_kill ops (a0 a) (a1 a) s)
      else if nr = SYS_NANOSLEEP then Some (outcome_nanosleep ops (a0 a) False s)
      else if nr = SYS_CLOCK_NANOSLEEP then Some (outcome_nanosleep ops (a2 a) (a1 a AND TIMER_ABSTIME \<noteq> 0) s)
      else if nr = SYS_EXECVE then None
      else case io_call ops nr a s of Some r \<Rightarrow> Some r | None \<Rightarrow> map_option of_result (dispatch_simple ops nr a s))"

section \<open>Kernel entry\<close>

definition syscall_args :: "'x cpu \<Rightarrow> args" where
  "syscall_args c = \<lparr>a0 = c_rdi c, a1 = c_rsi c, a2 = c_rdx c, a3 = c_r10 c, a4 = c_r8 c, a5 = c_r9 c\<rparr>"

definition trace_syscall ::
  "'x cpu \<Rightarrow> u64 \<Rightarrow> syscall_result \<Rightarrow> ('x, 'm, 'map, 'h) mach \<Rightarrow> ('x, 'm, 'map, 'h) mach" where
  "trace_syscall c pid r =
     trace_event (EvSyscall (c_icount c) pid (c_rax c) [c_rdi c, c_rsi c, c_rdx c, c_r10 c, c_r8 c, c_r9 c] r)"

definition finish ::
  "'x cpu \<Rightarrow> u64 \<Rightarrow> outcome \<times> ('x, 'm, 'map, 'h) mach \<Rightarrow> vm_exit option \<times> ('x, 'm, 'map, 'h) mach" where
  "finish c pid r =
     (case r of
        (ORet v, s) \<Rightarrow>
          if v = Inl PAGE_IN_RESTART then (Some Interrupted, s)
          else let w = (case v of Inr w \<Rightarrow> w | Inl e \<Rightarrow> neg e);
                   s = trace_syscall c pid (SrValue w) (with_cpu (\<lambda>c. c\<lparr>c_rax := w\<rparr>) s)
               in (None, with_cpu (\<lambda>c. c\<lparr>c_exception := (ExternalAddr, c_next_pc c)\<rparr>) s)
      | (Switched, s) \<Rightarrow> (None, trace_syscall c pid SrBlocked s)
      | (Exit e, s) \<Rightarrow> (Some e, trace_syscall c pid SrNoReturn s))"

definition exit_of :: "outcome \<times> ('x, 'm, 'map, 'h) mach \<Rightarrow> vm_exit option \<times> ('x, 'm, 'map, 'h) mach" where
  "exit_of r = (case fst r of Exit e \<Rightarrow> (Some e, snd r) | _ \<Rightarrow> (None, snd r))"

definition handle ::
  "('m, 'map, 'h) ops \<Rightarrow> ('x, 'm, 'map, 'h) mach \<Rightarrow> (vm_exit option \<times> ('x, 'm, 'map, 'h) mach) option" where
  "handle ops s =
     (let c = m_cpu s; pid = p_pid (e_proc s) in
      case pending_signal_action s of
        (SaTerminate sig, s) \<Rightarrow> Some (exit_of (task_exit ops (ucast sig) True s))
      | (SaStop sig, s) \<Rightarrow> Some (exit_of (stop_thread_group ops sig True s))
      | (_, s) \<Rightarrow> map_option (finish c pid) (dispatch ops (c_rax c) (syscall_args c) s))"

end
