(* ===== verification/Frame.thy ===== *)
theory Frame
  imports SchedProps Dispatch
begin

text \<open>
  What the calls on files, descriptors, memory and sockets leave alone: none of them changes the groups
  of the machine, the group that runs or its identity, unless it blocks. The frame is an equation on
  \<open>group_view\<close>, which the simplifier carries through the steps of a handler.
\<close>

unbundle bit_operations_syntax

section \<open>The view and the steps\<close>

definition group_view :: "('x, 'm, 'map, 'h) mach \<Rightarrow> 'map groups \<times> u64" where
  "group_view s = (groups s, p_tgid (e_proc s))"

definition view_ok :: "'map groups \<times> u64 \<Rightarrow> bool" where
  "view_ok v \<longleftrightarrow> groups_ok (fst v) \<and> snd v = snd (snd (fst v))"

lemma running_view: "running_ok s \<longleftrightarrow> view_ok (group_view s)"
  by (simp add: running_ok_def spaces_ok_def view_ok_def group_view_def groups_def)

lemma same_groups_view: "same_groups s s' \<longleftrightarrow> group_view s' = group_view s"
  by (simp add: same_groups_def group_view_def)

named_theorems frame

lemma view_fields [frame]:
  "group_view (s\<lparr>e_heap := h\<rparr>) = group_view s" "group_view (s\<lparr>e_vfs := v\<rparr>) = group_view s"
  "group_view (s\<lparr>m_mem := m\<rparr>) = group_view s" "group_view (s\<lparr>m_cpu := c\<rparr>) = group_view s"
  "group_view (s\<lparr>e_pager := p\<rparr>) = group_view s" "group_view (s\<lparr>e_host := host\<rparr>) = group_view s"
  "group_view (s\<lparr>e_panicked := b\<rparr>) = group_view s" "group_view (s\<lparr>e_inotify := is\<rparr>) = group_view s"
  "group_view (s\<lparr>e_inotify_cookie := k\<rparr>) = group_view s" "group_view (s\<lparr>e_shared_maps := sm\<rparr>) = group_view s"
  "group_view (s\<lparr>e_opened_files := fs\<rparr>) = group_view s" "group_view (s\<lparr>e_rng_state := r\<rparr>) = group_view s"
  "group_view (s\<lparr>e_output := out\<rparr>) = group_view s" "group_view (s\<lparr>e_secret_handles := sh\<rparr>) = group_view s"
  "group_view (s\<lparr>e_secret_nodes := sn\<rparr>) = group_view s" "group_view (s\<lparr>e_ptys := ps\<rparr>) = group_view s"
  "group_view (s\<lparr>e_next_pty_id := n\<rparr>) = group_view s" "group_view (s\<lparr>e_file_chunk_wait := w\<rparr>) = group_view s"
  "group_view (s\<lparr>e_next_file_ticket := n\<rparr>) = group_view s" "group_view (s\<lparr>e_page_in_wait := b\<rparr>) = group_view s"
  "group_view (s\<lparr>e_proc := (e_proc s)\<lparr>p_cwd := d\<rparr>\<rparr>) = group_view s"
  "group_view (s\<lparr>e_proc := (e_proc s)\<lparr>p_umask := u\<rparr>\<rparr>) = group_view s"
  "group_view (s\<lparr>e_proc := (e_proc s)\<lparr>p_clear_child_tid := t\<rparr>\<rparr>) = group_view s"
  by (simp_all add: group_view_def groups_def)

lemma view_copy: "copy_only s s' \<Longrightarrow> group_view s' = group_view s"
  using same_groups_copy same_groups_view by blast

lemma copy_only_cstr: "cstr_loop ops maxlen cursor out s = (r, s') \<Longrightarrow> copy_only s s'"
proof (induction ops maxlen cursor out s arbitrary: r s' rule: cstr_loop.induct)
  case (1 ops maxlen cursor out s)
  let ?k = "cstr_take cursor (maxlen - length out)"
  obtain q t where t: "host_touch ops cursor ?k AccRead s = (q, t)" by fastforce
  note touch = copy_only_touch [OF t]
  show ?case
    using 1(2) touch copy_only_trans [OF touch 1(1) [OF _ refl t [symmetric]]]
    unfolding cstr_loop.simps [of ops maxlen cursor out s] Let_def t
    by (auto split: if_splits sum.splits option.splits)
qed

lemma copy_only_read_cstr: "read_cstr ops a s = (r, s') \<Longrightarrow> copy_only s s'"
  unfolding read_cstr_def read_cstr_limit_def by (rule copy_only_cstr)

lemma view_memory [frame]:
  "group_view (snd (read_mem ops a n s)) = group_view s" "group_view (snd (write_mem ops a bs s)) = group_view s"
  "group_view (snd (host_touch ops a n k s)) = group_view s" "group_view (snd (read_cstr ops a s)) = group_view s"
  by (rule view_copy; rule copy_only_read copy_only_write copy_only_touch copy_only_read_cstr; rule surjective_pairing)+

lemma view_and_then [frame]:
  "group_view (snd (f s)) = group_view s \<Longrightarrow> (\<And>x u. group_view (snd (g x u)) = group_view u) \<Longrightarrow>
   group_view (snd (and_then f g s)) = group_view s"
  by (cases "f s") (auto simp: and_then_def split: sum.splits)

lemma view_give [frame]: "group_view (snd (give r s)) = group_view s"
  by (simp add: give_def)

lemma view_steps [frame]:
  "group_view (snd (on_vfs f s)) = group_view s" "group_view (snd (in_vfs g s)) = group_view s"
  "group_view (snd (on_table k s)) = group_view s"
  by (auto simp: on_vfs_def in_vfs_def on_table_def case_prod_beta frame split: prod.splits sum.splits fault.splits)

lemma view_pgrp [frame]: "group_view (deliver_signal_to_pgrp g sig s) = group_view s"
  using same_groups_pgrp same_groups_view by blast

lemma view_fold: "(\<And>x u. group_view (f x u) = group_view u) \<Longrightarrow> group_view (fold f xs s) = group_view s"
  by (induction xs arbitrary: s) simp_all

section \<open>Files\<close>

lemma view_drop_secrets: "group_view (fold drop_secret ks s) = group_view s"
  by (rule view_fold) (simp add: drop_secret_def frame split: option.splits)

lemma view_reclaim [frame]: "group_view (reclaim_unlinked s) = group_view s"
  by (simp add: reclaim_unlinked_def Let_def view_drop_secrets frame)

lemma view_notify [frame]: "group_view (notify_inotify node name msk cookie s) = group_view s"
  "group_view (notify_self i msk s) = group_view s" "group_view (snd (next_inotify_cookie s)) = group_view s"
  by (simp_all add: notify_inotify_def notify_self_def next_inotify_cookie_def Let_def frame split: option.splits)

lemma view_add_file [frame]: "group_view (snd (add_file path data mode s)) = group_view s"
proof -
  obtain r t where t: "on_vfs (add_node path (File data) mode) s = (r, t)" by fastforce
  have "group_view t = group_view s" using view_steps(1) [of "add_node path (File data) mode" s] by (simp add: t)
  then show ?thesis by (auto simp: add_file_def t frame split: sum.splits)
qed

lemma view_procfs [frame]: "group_view (refresh_procfs ops path s) = group_view s"
  by (auto simp: refresh_procfs_def Let_def frame split: option.splits run.splits prod.splits)

lemma view_resolve [frame]:
  "group_view (snd (resolve_arg ops d p fl s)) = group_view s" "group_view (snd (resolve_node ops d p fl s)) = group_view s"
  by (simp_all add: resolve_node_def resolve_arg_def frame)

lemma view_description [frame]: "group_view (set_description i d s) = group_view s"
  by (simp add: set_description_def frame)

lemma view_open_parts [frame]:
  "group_view (snd (install_open b flags s)) = group_view s" "group_view (snd (open_slave p c flags s)) = group_view s"
  "group_view (snd (pty_open_master s)) = group_view s" "group_view (snd (open_node r flags mode s)) = group_view s"
  by (auto simp: install_open_def open_slave_def pty_open_master_def open_node_def Let_def frame split: option.splits)

lemma view_open_backing [frame]: "group_view (snd (open_backing node flags s)) = group_view s"
  by (auto simp: open_backing_def case_prod_beta frame split: node_kind.splits dev.splits)

lemma view_openat [frame]: "group_view (snd (sys_openat ops dirfd p flags mode s)) = group_view s"
  by (auto simp: sys_openat_def open_resolved_def open_plain_def Let_def frame split: option.splits)

lemma view_lseek [frame]: "group_view (snd (sys_lseek fd off wh s)) = group_view s"
  by (auto simp: sys_lseek_def seek_to_def case_prod_beta frame split: backing.splits sum.splits)

lemma view_getdents [frame]: "group_view (snd (sys_getdents64 ops fd p n s)) = group_view s"
  by (auto simp: sys_getdents64_def case_prod_beta frame split: backing.splits)

lemma view_put_result [frame]: "group_view (snd (put_result ops a bs s)) = group_view s"
  by (simp add: put_result_def frame)

lemma view_stat_parts [frame]:
  "group_view (snd (stat_of_node node s)) = group_view s" "group_view (snd (stat_of_fd fd s)) = group_view s"
  by (auto simp: stat_of_fd_def stat_of_node_def case_prod_beta Let_def frame split: backing.splits)

lemma view_stat [frame]:
  "group_view (snd (sys_fstat ops fd p s)) = group_view s" "group_view (snd (sys_statpath ops d p q fl s)) = group_view s"
  "group_view (snd (sys_newfstatat ops d p q k s)) = group_view s" "group_view (snd (sys_statx ops d p k q s)) = group_view s"
  "group_view (snd (sys_faccessat ops d p s)) = group_view s" "group_view (snd (sys_readlinkat ops d p q n s)) = group_view s"
  by (simp_all add: sys_fstat_def sys_statpath_def sys_newfstatat_def sys_statx_def sys_faccessat_def sys_readlinkat_def Let_def frame)

lemma view_directories [frame]:
  "group_view (snd (sys_mkdirat ops d p m s)) = group_view s" "group_view (snd (sys_unlinkat ops d p fl s)) = group_view s"
  "group_view (snd (sys_renameat ops d p e q s)) = group_view s" "group_view (snd (sys_linkat ops d p e q s)) = group_view s"
  "group_view (snd (sys_symlinkat ops t d p s)) = group_view s"
  by (simp_all add: sys_mkdirat_def sys_unlinkat_def sys_renameat_def sys_linkat_def sys_symlinkat_def renamed_def Let_def
      case_prod_beta frame)

lemma view_chdir [frame]: "group_view (snd (sys_chdir ops p s)) = group_view s" "group_view (snd (sys_fchdir fd s)) = group_view s"
  by (auto simp: sys_chdir_def sys_fchdir_def case_prod_beta frame split: backing.splits)

lemma view_getcwd: "sys_getcwd ops buf n s = Some (r, s') \<Longrightarrow> group_view s' = group_view s"
  by (auto simp: sys_getcwd_def Let_def frame split: option.splits run.splits if_splits dest: arg_cong [where f = "\<lambda>p. group_view (snd p)"])

lemma view_mode [frame]:
  "group_view (snd (sys_chmodat ops d p m s)) = group_view s" "group_view (snd (sys_fchmod fd m s)) = group_view s"
  "group_view (snd (sys_utimensat ops d p t fl s)) = group_view s"
  by (auto simp: sys_chmodat_def sys_fchmod_def set_mode_def sys_utimensat_def set_times_def set_mtime_def Let_def
      case_prod_beta frame split: option.splits)

lemma view_close [frame]: "group_view (snd (sys_close fd s)) = group_view s"
  by (simp add: sys_close_def frame)

section \<open>Memory, sockets and the rest\<close>

lemma view_mem_steps [frame]:
  "group_view (snd (on_mem f s)) = group_view s" "group_view (on_pager k s) = group_view s" "group_view (set_word i w s) = group_view s"
  by (simp_all add: on_mem_def on_pager_def set_word_def case_prod_beta frame)

lemma view_sync [frame]: "group_view (sync_shared_range ops a n s) = group_view s" "group_view (forget_shared a b s) = group_view s"
  by (auto simp: sync_shared_range_def sync_one_def forget_shared_def frame intro!: view_fold split: sum.splits)

lemma view_unmap [frame]:
  "group_view (snd (sys_msync ops a n s)) = group_view s" "group_view (snd (sys_munmap ops a n s)) = group_view s"
  by (simp_all add: sys_msync_def sys_munmap_def Let_def case_prod_beta frame)

lemma view_mmap_parts [frame]:
  "group_view (snd (mmap_target ops a n fl s)) = group_view s" "group_view (snd (mmap_source n fl fd off s)) = group_view s"
  "group_view (snd (place_pages ops t n p s)) = group_view s" "group_view (snd (place_bytes ops t src s)) = group_view s"
  "group_view (note_shared t n off src s) = group_view s" "group_view (snd (mmap_finish ops t n off p src s)) = group_view s"
  by (auto simp: mmap_target_def mmap_source_def place_pages_def place_bytes_def note_shared_def mmap_finish_def Let_def
      case_prod_beta frame split: option.splits backing.splits map_source.splits sum.splits)

lemma view_mmap [frame]: "group_view (snd (sys_mmap ops a n p fl fd off s)) = group_view s"
  by (simp add: sys_mmap_def Let_def frame)

lemma view_protect [frame]: "group_view (snd (sys_mprotect ops a n p s)) = group_view s"
  by (auto simp: sys_mprotect_def lock_page_def Let_def case_prod_beta frame intro!: view_fold [THEN trans])

lemma view_restore_pages: "group_view (fold (restore_page_perm ops) ps s) = group_view s"
  by (rule view_fold) (auto simp: restore_page_perm_def lock_page_def frame split: option.splits)

lemma view_mremap [frame]: "group_view (snd (sys_mremap ops a n m fl s)) = group_view s"
  by (simp add: sys_mremap_def mremap_shrink_def mremap_grow_def mremap_copy_def mremap_moved_def Let_def view_restore_pages frame)

lemma view_brk [frame]: "group_view (snd (sys_brk ops a s)) = group_view s"
  by (simp add: sys_brk_def brk_grow_def Let_def case_prod_beta frame)

lemma view_net_steps [frame]:
  "group_view (snd (on_host f s)) = group_view s" "group_view (set_net i sk s) = group_view s" "group_view (touch_socket i s) = group_view s"
  "group_view (snd (parse_sockaddr_in ops a n s)) = group_view s" "group_view (snd (write_sockaddr_in ops a n x s)) = group_view s"
  by (simp_all add: on_host_def set_net_def touch_socket_def parse_sockaddr_in_def write_sockaddr_in_def sockaddr_room_def
      case_prod_beta frame)

lemma view_with_net [frame]: "(\<And>x u. group_view (snd (g x u)) = group_view u) \<Longrightarrow> group_view (snd (with_net fd g s)) = group_view s"
  by (simp add: with_net_def frame)

lemma view_sockets [frame]:
  "group_view (snd (sys_socket d t s)) = group_view s" "group_view (snd (sys_connect ops fd a n s)) = group_view s"
  "group_view (snd (udp_send ops i sk x bs s)) = group_view s" "group_view (snd (sys_shutdown ops fd how s)) = group_view s"
  "group_view (snd (sys_getpeername ops fd a n s)) = group_view s" "group_view (snd (sys_getsockname ops fd a n s)) = group_view s"
  "group_view (snd (sys_bind ops a n s)) = group_view s" "group_view (snd (sys_getsockopt ops fd v l s)) = group_view s"
  by (auto simp: sys_socket_def sys_connect_def connect_handle_def udp_handle_def udp_send_def sys_shutdown_def sys_getpeername_def
      sys_getsockname_def local_of_def sys_bind_def sys_getsockopt_def Let_def case_prod_beta frame
      split: option.splits sum.splits socket_kind.splits)

lemma view_timespec [frame]: "group_view (snd (read_timespec_at ops a s)) = group_view s" "group_view (snd (read_timeval_at ops a s)) = group_view s"
  using view_memory(1) [of ops a 16 s]
  by (auto simp: read_timespec_at_def read_timeval_at_def split: prod.splits sum.splits)

lemma view_timers [frame]:
  "group_view (snd (sys_timerfd_settime ops fd fl n k s)) = group_view s" "group_view (snd (sys_timerfd_gettime ops fd p s)) = group_view s"
  by (simp_all add: sys_timerfd_settime_def sys_timerfd_gettime_def Let_def case_prod_beta frame)

lemma view_epoll_ctl [frame]: "group_view (snd (sys_epoll_ctl ops e op fd p s)) = group_view s"
  by (auto simp: sys_epoll_ctl_def epoll_add_def set_epoll_def Let_def case_prod_beta frame split: option.splits)

lemma view_inotify [frame]:
  "group_view (snd (sys_inotify_init fl s)) = group_view s" "group_view (snd (sys_inotify_rm_watch fd d s)) = group_view s"
  by (auto simp: sys_inotify_init_def sys_inotify_rm_watch_def Let_def case_prod_beta frame split: sum.splits option.splits)

lemma view_add_watch [frame]: "group_view (snd (sys_inotify_add_watch ops fd p m s)) = group_view s"
  using view_memory(4) [of ops p s]
  by (auto simp: sys_inotify_add_watch_def Let_def case_prod_beta frame split: prod.splits sum.splits option.splits fault.splits)

lemma view_random: "group_view (snd (random_bytes n s)) = group_view s"
proof (induction n s rule: random_bytes.induct)
  case (1 len s)
  then show ?case
    unfolding random_bytes.simps [of len s] by (simp add: next_random_def Let_def case_prod_beta frame)
qed

lemma view_misc [frame]:
  "group_view (snd (sys_clock_gettime ops k p s)) = group_view s" "group_view (snd (sys_clock_getres ops p s)) = group_view s"
  "group_view (snd (sys_gettimeofday ops p s)) = group_view s" "group_view (snd (sys_time ops p s)) = group_view s"
  "group_view (snd (sys_uname ops p s)) = group_view s" "group_view (snd (sys_getrandom ops p n s)) = group_view s"
  "group_view (snd (sys_prlimit64 ops p s)) = group_view s" "group_view (snd (sys_sysinfo ops p s)) = group_view s"
  "group_view (snd (sys_getrusage ops w p s)) = group_view s" "group_view (snd (sys_prctl ops k p s)) = group_view s"
  "group_view (snd (sys_sched_getaffinity ops n p s)) = group_view s"
  by (simp_all add: sys_clock_gettime_def sys_clock_getres_def sys_gettimeofday_def sys_time_def sys_uname_def sys_getrandom_def
      sys_prlimit64_def sys_sysinfo_def sys_getrusage_def sys_prctl_def sys_sched_getaffinity_def Let_def case_prod_beta view_random frame)

lemma view_ioctl [frame]: "group_view (snd (sys_ioctl ops fd r a s)) = group_view s"
proof -
  have "group_view (snd (pty_ioctl ops i m r a u)) = group_view u" for i m u
    by (auto simp: pty_ioctl_def pty_set_ioctl_def change_pty_def set_pty_def Let_def frame split: option.splits)
  moreover have "group_view (snd (tty_ioctl ops r a u)) = group_view u" for u by (simp add: tty_ioctl_def frame)
  moreover have "fd_ioctl ops fd r a = Some f \<Longrightarrow> group_view (snd (f s)) = group_view s" for f
    by (auto simp: fd_ioctl_def case_prod_beta frame split: if_splits)
  ultimately show ?thesis
    unfolding sys_ioctl_def by (auto simp: frame split: option.splits backing.splits intro!: view_and_then)
qed

section \<open>Calls that may block\<close>

lemma running_spaces: "running_ok s \<Longrightarrow> spaces_ok s"
  by (simp add: running_ok_def)

lemma out_ok_ret [simp]: "out_ok (ORet r, s) \<longleftrightarrow> running_ok s" "out_ok (Switched, s) \<longleftrightarrow> running_ok s"
  "out_ok (Exit e, s) \<longleftrightarrow> spaces_ok s"
  by (simp_all add: out_ok_def)

lemma stop_ok: "running_ok s \<Longrightarrow> out_ok (stop_thread_group ops sig restart s)"
proof -
  assume ok: "running_ok s"
  let ?tgid = "p_tgid (e_proc s)"
  let ?s = "s\<lparr>e_proc := stop_proc ?tgid sig (e_proc s),
     e_sched := map_parked (set_proc (\<lambda>p. if p_tgid p = ?tgid then stop_proc ?tgid sig p else p)) (e_sched s)\<rparr>"
  have "same_groups s ?s" by (rule same_groups_mapped) (simp_all add: stop_proc_def)
  then have "running_ok (notify_parent_sigchld (p_ppid (e_proc ?s)) ?s)"
    using ok same_groups_trans [OF _ same_groups_notify] same_groups_running by blast
  then show ?thesis unfolding stop_thread_group_def Let_def by (rule block_ok)
qed

lemma out_or_return:
  "group_view (snd (f s)) = group_view s \<Longrightarrow> (\<And>x u. running_ok u \<Longrightarrow> out_ok (g x u)) \<Longrightarrow> running_ok s \<Longrightarrow> out_ok (or_return f g s)"
  by (cases "f s") (auto simp: or_return_def running_view split: sum.splits)

lemma out_of_result: "(\<And>u. group_view (snd (f u)) = group_view u) \<Longrightarrow> running_ok s \<Longrightarrow> out_ok (of_result (f s))"
  by (simp add: of_result_def running_view)

lemma running_view_eq: "group_view u = group_view s \<Longrightarrow> running_ok s \<Longrightarrow> running_ok u"
  by (simp add: running_view)

lemma spaces_view_eq: "group_view u = group_view s \<Longrightarrow> running_ok s \<Longrightarrow> spaces_ok u"
  using running_view_eq running_spaces by blast

lemma running_fields [simp]:
  "running_ok (s\<lparr>e_heap := h\<rparr>) = running_ok s" "running_ok (s\<lparr>e_panicked := b\<rparr>) = running_ok s" "running_ok (s\<lparr>e_host := host\<rparr>) = running_ok s"
  "running_ok (set_description i d s) = running_ok s" "running_ok (touch_socket i s) = running_ok s"
  "running_ok (deliver_signal_to_pgrp g sig s) = running_ok s"
  by (simp_all add: running_view frame)

lemma out_deliver: "running_ok s \<Longrightarrow> out_ok (deliver_bytes ops buf bs n s)"
  unfolding deliver_bytes_def by (rule out_or_return) (simp_all add: frame)

lemma out_would_block: "running_ok s \<Longrightarrow> out_ok (would_block ops nb w s)"
  by (simp add: would_block_def block_ok)

lemma out_file_chunk: "running_ok s \<Longrightarrow> out_ok (wait_for_file_chunk h s)"
  by (auto simp: wait_for_file_chunk_def request_file_chunk_def Let_def frame split: option.splits prod.splits bool.splits
      intro: running_view_eq spaces_view_eq)

lemma out_materialize: "running_ok s \<Longrightarrow> wait_to_materialize node s = Some r \<Longrightarrow> out_ok r"
  by (auto simp: wait_to_materialize_def out_file_chunk frame split: sum.splits option.splits fault.splits intro: running_view_eq)

lemma out_guest_range:
  assumes "running_ok s" "ensure_guest_range ops a n k s = (r, s')"
  shows "running_ok s'" "r = Some out \<Longrightarrow> out_ok (out, s')"
proof -
  have "group_view s' = group_view s"
    using assms(2) view_memory(3) [of ops a n k s] by (auto simp: ensure_guest_range_def split: prod.splits sum.splits)
  then show ok: "running_ok s'" using assms(1) by (rule running_view_eq)
  show "r = Some out \<Longrightarrow> out_ok (out, s')"
    using assms(2) running_spaces [OF ok] ok by (auto simp: ensure_guest_range_def split: prod.splits sum.splits if_splits)
qed

lemma view_read_backing:
  assumes "read_backing d n s = (r, d', s')"
  shows "group_view s' = group_view s"
proof -
  have plain: "group_view (snd (read_file_at node d n s)) = group_view s" for node
    by (auto simp: read_file_at_def frame split: option.splits sum.splits fault.splits read_range.splits)
  have dev: "group_view (snd (read_device v n s)) = group_view s" for v
    by (auto simp: read_device_def view_random split: dev.splits)
  show ?thesis
    using assms plain dev
    by (auto simp: read_backing_def case_prod_beta frame split: backing.splits option.splits sum.splits prod.splits if_splits)
qed

lemma view_write_backing:
  assumes "write_backing ops d bs s = (r, d', s')"
  shows "group_view s' = group_view s"
proof -
  have "group_view (snd (snd (write_file_at ops node d bs s))) = group_view s" for node
    using view_steps(1) [of "file_length node" s]
    by (auto simp: write_file_at_def Let_def frame split: prod.splits sum.splits)
       (metis snd_conv view_steps(1))+
  then show ?thesis
    using assms by (auto simp: write_backing_def frame split: backing.splits if_splits) (metis snd_conv)+
qed

section \<open>Reading, writing and waiting\<close>

lemma out_stop_background: "running_ok s \<Longrightarrow> out_ok (stop_background ops sig s)"
  unfolding stop_background_def
  by (rule stop_ok) (simp add: running_view group_view_def groups_def clear_pending_def frame [unfolded group_view_def groups_def])

lemma out_background:
  "running_ok s \<Longrightarrow> background_tty_access ops i sig s = Some r \<Longrightarrow> out_ok r"
  "running_ok s \<Longrightarrow> background_tty_ioctl ops i s = Some r \<Longrightarrow> out_ok r"
  by (auto simp: background_tty_access_def background_tty_ioctl_def out_stop_background split: if_splits)

lemma out_sys_read: "running_ok s \<Longrightarrow> out_ok (sys_read ops fd buf n s)"
  unfolding sys_read_def
  by (rule out_or_return)
     (auto split: prod.splits sum.splits read_error.splits dest!: view_read_backing
       intro!: out_deliver out_file_chunk intro: running_view_eq)

lemma out_pread: "running_ok s \<Longrightarrow> out_ok (sys_pread ops fd buf n pos s)"
  unfolding sys_pread_def
  by (auto split: prod.splits option.splits dest: out_guest_range intro!: out_or_return)
     (auto split: backing.splits prod.splits sum.splits read_error.splits dest!: view_read_backing
       dest: out_guest_range(1) intro!: out_deliver out_file_chunk intro: running_view_eq)

lemma out_write_with: "running_ok s \<Longrightarrow> out_ok (write_with ops i d keep buf n s)"
  unfolding write_with_def
  by (rule out_or_return) (auto simp: frame split: prod.splits dest!: view_write_backing intro: running_view_eq)

lemma out_pwrite: "running_ok s \<Longrightarrow> out_ok (sys_pwrite ops fd buf n pos s)"
  unfolding sys_pwrite_def
  by (rule out_or_return)
     (auto split: prod.splits option.splits backing.splits dest: out_guest_range intro: out_materialize intro!: out_write_with)

lemma out_sys_write: "running_ok s \<Longrightarrow> out_ok (sys_write ops fd buf n s)"
  unfolding sys_write_def Let_def
  by (auto split: prod.splits option.splits dest: out_guest_range intro!: out_or_return)
     (auto split: prod.splits option.splits backing.splits dest: out_guest_range(1) intro: out_materialize intro!: out_write_with)

lemma out_ftruncate: "running_ok s \<Longrightarrow> out_ok (sys_ftruncate ops fd n s)"
  unfolding sys_ftruncate_def
  by (auto intro!: out_or_return)
     (auto split: backing.splits option.splits intro: out_materialize intro!: out_of_result simp: frame)

lemma out_read_kinds:
  assumes "running_ok s"
  shows "out_ok (read_pipe ops nb p buf n s)" "out_ok (read_event ops nb p buf n s)" "out_ok (read_timer ops nb p buf n s)"
    "out_ok (read_net ops nb p buf n s)" "out_ok (read_pty_queue ops nb p m buf n s)"
  using assms
  by (auto simp: read_pipe_def read_event_def read_timer_def read_net_def read_pty_queue_def Let_def case_prod_beta
      split: option.splits sum.splits recv_outcome.splits prod.splits intro!: out_deliver out_would_block)

lemma out_read_as: "running_ok s \<Longrightarrow> out_ok (read_as ops k nb fd buf n s)"
  by (cases k) (auto simp: read_as_def out_sys_read out_read_kinds read_pty_def split: option.splits if_splits intro: out_background)

lemma out_read: "running_ok s \<Longrightarrow> out_ok (outcome_read ops fd buf n s)"
  unfolding outcome_read_def
  by (rule out_or_return) (auto split: sum.splits prod.splits option.splits dest: out_guest_range intro!: out_read_as)

lemma out_write_kinds:
  assumes "running_ok s"
  shows "out_ok (write_pipe ops nb p buf n s)" "out_ok (write_event ops p buf n s)" "out_ok (write_net ops p buf n s)"
    "out_ok (write_pty ops p m buf n s)"
proof -
  have pty: "running_ok u \<Longrightarrow> out_ok (write_pty_bytes p m bs u)" for bs u
    by (auto simp: write_pty_bytes_def Let_def case_prod_beta split: option.splits)
  show "out_ok (write_pipe ops nb p buf n s)"
    using assms by (auto simp: write_pipe_def Let_def frame split: option.splits intro!: out_would_block out_or_return)
  show "out_ok (write_event ops p buf n s)"
    using assms by (auto simp: write_event_def frame intro!: out_or_return)
  show "out_ok (write_net ops p buf n s)"
    unfolding write_net_def using assms
    by (intro out_or_return) (auto simp: frame split: option.splits prod.splits sum.splits)
  show "out_ok (write_pty ops p m buf n s)"
    unfolding write_pty_def using assms pty
    by (intro out_or_return) (auto simp: frame split: option.splits if_splits intro: out_background)
qed

lemma out_write: "running_ok s \<Longrightarrow> out_ok (outcome_write ops fd buf n s)"
proof -
  have "running_ok u \<Longrightarrow> out_ok (write_as ops k nb fd buf n u)" for k nb u
    by (cases k) (auto simp: write_as_def out_sys_write out_write_kinds)
  then show "running_ok s \<Longrightarrow> out_ok (outcome_write ops fd buf n s)"
    unfolding outcome_write_def by (intro out_or_return) (auto split: sum.splits)
qed

lemma view_iov [frame]: "group_view (snd (iter_iov ops a n s)) = group_view s"
  by (simp add: iter_iov_def frame)

lemma out_vectored: "running_ok s \<Longrightarrow> out_ok (outcome_vectored ops fd a n w s)"
  unfolding outcome_vectored_def
  by (rule out_or_return) (auto simp: frame out_read out_write split: option.splits)

lemma out_ioctl: "running_ok s \<Longrightarrow> out_ok (outcome_ioctl ops fd r a s)"
  by (auto simp: outcome_ioctl_def frame split: option.splits intro!: out_of_result intro: out_background)

lemma out_wait_on: "running_ok s \<Longrightarrow> out_ok (wait_on ops ws t d s)"
  by (auto simp: wait_on_def park_timeout_returning_zero_def split: option.splits intro: block_ok park_returning_ok)

lemma view_poll [frame]:
  "group_view (snd (sys_poll ops a n s)) = group_view s" "group_view (snd (poll_timeout ops t p s)) = group_view s"
  by (simp_all add: sys_poll_def poll_timeout_def Let_def frame)

lemma out_if: "(c \<Longrightarrow> out_ok x) \<Longrightarrow> (\<not> c \<Longrightarrow> out_ok y) \<Longrightarrow> out_ok (if c then x else y)"
  by simp

lemma out_poll: "running_ok s \<Longrightarrow> out_ok (outcome_poll ops a n t p s)"
  unfolding outcome_poll_def Let_def by (intro out_or_return out_if out_wait_on) (simp_all add: frame)

lemma view_read_set [frame]: "group_view (snd (read_set ops n p s)) = group_view s"
  by (simp add: read_set_def frame)

lemma view_read_sets: "group_view (snd (read_sets ops n a b s)) = group_view s"
  unfolding read_sets_def by (simp add: case_prod_beta frame)

lemma out_select: "running_ok s \<Longrightarrow> out_ok (sys_select ops n a b c t ts s)"
proof -
  have reply: "running_ok u \<Longrightarrow> out_ok (select_reply ops a b c k acc u)" for k acc u
    unfolding select_reply_def by (intro out_or_return) (auto simp: write_set_def frame)
  show "running_ok s \<Longrightarrow> out_ok (sys_select ops n a b c t ts s)"
    unfolding sys_select_def Let_def
    by (rule out_or_return)
       (auto simp: view_read_sets select_timeout_def frame split: option.splits intro!: out_or_return out_wait_on reply)
qed

lemma out_epoll_wait: "running_ok s \<Longrightarrow> out_ok (sys_epoll_wait ops e p n t s)"
  unfolding sys_epoll_wait_def
  by (rule out_or_return) (auto simp: Let_def set_epoll_def intro!: out_deliver out_wait_on)

lemma out_sendfile_done: "running_ok s \<Longrightarrow> out_ok (sendfile_done ops p off i w s)"
  by (auto simp: sendfile_done_def intro: out_deliver)

lemma out_sendfile_write:
  assumes "running_ok s" "\<And>w u. running_ok u \<Longrightarrow> out_ok (k w u)"
  shows "out_ok (sendfile_write ops fd bs k s)"
proof -
  have plain: "running_ok u \<Longrightarrow> out_ok (case write_backing ops d bs u of
      (Inl e, d, s) \<Rightarrow> (ORet (Inl e), set_description j d s)
    | (Inr n, d, s) \<Rightarrow> k (min n (of_nat (length bs))) (set_description j d s))" for d j u
    by (auto split: prod.splits sum.splits dest!: view_write_backing intro!: assms(2) intro: running_view_eq)
  show ?thesis
    unfolding sendfile_write_def
    by (rule out_or_return) (auto simp: Let_def plain assms split: backing.split bool.split option.split intro!: block_ok)
qed

lemma running_sendfile_read: "sendfile_read node off m s = (r, s') \<Longrightarrow> running_ok s \<Longrightarrow> running_ok s'"
  by (auto simp: sendfile_read_def read_file_at_def split: if_splits option.splits sum.splits fault.splits read_range.splits)

lemma out_sendfile: "running_ok s \<Longrightarrow> out_ok (sys_sendfile ops o_fd i_fd p n s)"
  unfolding sys_sendfile_def
  by (rule out_or_return)
     (auto simp: frame split: backing.split prod.split sum.split read_error.split
       intro!: out_or_return out_sendfile_write out_sendfile_done out_file_chunk intro: running_sendfile_read)

lemma out_messages:
  assumes "running_ok s"
  shows "out_ok (sys_sendto ops fd a n b m s)" "out_ok (sys_recvfrom ops fd a n b m s)"
proof -
  have udp: "running_ok u \<Longrightarrow> out_ok (udp_receive ops fd a n b m i k u)" for i k u
    by (auto simp: udp_receive_def udp_deliver_def frame split: option.splits
        intro!: out_or_return out_would_block out_of_result [where f = "and_then _ _"])
  show "out_ok (sys_sendto ops fd a n b m s)"
    using assms by (auto simp: sys_sendto_def case_prod_beta frame intro!: out_write out_of_result)
  show "out_ok (sys_recvfrom ops fd a n b m s)"
    using assms udp by (auto simp: sys_recvfrom_def split: sum.splits intro: out_read)
qed

lemma out_msg:
  assumes "running_ok s"
  shows "out_ok (sys_sendmsg ops fd msg s)" "out_ok (sys_recvmsg ops fd msg s)"
proof -
  have hdr: "group_view (snd (read_msghdr ops msg u)) = group_view u" for u by (simp add: read_msghdr_def Let_def frame)
  have name: "out_ok r \<Longrightarrow> out_ok (note_name_len ops msg c r)" for c r
    by (auto simp: note_name_len_def split: prod.splits outcome.splits sum.splits intro!: out_deliver)
  show "out_ok (sys_sendmsg ops fd msg s)"
    unfolding sys_sendmsg_def using assms
    by (intro out_or_return) (auto simp: hdr frame split: option.splits intro!: out_messages out_write out_or_return)
  show "out_ok (sys_recvmsg ops fd msg s)"
    unfolding sys_recvmsg_def using assms
    by (intro out_or_return) (auto simp: hdr Let_def frame split: option.splits intro!: out_messages name out_or_return)
qed

end
