(* ===== verification/CallProps.thy ===== *)
theory CallProps
  imports Frame
begin

text \<open>
  Every call keeps the address-space invariant, and the machine built from them: what is
  reachable through calls, guest execution and host resumptions.
\<close>

unbundle bit_operations_syntax

section \<open>Calls keep the invariant\<close>

lemma running_shrink:
  assumes "running_ok s" "set (sc_parked (e_sched s')) \<subseteq> set (sc_parked (e_sched s))"
    "sc_group_maps (e_sched s') = sc_group_maps (e_sched s)" "e_last_group s' = e_last_group s" "p_tgid (e_proc s') = p_tgid (e_proc s)"
  shows "running_ok s'"
  using assms by (auto simp: running_ok_def spaces_ok_def groups_ok_def groups_def)

lemma same_groups_simple:
  "same_groups s (with_cpu f s)" "same_groups s (with_heap k s)" "same_groups s (record_exit c s)"
  "same_groups s (s\<lparr>e_sched := (e_sched s)\<lparr>sc_zombies := zs\<rparr>\<rparr>)" "same_groups s (s\<lparr>e_sched := (e_sched s)\<lparr>sc_next_pid := n\<rparr>\<rparr>)"
  by (simp_all add: same_groups_def groups_def record_exit_def)

lemma wake_tasks_tgids: "map (\<lambda>t. p_tgid (pk_proc t)) (snd (wake_tasks addr n k ts)) = map (\<lambda>t. p_tgid (pk_proc t)) ts"
  by (induction ts arbitrary: k) (auto simp: case_prod_beta)

lemma same_groups_futex: "same_groups s (s\<lparr>e_sched := snd (futex_wake addr n (e_sched s))\<rparr>)"
  by (simp add: same_groups_def groups_def futex_wake_def case_prod_beta wake_tasks_tgids)

lemma same_groups_clear_tid: "same_groups s (clear_tid ops s)"
  unfolding clear_tid_def Let_def case_prod_beta
  by (auto intro: same_groups_trans [OF same_groups_write same_groups_futex])

lemma same_groups_release: "same_groups s (release_vfork s)" "same_groups s (release_table s)"
  by (simp_all add: release_vfork_def release_table_def case_prod_beta same_groups_def groups_def split: option.splits)

lemma running_drop: "running_ok s \<Longrightarrow> running_ok (drop_group g s)"
  by (erule running_shrink) (auto simp: drop_group_def)

lemma running_kept:
  "running_ok s \<Longrightarrow> running_ok (s\<lparr>e_sched := (e_sched s)\<lparr>sc_zombies := zs\<rparr>\<rparr>)"
  "running_ok s \<Longrightarrow> running_ok (release_table s)" "running_ok s \<Longrightarrow> running_ok (release_vfork s)"
  "running_ok s \<Longrightarrow> running_ok (clear_tid ops s)" "running_ok s \<Longrightarrow> running_ok (notify_parent_sigchld parent s)"
  using same_groups_simple(4) same_groups_release same_groups_clear_tid same_groups_notify same_groups_running by blast+

lemma exit_tail_ok:
  assumes "running_ok u"
  shows "out_ok (if halt then (Exit Halt, record_exit code u)
     else switch_away ops (if d then notify_parent_sigchld ppid (release_table (if d then with_sched (\<lambda>sc. sc\<lparr>sc_zombies := sc_zombies sc @ z\<rparr>) u else u))
                           else release_table (if d then with_sched (\<lambda>sc. sc\<lparr>sc_zombies := sc_zombies sc @ z\<rparr>) u else u)))"
proof -
  have "running_ok (release_table u)" "running_ok (notify_parent_sigchld ppid (release_table (with_sched (\<lambda>sc. sc\<lparr>sc_zombies := sc_zombies sc @ z\<rparr>) u)))"
    using assms running_kept by blast+
  then show ?thesis
    using same_groups_spaces [OF same_groups_simple(3) running_spaces [OF assms]]
    by (auto intro: switch_away_ok running_spaces)
qed

lemma task_exit_ok: "running_ok s \<Longrightarrow> out_ok (task_exit ops status exit_group s)"
  unfolding task_exit_def Let_def by (rule exit_tail_ok) (simp add: running_drop running_kept)

lemma same_groups_proc: "(\<And>p. p_tgid (f p) = p_tgid p) \<Longrightarrow> same_groups s (with_proc f s)"
  by (rule same_groups_fields) simp_all

lemma same_groups_pending: "pending_signal_action s = (a, s') \<Longrightarrow> same_groups s s'"
  by (auto simp: pending_signal_action_def case_prod_beta intro: same_groups_fields)

lemma running_copy: "running_ok s \<Longrightarrow> copy_only s s' \<Longrightarrow> running_ok s'"
  using same_groups_copy same_groups_running by blast

lemma running_opt_write:
  "running_ok s \<Longrightarrow> (if c then write_mem ops a bs s else (Inr (), s)) = (r, s') \<Longrightarrow> running_ok s'"
  by (auto split: if_splits dest: copy_only_write intro: running_copy)

lemma running_deliver: "running_ok s \<Longrightarrow> running_ok (snd (deliver_signal ops s))"
  using same_groups_deliver same_groups_running by blast

lemma running_simple: "running_ok s \<Longrightarrow> running_ok (with_cpu f s)"
  "running_ok s \<Longrightarrow> (\<And>p. p_tgid (g p) = p_tgid p) \<Longrightarrow> running_ok (with_proc g s)"
  "running_ok s \<Longrightarrow> running_ok (with_heap k s)"
  using same_groups_simple same_groups_proc same_groups_running by blast+

lemma sigprocmask_action_ok:
  assumes "running_ok s"
  shows "out_ok (case pending_signal_action s of
      (SaTerminate sig, s) \<Rightarrow> task_exit ops (ucast sig) True s
    | (SaStop sig, s) \<Rightarrow> stop_thread_group ops sig False (with_cpu (resume_after_syscall 0) s)
    | (SaHandler, s) \<Rightarrow> (Switched, snd (deliver_signal ops (with_cpu (resume_after_syscall 0) s)))
    | (SaNone, s) \<Rightarrow> (ORet (Inr 0), s))"
proof -
  obtain a t where t: "pending_signal_action s = (a, t)" by fastforce
  then have "running_ok t" using assms same_groups_pending same_groups_running by blast
  then show ?thesis
    unfolding t by (cases a) (auto intro!: task_exit_ok stop_ok running_deliver running_simple)
qed

lemma sigprocmask_ok:
  assumes "running_ok s"
  shows "out_ok (sys_rt_sigprocmask ops how new old s)"
proof -
  obtain r t where t: "(if old \<noteq> 0 then write_mem ops old (u64_to_le (p_sigmask (e_proc s))) s else (Inr (), s)) = (r, t)"
    by fastforce
  have ok: "running_ok t" by (rule running_opt_write [OF assms t])
  obtain q u where u: "read_mem ops new 8 t = (q, u)" by fastforce
  have "running_ok u" using ok copy_only_read [OF u] by (rule running_copy)
  then have set: "running_ok (with_proc (\<lambda>p. p\<lparr>p_sigmask := m\<rparr>) u)" for m by (rule running_simple) simp
  show ?thesis
    unfolding sys_rt_sigprocmask_def t Let_def case_prod_conv u
    using ok \<open>running_ok u\<close> sigprocmask_action_ok [OF set]
    by (auto split: sum.splits option.splits)
qed

lemma write_status_ok: "running_ok s \<Longrightarrow> out_ok (write_status ops ptr st pid s)"
  unfolding write_status_def by (auto split: prod.splits sum.splits dest!: copy_only_write intro: running_copy)

lemma take_stop_report_groups:
  "take_stop_report a b sc = (r, sc') \<Longrightarrow> map (\<lambda>t. p_tgid (pk_proc t)) (sc_parked sc') = map (\<lambda>t. p_tgid (pk_proc t)) (sc_parked sc) \<and>
     sc_group_maps sc' = sc_group_maps sc"
  by (auto simp: take_stop_report_def Let_def map_update set_proc_def list_update_same_conv split: option.splits dest!: position_less)

lemma take_zombie_groups: "take_zombie a b sc = (r, sc') \<Longrightarrow> sc_parked sc' = sc_parked sc \<and> sc_group_maps sc' = sc_group_maps sc"
  by (auto simp: take_zombie_def split: option.splits)

lemma running_sched:
  "running_ok s \<Longrightarrow> map (\<lambda>t. p_tgid (pk_proc t)) (sc_parked sc) = map (\<lambda>t. p_tgid (pk_proc t)) (sc_parked (e_sched s)) \<Longrightarrow>
   sc_group_maps sc = sc_group_maps (e_sched s) \<Longrightarrow> running_ok (s\<lparr>e_sched := sc\<rparr>)"
  by (simp add: running_ok_def spaces_ok_def groups_def)

lemma wait4_ok: "running_ok s \<Longrightarrow> out_ok (sys_wait4 ops pid ptr options s)"
  unfolding sys_wait4_def Let_def
  by (auto split: prod.splits option.splits if_splits intro!: write_status_ok block_ok running_sched
      dest!: take_zombie_groups take_stop_report_groups)

lemma running_read: "running_ok s \<Longrightarrow> read_mem ops a n s = (r, s') \<Longrightarrow> running_ok s'"
  using copy_only_read running_copy by blast

lemma running_write: "running_ok s \<Longrightarrow> write_mem ops a bs s = (r, s') \<Longrightarrow> running_ok s'"
  using copy_only_write running_copy by blast

lemma running_timespec: "running_ok s \<Longrightarrow> read_timespec_at ops a s = (r, s') \<Longrightarrow> running_ok s'"
  by (auto simp: read_timespec_at_def split: prod.splits sum.splits intro: running_read)

lemma nanosleep_ok: "running_ok s \<Longrightarrow> out_ok (outcome_nanosleep ops req absolute s)"
  unfolding outcome_nanosleep_def Let_def
  by (auto split: prod.splits sum.splits if_splits intro: running_timespec intro!: park_returning_ok)

lemma futex_ok:
  assumes "running_ok s"
  shows "out_ok (sys_futex ops addr op val ptr s)"
proof -
  have "out_ok (futex_wait ops addr op val ptr s)"
    unfolding futex_wait_def using assms
    by (auto split: prod.splits sum.splits intro: running_timespec running_read intro!: park_returning_ok block_ok)
  then show ?thesis
    using same_groups_running [OF same_groups_futex assms] assms
    unfolding sys_futex_def Let_def case_prod_beta by simp
qed

lemma yield_ok: "running_ok s \<Longrightarrow> out_ok (sys_yield ops s)"
  unfolding sys_yield_def by (auto intro!: block_ok running_simple)

lemma sigreturn_ok:
  assumes "running_ok s"
  shows "out_ok (sys_rt_sigreturn ops s)"
  unfolding sys_rt_sigreturn_def Let_def using assms
  by (auto intro!: running_deliver running_simple)

lemma sigaction_ok: "running_ok s \<Longrightarrow> sys_rt_sigaction ops sig new old s = (r, s') \<Longrightarrow> running_ok s'"
  unfolding sys_rt_sigaction_def Let_def
  by (auto split: prod.splits sum.splits if_splits intro!: running_simple(3) intro: running_read running_write)

lemma sigaltstack_ok: "running_ok s \<Longrightarrow> sys_sigaltstack ops new old s = (r, s') \<Longrightarrow> running_ok s'"
  unfolding sys_sigaltstack_def set_altstack_def Let_def
  by (auto split: prod.splits sum.splits if_splits intro!: running_simple(2) intro: running_read running_write)

lemma setpgid_ok: "running_ok s \<Longrightarrow> sys_setpgid pid pgid s = (r, s') \<Longrightarrow> running_ok s'"
proof -
  have "same_groups s (snd (set_group_pgid a b s))" for a b
    unfolding set_group_pgid_def Let_def by (simp add: same_groups_mapped)
  then show "running_ok s \<Longrightarrow> sys_setpgid pid pgid s = (r, s') \<Longrightarrow> running_ok s'"
    unfolding sys_setpgid_def Let_def by (auto simp: case_prod_beta intro: same_groups_running)
qed

section \<open>Cloning\<close>

definition child_ok :: "clone_spec \<Rightarrow> u64 \<Rightarrow> u64 \<Rightarrow> 'c process \<Rightarrow> bool" where
  "child_ok spec pid tgid p \<longleftrightarrow> p_pid p = pid \<and> p_tgid p = (if is_thread spec then tgid else pid)"

lemma clone_process_ok:
  "clone_process spec pid s = (child, s') \<Longrightarrow> same_groups s s' \<and> child_ok spec pid (p_tgid (e_proc s)) child"
  by (auto simp: clone_process_def child_ok_def thread_sibling_def fork_child_def alloc_asid_def Let_def case_prod_beta
      same_groups_def groups_def split: if_splits)

lemma clone_map_ok: "clone_map ops spec s = (r, s') \<Longrightarrow> same_groups s s' \<and> (\<not> is_thread spec \<longrightarrow> r \<noteq> None)"
  by (auto simp: clone_map_def case_prod_beta same_groups_def groups_def split: if_splits)

lemma same_groups_mem: "same_groups u (u\<lparr>m_mem := k\<rparr>)"
  by (simp add: same_groups_def groups_def)

lemma set_child_tid_ok:
  assumes "set_child_tid ops spec pid m s = (r, s')"
  shows "same_groups s s' \<and> (m \<noteq> None \<longrightarrow> r \<noteq> None)"
  using assms same_groups_write [of s] same_groups_trans [OF same_groups_trans [OF same_groups_mem same_groups_write] same_groups_mem]
  unfolding set_child_tid_def Let_def case_prod_beta
  by (auto split: if_splits option.splits)

lemma vfork_flag_ok:
  "vfork_flag spec child s = (d, child', s') \<Longrightarrow> same_groups s s' \<and> p_pid child' = p_pid child \<and> p_tgid child' = p_tgid child"
  by (auto simp: vfork_flag_def flag_new_def same_groups_def groups_def split: if_splits)

lemma spawn_ok:
  assumes ok: "running_ok s" and pid: "pid \<noteq> 0" and sp: "spawn ops spec pid s = (d, s')"
  shows "running_ok s'"
proof -
  obtain child1 s1 where c1: "clone_process spec pid s = (child1, s1)" by fastforce
  obtain m2 s2 where c2: "clone_map ops spec s1 = (m2, s2)" by fastforce
  let ?c = "child_cpu spec (m_cpu s2)"
  let ?s3 = "s2\<lparr>m_cpu := ?c\<lparr>c_rax := c_rax (m_cpu s2), c_rsp := c_rsp (m_cpu s2), c_fs_offset := c_fs_offset (m_cpu s2)\<rparr>\<rparr>"
  obtain m4 s4 where c4: "set_child_tid ops spec pid m2 ?s3 = (m4, s4)" by fastforce
  obtain d5 child5 s5 where c5: "vfork_flag spec child1 s4 = (d5, child5, s5)" by (metis prod_cases3)
  have s': "s' = add_task child5 ?c m4 s5"
    using sp unfolding spawn_def Let_def c1 case_prod_conv c2 c4 c5 by simp
  have "same_groups s2 ?s3" by (simp add: same_groups_def groups_def)
  then have kept: "same_groups s s5"
    using clone_process_ok [OF c1] clone_map_ok [OF c2] set_child_tid_ok [OF c4] vfork_flag_ok [OF c5] same_groups_trans by meson
  have child: "child_ok spec pid (p_tgid (e_proc s)) child5"
    using clone_process_ok [OF c1] vfork_flag_ok [OF c5] by (simp add: child_ok_def)
  have m4: "\<not> is_thread spec \<Longrightarrow> m4 \<noteq> None" using clone_map_ok [OF c2] set_child_tid_ok [OF c4] by blast
  show ?thesis
    using same_groups_running [OF kept ok] ok child m4 pid kept
    by (auto simp: s' add_task_def running_ok_def spaces_ok_def groups_ok_def groups_def child_ok_def same_groups_def split: option.splits if_splits)
qed

lemma clone_ok:
  assumes ok: "running_ok s" and pid: "sc_next_pid (e_sched s) \<noteq> 0"
  shows "out_ok (sys_clone_impl ops spec s)"
proof -
  let ?s = "s\<lparr>e_sched := (e_sched s)\<lparr>sc_next_pid := sc_next_pid (e_sched s) + 1\<rparr>\<rparr>" and ?pid = "sc_next_pid (e_sched s)"
  have s: "running_ok ?s" using same_groups_running [OF same_groups_simple(5) ok] .
  obtain r t where t: "(if has_flag spec CLONE_PARENT_SETTID \<and> cl_parent_tid spec \<noteq> 0
      then write_mem ops (cl_parent_tid spec) (u32_to_le (ucast ?pid)) ?s else (Inr (), ?s)) = (r, t)" by fastforce
  have ok': "running_ok t" by (rule running_opt_write [OF s t])
  obtain d u where u: "spawn ops spec ?pid t = (d, u)" by fastforce
  have "running_ok u" by (rule spawn_ok [OF ok' pid u])
  then show ?thesis
    using ok' unfolding sys_clone_impl_def next_pid_def Let_def case_prod_conv t u
    by (auto split: sum.splits option.splits intro!: block_ok running_simple)
qed

section \<open>Sending signals\<close>

lemma running_raise: "running_ok s \<Longrightarrow> running_ok (s\<lparr>e_proc := add_pending b (e_proc s)\<rparr>)"
  "running_ok s \<Longrightarrow> running_ok (s\<lparr>m_cpu := c, e_proc := add_pending b (e_proc s)\<rparr>)"
  by (simp_all add: running_ok_def spaces_ok_def groups_def)

lemma kill_self_ok: "running_ok s \<Longrightarrow> out_ok (kill_self ops sig s)"
  unfolding kill_self_def Let_def
  by (auto intro!: task_exit_ok stop_ok running_deliver running_raise running_simple(1))

lemma kill_job_control_ok:
  assumes "running_ok s"
  shows "out_ok (kill_job_control target sig s)"
proof -
  have "same_groups s (snd (kill_job_control target sig s))"
    by (simp add: kill_job_control_def same_groups_def groups_def map_parked_def set_proc_def comp_def Let_def)
  then show ?thesis
    using assms same_groups_running by (fastforce simp: out_ok_def kill_job_control_def Let_def)
qed

lemma running_kill_task:
  assumes "running_ok s"
  shows "running_ok (kill_task sig i s)"
proof -
  let ?p = "pk_proc (sc_parked (e_sched s) ! i)"
  let ?s1 = "without_task i s"
  let ?s2 = "case p_vfork_done ?p of None \<Rightarrow> ?s1 | Some d \<Rightarrow> with_heap (set_flag d) ?s1"
  have s2: "running_ok ?s2"
    by (rule running_shrink [OF assms]) (auto simp: without_task_def dest: subsetD [OF set_remove_at] split: option.splits)
  have "running_ok (if p_pid ?p = p_tgid ?p then notify_parent_sigchld (p_ppid ?p) (with_sched (\<lambda>sc. sc\<lparr>sc_zombies := sc_zombies sc @ z\<rparr>) ?s2) else ?s2)" for z
    using s2 running_kept(5) [OF running_kept(1) [OF s2]] by simp
  then show ?thesis unfolding kill_task_def Let_def without_task_def by (rule running_simple(3))
qed

lemma running_kill_scan: "running_ok s \<Longrightarrow> running_ok (snd (kill_scan n target sig i hit s))"
  by (induction n arbitrary: i hit s) (simp_all add: running_kill_task)

lemma running_kill_group: "running_ok s \<Longrightarrow> running_ok (snd (kill_group sig target s))"
proof -
  assume ok: "running_ok s"
  obtain hit t where t: "kill_scan (length (sc_parked (e_sched s))) target sig 0 False s = (hit, t)" by fastforce
  have "running_ok t" using running_kill_scan [OF ok] t by (metis snd_conv)
  then have "\<not> group_has_parked (e_sched t) target \<Longrightarrow>
      running_ok (with_sched (\<lambda>sc. sc\<lparr>sc_group_maps := (sc_group_maps sc)(target := None)\<rparr>) t)"
    by (auto simp: running_ok_def spaces_ok_def groups_ok_def groups_def group_has_parked_iff)
  with \<open>running_ok t\<close> show ?thesis by (simp add: kill_group_def t)
qed

lemma running_kill_each: "running_ok s \<Longrightarrow> running_ok (snd (kill_each sig ts found s))"
proof (induction ts arbitrary: found s)
  case (Cons target ts)
  have "running_ok (snd (if sig \<noteq> SIGKILL then signal_process target sig s else kill_group sig target s))"
    using Cons.prems running_kill_group same_groups_running [OF same_groups_signal] by auto
  with Cons.IH show ?case by (simp add: case_prod_beta)
qed simp

lemma kill_ok: "running_ok s \<Longrightarrow> out_ok (sys_kill ops target sig s)"
  unfolding sys_kill_def Let_def case_prod_beta
  by (auto intro!: kill_self_ok kill_job_control_ok simp: running_kill_each split: sum.splits)

section \<open>Dispatch\<close>

lemma running_heap: "running_ok s \<Longrightarrow> running_ok (s\<lparr>e_heap := h\<rparr>)"
  by (simp add: running_ok_def spaces_ok_def groups_def)

lemma running_on_table: "running_ok s \<Longrightarrow> on_table f s = (r, s') \<Longrightarrow> running_ok s'"
  by (auto simp: on_table_def case_prod_beta intro: running_heap)

lemma running_pipe:
  assumes "running_ok s" "sys_pipe ops p flags s = (r, s')"
  shows "running_ok s'"
proof -
  obtain q h where q: "pipe_fds (p_fds (e_proc s)) flags (e_heap s) = (q, h)" by fastforce
  have ok: "running_ok (s\<lparr>e_heap := h\<rparr>)" using assms(1) by (rule running_heap)
  show ?thesis
  proof (cases q)
    case (Inr fds)
    obtain a b where fds: "fds = (a, b)" by fastforce
    obtain w t where w: "write_mem ops p (fd_pair_bytes a b) (s\<lparr>e_heap := h\<rparr>) = (w, t)" by fastforce
    show ?thesis
      using assms(2) running_write [OF ok w] by (cases w) (auto simp: sys_pipe_def q Inr fds w intro: running_heap)
  qed (use assms(2) ok in \<open>simp add: sys_pipe_def q\<close>)
qed

lemma running_socketpair:
  assumes "running_ok s" "sys_socketpair ops d ty sv s = (r, s')"
  shows "running_ok s'"
proof -
  obtain q h where q: "socketpair_fds (p_fds (e_proc s)) d ty (e_heap s) = (q, h)" by fastforce
  have ok: "running_ok (s\<lparr>e_heap := h\<rparr>)" using assms(1) by (rule running_heap)
  show ?thesis
  proof (cases q)
    case (Inr fds)
    obtain a b where fds: "fds = (a, b)" by fastforce
    obtain w t where w: "write_mem ops sv (fd_pair_bytes a b) (s\<lparr>e_heap := h\<rparr>) = (w, t)" by fastforce
    show ?thesis using assms(2) running_write [OF ok w] by (cases w) (auto simp: sys_socketpair_def q Inr fds w)
  qed (use assms(2) ok in \<open>simp add: sys_socketpair_def q\<close>)
qed

lemma running_fcntl:
  assumes "running_ok s" "sys_fcntl ops fd cmd arg s = (r, s')"
  shows "running_ok s'"
proof -
  obtain q h where q: "fcntl_heap (p_fds (e_proc s)) fd cmd arg (e_heap s) = (q, h)" by fastforce
  obtain w t where w: "write_mem ops arg (u16_to_le F_UNLCK) (s\<lparr>e_heap := h\<rparr>) = (w, t)" by fastforce
  obtain v u where v: "write_mem ops (arg + 24) (u32_to_le 0) t = (v, u)" by fastforce
  have ok: "running_ok (s\<lparr>e_heap := h\<rparr>)" using assms(1) by (rule running_heap)
  show ?thesis
    using assms(2) ok running_write [OF ok w] running_write [OF running_write [OF ok w] v]
    by (cases q; cases w; cases v) (auto simp: sys_fcntl_def q w v)
qed

lemma running_arch_prctl: "running_ok s \<Longrightarrow> sys_arch_prctl ops op arg s = (r, s') \<Longrightarrow> running_ok s'"
  by (auto simp: sys_arch_prctl_def split: prod.splits sum.splits if_splits intro: running_simple(1) running_write)

lemma running_group_pgid: "running_ok s \<Longrightarrow> running_ok (snd (set_group_pgid a b s))"
  by (erule same_groups_running [rotated]) (simp add: set_group_pgid_def Let_def same_groups_mapped)

lemma file_call_ok: "file_call ops nr a s = Some (r, s') \<Longrightarrow> running_ok s \<Longrightarrow> running_ok s'"
  unfolding file_call_def
  by (auto simp: running_view dest!: view_getcwd arg_cong [where f = "\<lambda>p. group_view (snd p)"] simp: frame split: if_splits sum.splits)

lemma fd_call_ok: "fd_call ops nr a s = Some (r, s') \<Longrightarrow> running_ok s \<Longrightarrow> running_ok s'"
proof -
  have fcntl: "running_ok s \<Longrightarrow> sys_fcntl ops x y z s = (r, s') \<Longrightarrow> running_ok s'" for x y z by (rule running_fcntl)
  have pair: "running_ok s \<Longrightarrow> sys_socketpair ops x y z s = (r, s') \<Longrightarrow> running_ok s'" for x y z by (rule running_socketpair)
  show "fd_call ops nr a s = Some (r, s') \<Longrightarrow> running_ok s \<Longrightarrow> running_ok s'"
    unfolding fd_call_def
    by (auto dest: fcntl pair split: if_splits)
       (auto simp: running_view frame dest!: arg_cong [where f = "\<lambda>p. group_view (snd p)"])
qed

lemma memory_call_ok: "memory_call ops nr a s = Some (r, s') \<Longrightarrow> running_ok s \<Longrightarrow> running_ok s'"
  unfolding memory_call_def
  by (auto simp: running_view frame dest!: arg_cong [where f = "\<lambda>p. group_view (snd p)"] split: if_splits)

lemma process_call_ok: "process_call ops nr a s = (r, s') \<Longrightarrow> running_ok s \<Longrightarrow> running_ok s'"
  unfolding process_call_def Let_def
  by (auto dest: sigaction_ok sigaltstack_ok running_arch_prctl setpgid_ok intro: running_group_pgid split: if_splits)
     (auto simp: running_view frame dest!: arg_cong [where f = "\<lambda>p. group_view (snd p)"])

lemma dispatch_simple_ok:
  assumes "running_ok s" "dispatch_simple ops nr a s = Some (r, s')"
  shows "running_ok s'"
  using assms unfolding dispatch_simple_def
  by (auto split: if_splits option.splits dest: file_call_ok fd_call_ok memory_call_ok process_call_ok)

lemma io_call_ok: "io_call ops nr a s = Some r \<Longrightarrow> running_ok s \<Longrightarrow> out_ok r"
  unfolding io_call_def
  by (auto split: if_splits intro: out_read out_pread out_write out_pwrite out_ftruncate out_vectored out_ioctl out_poll
      out_messages out_msg out_epoll_wait out_select out_sendfile)

lemma dispatch_ok:
  assumes "running_ok s" "sc_next_pid (e_sched s) \<noteq> 0" "dispatch ops nr a s = Some r"
  shows "out_ok r"
  using assms unfolding dispatch_def of_result_def
  by (auto split: if_splits option.splits
      intro!: task_exit_ok clone_ok wait4_ok futex_ok sigreturn_ok sigprocmask_ok yield_ok kill_ok nanosleep_ok
      intro: io_call_ok dispatch_simple_ok running_pipe [OF _ prod.collapse [symmetric]])

section \<open>The reachable machine\<close>

text \<open>The machine from boot on: the flag says whether a task is on the processor. A guest step stands for
  guest code and for a call to \<^verbatim>\<open>execve\<close>, which leave the scheduler, the running group and its identity alone.
  A call is bounded to the first 2^64 process numbers.\<close>

definition is_exit :: "outcome \<Rightarrow> bool" where
  "is_exit r = (case r of Exit _ \<Rightarrow> True | _ \<Rightarrow> False)"

inductive mach_reach :: "('m, 'map, 'h) ops \<Rightarrow> bool \<Rightarrow> ('x, 'm, 'map, 'h) mach \<Rightarrow> bool" for ops where
  boot: "e_sched s = scheduler_new \<Longrightarrow> e_last_group s = ROOT_PID \<Longrightarrow> p_tgid (e_proc s) = ROOT_PID \<Longrightarrow> mach_reach ops True s"
| guest: "mach_reach ops True s \<Longrightarrow> e_sched s' = e_sched s \<Longrightarrow> e_last_group s' = e_last_group s \<Longrightarrow>
    p_tgid (e_proc s') = p_tgid (e_proc s) \<Longrightarrow> mach_reach ops True s'"
| call: "mach_reach ops True s \<Longrightarrow> sc_next_pid (e_sched s) \<noteq> 0 \<Longrightarrow> dispatch ops nr a s = Some (out, s') \<Longrightarrow>
    mach_reach ops (\<not> is_exit out) s'"
| killed: "mach_reach ops True s \<Longrightarrow> pending_signal_action s = (SaTerminate sig, t) \<Longrightarrow>
    task_exit ops (ucast sig) True t = (out, s') \<Longrightarrow> mach_reach ops (\<not> is_exit out) s'"
| stopped: "mach_reach ops True s \<Longrightarrow> pending_signal_action s = (SaStop sig, t) \<Longrightarrow>
    stop_thread_group ops sig True t = (out, s') \<Longrightarrow> mach_reach ops (\<not> is_exit out) s'"
| resumed: "mach_reach ops False s \<Longrightarrow> resume_parked ops s = (b, s') \<Longrightarrow> mach_reach ops b s'"

lemma out_ok_reach: "out_ok (out, s) \<Longrightarrow> if \<not> is_exit out then running_ok s else spaces_ok s"
  by (auto simp: is_exit_def split: outcome.splits)

lemma reach_ok: "mach_reach ops b s \<Longrightarrow> if b then running_ok s else spaces_ok s"
proof (induction rule: mach_reach.induct)
  case (boot s)
  then show ?case by (simp add: running_ok_def spaces_ok_def groups_ok_def groups_def scheduler_new_def ROOT_PID_def)
next
  case (guest s s')
  then show ?case using same_groups_running [OF same_groups_fields] by simp
next
  case (call s nr a out s')
  then have "out_ok (out, s')" using dispatch_ok [of s ops nr a] by simp
  then show ?case by (rule out_ok_reach)
next
  case (killed s sig t out s')
  then have "running_ok t" using same_groups_running [OF same_groups_pending] by auto
  then have "out_ok (out, s')" using task_exit_ok [of t ops "ucast sig" True] killed(3) by simp
  then show ?case by (rule out_ok_reach)
next
  case (stopped s sig t out s')
  then have "running_ok t" using same_groups_running [OF same_groups_pending] by auto
  then have "out_ok (out, s')" using stop_ok [of t ops sig True] stopped(3) by simp
  then show ?case by (rule out_ok_reach)
next
  case (resumed s b s')
  then show ?case using schedule_next_ok [of s ops b s'] by (simp add: resume_parked_def)
qed

lemma reach_spaces: "mach_reach ops b s \<Longrightarrow> spaces_ok s"
  using reach_ok [of ops b s] running_spaces by (auto split: if_splits)

text \<open>
  C4: every thread group keeps its own address space. In every reachable machine, switching to any
  parked task finds the address space of its group, and after the switch that group and every group
  that still has a parked task have exactly the map they had before. The law of the engine is that
  taking the map just restored gives it back.
\<close>

theorem address_spaces_kept:
  assumes "map_law ops" "mach_reach ops b s" "i < length (sc_parked (e_sched s))"
  defines "g \<equiv> p_tgid (pk_proc (sc_parked (e_sched s) ! i))"
  shows "\<exists>s'. switch_map ops g (without_task i s) = (True, s') \<and> e_last_group s' = g \<and>
     (\<forall>x. x = g \<or> x \<in> set (map (\<lambda>t. p_tgid (pk_proc t)) (remove_at i (sc_parked (e_sched s)))) \<longrightarrow>
        space ops s' x = space ops s x \<and> space ops s x \<noteq> None)"
proof -
  obtain s' where s': "switch_map ops g (without_task i s) = (True, s')" "e_last_group s' = g"
    using switch_map_found [OF reach_spaces [OF assms(2)] assms(3)] unfolding g_def by blast
  then show ?thesis
    using switch_map_keeps [OF assms(1) reach_spaces [OF assms(2)] assms(3) _ s'(1)] unfolding g_def by blast
qed

end
