(* ===== verification/Demo.thy ===== *)
theory Demo
  imports Dispatch
begin

text \<open>
  A concrete machine for evaluating the development: guest memory is one flat array that is also its
  own address-space map, every access is permitted, and no network is attached.
\<close>

unbundle bit_operations_syntax

type_synonym flat = "u64 \<Rightarrow> u8"

definition flat_ops :: "(flat, flat, unit) ops" where
  "flat_ops = \<lparr>op_read = (\<lambda>a n m. Some (map (\<lambda>i. m (a + of_nat i)) [0..<n])),
     op_write = (\<lambda>a bs m. (True, \<lambda>x. if unat (x - a) < length bs then bs ! unat (x - a) else m x)),
     op_update_perm = (\<lambda>a n p m. (True, m)), op_take_map = (\<lambda>m. (m, \<lambda>_. 0)), op_restore_map = (\<lambda>m _. m),
     op_snapshot_map = (\<lambda>m. (m, m)), op_readable = (\<lambda>_ _ _. False), op_host_driven = (\<lambda>_. False),
     op_wait_ready = (\<lambda>_ _ _ h. (False, h)), op_total_pages = (\<lambda>_. 16), op_capacity = (\<lambda>_. 1024),
     op_mapping = (\<lambda>_. []), op_get_perm = (\<lambda>_ _. 0), op_map_memory = (\<lambda>_ _ _ m. (True, m)), op_unmap = (\<lambda>_ _ m. (True, m)),
     op_find_free = (\<lambda>a _ _ _. Some a), op_grants = (\<lambda>_. True), op_tcp_connect = (\<lambda>_ _ h. (Inl ECONNREFUSED, h)),
     op_tcp_send = (\<lambda>_ _ _ h. (Inl EBADF, h)), op_tcp_recv = (\<lambda>_ _ _ h. (Inl EBADF, h)),
     op_tcp_shutdown_write = (\<lambda>_ _ h. (Inl EBADF, h)), op_udp_open = (\<lambda>_ h. (Inl EIO, h)),
     op_udp_send_to = (\<lambda>_ _ _ _ h. (Inl EBADF, h)), op_udp_recv_from = (\<lambda>_ _ _ h. (Inl EBADF, h)),
     op_local_addr = (\<lambda>_ _ h. (None, h))\<rparr>"

definition flat_cpu :: "unit cpu" where
  "flat_cpu = \<lparr>c_rax = 0, c_rdi = 0, c_rsi = 0, c_rdx = 0, c_r10 = 0, c_r8 = 0, c_r9 = 0, c_rsp = 0x8000, c_fs_offset = 0,
     c_next_pc = 0x402, c_pc = 0x400, c_exception = (ExternalAddr, 0x400), c_pending_exception = None, c_block_id = 0,
     c_block_offset = 0, c_icount = 1000, c_rest = ()\<rparr>"

definition flat_mach :: "(unit, flat, flat, unit) mach" where
  "flat_mach =
     (let (p, h) = initial kheap_empty
      in \<lparr>m_cpu = flat_cpu, m_mem = (\<lambda>_. 0), e_host = (), e_heap = h, e_vfs = vfs_new, e_proc = p, e_sched = scheduler_new,
          e_last_group = ROOT_PID, e_net = None, e_warp_nanos = 0, e_epoch_base_sec = 0, e_inotify = [], e_inotify_cookie = 0,
          e_stdio_pty = None, e_stdio_input = [], e_terminal_input_wait = False, e_network_wait = False, e_page_in_wait = False,
          e_pager = pager_new, e_network_expired = False, e_trace = None, e_exit_code = None, e_next_asid = 1,
          e_shared_maps = [], e_opened_files = None, e_rng_state = 1, e_output = [], e_secret_handles = [], e_secret_nodes = [],
          e_agent_principal = None, e_manifest = None, e_ptys = [], e_next_pty_id = 0, e_file_chunk_wait = None, e_next_file_ticket = 0,
          e_panicked = False\<rparr>)"

lemma flat_mach_fields:
  "m_cpu flat_mach = flat_cpu" "e_pager flat_mach = pager_new" "e_sched flat_mach = scheduler_new" "e_last_group flat_mach = ROOT_PID"
  "p_tgid (e_proc flat_mach) = ROOT_PID" "p_pid (e_proc flat_mach) = ROOT_PID" "e_net flat_mach = None" "e_stdio_pty flat_mach = None"
  "p_sigmask (e_proc flat_mach) = 0" "p_pending_signals (e_proc flat_mach) = 0" "p_altstack (e_proc flat_mach) = None"
  "p_altstack_depth (e_proc flat_mach) = 0" "e_warp_nanos flat_mach = 0" "p_stopped (e_proc flat_mach) = False"
  by (simp_all add: flat_mach_def initial_def Let_def case_prod_beta)

lemma flat_write:
  "pg_is_empty (e_pager s) \<Longrightarrow> write_mem flat_ops a bs s = (Inr (), s\<lparr>m_mem := snd (op_write flat_ops a bs (m_mem s))\<rparr>)"
  by (simp add: write_mem_eager write_mem_raw_def flat_ops_def)

lemma pager_new_empty: "pg_is_empty pager_new"
  by (simp add: pg_is_empty_def pager_new_def)

end
