(* ===== verification/Wakeups.thy ===== *)
theory Wakeups
  imports CallProps Demo
begin

text \<open>
  How waits end: a wait interrupted by a handler, a futex wait that times out, and a child collected
  while its status cannot be copied yet; and concrete runs of the signal and scheduling theorems.
\<close>

unbundle bit_operations_syntax

section \<open>Concrete runs\<close>

text \<open>A registration of \<open>handler\<close> for signal 10 without flags.\<close>

definition demo_action :: "u64 \<Rightarrow> bytes" where
  "demo_action handler = u64_to_le handler @ u64_to_le 0 @ u64_to_le 0x700 @ u64_to_le 0"

definition demo_signalled :: "(unit, flat, flat, unit) mach" where
  "demo_signalled =
     (let s = flat_mach
      in s\<lparr>e_heap := (e_heap s)\<lparr>kh_sigs := (kh_sigs (e_heap s))(p_sigactions (e_proc s) \<mapsto> [10 \<mapsto> demo_action 0x600])\<rparr>,
           e_proc := (e_proc s)\<lparr>p_pending_signals := 512\<rparr>\<rparr>)"

lemma demo_action_words: "sa_word 0 (demo_action x) = x" "sa_word 8 (demo_action x) = 0" "sa_word 16 (demo_action x) = 0x700" "sa_word 24 (demo_action x) = 0"
  by (simp_all add: sa_word_def demo_action_def)

lemma demo_trailing: "trailing_zeros 512 = 9"
  by code_simp

lemma demo_next_handler: "next_handler [10 \<mapsto> demo_action 0x600] 0 512 = (Some (10, demo_action 0x600), 0)"
  by (subst next_handler.simps) (simp add: lowest_signal_def demo_trailing demo_action_words signal_defs sig_bit_def)

lemma demo_acts: "proc_acts (e_heap demo_signalled) (e_proc demo_signalled) = [10 \<mapsto> demo_action 0x600]"
  by (simp add: demo_signalled_def proc_acts_def sigs_at_def Let_def)

lemma demo_delivered: "fst (deliver_signal flat_ops demo_signalled)"
  unfolding deliver_signal_def demo_acts
  by (simp add: demo_next_handler demo_signalled_def flat_mach_fields enter_handler_def push_frame_def flat_write pager_new_empty
      save_context_def trace_event_def Let_def)

theorem signal_return_restores_witness:
  "fst (deliver_signal flat_ops demo_signalled) \<and>
   (let t = snd (deliver_signal flat_ops demo_signalled)
    in sys_rt_sigreturn flat_ops t =
         (Switched, t\<lparr>m_cpu := (m_cpu demo_signalled)\<lparr>c_icount := c_icount (m_cpu t)\<rparr>,
                     e_proc := (e_proc demo_signalled)\<lparr>p_pending_signals := 0\<rparr>\<rparr>))"
proof
  show "fst (deliver_signal flat_ops demo_signalled)" by (rule demo_delivered)
  let ?t = "snd (deliver_signal flat_ops demo_signalled)"
  have t: "deliver_signal flat_ops demo_signalled = (True, ?t)" using demo_delivered by (metis prod.collapse)
  have "p_pending_signals (e_proc ?t) = 0"
    using deliver_signal_entered [OF t] unfolding demo_acts
    by (auto simp: demo_next_handler demo_signalled_def flat_mach_fields entered_def)
  then have same: "e_proc ?t = (e_proc ?t)\<lparr>p_pending_signals := 0\<rparr>" by simp
  show "let t = ?t in sys_rt_sigreturn flat_ops t =
         (Switched, t\<lparr>m_cpu := (m_cpu demo_signalled)\<lparr>c_icount := c_icount (m_cpu t)\<rparr>,
                     e_proc := (e_proc demo_signalled)\<lparr>p_pending_signals := 0\<rparr>\<rparr>)"
    using signal_return_restores [OF t same] by (simp add: demo_signalled_def flat_mach_fields Let_def)
qed

text \<open>Two processes: the root forked a child, which is parked ready with its own map.\<close>

lemma flat_map_law: "map_law flat_ops"
  by (simp add: map_law_def flat_ops_def)

definition demo_forked :: "(unit, flat, flat, unit) mach" where
  "demo_forked = snd (sys_clone_impl flat_ops clone_fork flat_mach)"

lemma demo_fork: "dispatch flat_ops SYS_FORK a flat_mach = Some (ORet (Inr 1001), demo_forked)"
  by (simp add: dispatch_def sys_defs demo_forked_def sys_clone_impl_def next_pid_def clone_fork_def has_flag_def flat_mach_fields
      scheduler_new_def ROOT_PID_def spawn_def case_prod_beta vfork_flag_def Let_def)

lemma demo_forked_parked: "map (\<lambda>t. p_tgid (pk_proc t)) (sc_parked (e_sched demo_forked)) = [1001]"
  by (simp add: demo_forked_def sys_clone_impl_def next_pid_def clone_fork_def has_flag_def flat_mach_fields scheduler_new_def
      ROOT_PID_def spawn_def case_prod_beta vfork_flag_def add_task_def set_child_tid_def clone_map_def clone_process_def
      is_thread_def fork_child_def alloc_asid_def Let_def)

theorem address_spaces_kept_witness:
  "\<exists>s'. switch_map flat_ops 1001 (without_task 0 demo_forked) = (True, s') \<and> e_last_group s' = 1001 \<and>
     space flat_ops s' 1001 = space flat_ops demo_forked 1001 \<and> space flat_ops demo_forked 1001 \<noteq> None"
proof -
  have "mach_reach flat_ops True flat_mach" by (rule boot) (simp_all add: flat_mach_fields)
  then have reach: "mach_reach flat_ops (\<not> is_exit (ORet (Inr 1001))) demo_forked"
    using call [OF _ _ demo_fork] by (simp add: flat_mach_fields scheduler_new_def ROOT_PID_def)
  obtain t where t: "sc_parked (e_sched demo_forked) = [t]" "p_tgid (pk_proc t) = 1001"
    using demo_forked_parked by (auto simp: map_eq_Cons_conv)
  show ?thesis using address_spaces_kept [OF flat_map_law reach, of 0] t by auto
qed

section \<open>Interrupted waits\<close>

lemma sigs_description_drop: "kh_sigs (description_drop d h) = kh_sigs h"
  by (simp add: description_drop_def split: backing.splits option.splits)

lemma sigs_ofd_drop: "kh_sigs (ofd_drop i h) = kh_sigs h"
  by (simp add: ofd_drop_def sigs_description_drop split: option.splits prod.splits)

lemma sigs_slots_drop: "kh_sigs (slots_drop es h) = kh_sigs h"
  by (induction es arbitrary: h) (simp_all add: entry_drop_def sigs_ofd_drop split: option.splits)

lemma sigs_process_drop: "kh_sigs (process_drop p h) = kh_sigs h"
  by (simp add: process_drop_def table_drop_def sigs_slots_drop split: option.splits prod.splits)

lemma acts_process_drop: "proc_acts (process_drop p h) q = proc_acts h q"
  by (simp add: proc_acts_def sigs_at_def sigs_process_drop)

lemma timed_out_satisfied: "timed_out now (pk_state t) \<Longrightarrow> wait_is_satisfied net h sc now t"
  by (auto simp: timed_out_def wait_is_satisfied_def deadline_passed_def split: park_state.splits bool.splits option.splits)

lemma wake_interrupted:
  assumes "deliverable (e_proc s) \<noteq> 0" "signal_restarts_the_syscall s = Some False"
  shows "wake_up ops False True False s = snd (deliver_signal ops (with_cpu (end_wait_with (neg EINTR)) s))"
  using assms by (simp add: wake_up_def)

text \<open>
  C32: where an interrupted wait resumes. A parked task that is woken only by a signal whose handler was
  registered without \<^verbatim>\<open>SA_RESTART\<close> enters the handler from a state that holds \<^verbatim>\<open>-EINTR\<close>. If the wait was
  parked to be re-executed, that state continues right after the call. If it was parked to continue
  after the call, as the timed futex wait, the sleep and every wait with a timeout are, the state
  continues two bytes further, past the beginning of the next instruction. (The address-space
  invariant holds in every reachable machine.)
\<close>

theorem interrupted_wait_resumes:
  assumes "spaces_ok s" "i < length (sc_parked (e_sched s))"
  defines "t \<equiv> sc_parked (e_sched s) ! i"
  assumes cpu: "pk_cpu t = prepare_resume restart c"
    and waiting: "\<not> vfork_wait (pk_state t)"
      "\<not> wait_is_satisfied (op_readable ops (e_host s)) (e_heap s) (e_sched (without_task i s)) now t"
    and sig: "deliverable (pk_proc t) \<noteq> 0" "proc_acts (e_heap s) (pk_proc t) (lowest_signal (deliverable (pk_proc t))) = Some a"
      "sa_handler a \<noteq> SIG_DFL" "sa_handler a \<noteq> SIG_IGN" "sa_flags a AND SA_RESTART = 0"
  shows "\<exists>u. run_task ops now i s = (True, snd (deliver_signal ops u)) \<and> e_proc u = pk_proc t \<and> c_rax (m_cpu u) = neg EINTR \<and>
     c_pc (m_cpu u) = (if restart then c_next_pc c else c_next_pc c + 2)"
proof -
  obtain v where v: "switch_map ops (p_tgid (pk_proc t)) (without_task i s) = (True, v)" "e_heap v = e_heap s"
    using switch_map_found [OF assms(1,2) refl] unfolding t_def by blast
  let ?w = "install_task t v"
  have expired: "\<not> timed_out now (pk_state t)" using waiting(2) timed_out_satisfied by blast
  have "signal_restarts_the_syscall ?w = Some False"
    using sig v(2) by (simp add: signal_restarts_the_syscall_def install_task_def acts_process_drop)
  then have woken: "wake_up ops False True False ?w = snd (deliver_signal ops (with_cpu (end_wait_with (neg EINTR)) ?w))"
    using sig(1) by (intro wake_interrupted) (simp_all add: install_task_def)
  have "run_task ops now i s = (True, wake_up ops False True False ?w)"
    using v(1) expired waiting unfolding run_task_def t_def without_task_def by simp
  moreover have "c_rax (m_cpu (with_cpu (end_wait_with (neg EINTR)) ?w)) = neg EINTR"
    by (simp add: end_wait_with_def enter_at_def Let_def)
  moreover have "c_pc (m_cpu (with_cpu (end_wait_with (neg EINTR)) ?w)) = (if restart then c_next_pc c else c_next_pc c + 2)"
    by (simp add: install_task_def cpu restore_cpu_def end_wait_with_def enter_at_def prepare_resume_def SYSCALL_INSN_LEN_def Let_def)
  moreover have "e_proc (with_cpu (end_wait_with (neg EINTR)) ?w) = pk_proc t" by (simp add: install_task_def)
  ultimately show ?thesis using woken by metis
qed

section \<open>Timed futex waits\<close>

lemma wake_quiet: "deliverable (e_proc s) = 0 \<Longrightarrow>
    wake_up ops expired a c s = (if expired then with_cpu (\<lambda>c. c\<lparr>c_rax := neg ETIMEDOUT\<rparr>) s else s)"
  by (simp add: wake_up_def)

lemma run_quiet_task:
  assumes "spaces_ok s" "i < length (sc_parked (e_sched s))"
  defines "t \<equiv> sc_parked (e_sched s) ! i"
  assumes "deliverable (pk_proc t) = 0"
  shows "\<exists>s'. run_task ops now i s = (True, s') \<and> c_rax (m_cpu s') = (if timed_out now (pk_state t) then neg ETIMEDOUT else c_rax (pk_cpu t))"
proof -
  obtain v where v: "switch_map ops (p_tgid (pk_proc t)) (without_task i s) = (True, v)"
    using switch_map_found [OF assms(1,2) refl] unfolding t_def by blast
  have "deliverable (e_proc (install_task t v)) = 0" using assms(4) by (simp add: install_task_def)
  then show ?thesis
    using v unfolding run_task_def t_def [symmetric] without_task_def
    by (simp add: wake_quiet Let_def) (simp add: install_task_def restore_cpu_def)
qed


section \<open>Collecting a child across a page-in\<close>

lemma wait_again:
  assumes "sc_zombies (e_sched u) = []" "\<not> has_child (e_sched u) (p_tgid (e_proc u)) (wait_filter pid)"
    "options AND WUNTRACED = 0"
  shows "sys_wait4 ops pid ptr options u = (ORet (Inl ECHILD), u)"
  using assms by (simp add: sys_wait4_def take_zombie_def)

text \<open>
  C34: a child is lost when its status lands on a page that is not resident. The call takes the dead
  child off the queue, then finds the page of the status missing and stops the machine to have the
  page delivered; the call is to be made again from the start. Made again, in any state with the same
  processes, it finds no child and returns \<^verbatim>\<open>ECHILD\<close>: the exit status is never delivered.
\<close>

theorem wait4_loses_child:
  assumes z: "sc_zombies (e_sched s) = [z]" "child_matches (p_tgid (e_proc s)) (wait_filter pid) (z_pid z) (z_ppid z)"
    and only: "\<not> list_ex (\<lambda>t. child_matches (p_tgid (e_proc s)) (wait_filter pid) (p_tgid (pk_proc t)) (p_ppid (pk_proc t))) (sc_parked (e_sched s))"
    and ptr: "ptr \<noteq> 0" "options AND WUNTRACED = 0"
    and cold: "write_mem ops ptr (u32_to_le (z_status z)) (s\<lparr>e_sched := (e_sched s)\<lparr>sc_zombies := []\<rparr>\<rparr>) = (Inl PAGE_IN_RESTART, t)"
  shows "sys_wait4 ops pid ptr options s = (ORet (Inl PAGE_IN_RESTART), t) \<and>
         fst (finish c n (sys_wait4 ops pid ptr options s)) = Some Interrupted \<and>
         (\<forall>u. e_sched u = e_sched t \<and> e_proc u = e_proc t \<longrightarrow> sys_wait4 ops pid ptr options u = (ORet (Inl ECHILD), u))"
proof -
  have first: "sys_wait4 ops pid ptr options s = (ORet (Inl PAGE_IN_RESTART), t)"
    using z ptr cold by (simp add: sys_wait4_def take_zombie_def remove_at_def write_status_def)
  have kept: "e_sched t = (e_sched s)\<lparr>sc_zombies := []\<rparr>" "e_proc t = e_proc s"
    using copy_only_fields(1,2) [OF copy_only_write [OF cold]] by simp_all
  have "sys_wait4 ops pid ptr options u = (ORet (Inl ECHILD), u)" if "e_sched u = e_sched t \<and> e_proc u = e_proc t" for u
    using that kept only ptr(2) by (intro wait_again) (simp_all add: has_child_def)
  with first show ?thesis by (simp add: finish_def)
qed

section \<open>Concrete waits\<close>

text \<open>The root process sleeps until 5000 with a handled signal pending; the clock stands at 1000.\<close>

definition demo_parked :: "park_state \<Rightarrow> unit cpu process \<Rightarrow> (unit, flat, flat, unit) mach" where
  "demo_parked ps p = demo_signalled\<lparr>e_sched := scheduler_new\<lparr>sc_parked := [\<lparr>pk_proc = p, pk_cpu = prepare_resume False flat_cpu, pk_state = ps\<rparr>]\<rparr>\<rparr>"

lemma demo_parked_spaces: "p_tgid p = ROOT_PID \<Longrightarrow> spaces_ok (demo_parked ps p)"
  by (simp add: spaces_ok_def groups_ok_def groups_def demo_parked_def demo_signalled_def flat_mach_fields Let_def ROOT_PID_def)

lemma demo_parked_task: "sc_parked (e_sched (demo_parked ps p)) = [\<lparr>pk_proc = p, pk_cpu = prepare_resume False flat_cpu, pk_state = ps\<rparr>]"
  by (simp add: demo_parked_def)

theorem interrupted_wait_resumes_witness:
  "\<exists>u. run_task flat_ops 1000 0 (demo_parked (PsWaiting [] (Some 5000)) (e_proc demo_signalled)) = (True, snd (deliver_signal flat_ops u)) \<and>
       c_rax (m_cpu u) = neg EINTR \<and> c_pc (m_cpu u) = 0x404"
proof -
  let ?s = "demo_parked (PsWaiting [] (Some 5000)) (e_proc demo_signalled)"
  have tgid: "p_tgid (e_proc demo_signalled) = ROOT_PID" "p_sigmask (e_proc demo_signalled) = 0" "p_pending_signals (e_proc demo_signalled) = 512"
    by (simp_all add: demo_signalled_def flat_mach_fields Let_def)
  have d: "deliverable (e_proc demo_signalled) = 512" by (simp add: deliverable_def tgid)
  have heap: "proc_acts (e_heap ?s) (e_proc demo_signalled) = [10 \<mapsto> demo_action 0x600]" using demo_acts by (simp add: demo_parked_def)
  have low: "lowest_signal 512 = 10" by (simp add: lowest_signal_def demo_trailing)
  have "\<not> wait_is_satisfied n h sc 1000 (sc_parked (e_sched ?s) ! 0)" for n h sc
    by (simp add: demo_parked_task wait_is_satisfied_def deadline_passed_def)
  then show ?thesis
    using interrupted_wait_resumes [OF demo_parked_spaces [OF tgid(1)], of 0 "PsWaiting [] (Some 5000)" False flat_cpu flat_ops 1000 "demo_action 0x600"]
    by (simp add: demo_parked_task d heap low demo_action_words signal_defs vfork_wait_def flat_cpu_def) blast
qed

definition demo_waiter :: "unit cpu process" where
  "demo_waiter = e_proc flat_mach"


text \<open>The status word lies on a page of a file whose only chunk has not arrived.\<close>

definition demo_lazy :: pager where
  "demo_lazy = pager_new\<lparr>pg_spaces := [(0, \<lparr>sp_generation = 1, sp_mappings = [\<lparr>fm_start = 4096, fm_end = 8192, fm_data_start = 4096,
     fm_file_offset = 0, fm_file_len = 4096, fm_perm = 7, fm_fill = 0, fm_file = \<lparr>cf_size = 4096, cf_chunk_size = 4096, cf_chunks = [[1]]\<rparr>\<rparr>]\<rparr>)]\<rparr>"

lemma demo_page: "page_of 4096 = 4096"
  by (simp add: page_of_def PAGE_SIZE_def)

lemma demo_lazy_state: "page_state demo_lazy 0 4096 = Some (False, 7)"
  by (simp add: page_state_def demo_page demo_lazy_def pager_new_def touches_def)

lemma demo_range: "cs_read_range [] \<lparr>cf_size = 4096, cf_chunk_size = 4096, cf_chunks = [[1]]\<rparr> 0 4096 = Ret (Missing [1])"
  by (simp add: cs_read_range_def read_loop.simps chunk_at_def cs_get_def saturating_add_def)

lemma demo_lazy_missing: "\<exists>q p. pg_resolve [] 0 4096 AccWrite demo_lazy = Ret (PgMissing q, p)"
  by (simp add: pg_resolve_def demo_lazy_def pager_new_def fault_page_def demo_page touches_def fm_data_end_def PAGE_SIZE_def demo_range
     pg_request_def Let_def)

lemma demo_cold:
  assumes "e_pager s = demo_lazy" "vchunks (e_vfs s) = []" "p_asid (e_proc s) = 0" "length bs = 4"
  shows "\<exists>t. write_mem ops 4096 bs s = (Inl PAGE_IN_RESTART, t)"
proof -
  obtain q p where "pg_resolve [] 0 4096 AccWrite demo_lazy = Ret (PgMissing q, p)" using demo_lazy_missing by blast
  then have "\<exists>t. touch_page ops 4096 AccWrite s = (Inl PAGE_IN_RESTART, t)"
    using assms demo_lazy_state by (simp add: touch_page_def required_perm_def PERM_WRITE_def touch_cold_def)
  then obtain t where "touch_page ops 4096 AccWrite s = (Inl PAGE_IN_RESTART, t)" by blast
  then have "touch_loop ops AccWrite 4096 4100 s = (Inl PAGE_IN_RESTART, t)" by (subst touch_loop.simps) simp
  moreover have "\<not> pg_is_empty demo_lazy" by (simp add: pg_is_empty_def demo_lazy_def)
  ultimately show ?thesis
    using assms demo_page by (simp add: write_mem_def host_touch_def checked_add_def)
qed

definition demo_reaping :: "(unit, flat, flat, unit) mach" where
  "demo_reaping = flat_mach\<lparr>e_pager := demo_lazy, e_vfs := vfs_root_only,
     e_sched := scheduler_new\<lparr>sc_zombies := [\<lparr>z_pid = 1001, z_ppid = ROOT_PID, z_status = 256\<rparr>]\<rparr>\<rparr>"

theorem wait4_loses_child_witness:
  "\<exists>t. sys_wait4 flat_ops 0 4096 0 demo_reaping = (ORet (Inl PAGE_IN_RESTART), t) \<and> sys_wait4 flat_ops 0 4096 0 t = (ORet (Inl ECHILD), t)"
proof -
  let ?s = "demo_reaping\<lparr>e_sched := (e_sched demo_reaping)\<lparr>sc_zombies := []\<rparr>\<rparr>"
  have "p_asid (e_proc flat_mach) = 0" by (simp add: flat_mach_def initial_def Let_def case_prod_beta)
  then obtain t where t: "write_mem flat_ops 4096 (u32_to_le 256) ?s = (Inl PAGE_IN_RESTART, t)"
    using demo_cold [of ?s "u32_to_le 256" flat_ops] by (auto simp: demo_reaping_def vfs_root_only_def)
  have f: "wait_filter 0 = - 1" by (simp add: wait_filter_def i32_of_def)
  show ?thesis
    using wait4_loses_child [of demo_reaping "\<lparr>z_pid = 1001, z_ppid = ROOT_PID, z_status = 256\<rparr>" 0 4096 0 flat_ops t] t f
    by (auto simp: demo_reaping_def flat_mach_fields child_matches_def scheduler_new_def)
qed

end
