(* ===== verification/IoProps.thy ===== *)
theory IoProps
  imports Demo VfsInv
begin

text \<open>
  What a guest can rely on when it reads and writes through descriptors: pipes deliver what was written
  in order, files read back what was written to them, a directory is listed entry by entry, timers
  count every expiration once, and an edge-triggered interest is reported once per edge.
\<close>

unbundle bit_operations_syntax

section \<open>Pipes\<close>

text \<open>The law of guest memory the delivery rests on: a permitted write is what a read finds.\<close>

definition memory_law :: "('m, 'map, 'h) ops \<Rightarrow> bool" where
  "memory_law ops \<longleftrightarrow> (\<forall>a bs m m'. length bs < 2 ^ 64 \<longrightarrow> op_write ops a bs m = (True, m') \<longrightarrow> op_read ops a (length bs) m' = Some bs)"

lemma write_mem_lands:
  assumes "memory_law ops" "length bs < 2 ^ 64" "write_mem ops a bs s = (Inr (), s')"
  shows "read_mem_raw ops a (length bs) s' = Inr bs"
  using assms by (auto simp: write_mem_def write_mem_raw_def read_mem_raw_def memory_law_def fill_buffer_def
      split: prod.splits sum.splits if_splits)

lemma copy_keeps_heap:
  "copy_only s s' \<Longrightarrow> e_heap s' = e_heap s" "copy_only s s' \<Longrightarrow> e_vfs s' = e_vfs s"
  by (auto elim: copy_only_elim)

lemma take_len_bounds:
  "take_len n k \<le> k" "take_len n k < 2 ^ 64" "unat (of_nat (take_len n k) :: u64) = take_len n k"
proof -
  show "take_len n k \<le> k" by (simp add: take_len_def)
  have "take_len n k \<le> unat n" by (simp add: take_len_def)
  then show "take_len n k < 2 ^ 64" "unat (of_nat (take_len n k) :: u64) = take_len n k"
    using unsigned_less [of n, where ?'a = nat] by (simp_all add: unsigned_of_nat take_bit_eq_mod)
qed

lemma write_pipe_appends:
  assumes w: "write_pipe ops nb p buf n s = (ORet (Inr k), s')" and q: "kh_pipes (e_heap s) p = Some q"
    and nb: "nb \<or> length (pi_data q) < PIPE_CAPACITY" and r: "read_mem ops buf (unat k) s = (Inr bs, t)"
  shows "kh_pipes (e_heap s') p = Some (pipe_push bs q)"
proof -
  let ?n = "take_len n (PIPE_CAPACITY - length (pi_data q))"
  have room: "length (pi_data q) < PIPE_CAPACITY" using w q nb by (auto simp: write_pipe_def would_block_def split: if_splits)
  obtain x u where x: "read_mem ops buf ?n s = (x, u)" by fastforce
  have k: "unat k = ?n" using w q room x by (auto simp: write_pipe_def Let_def or_return_def take_len_bounds split: if_splits sum.splits)
  then have "x = Inr bs" using r x by simp
  moreover have "e_heap u = e_heap s" using copy_keeps_heap(1) [OF copy_only_read [OF x]] .
  ultimately show ?thesis
    using w q room x by (auto simp: write_pipe_def Let_def or_return_def at_cell_def split: if_splits)
qed

lemma read_pipe_takes:
  assumes law: "memory_law ops" and r: "read_pipe ops nb p buf n s = (ORet (Inr k), s')" and q: "kh_pipes (e_heap s) p = Some q"
    and data: "nb \<or> pi_data q \<noteq> [] \<or> pi_writers q = 0" and m: "read_mem_raw ops buf (unat k) s' = Inr bs"
  shows "\<exists>q'. kh_pipes (e_heap s') p = Some q' \<and> pi_data q = bs @ pi_data q'"
proof (cases "pi_data q = []")
  case True
  then show ?thesis
    using r q data m by (auto simp: read_pipe_def would_block_def read_mem_raw_def fill_buffer_def split: if_splits option.splits)
next
  case False
  let ?n = "take_len n (length (pi_data q))"
  let ?q = "q\<lparr>pi_data := drop ?n (pi_data q), pi_activity := pi_activity q + 1\<rparr>"
  let ?u = "with_heap (\<lambda>h. h\<lparr>kh_pipes := (kh_pipes h)(p \<mapsto> ?q)\<rparr>) s"
  obtain x where x: "write_mem ops buf (take ?n (pi_data q)) ?u = (Inr (), s')" "k = of_nat ?n"
    using r q False take_len_bounds(1) [of n "length (pi_data q)"]
    by (auto simp: read_pipe_def Let_def deliver_bytes_def or_return_def min_def split: prod.splits sum.splits)
  have "length (take ?n (pi_data q)) = ?n" using take_len_bounds(1) by simp
  then have "bs = take ?n (pi_data q)"
    using write_mem_lands [OF law _ x(1)] m take_len_bounds(2) [of n "length (pi_data q)"] by (simp add: x(2) take_len_bounds(3))
  moreover have "e_heap s' = e_heap ?u" using copy_keeps_heap(1) [OF copy_only_write [OF x(1)]] .
  ultimately show ?thesis by simp
qed

text \<open>The history of one pipe: the bytes the guest handed to successful writes, the bytes successful
  reads left in guest memory, and whatever else happens that does not touch the pipe. A call that
  blocks is none of these: it runs again when it is woken.\<close>

inductive pipe_history :: "('m, 'map, 'h) ops \<Rightarrow> nat \<Rightarrow> ('x, 'm, 'map, 'h) mach \<Rightarrow> bytes \<Rightarrow> bytes \<Rightarrow> ('x, 'm, 'map, 'h) mach \<Rightarrow> bool"
  for ops p s0 where
  start: "pipe_history ops p s0 [] [] s0"
| wrote: "pipe_history ops p s0 w r s \<Longrightarrow> kh_pipes (e_heap s) p = Some q \<Longrightarrow> nb \<or> length (pi_data q) < PIPE_CAPACITY \<Longrightarrow>
    write_pipe ops nb p buf n s = (ORet (Inr k), s') \<Longrightarrow> read_mem ops buf (unat k) s = (Inr bs, t) \<Longrightarrow>
    pipe_history ops p s0 (w @ bs) r s'"
| got: "pipe_history ops p s0 w r s \<Longrightarrow> kh_pipes (e_heap s) p = Some q \<Longrightarrow> nb \<or> pi_data q \<noteq> [] \<or> pi_writers q = 0 \<Longrightarrow>
    read_pipe ops nb p buf n s = (ORet (Inr k), s') \<Longrightarrow> read_mem_raw ops buf (unat k) s' = Inr bs \<Longrightarrow>
    pipe_history ops p s0 w (r @ bs) s'"
| other: "pipe_history ops p s0 w r s \<Longrightarrow> kh_pipes (e_heap s') p = kh_pipes (e_heap s) p \<Longrightarrow> pipe_history ops p s0 w r s'"

lemma pipe_history_queue:
  assumes "pipe_history ops p s0 w r s" "memory_law ops" "kh_pipes (e_heap s0) p = Some q0"
  shows "\<exists>q. kh_pipes (e_heap s) p = Some q \<and> pi_data q0 @ w = r @ pi_data q"
  using assms
proof (induction rule: pipe_history.induct)
  case (wrote w r s q nb buf n k s' bs t)
  then have "pi_data q0 @ w = r @ pi_data q" by simp
  then show ?case using write_pipe_appends [OF wrote(4,2,3,5)] by (simp add: pipe_push_def)
next
  case (got w r s q nb buf n k s' bs)
  then have "pi_data q0 @ w = r @ pi_data q" by simp
  then show ?case using read_pipe_takes [OF got(7,4,2,3,5)] by auto
qed simp_all

lemma pipe_fifo_prefix:
  assumes "memory_law ops" "kh_pipes (e_heap s0) p = Some q0" "pi_data q0 = []" "pipe_history ops p s0 w r s"
  shows "\<exists>q. kh_pipes (e_heap s) p = Some q \<and> w = r @ pi_data q"
  using pipe_history_queue [OF assms(4,1,2)] assms(3) by simp

section \<open>Files\<close>

text \<open>A file with bytes laid over it: the gap up to a position past the end reads as zeros.\<close>

definition overlay :: "nat \<Rightarrow> bytes \<Rightarrow> bytes \<Rightarrow> nat \<Rightarrow> u8" where
  "overlay start bs old i =
     (if start \<le> i \<and> i < start + length bs then bs ! (i - start) else if i < length old then old ! i else 0)"

lemma write_into_overlay:
  assumes "write_into grants start bs data = Some data'"
  shows "length (vdata data') = max (length (vdata data)) (start + length bs) \<and>
    (\<forall>i < length (vdata data'). vdata data' ! i = overlay start bs (vdata data) i)"
proof -
  let ?old = "vdata data" and ?len = "length (vdata data)" and ?stop = "start + length bs"
  have grow: "vec_try_reserve grants data k = Some d \<Longrightarrow> vdata d = vdata data" for k d
    by (auto simp: vec_try_reserve_def Let_def split: if_splits)
  have new: "vdata data' = put_at start bs (?old @ replicate (?stop - ?len) 0)"
    using assms grow by (auto simp: write_into_def Let_def split: if_splits)
  let ?buf = "?old @ replicate (?stop - ?len) 0"
  have fits: "start + length bs \<le> length ?buf" by simp
  have "put_at start bs ?buf ! i = overlay start bs ?old i" if "i < length ?buf" for i
    using nth_put_at [OF fits that] that by (auto simp: overlay_def nth_append)
  then show ?thesis using fits by (simp add: new)
qed

lemma materialized:
  assumes "materialize_file i v = (Inr data, v')"
  shows "i < length (vnodes v')" "nkind (vnodes v' ! i) = File data" "materialize_file i v' = (Inr data, v')"
  using assms by (auto simp: materialize_file_def node_at_def split: option.splits node_kind.splits run.splits read_range.splits
      sum.splits if_splits)

lemma write_node_overlay:
  assumes "materialize_file i v = (Inr data, v)" "write_node grants i start bs v = (Inr u, v')"
  shows "\<exists>data'. write_into grants start bs data = Some data' \<and> i < length (vnodes v') \<and> nkind (vnodes v' ! i) = File data'"
  using assms materialized [OF assms(1)]
  by (auto simp: write_node_def split: sum.splits option.splits if_splits)

lemma notify_keeps: "e_vfs (notify_inotify i nm m c s) = e_vfs s" "e_secret_nodes (notify_inotify i nm m c s) = e_secret_nodes s"
  by (simp_all add: notify_inotify_def)

lemma write_file_overlay:
  assumes w: "write_file_at ops node d bs s = (Inr n, d', s')" and m: "materialize_file node (e_vfs s) = (Inr old, v)"
  defines "start \<equiv> if d_flags d AND O_APPEND \<noteq> 0 then unat (of_nat (length (vdata old)) :: u64) else unat (d_offset d)"
  shows "n = of_nat (length bs) \<and> d_offset d' = of_nat (start + length bs) \<and> start + length bs \<le> usize_max \<and>
    \<not> is_host_secret_node s' node \<and>
    (\<exists>new. write_into (op_grants ops) start bs old = Some new \<and> node < length (vnodes (e_vfs s')) \<and>
           nkind (vnodes (e_vfs s') ! node) = File new)"
proof -
  let ?t = "s\<lparr>e_vfs := v\<rparr>"
  have len: "on_vfs (file_length node) s = (Inr (length (vdata old)), ?t)" by (simp add: on_vfs_def file_length_def m)
  obtain r u where u: "on_vfs (write_node (op_grants ops) node start bs) ?t = (r, u)" by fastforce
  have sec: "\<not> is_host_secret_node s node" using w by (auto simp: write_file_at_def)
  have step: "r = Inr ()" "s' = notify_inotify node [] IN_MODIFY 0 u" "n = of_nat (length bs)" "d_offset d' = of_nat (start + length bs)"
    "start + length bs \<le> usize_max"
    using w sec len u by (auto simp: write_file_at_def guest_size_def Let_def start_def split: if_splits sum.splits prod.splits)
  obtain v' where v': "write_node (op_grants ops) node start bs v = (Inr (), v')" "u = ?t\<lparr>e_vfs := v'\<rparr>"
    using u step(1) by (auto simp: on_vfs_def split: prod.splits sum.splits fault.splits)
  show ?thesis
    using write_node_overlay [OF materialized(3) [OF m] v'(1)] step sec
    by (auto simp: notify_keeps v'(2) is_host_secret_node_def)
qed

lemma file_reads_back:
  assumes "node < length (vnodes (e_vfs s))" "nkind (vnodes (e_vfs s) ! node) = File new" "\<not> is_host_secret_node s node"
    "write_into grants start bs old = Some new" "start + length bs \<le> usize_max" "d_offset d = of_nat start"
  shows "read_file_at node d (length bs) s = (Inr bs, s)"
proof -
  have usize: "start < 2 ^ 64" "usize_max = 2 ^ 64 - 1" using assms(5) by (simp_all add: usize_max_def)
  then have off: "unat (d_offset d) = start" by (simp add: assms(6) unsigned_of_nat take_bit_eq_mod)
  note w = write_into_overlay [OF assms(4)]
  have "take (length bs) (drop start (vdata new)) = bs"
    using w by (intro nth_equalityI) (auto simp: overlay_def)
  then show ?thesis
    using assms(1,2,3,5) off w
    by (simp add: read_file_at_def read_node_range_def node_at_def usize_sat_add_def)
qed

section \<open>Directories\<close>

text \<open>How a C library walks the buffer of \<^verbatim>\<open>getdents64\<close>: name, inode and type of each record, the next
  one found by the length field.\<close>

function read_dirents :: "bytes \<Rightarrow> (bytes \<times> u64 \<times> u8) list" where
  "read_dirents bs =
     (if length bs < 20 \<or> dirent_len bs = 0 then []
      else let n = unat (dirent_len bs); rec = take n bs
           in (dirent_name rec, dirent_ino rec, dirent_type rec) # read_dirents (drop n bs))"
  by pat_completeness auto
termination by (relation "measure length") (auto simp: unat_gt_0 intro!: diff_less)

declare read_dirents.simps [simp del]

definition dirent_of :: "vfs \<Rightarrow> bytes \<times> nat \<Rightarrow> bytes \<times> u64 \<times> u8" where
  "dirent_of v e = (fst e, of_nat (snd e) + 1, d_type (vnodes v ! snd e))"

definition name_ok :: "bytes \<Rightarrow> bool" where
  "name_ok name \<longleftrightarrow> 0 \<notin> set name \<and> length name \<le> 255"

lemma read_dirents_record:
  assumes "name_ok name" "encode_dirent64 ino off ty name room = Some rec"
  shows "read_dirents (rec @ rest) = (name, ino, ty) # read_dirents rest"
proof -
  have "dirent_reclen (length name) < 2 ^ 16"
    using assms(1) dirent_reclen_bounds(2) [of "length name"] by (simp add: name_ok_def)
  then have r: "dirent_ino rec = ino" "dirent_type rec = ty" "dirent_name rec = name" "unat (dirent_len rec) = length rec"
    using dirent_roundtrip [of name room ino off ty] assms by (auto simp: name_ok_def)
  have len: "length rec \<ge> 20" using dirent_image [OF assms(2)] dirent_reclen_bounds(1) [of "length name"] by simp
  then have "dirent_len (rec @ rest) = dirent_len rec" by (simp add: dirent_len_def)
  moreover have "dirent_len rec \<noteq> 0" using r(4) len by auto
  ultimately show ?thesis using r len unfolding read_dirents.simps [of "rec @ rest"] by simp
qed

lemma dirents_exact:
  assumes "dirents v room es pos out = Inr (bs, stop)" "\<forall>e \<in> set es. name_ok (fst e)"
  shows "\<exists>k tail. k \<le> length es \<and> stop = pos + k \<and> bs = out @ tail \<and> read_dirents tail = map (dirent_of v) (take k es) \<and>
    (es \<noteq> [] \<and> out = [] \<longrightarrow> 0 < k)"
  using assms
proof (induction es arbitrary: pos out)
  case Nil
  then show ?case by (simp add: read_dirents.simps [of "[]"])
next
  case (Cons e es)
  obtain n where n: "node_at v (snd e) = Some n" using Cons.prems(1) by (auto split: option.splits)
  show ?case
  proof (cases "encode_dirent64 (of_nat (snd e) + 1) (of_nat pos + 1) (d_type n) (fst e) (room - length out)")
    case None
    then show ?thesis using Cons.prems(1) n by (auto simp: read_dirents.simps [of "[]"] split: if_splits)
  next
    case (Some rec)
    have "dirents v room es (pos + 1) (out @ rec) = Inr (bs, stop)" using Cons.prems(1) n Some by simp
    then obtain k tail where k: "k \<le> length es" "stop = pos + 1 + k" "bs = (out @ rec) @ tail"
      "read_dirents tail = map (dirent_of v) (take k es)" using Cons.IH Cons.prems(2) by fastforce
    have "d_type n = d_type (vnodes v ! snd e)" using n by (simp add: node_at_def split: if_splits)
    then have "read_dirents (rec @ tail) = map (dirent_of v) (take (Suc k) (e # es))"
      using read_dirents_record [OF _ Some, of tail] Cons.prems(2) k(4) by (simp add: dirent_of_def)
    then show ?thesis using k by (intro exI [of _ "Suc k"] exI [of _ "rec @ tail"]) simp
  qed
qed

section \<open>Timers\<close>

lemma timer_fire_exact_lemma:
  assumes "tf_next_expiry tf = Some expiry" "expiry \<le> time" "0 < tf_interval tf" "unat time + unat (tf_interval tf) < 2 ^ 64"
  shows "\<exists>n e. timer_fire time tf = Some (n, tf\<lparr>tf_next_expiry := Some e\<rparr>) \<and>
    unat e = unat expiry + unat n * unat (tf_interval tf) \<and> time < e \<and> unat e - unat (tf_interval tf) \<le> unat time"
proof -
  let ?i = "unat (tf_interval tf)" and ?d = "unat time - unat expiry"
  let ?q = "(time - expiry) div tf_interval tf"
  have d: "unat (time - expiry) = ?d" using assms(2) by (simp add: unat_sub)
  have q: "unat ?q = ?d div ?i" by (simp add: unat_div d)
  have i: "0 < ?i" using assms(3) by (simp add: unat_gt_0 word_gt_0)
  have le: "unat expiry \<le> unat time" using assms(2) by (simp add: word_le_nat_alt)
  have mul: "?d div ?i * ?i \<le> ?d" "?d < (?d div ?i + 1) * ?i"
    using i by (simp_all add: div_times_less_eq_dividend dividend_less_times_div mult.commute)
  have small: "?d div ?i + 1 < 2 ^ 64"
  proof -
    have "?d div ?i \<le> ?d" by simp
    also have "?d < 2 ^ 64 - 1" using assms(4) i by simp
    finally show ?thesis by simp
  qed
  have n: "unat (saturating_add ?q 1) = ?d div ?i + 1" using small by (simp add: unat_saturating_add q)
  let ?p = "saturating_mul (saturating_add ?q 1) (tf_interval tf)"
  have prod: "(?d div ?i + 1) * ?i = ?d div ?i * ?i + ?i" by simp
  then have bound: "(?d div ?i + 1) * ?i \<le> ?d + ?i" using mul(1) by linarith
  then have lt: "unat (saturating_add ?q 1) * ?i < 2 ^ 64" using assms(4) le by (simp only: n)
  then have m: "unat ?p = (?d div ?i + 1) * ?i"
    by (simp add: saturating_mul_def unat_word_ariths n)
  have e: "unat (saturating_add expiry ?p) = unat expiry + (?d div ?i + 1) * ?i"
    using bound assms(4) le by (subst unat_saturating_add) (simp only: m, simp)
  have "unat time < unat (saturating_add expiry ?p)" using e mul(2) le by linarith
  moreover have "unat (saturating_add expiry ?p) - ?i \<le> unat time" using e prod mul(1) le by linarith
  moreover have "timer_fire time tf = Some (saturating_add ?q 1, tf\<lparr>tf_next_expiry := Some (saturating_add expiry ?p)\<rparr>)"
    using assms(1,2,3) by (auto simp: timer_fire_def Let_def not_less)
  ultimately show ?thesis
    using e n by (intro exI [of _ "saturating_add ?q 1"] exI [of _ "saturating_add expiry ?p"]) (simp add: word_less_nat_alt)
qed

section \<open>Edge-triggered interests\<close>

definition edge_triggered :: "u64 \<times> u32 \<times> u64 \<Rightarrow> bool" where
  "edge_triggered i \<longleftrightarrow> fst (snd i) AND EPOLLET \<noteq> 0"

text \<open>The state of an edge: what is remembered for a descriptor after a scan is what holds of it now.\<close>

definition edge_known :: "('m, 'map, 'h) ops \<Rightarrow> ('x, 'm, 'map, 'h) mach \<Rightarrow> u64 \<Rightarrow> (u64, u32 \<times> u64) btree \<Rightarrow> u64 \<times> u32 \<times> u64 \<Rightarrow> bool" where
  "edge_known ops s time edges i \<longleftrightarrow>
     (case fd_description (fst i) s of
        Inl _ \<Rightarrow> True
      | Inr (_, d) \<Rightarrow>
          let fired = epoll_conditions (net_ready ops s) (e_heap s) time (fst (snd i)) d; act = backing_activity (e_heap s) (d_backing d)
          in (case map_of edges (fst i) of None \<Rightarrow> fired = 0 | Some p \<Rightarrow> p = (fired, act)))"

lemma epoll_edge_known:
  assumes "case map_of edges fd of None \<Rightarrow> fired = 0 | Some p \<Rightarrow> p = (fired, backing_activity h (d_backing d))"
  shows "es_ready (epoll_edge k h edges fd data fired d acc) = es_ready acc"
proof (cases "map_of edges fd")
  case None
  then show ?thesis using assms by (simp add: epoll_edge_def)
next
  case (Some p)
  then have "p = (fired, backing_activity h (d_backing d))" using assms by simp
  then show ?thesis using Some by (simp add: epoll_edge_def)
qed

lemma epoll_known_silent:
  assumes "edge_triggered i" "edge_known ops s time edges i"
  shows "es_ready (epoll_one ops s time k edges i acc) = es_ready acc"
proof -
  obtain fd events data where i: "i = (fd, events, data)" by (cases i)
  show ?thesis
  proof (cases "fd_description fd s")
    case (Inr x)
    obtain j d where x: "x = (j, d)" by (cases x)
    have et: "events AND EPOLLET \<noteq> 0" using assms(1) by (simp add: edge_triggered_def i)
    note known = assms(2) [unfolded edge_known_def i fst_conv snd_conv Inr x sum.case prod.case Let_def]
    show ?thesis
      unfolding epoll_one_def i prod.case Inr x sum.case Let_def
      using et epoll_edge_known [OF known] by simp
  qed (simp add: epoll_one_def i)
qed

lemma epoll_all_silent:
  assumes "\<forall>i \<in> set is. edge_triggered i \<and> edge_known ops s time edges i"
  shows "es_ready (fold (epoll_one ops s time k edges) is acc) = es_ready acc"
  using assms
proof (induction "is" arbitrary: acc)
  case (Cons i "is")
  then show ?case using epoll_known_silent [of i ops s time edges k acc] by simp
qed simp

text \<open>What one interest adds to a scan, apart from the watches: nothing it adds depends on the others, but
  for the room that is left.\<close>

definition interest_state :: "('m, 'map, 'h) ops \<Rightarrow> ('x, 'm, 'map, 'h) mach \<Rightarrow> u64 \<Rightarrow> u64 \<times> u32 \<times> u64 \<Rightarrow> (u32 \<times> u64) option" where
  "interest_state ops s time i =
     (case fd_description (fst i) s of
        Inl _ \<Rightarrow> None
      | Inr (_, d) \<Rightarrow>
          Some (epoll_conditions (net_ready ops s) (e_heap s) time (fst (snd i)) d, backing_activity (e_heap s) (d_backing d)))"

definition new_edge :: "('m, 'map, 'h) ops \<Rightarrow> ('x, 'm, 'map, 'h) mach \<Rightarrow> u64 \<Rightarrow> (u64, u32 \<times> u64) btree \<Rightarrow> u64 \<times> u32 \<times> u64 \<Rightarrow> (u64 \<times> u32 \<times> u64) list" where
  "new_edge ops s time edges i =
     (case interest_state ops s time i of
        None \<Rightarrow> []
      | Some (fired, act) \<Rightarrow>
          (case map_of edges (fst i) of
             None \<Rightarrow> if fired \<noteq> 0 then [(fst i, fired, act)] else []
           | Some p \<Rightarrow> if p \<noteq> (fired, act) then [(fst i, fired, act)] else []))"

lemma edge_known_state:
  "edge_known ops s time edges i \<longleftrightarrow>
     (case interest_state ops s time i of
        None \<Rightarrow> True
      | Some p \<Rightarrow> (case map_of edges (fst i) of None \<Rightarrow> fst p = 0 | Some q \<Rightarrow> q = p))"
  by (auto simp: edge_known_def interest_state_def Let_def split: sum.splits option.splits)

lemma epoll_edge_fired:
  "es_fired (epoll_edge k h edges fd data fired d acc) = es_fired acc @
     (case map_of edges fd of
        None \<Rightarrow> if fired \<noteq> 0 then [(fd, fired, backing_activity h (d_backing d))] else []
      | Some p \<Rightarrow> if p \<noteq> (fired, backing_activity h (d_backing d)) then [(fd, fired, backing_activity h (d_backing d))] else [])"
  by (cases "map_of edges fd") (auto simp: epoll_edge_def Let_def case_prod_beta)

lemma epoll_one_fired:
  assumes "edge_triggered i"
  shows "es_fired (epoll_one ops s time k edges i acc) = es_fired acc @ new_edge ops s time edges i"
proof -
  obtain fd events data where i: "i = (fd, events, data)" by (cases i)
  show ?thesis
  proof (cases "fd_description fd s")
    case (Inr x)
    obtain j d where x: "x = (j, d)" by (cases x)
    have et: "events AND EPOLLET \<noteq> 0" using assms by (simp add: edge_triggered_def i)
    show ?thesis
      unfolding epoll_one_def i prod.case Inr x sum.case Let_def new_edge_def interest_state_def fst_conv snd_conv option.case
      using et by (simp add: epoll_edge_fired)
  qed (simp add: epoll_one_def new_edge_def interest_state_def i)
qed

lemma epoll_scan_fired:
  assumes "\<forall>i \<in> set is. edge_triggered i"
  shows "es_fired (fold (epoll_one ops s time k edges) is acc) = es_fired acc @ concat (map (new_edge ops s time edges) is)"
  using assms
proof (induction "is" arbitrary: acc)
  case (Cons i "is")
  then show ?case using epoll_one_fired [of i ops s time k edges acc] by simp
qed simp

lemma remember_lookup:
  assumes "bt_ok edges" "distinct (map fst fs)"
  shows "map_of (fold remember_edge fs edges) x =
     (case map_of fs x of None \<Rightarrow> map_of edges x | Some p \<Rightarrow> if fst p = 0 then None else Some p)"
  using assms
proof (induction fs arbitrary: edges)
  case (Cons f fs)
  obtain fd m a where f: "f = (fd, m, a)" by (cases f)
  have ok: "bt_ok (remember_edge f edges)" using Cons.prems(1) by (simp add: remember_edge_def f bt_ok_insert bt_ok_remove)
  have "fd \<notin> fst ` set fs" using Cons.prems(2) by (simp add: f)
  then have "map_of fs fd = None" by (simp add: map_of_eq_None_iff)
  then show ?case
    using Cons.IH [OF ok] Cons.prems
    by (auto simp: f remember_edge_def map_of_bt_insert map_of_bt_remove split: option.splits)
qed simp

lemma new_edge_keys: "fst ` set (new_edge ops s time edges i) \<subseteq> {fst i}"
  by (auto simp: new_edge_def split: option.splits if_splits)

lemma new_edge_short: "distinct (map fst (new_edge ops s time edges i))"
  by (auto simp: new_edge_def split: option.splits)

lemma new_edges_keys: "fst ` set (concat (map (new_edge ops s time edges) is)) \<subseteq> fst ` set is"
proof (induction "is")
  case (Cons i "is")
  then show ?case using new_edge_keys [of ops s time edges i] by auto
qed simp

lemma single_disjoint: "A \<subseteq> {x} \<Longrightarrow> x \<notin> B \<Longrightarrow> A \<inter> B = {}"
  by auto

lemma new_edges_distinct:
  "distinct (map fst is) \<Longrightarrow> distinct (map fst (concat (map (new_edge ops s time edges) is)))"
proof (induction "is")
  case (Cons i "is")
  let ?r = "concat (map (new_edge ops s time edges) is)"
  have "fst i \<notin> fst ` set is" using Cons.prems by simp
  then have "fst i \<notin> fst ` set ?r" by (rule contra_subsetD [OF new_edges_keys])
  then have disj: "set (map fst (new_edge ops s time edges i)) \<inter> set (map fst ?r) = {}"
    unfolding set_map by (rule single_disjoint [OF new_edge_keys])
  have "distinct (map fst is)" using Cons.prems by simp
  then have "distinct (map fst ?r)" by (rule Cons.IH)
  with disj new_edge_short [of ops s time edges i] show ?case
    unfolding list.map concat.simps map_append distinct_append by (intro conjI)
qed simp

lemma new_edges_lookup:
  assumes "distinct (map fst is)" "i \<in> set is"
  shows "map_of (concat (map (new_edge ops s time edges) is)) (fst i) = map_of (new_edge ops s time edges i) (fst i)"
  using assms
proof (induction "is")
  case (Cons j "is")
  show ?case
  proof (cases "i = j")
    case True
    have "fst i \<notin> fst ` set is" using Cons.prems(1) True by simp
    then have "fst i \<notin> fst ` set (concat (map (new_edge ops s time edges) is))" by (rule contra_subsetD [OF new_edges_keys])
    then have none: "map_of (concat (map (new_edge ops s time edges) is)) (fst i) = None" by (rule map_of_eq_None_iff [THEN iffD2])
    show ?thesis unfolding list.map concat.simps map_of_append map_add_def True [symmetric] none by (simp split: option.split)
  next
    case False
    then have "i \<in> set is" using Cons.prems by simp
    then have "fst i \<in> fst ` set is" by (rule imageI)
    moreover have "fst j \<notin> fst ` set is" using Cons.prems(1) by simp
    ultimately have "fst i \<noteq> fst j" by metis
    then have "fst i \<notin> fst ` set (new_edge ops s time edges j)" using new_edge_keys [of ops s time edges j] by blast
    then have none: "map_of (new_edge ops s time edges j) (fst i) = None" by (rule map_of_eq_None_iff [THEN iffD2])
    have "distinct (map fst is)" using Cons.prems(1) by simp
    then have "map_of (concat (map (new_edge ops s time edges) is)) (fst i) = map_of (new_edge ops s time edges i) (fst i)"
      using \<open>i \<in> set is\<close> by (rule Cons.IH)
    then show ?thesis unfolding list.map concat.simps map_of_append map_add_def none by (simp split: option.split)
  qed
qed simp

lemma scan_makes_known:
  assumes "\<forall>i \<in> set (ep_interests ep). edge_triggered i" "bt_ok (ep_interests ep)" "bt_ok (ep_edge_fired ep)"
    and i: "i \<in> set (ep_interests ep)"
  shows "edge_known ops s time (ep_edge_fired (epoll_remember (es_fired (epoll_scan_all ops s time k ep)) ep)) i"
proof -
  let ?edges = "ep_edge_fired ep" and ?is = "ep_interests ep"
  let ?fs = "concat (map (new_edge ops s time ?edges) ?is)"
  have fired: "es_fired (epoll_scan_all ops s time k ep) = ?fs"
    by (simp add: epoll_scan_all_def epoll_scan_fired [OF assms(1)])
  have "map_of (fold remember_edge ?fs ?edges) (fst i) =
      (case map_of (new_edge ops s time ?edges i) (fst i) of None \<Rightarrow> map_of ?edges (fst i) | Some p \<Rightarrow> if fst p = 0 then None else Some p)"
    using remember_lookup [OF assms(3) new_edges_distinct [OF bt_ok_distinct [OF assms(2)]], of ops s time ?edges "fst i"]
      new_edges_lookup [OF bt_ok_distinct [OF assms(2)] i, of ops s time ?edges] by simp
  then show ?thesis
    by (auto simp: epoll_remember_def fired edge_known_state new_edge_def split: option.splits)
qed

text \<open>A first scan, with nothing remembered.\<close>

definition ready_interest :: "('m, 'map, 'h) ops \<Rightarrow> ('x, 'm, 'map, 'h) mach \<Rightarrow> u64 \<Rightarrow> u64 \<times> u32 \<times> u64 \<Rightarrow> (u32 \<times> u64) list" where
  "ready_interest ops s time i =
     (case interest_state ops s time i of None \<Rightarrow> [] | Some p \<Rightarrow> if fst p \<noteq> 0 then [(fst p, snd (snd i))] else [])"

lemma epoll_one_fresh:
  assumes "edge_triggered i"
  shows "es_ready (epoll_one ops s time k [] i acc) =
    es_ready acc @ (if length (es_ready acc) < k then ready_interest ops s time i else [])"
proof -
  obtain fd events data where i: "i = (fd, events, data)" by (cases i)
  show ?thesis
  proof (cases "fd_description fd s")
    case (Inr x)
    obtain j d where x: "x = (j, d)" by (cases x)
    have et: "events AND EPOLLET \<noteq> 0" using assms by (simp add: edge_triggered_def i)
    show ?thesis
      unfolding epoll_one_def i prod.case Inr x sum.case Let_def ready_interest_def interest_state_def fst_conv snd_conv option.case
      using et by (simp add: epoll_edge_def Let_def)
  qed (simp add: epoll_one_def ready_interest_def interest_state_def i)
qed

lemma ready_interest_short: "length (ready_interest ops s time i) \<le> 1"
  by (auto simp: ready_interest_def split: option.splits)

lemma epoll_scan_fresh:
  assumes "\<forall>i \<in> set is. edge_triggered i" "length (es_ready acc) \<le> k"
  shows "es_ready (fold (epoll_one ops s time k []) is acc) =
    take k (es_ready acc @ concat (map (ready_interest ops s time) is))"
  using assms
proof (induction "is" arbitrary: acc)
  case (Cons i "is")
  let ?acc = "epoll_one ops s time k [] i acc" and ?r = "ready_interest ops s time i"
  have one: "es_ready ?acc = es_ready acc @ (if length (es_ready acc) < k then ?r else [])"
    by (rule epoll_one_fresh) (use Cons.prems(1) in simp)
  have le: "length (es_ready ?acc) \<le> k" using one Cons.prems(2) ready_interest_short [of ops s time i] by auto
  have step: "es_ready (fold (epoll_one ops s time k []) is ?acc) = take k (es_ready ?acc @ concat (map (ready_interest ops s time) is))"
    using Cons.IH [OF _ le] Cons.prems(1) by simp
  show ?case
  proof (cases "length (es_ready acc) < k")
    case False
    then have "length (es_ready acc) = k" using Cons.prems(2) by simp
    then show ?thesis using step one by simp
  qed (use step one in simp)
qed simp

section \<open>What a guest can rely on\<close>


definition demo_pipe :: "(unit, flat, flat, unit) mach" where
  "demo_pipe = flat_mach\<lparr>m_mem := (\<lambda>a. ucast a), e_heap := kheap_empty\<lparr>kh_pipes := [7 \<mapsto>
     \<lparr>pi_data = [], pi_readers = 1, pi_writers = 1, pi_activity = 0\<rparr>]\<rparr>\<rparr>"

lemma flat_memory_law: "memory_law flat_ops"
proof -
  have "map (\<lambda>i. if unat ((a + of_nat i) - a) < length bs then bs ! unat ((a + of_nat i) - a) else m (a + of_nat i)) [0..<length bs] = bs"
    if "length bs < 2 ^ 64" for a :: u64 and bs :: bytes and m
    using that by (intro nth_equalityI) (simp_all add: unsigned_of_nat take_bit_eq_mod)
  then show ?thesis by (auto simp: memory_law_def flat_ops_def)
qed

lemma flat_read: "pg_is_empty (e_pager s) \<Longrightarrow> read_mem flat_ops a n s = (Inr (fill_buffer n (map (\<lambda>i. m_mem s (a + of_nat i)) [0..<n])), s)"
  by (simp add: read_mem_eager read_mem_raw_def flat_ops_def)


text \<open>
  C38: a write to a file changes exactly the bytes it covers. After a successful write the file is the
  old contents with the bytes laid over them at the offset of the description, or at the end when it
  appends; a gap reads as zeros, every other byte is as it was, and a read at that place returns the
  bytes written.
\<close>

theorem file_write_exact:
  assumes "write_file_at ops node d bs s = (Inr n, d', s')" "materialize_file node (e_vfs s) = (Inr old, v)"
  defines "start \<equiv> if d_flags d AND O_APPEND \<noteq> 0 then unat (of_nat (length (vdata old)) :: u64) else unat (d_offset d)"
  shows "\<exists>new. nkind (vnodes (e_vfs s') ! node) = File new \<and> n = of_nat (length bs) \<and>
    length (vdata new) = max (length (vdata old)) (start + length bs) \<and>
    (\<forall>i < length (vdata new). vdata new ! i = overlay start bs (vdata old) i) \<and>
    read_file_at node (d\<lparr>d_offset := of_nat start\<rparr>) (length bs) s' = (Inr bs, s')"
proof -
  note w = write_file_overlay [OF assms(1,2), folded start_def]
  then obtain new where new: "write_into (op_grants ops) start bs old = Some new" "node < length (vnodes (e_vfs s'))"
    "nkind (vnodes (e_vfs s') ! node) = File new" by blast
  show ?thesis
    using w new write_into_overlay [OF new(1)] file_reads_back [OF new(2,3) _ new(1), of "d\<lparr>d_offset := of_nat start\<rparr>"]
    by (intro exI [of _ new]) simp
qed

definition demo_file :: "(unit, flat, flat, unit) mach" where
  "demo_file = flat_mach\<lparr>e_vfs := vfs_root_only\<lparr>vnodes := vnodes vfs_root_only @
     [\<lparr>nkind = File (vec_of [1, 2, 3]), nmode = 0x1a4, nnlink = 1, nmtime = 0, nparent = 0\<rparr>]\<rparr>\<rparr>"

lemma flat_no_secrets: "e_secret_nodes flat_mach = []"
  by (simp add: flat_mach_def case_prod_beta)

theorem file_write_exact_witness:
  "\<exists>d' s' new. write_file_at flat_ops 1 \<lparr>d_backing = BFile 1, d_offset = 2, d_flags = 1\<rparr> [9, 9] demo_file = (Inr 2, d', s') \<and>
     nkind (vnodes (e_vfs s') ! 1) = File new \<and> length (vdata new) = 4"
proof -
  let ?d = "\<lparr>d_backing = BFile 1, d_offset = 2, d_flags = 1\<rparr>"
  have m: "materialize_file 1 (e_vfs demo_file) = (Inr (vec_of [1, 2, 3]), e_vfs demo_file)"
    by (simp add: demo_file_def materialize_file_def node_at_def vfs_root_only_def)
  have free: "vfs_reserve (e_vfs demo_file) 1 = Inr ()"
    by (simp add: demo_file_def vfs_reserve_def vfs_root_only_def)
  obtain new where into: "write_into (\<lambda>_. True) 2 [9, 9] (vec_of [1, 2, 3]) = Some new"
    by (auto simp: write_into_def Let_def vec_try_reserve_def vec_of_def)
  have "\<exists>v. write_node (\<lambda>_. True) 1 2 [9, 9] (e_vfs demo_file) = (Inr (), v)"
    using free into by (simp add: write_node_def m vec_of_def del: One_nat_def)
  then obtain v where v: "write_node (\<lambda>_. True) 1 2 [9, 9] (e_vfs demo_file) = (Inr (), v)" by blast
  have sec: "\<not> is_host_secret_node demo_file 1" by (simp add: is_host_secret_node_def demo_file_def flat_no_secrets)
  have gr: "op_grants flat_ops = (\<lambda>_. True)" by (simp add: flat_ops_def)
  obtain d' s' where w: "write_file_at flat_ops 1 ?d [9, 9] demo_file = (Inr 2, d', s')"
    using sec v by (simp add: write_file_at_def on_vfs_def file_length_def m gr guest_size_def usize_max_def O_APPEND_def del: One_nat_def)
  from file_write_exact [OF w m] obtain new where "nkind (vnodes (e_vfs s') ! 1) = File new" "length (vdata new) = 4"
    by (auto simp: O_APPEND_def vec_of_def)
  with w show ?thesis by blast
qed

text \<open>
  C39: a directory is listed entry by entry. Where the buffer of \<^verbatim>\<open>getdents64\<close> is filled from a position,
  walking it the way a C library does gives exactly the entries from that position to the one the
  description is left at, with their inodes and types, and at least one when there are any left; so
  successive calls list every entry once.
\<close>

theorem listing_exact:
  assumes "vfs_list v dir = Inr es" "list_from dir cookie room v = Inr (bs, stop)" "\<forall>e \<in> set es. name_ok (fst e)"
  shows "cookie \<le> stop \<and> read_dirents bs = map (dirent_of v) (take (stop - cookie) (drop cookie es)) \<and>
    (cookie < length es \<longrightarrow> cookie < stop \<and> stop \<le> length es) \<and> (length es \<le> cookie \<longrightarrow> bs = [] \<or> read_dirents bs = [])"
proof -
  have "dirents v room (drop cookie es) cookie [] = Inr (bs, stop)" using assms(1,2) by (simp add: list_from_def)
  moreover have "\<forall>e \<in> set (drop cookie es). name_ok (fst e)" using assms(3) by (meson in_set_dropD)
  ultimately obtain k where "k \<le> length (drop cookie es)" "stop = cookie + k"
    "read_dirents bs = map (dirent_of v) (take k (drop cookie es))" "drop cookie es \<noteq> [] \<longrightarrow> 0 < k"
    using dirents_exact [of v room "drop cookie es" cookie "[]" bs stop] by auto
  then show ?thesis by auto
qed

lemma demo_listing: "case list_from 0 0 100 vfs_root_only of Inl _ \<Rightarrow> False | Inr p \<Rightarrow> snd p = 2"
  by code_simp

theorem listing_exact_witness:
  "\<exists>bs. list_from 0 0 100 vfs_root_only = Inr (bs, 2) \<and> read_dirents bs = [(str ''.'', 1, DT_DIR), (str ''..'', 1, DT_DIR)]"
proof -
  obtain bs where bs: "list_from 0 0 100 vfs_root_only = Inr (bs, 2)" using demo_listing by (auto split: sum.splits)
  have es: "vfs_list vfs_root_only 0 = Inr [(str ''.'', 0), (str ''..'', 0)]"
    by (simp add: vfs_list_def vfs_root_only_def node_at_def ROOT_def)
  have "\<forall>e \<in> set [(str ''.'', 0 :: nat), (str ''..'', 0)]. name_ok (fst e)" by (simp add: name_ok_def str_def)
  from listing_exact [OF es bs this] show ?thesis
    using bs by (simp add: dirent_of_def vfs_root_only_def d_type_def)
qed



text \<open>
  C40: an edge is reported at most once, and one that does not fit is lost. With only edge-triggered
  interests and nothing remembered, a scan reports the first of the ready interests, as many as the
  caller has room for; the scan remembers all of them, so that a second scan with nothing changed
  reports none, whether the first had room for them or not.
\<close>

theorem edges_reported_once:
  assumes "\<forall>i \<in> set (ep_interests ep). edge_triggered i" "bt_ok (ep_interests ep)" "ep_edge_fired ep = []"
  shows "es_ready (epoll_scan_all ops s time k ep) = take k (concat (map (ready_interest ops s time) (ep_interests ep))) \<and>
    es_ready (epoll_scan_all ops s time k' (epoll_remember (es_fired (epoll_scan_all ops s time k ep)) ep)) = []"
proof
  let ?fired = "es_fired (epoll_scan_all ops s time k ep)"
  show "es_ready (epoll_scan_all ops s time k ep) = take k (concat (map (ready_interest ops s time) (ep_interests ep)))"
    unfolding epoll_scan_all_def assms(3) by (simp add: epoll_scan_fresh [OF assms(1)])
  have "bt_ok (ep_edge_fired ep)" by (simp add: assms(3) bt_ok_def)
  then have "\<forall>i \<in> set (ep_interests ep). edge_triggered i \<and> edge_known ops s time (ep_edge_fired (epoll_remember ?fired ep)) i"
    using scan_makes_known [OF assms(1,2)] assms(1) by blast
  moreover have "ep_interests (epoll_remember ?fired ep) = ep_interests ep" by (simp add: epoll_remember_def)
  ultimately show "es_ready (epoll_scan_all ops s time k' (epoll_remember ?fired ep)) = []"
    using epoll_all_silent [of "ep_interests ep" ops s time "ep_edge_fired (epoll_remember ?fired ep)" k']
    by (simp only: epoll_scan_all_def) simp
qed

theorem edges_reported_once_witness:
  "es_ready (epoll_scan_all flat_ops flat_mach 0 1 (epoll_remember
     (es_fired (epoll_scan_all flat_ops flat_mach 0 1 \<lparr>ep_interests = [(1, 0x80000004, 5), (2, 0x80000004, 6)], ep_edge_fired = []\<rparr>))
     \<lparr>ep_interests = [(1, 0x80000004, 5), (2, 0x80000004, 6)], ep_edge_fired = []\<rparr>)) = []"
  by (rule conjunct2 [OF edges_reported_once]) (simp_all add: edge_triggered_def EPOLLET_def bt_ok_def)

end
