(* ===== verification/Spec2Isabelle.thy ===== *)
theory Spec2Isabelle
  imports WT_Prelude Abi Digest VfsPaths VfsBudget VfsClimb LiftCache Manifest ChunkManifest Trace PagerProps FdEnds
    ProcProps Inotify Wakeups IoProps
begin

text \<open>
  A model of webTOS, a Linux user-space machine that runs x86-64 programs inside a web page, and the
  properties that make its kernel correct. File names below are relative to
  \<^verbatim>\<open>src/crates/linux-compat/src/\<close>.

  \<^bold>\<open>The program.\<close> A guest program runs on an emulated processor. When it executes a system call the
  engine calls \<^verbatim>\<open>syscall::handle\<close>, which carries it out on \<^verbatim>\<open>LinuxEnv\<close>: an in-memory filesystem, a
  table of open descriptors per process, a cooperative scheduler of parked tasks, signal state, and a
  pager that maps files whose bytes have not been delivered yet. Guest time is a function of the
  instruction count, so a run is deterministic. Files come from the network as content-addressed chunks
  that a manifest names; a machine can be stored as an image and resumed.

  \<^bold>\<open>Foundations.\<close> \<^verbatim>\<open>WT_Prelude\<close>: machine words and their little-endian bytes, the two ordered containers
  (\<^verbatim>\<open>BTreeMap\<close> as a sorted association list, \<^verbatim>\<open>HashMap\<close> as a partial function) under the interface
  \<^verbatim>\<open>keyed_store\<close>, decoders under \<^verbatim>\<open>wire_codec\<close>, and a run that may panic. \<^verbatim>\<open>Abi\<close>, \<^verbatim>\<open>AbiCalls\<close>
  (\<^verbatim>\<open>abi.rs\<close>): the constants and the encoded structures. \<^verbatim>\<open>Text\<close>: the string functions of the
  standard library that the two manifests use.

  \<^bold>\<open>Delivery.\<close> \<^verbatim>\<open>Digest\<close> (\<^verbatim>\<open>digest.rs\<close>): SHA-256 as written, against a direct definition of the standard, and
  that feeding it in pieces makes no difference. \<^verbatim>\<open>Chunk\<close> (\<^verbatim>\<open>chunk.rs\<close>): the layout of a chunked file, the
  store, and ranged reads; the interface \<^verbatim>\<open>verified_store\<close> says that whatever the store holds has the digest it
  is filed under. \<^verbatim>\<open>Manifest\<close> (\<^verbatim>\<open>manifest.rs\<close>), \<^verbatim>\<open>ChunkManifest\<close> (\<^verbatim>\<open>chunk_manifest.rs\<close>), \<^verbatim>\<open>LiftCache\<close> (the header of
  \<^verbatim>\<open>liftcache.rs\<close>): parsers with their round trips and canonical spelling.

  \<^bold>\<open>Filesystem.\<close> \<^verbatim>\<open>Vfs\<close> (\<^verbatim>\<open>vfs.rs\<close>): the arena of nodes, path resolution, the operations, the storage budget and
  the release of unlinked files. \<^verbatim>\<open>VfsInv\<close>, \<^verbatim>\<open>VfsProps\<close>: the invariant of the arena, kept by every operation,
  so none panics, and what create, unlink, rename and release do. \<^verbatim>\<open>VfsPaths\<close>: resolution ends, and
  delivered files read back. \<^verbatim>\<open>VfsBudget\<close>: the ceiling, and two renames that break the tree. \<^verbatim>\<open>VfsSnapshot\<close>,
  \<^verbatim>\<open>VfsClimb\<close>: the image format, its round trip, safety on arbitrary bytes, and the climb of
  \<^verbatim>\<open>abs_path_of\<close>, a loop that may not end: it returns on every tree whose parents are well founded,
  and on an accepted image with a parent cycle it does not.

  \<^bold>\<open>Pager.\<close> \<^verbatim>\<open>Pager\<close>, \<^verbatim>\<open>PagerProps\<close> (\<^verbatim>\<open>pager.rs\<close>): lazy mappings per address space, fault resolution, completion
  of a delivery, unmap, protect, remap, fork. The tables refine a map from pages to what backs them;
  a resolved page has exactly the bytes of the file with zeros after it; a completion for an
  earlier state of the mappings changes nothing.

  \<^bold>\<open>Descriptors.\<close> \<^verbatim>\<open>Fd\<close>, \<^verbatim>\<open>FdCalls\<close> (\<^verbatim>\<open>fd.rs\<close> and the calls of \<^verbatim>\<open>syscall.rs\<close> on descriptors): reference-counted
  cells are an explicit heap \<^verbatim>\<open>kheap\<close> with the counts written out. \<^verbatim>\<open>FdProps\<close>: a table refines a partial map.
  \<^verbatim>\<open>FdEnds\<close>: through every call the reader and writer counts of a pipe equal the open descriptions that
  hold its ends, which is what makes end of file and broken pipe right.

  \<^bold>\<open>Processes.\<close> \<^verbatim>\<open>Proc\<close>, \<^verbatim>\<open>ProcProps\<close> (\<^verbatim>\<open>proc.rs\<close>): processes, park states, readiness and the scheduler's tables;
  idle time always wakes someone, futex wakes are exact, children are reaped once and in order.
  \<^verbatim>\<open>Machine\<close> (\<^verbatim>\<open>lib.rs\<close> and the first part of \<^verbatim>\<open>syscall.rs\<close>): the machine record, and copies between host and guest
  with their page-in. The processor is a register record with an unread rest; guest memory and the host are
  type parameters reached through the record \<^verbatim>\<open>ops\<close> (read, write, permissions, take, restore and
  copy an address space, socket readiness). \<^verbatim>\<open>Signals\<close>, \<^verbatim>\<open>SignalProps\<close>: pending sets, dispositions, frames,
  handlers and their return. \<^verbatim>\<open>Sched\<close>: parking, stalls, switches. \<^verbatim>\<open>ProcCalls\<close>: clone, exit, wait4, futex, sleep,
  process groups, kill. \<^verbatim>\<open>Inotify\<close>: watches, queues and records. \<^verbatim>\<open>Demo\<close>: a concrete memory and machine. \<^verbatim>\<open>Wakeups\<close>: three ways a wait goes wrong, on that machine. \<^verbatim>\<open>Trace\<close> (\<^verbatim>\<open>trace.rs\<close>): the
  recorded trace is a prefix of the run.

  \<^bold>\<open>Calls.\<close> The handlers of \<^verbatim>\<open>syscall.rs\<close>, one definition each, over the machine. \<^verbatim>\<open>Files\<close>: opening (terminals,
  the synthesised files of \<^verbatim>\<open>/proc\<close>), seeking, listing, the stat family, directories, modes, times.
  \<^verbatim>\<open>ReadWrite\<close>: read, write, their positioned and vectored forms and ftruncate, on files (with the suspension for a
  chunk), pipes, counters, timers, sockets and terminals. \<^verbatim>\<open>Events\<close>: timers, readiness, poll, select, epoll, sendfile.
  \<^verbatim>\<open>Memory\<close>: mmap, munmap, mprotect, mremap, msync, brk, on the pager and the list of shared mappings. \<^verbatim>\<open>Sockets\<close>: the
  socket calls against a broker that is a parameter. \<^verbatim>\<open>Misc\<close>: ioctl, clocks, limits, close.
  \<^verbatim>\<open>Dispatch\<close>: the two tables of calls and kernel entry. A handler is a function of the
  machine composed with \<^verbatim>\<open>and_then\<close> (the question mark of the source); one that can block returns an
  \<^verbatim>\<open>outcome\<close>. \<^verbatim>\<open>Frame\<close>: no call outside process control touches the thread groups. \<^verbatim>\<open>SchedProps\<close>, \<^verbatim>\<open>CallProps\<close>:
  every call in the tables keeps the address space of each thread group that still has a task; reachability is the
  inductive relation \<^verbatim>\<open>mach_reach\<close>. \<^verbatim>\<open>IoProps\<close>: pipes are first-in first-out through guest memory, a file write
  changes exactly the bytes it covers, a directory is listed entry by entry, a timer owes each
  expiration once, and an edge is reported at most once.

  \<^bold>\<open>Conventions.\<close> Integers keep their width; additions of the source that are not checked wrap, as in a
  release build. A panic of the source is a value: \<^verbatim>\<open>Panic\<close>, \<^verbatim>\<open>Panicked\<close>, or the sticky mark
  \<^verbatim>\<open>e_panicked\<close> of the machine. A call returns an errno or a value. Interrupted host copies return the
  errno \<^verbatim>\<open>PAGE_IN_RESTART\<close> as the source does. Logging, and tracing enabled by environment variables,
  are left out. Loops recurse structurally or with a termination proof; the one loop that
  may run forever, in \<^verbatim>\<open>abs_path_of\<close>, is a partial function with the value None there. Nothing is bounded by fuel.

  \<^bold>\<open>Not modelled.\<close> The processor engine and the code generator (\<^verbatim>\<open>crates/x64-engine\<close>, \<^verbatim>\<open>crates/jit-wasmi\<close>) and the
  third-party emulator they drive: the development takes them as a parameter. The browser bindings and
  the worker script, the benchmark harness, and the native network broker are I/O. The
  recording of network traffic (\<^verbatim>\<open>netrecord.rs\<close>) wraps such a broker. In \<^verbatim>\<open>execve\<close> a file that
  is at hand goes to the ELF reader of the emulator and a chunked one to the loader of \<^verbatim>\<open>lazy_elf.rs\<close>:
  \<^verbatim>\<open>dispatch\<close> has no value at \<^verbatim>\<open>SYS_EXECVE\<close>, and none for a \<^verbatim>\<open>getcwd\<close> whose climb does not end, so the properties of
  reachable machines are about runs without those. Snapshots of a whole machine and its construction in \<^verbatim>\<open>lib.rs\<close> are not modelled.
\<close>

end
